(* ===== verification/Prelude.thy ===== *)
theory Prelude
  imports Main "HOL-Library.Word"
begin

text \<open>
  Shared vocabulary of the development: the machine integers and byte buffers of the C
  sources, the outcomes of a C function that may abort or leave defined behaviour, the
  \<open>memcpy\<close> idioms, and the lemmas about them that every component uses.

  \<^item> \<open>uint8_t\<close> .. \<open>uint64_t\<close> are words of their width; \<open>int\<close> is HOL's
    \<open>int\<close> where the code keeps it small, and a word where wrap-around matters.
  \<^item> A buffer is a list of bytes. A C function that fills \<open>void *out\<close> takes the old
    contents of the buffer and returns the new ones.
  \<^item> The machine is the 32 bit little-endian target of the build (\<open>-m32\<close>), so a
    \<open>uint32_t\<close> access to a buffer is \<open>ld32\<close> / \<open>st32\<close>.
\<close>

unbundle bit_operations_syntax

type_synonym u8 = "8 word"
type_synonym u16 = "16 word"
type_synonym u32 = "32 word"
type_synonym u64 = "64 word"
type_synonym bytes = "u8 list"

named_theorems res_simps \<open>evaluation of fallible computations\<close>
named_theorems buf_simps \<open>reading and writing byte buffers\<close>

section \<open>Outcomes of a C function\<close>

text \<open>
  \<open>ExitFailure\<close> is \<open>exit(EXIT_FAILURE)\<close> after a fatal log (\<open>fatal\<close>, \<open>logassert\<close>
  and the explicit calls), \<open>AssertFailed\<close> an aborting \<open>assert\<close>, \<open>OutOfBounds\<close> an
  access outside the object, \<open>NullCall\<close> a use of a null pointer, \<open>BadUsage\<close> another
  undefined behaviour of C, and \<open>NoReturn\<close> a loop that does not end within the fuel
  given to it.
\<close>

datatype fault = ExitFailure | AssertFailed | OutOfBounds | NullCall | BadUsage | NoReturn

type_synonym 'a res = "fault + 'a"

definition rbind :: "'a res \<Rightarrow> ('a \<Rightarrow> 'b res) \<Rightarrow> 'b res" where
  "rbind m f = (case m of Inl e \<Rightarrow> Inl e | Inr x \<Rightarrow> f x)"

definition returns :: "'a res \<Rightarrow> bool" where
  "returns m \<longleftrightarrow> (case m of Inl _ \<Rightarrow> False | Inr _ \<Rightarrow> True)"

lemma rbind_simps [simp, res_simps]:
  "rbind (Inl e) f = Inl e"
  "rbind (Inr x) f = f x"
  by (simp_all add: rbind_def)

lemma rbind_Inr_iff: "rbind m f = Inr y \<longleftrightarrow> (\<exists>x. m = Inr x \<and> f x = Inr y)"
  by (cases m) (auto simp: rbind_def)

lemma rbind_Inr_E:
  assumes "rbind m f = Inr y"
  obtains x where "m = Inr x" and "f x = Inr y"
  using assms by (auto simp: rbind_Inr_iff)

lemma rbind_assoc: "rbind (rbind m f) g = rbind m (\<lambda>x. rbind (f x) g)"
  by (cases m) simp_all

lemma rbind_cong [fundef_cong]:
  "m = m' \<Longrightarrow> (\<And>x. m' = Inr x \<Longrightarrow> f x = f' x) \<Longrightarrow> rbind m f = rbind m' f'"
  by (cases m') auto

lemma returns_simps [simp, res_simps]:
  "\<not> returns (Inl e)"
  "returns (Inr x)"
  by (simp_all add: returns_def)

lemma returns_iff: "returns m \<longleftrightarrow> (\<exists>x. m = Inr x)"
  by (cases m) auto

text \<open>A result whose value satisfies \<open>P\<close>, or whose fault satisfies \<open>E\<close>.\<close>

definition res_holds :: "(fault \<Rightarrow> bool) \<Rightarrow> ('a \<Rightarrow> bool) \<Rightarrow> 'a res \<Rightarrow> bool" where
  "res_holds E P r = (case r of Inl e \<Rightarrow> E e | Inr x \<Rightarrow> P x)"

lemma res_holds_simps [simp]:
  "res_holds E P (Inl e) = E e"
  "res_holds E P (Inr x) = P x"
  by (simp_all add: res_holds_def)

lemma res_holds_rbind [simp]: "res_holds E P (rbind m f) = res_holds E (\<lambda>x. res_holds E P (f x)) m"
  by (cases m) simp_all

lemma res_holds_mono:
  "res_holds E P m \<Longrightarrow> (\<And>e. E e \<Longrightarrow> E' e) \<Longrightarrow> (\<And>x. P x \<Longrightarrow> Q x) \<Longrightarrow> res_holds E' Q m"
  by (cases m) auto

section \<open>Little-endian words\<close>

definition le_bytes :: "nat \<Rightarrow> 'a::len word \<Rightarrow> bytes" where
  "le_bytes n v = map (\<lambda>i. ucast (drop_bit (8 * i) v)) [0..<n]"

fun le_word :: "bytes \<Rightarrow> 'a::len word" where
  "le_word [] = 0"
| "le_word (b # bs) = ucast b OR push_bit 8 (le_word bs)"

lemma bit_le_word:
  "bit (le_word bs :: 'a::len word) n \<longleftrightarrow>
     n < LENGTH('a) \<and> n div 8 < length bs \<and> bit (bs ! (n div 8)) (n mod 8)"
proof (induction bs arbitrary: n)
  case Nil
  show ?case by simp
next
  case (Cons b bs)
  show ?case
  proof (cases "n < 8")
    case True
    then show ?thesis by (auto simp: bit_simps)
  next
    case False
    then obtain m where m: "n = 8 + m" using le_Suc_ex by (metis not_less)
    have d: "(8 + m) div 8 = Suc (m div 8)" by simp
    show ?thesis
      using Cons.IH[of m] bit_imp_le_length[of b n] by (auto simp: bit_simps m d)
  qed
qed

lemma length_le_bytes [simp, buf_simps]: "length (le_bytes n v) = n"
  by (simp add: le_bytes_def)

lemma le_word_le_bytes:
  "8 * n = LENGTH('a) \<Longrightarrow> le_word (le_bytes n (v :: 'a::len word)) = v"
  by (rule bit_word_eqI) (auto simp: bit_le_word le_bytes_def bit_simps)

lemma le_bytes_le_word:
  "8 * length bs \<le> LENGTH('a) \<Longrightarrow> le_bytes (length bs) (le_word bs :: 'a::len word) = bs"
  by (rule nth_equalityI) (auto intro!: bit_word_eqI simp: bit_le_word le_bytes_def bit_simps)

section \<open>Copying between buffers\<close>

text \<open>\<open>slice off n bs\<close> reads \<open>n\<close> bytes at \<open>off\<close>; \<open>blit off src bs\<close> overwrites
  \<open>bs\<close> with \<open>src\<close> from \<open>off\<close> on.\<close>

definition slice :: "nat \<Rightarrow> nat \<Rightarrow> 'a list \<Rightarrow> 'a list" where
  "slice off n bs = take n (drop off bs)"

definition blit :: "nat \<Rightarrow> 'a list \<Rightarrow> 'a list \<Rightarrow> 'a list" where
  "blit off src bs = take off bs @ src @ drop (off + length src) bs"

lemma length_slice [simp, buf_simps]: "off + n \<le> length bs \<Longrightarrow> length (slice off n bs) = n"
  by (simp add: slice_def)

lemma length_blit [simp, buf_simps]:
  "off + length src \<le> length bs \<Longrightarrow> length (blit off src bs) = length bs"
  by (simp add: blit_def)

lemma blit_Nil [simp, buf_simps]: "blit off [] bs = bs"
  by (simp add: blit_def)

lemma slice_blit_same [simp, buf_simps]:
  "off + length src \<le> length bs \<Longrightarrow> n = length src \<Longrightarrow> slice off n (blit off src bs) = src"
  by (simp add: slice_def blit_def)

lemma nth_blit:
  assumes "off + length src \<le> length bs" and "i < length bs"
  shows "blit off src bs ! i =
    (if off \<le> i \<and> i < off + length src then src ! (i - off) else bs ! i)"
  using assms by (auto simp: blit_def nth_append min_def)

lemma nth_slice [simp, buf_simps]: "off + n \<le> length bs \<Longrightarrow> i < n \<Longrightarrow> slice off n bs ! i = bs ! (off + i)"
  by (simp add: slice_def)

lemma slice_blit_other:
  assumes "off + length src \<le> length bs" and "off' + n \<le> length bs"
    and "off' + n \<le> off \<or> off + length src \<le> off'"
  shows "slice off' n (blit off src bs) = slice off' n bs"
  by (rule nth_equalityI) (use assms in \<open>auto simp: nth_blit\<close>)

lemma blit_slice_id: "off + n \<le> length bs \<Longrightarrow> blit off (slice off n bs) bs = bs"
  by (rule nth_equalityI) (auto simp: nth_blit)

lemma blit_append:
  "off + length xs + length ys \<le> length bs \<Longrightarrow>
   blit (off + length xs) ys (blit off xs bs) = blit off (xs @ ys) bs"
  by (rule nth_equalityI) (auto simp: nth_blit nth_append)

lemma take_blit:
  assumes "take n bs = t" and "length t = n"
  shows "take (n + length src) (blit n src bs) = t @ src"
  unfolding blit_def assms(1) using assms(2) by simp

lemma slice_0 [simp, buf_simps]: "slice off 0 bs = []"
  by (simp add: slice_def)

lemma slice_append_slice: "slice off m bs @ slice (off + m) n bs = slice off (m + n) bs"
  by (simp add: slice_def take_add add.commute)

text \<open>\<open>memcpy(dst + off, src, n)\<close>: both objects must hold the bytes.\<close>

definition memcpy :: "nat \<Rightarrow> nat \<Rightarrow> 'a list \<Rightarrow> 'a list \<Rightarrow> 'a list res" where
  "memcpy off n src dst =
     (if n \<le> length src \<and> off + n \<le> length dst then Inr (blit off (take n src) dst)
      else Inl OutOfBounds)"

lemma memcpy_Inr [res_simps]:
  "n \<le> length src \<Longrightarrow> off + n \<le> length dst \<Longrightarrow> memcpy off n src dst = Inr (blit off (take n src) dst)"
  by (simp add: memcpy_def)

text \<open>The same with an \<open>int\<close> count: a negative one is a huge \<open>size_t\<close>.\<close>

definition memcpy_int :: "nat \<Rightarrow> int \<Rightarrow> 'a list \<Rightarrow> 'a list \<Rightarrow> 'a list res" where
  "memcpy_int off n src dst = (if n < 0 then Inl OutOfBounds else memcpy off (nat n) src dst)"

text \<open>\<open>*(uint32_t *) buf\<close> as a value, and \<open>*(uint32_t *) buf = v\<close>.\<close>

definition ld32 :: "bytes \<Rightarrow> u32 res" where
  "ld32 bs = (if 4 \<le> length bs then Inr (le_word (take 4 bs)) else Inl OutOfBounds)"

definition st32 :: "u32 \<Rightarrow> bytes \<Rightarrow> bytes res" where
  "st32 v bs = memcpy 0 4 (le_bytes 4 v) bs"

definition ld64 :: "bytes \<Rightarrow> u64 res" where
  "ld64 bs = (if 8 \<le> length bs then Inr (le_word (take 8 bs)) else Inl OutOfBounds)"

definition st64 :: "u64 \<Rightarrow> bytes \<Rightarrow> bytes res" where
  "st64 v bs = memcpy 0 8 (le_bytes 8 v) bs"

text \<open>Copies that stay inside both objects.\<close>

lemma memcpy_holds [simp]:
  "n \<le> length src \<Longrightarrow> off + n \<le> length dst \<Longrightarrow> res_holds E P (memcpy off n src dst) = P (blit off (take n src) dst)"
  by (simp add: memcpy_Inr)

lemma memcpy_int_holds [simp]:
  "0 \<le> n \<Longrightarrow> nat n \<le> length src \<Longrightarrow> off + nat n \<le> length dst \<Longrightarrow>
     res_holds E P (memcpy_int off n src dst) = P (blit off (take (nat n) src) dst)"
  by (simp add: memcpy_int_def memcpy_Inr)

lemma ld32_holds [simp]: "4 \<le> length bs \<Longrightarrow> res_holds E P (ld32 bs) = P (le_word (take 4 bs))"
  by (simp add: ld32_def)

lemma ld32_le_bytes [simp, buf_simps]: "ld32 (le_bytes 4 v @ bs) = Inr v"
  by (simp add: ld32_def le_word_le_bytes)

lemma ld32_le_bytes' [simp, buf_simps]: "ld32 (le_bytes 4 v) = Inr v"
  using ld32_le_bytes[of v "[]"] by simp

lemma ld64_le_bytes [simp, buf_simps]: "ld64 (le_bytes 8 v @ bs) = Inr v"
  by (simp add: ld64_def le_word_le_bytes)

lemma st32_Inr [simp, buf_simps]: "4 \<le> length bs \<Longrightarrow> st32 v bs = Inr (le_bytes 4 v @ drop 4 bs)"
  by (simp add: st32_def memcpy_def blit_def)

lemma st64_Inr [simp, buf_simps]: "8 \<le> length bs \<Longrightarrow> st64 v bs = Inr (le_bytes 8 v @ drop 8 bs)"
  by (simp add: st64_def memcpy_def blit_def)

lemma ld32_st32: "st32 v bs = Inr bs' \<Longrightarrow> ld32 bs' = Inr v \<and> length bs' = length bs"
  by (auto simp: st32_def memcpy_def blit_def split: if_splits)

lemma ld64_st64: "st64 v bs = Inr bs' \<Longrightarrow> ld64 bs' = Inr v \<and> length bs' = length bs"
  by (auto simp: st64_def memcpy_def blit_def split: if_splits)

lemma length_st32: "st32 v bs = Inr bs' \<Longrightarrow> length bs' = length bs"
  using ld32_st32 by blast

text \<open>\<open>strlen\<close> / \<open>strcmp\<close> on the strings of the model: a C string is a \<open>string\<close>
  without NUL characters, so equality of the strings is \<open>strcmp(..) == 0\<close>.\<close>

definition c_bytes :: "string \<Rightarrow> bytes" where
  "c_bytes s = map of_char s"

lemma length_c_bytes [simp, buf_simps]: "length (c_bytes s) = length s"
  by (simp add: c_bytes_def)

section \<open>Bits of words\<close>

text \<open>The C test \<open>w & mask\<close> as a condition.\<close>

definition tst :: "'a::len word \<Rightarrow> 'a word \<Rightarrow> bool" where
  "tst w m \<longleftrightarrow> w AND m \<noteq> 0"

text \<open>The test \<open>~w & mask\<close>, used for "some bit of \<open>mask\<close> is clear in \<open>w\<close>".\<close>

definition ntst :: "'a::len word \<Rightarrow> 'a word \<Rightarrow> bool" where
  "ntst w m \<longleftrightarrow> NOT w AND m \<noteq> 0"

text \<open>The C constant \<open>1u << k\<close>.\<close>

definition BIT :: "nat \<Rightarrow> 'a::len word" where
  "BIT k = push_bit k 1"

lemma bit_BIT [bit_simps]: "bit (BIT k :: 'a::len word) n \<longleftrightarrow> k = n \<and> n < LENGTH('a)"
  by (auto simp: BIT_def bit_simps)

lemma and_BIT: "(w :: 'a::len word) AND BIT k = (if bit w k then BIT k else 0)"
  by (rule bit_word_eqI) (auto simp: bit_simps)

lemma BIT_eq_0 [simp]: "(BIT k :: 'a::len word) = 0 \<longleftrightarrow> LENGTH('a) \<le> k"
  by (auto simp: bit_eq_iff[of "BIT k :: 'a word"] bit_simps not_le[symmetric])

lemma tst_BIT [simp]: "tst (w :: 'a::len word) (BIT k) \<longleftrightarrow> bit w k"
  using bit_imp_le_length[of w k] by (auto simp: tst_def and_BIT)

lemma ntst_BIT [simp]: "k < LENGTH('a) \<Longrightarrow> ntst (w :: 'a::len word) (BIT k) \<longleftrightarrow> \<not> bit w k"
  using tst_BIT[of "NOT w" k] by (simp add: ntst_def tst_def bit_simps)

lemma unat_sub_less: "0 < t \<Longrightarrow> t \<le> c \<Longrightarrow> unat (c - t) < unat (c :: 'a::len word)"
  by (simp add: unat_sub word_le_nat_alt word_less_nat_alt)

lemma and_mask_idem [simp]: "(w AND m) AND m = (w AND m :: 'a::len word)"
  by (simp add: ac_simps)

lemma or_and_absorb_disjoint: "a AND m = 0 \<Longrightarrow> (a OR b) AND m = b AND (m :: 'a::len word)"
  by (simp add: bit.conj_disj_distrib2)

end
