(* ===== verification/Sha256.thy ===== *)
theory Sha256
  imports Prelude
begin

text \<open>
  \<open>periph/ocs/hash/sha256.c\<close> with the rotation macros of \<open>rotate-bits.h\<close>: the
  compression function on the eight working registers, whose roles move through the
  registers instead of the registers moving (macro \<open>RX_8\<close>), and on the 16 word circular
  message schedule (macros \<open>blk0\<close>, \<open>blk2\<close>). The second half states SHA-256 as FIPS 180-4
  does (a tuple of registers shifted every round, a 64 word schedule) and proves that the
  code computes it.
\<close>

section \<open>The code\<close>

definition ROTL32 :: "u32 \<Rightarrow> nat \<Rightarrow> u32" where
  "ROTL32 v n = push_bit n v OR drop_bit (32 - n) v"

definition ROTR32 :: "u32 \<Rightarrow> nat \<Rightarrow> u32" where
  "ROTR32 v n = ROTL32 v (32 - n)"

definition S0 :: "u32 \<Rightarrow> u32" where
  "S0 x = ROTR32 x 2 XOR ROTR32 x 13 XOR ROTR32 x 22"

definition S1 :: "u32 \<Rightarrow> u32" where
  "S1 x = ROTR32 x 6 XOR ROTR32 x 11 XOR ROTR32 x 25"

definition s0 :: "u32 \<Rightarrow> u32" where
  "s0 x = ROTR32 x 7 XOR ROTR32 x 18 XOR drop_bit 3 x"

definition s1 :: "u32 \<Rightarrow> u32" where
  "s1 x = ROTR32 x 17 XOR ROTR32 x 19 XOR drop_bit 10 x"

definition Ch :: "u32 \<Rightarrow> u32 \<Rightarrow> u32 \<Rightarrow> u32" where
  "Ch x y z = z XOR (x AND (y XOR z))"

definition Maj :: "u32 \<Rightarrow> u32 \<Rightarrow> u32 \<Rightarrow> u32" where
  "Maj x y z = (x AND y) OR (z AND (x OR y))"

definition K :: "u32 list" where
  "K = [
    0x428A2F98, 0x71374491, 0xB5C0FBCF, 0xE9B5DBA5, 0x3956C25B, 0x59F111F1, 0x923F82A4, 0xAB1C5ED5,
    0xD807AA98, 0x12835B01, 0x243185BE, 0x550C7DC3, 0x72BE5D74, 0x80DEB1FE, 0x9BDC06A7, 0xC19BF174,
    0xE49B69C1, 0xEFBE4786, 0x0FC19DC6, 0x240CA1CC, 0x2DE92C6F, 0x4A7484AA, 0x5CB0A9DC, 0x76F988DA,
    0x983E5152, 0xA831C66D, 0xB00327C8, 0xBF597FC7, 0xC6E00BF3, 0xD5A79147, 0x06CA6351, 0x14292967,
    0x27B70A85, 0x2E1B2138, 0x4D2C6DFC, 0x53380D13, 0x650A7354, 0x766A0ABB, 0x81C2C92E, 0x92722C85,
    0xA2BFE8A1, 0xA81A664B, 0xC24B8B70, 0xC76C51A3, 0xD192E819, 0xD6990624, 0xF40E3585, 0x106AA070,
    0x19A4C116, 0x1E376C08, 0x2748774C, 0x34B0BCB5, 0x391C0CB3, 0x4ED8AA4A, 0x5B9CCA4F, 0x682E6FF3,
    0x748F82EE, 0x78A5636F, 0x84C87814, 0x8CC70208, 0x90BEFFFA, 0xA4506CEB, 0xBEF9A3F7, 0xC67178F2]"

text \<open>\<open>blk0(i)\<close> and \<open>blk2(i)\<close> assign to \<open>W\<close> and have the assigned word as value.\<close>

definition blk0 :: "u32 list \<Rightarrow> nat \<Rightarrow> u32 list \<Rightarrow> u32 \<times> u32 list" where
  "blk0 data i W = (data ! i, W[i := data ! i])"

definition blk2 :: "nat \<Rightarrow> u32 list \<Rightarrow> u32 \<times> u32 list" where
  "blk2 i W =
    (let v = W ! (i mod 16) + (s1 (W ! ((i + 14) mod 16)) + W ! ((i + 9) mod 16) + s0 (W ! ((i + 1) mod 16)))
     in (v, W[i mod 16 := v]))"

text \<open>
  The round macro \<open>R\<close>; \<open>a\<close> .. \<open>h\<close> name the registers (positions of \<open>T\<close>) that play the
  roles, \<open>j\<close> is the loop variable of \<open>sha256_transform\<close>.
\<close>

definition R :: "u32 list \<Rightarrow> nat \<Rightarrow> nat \<Rightarrow> nat \<Rightarrow> nat \<Rightarrow> nat \<Rightarrow> nat \<Rightarrow> nat \<Rightarrow> nat \<Rightarrow> nat \<Rightarrow> nat \<Rightarrow>
    u32 list \<times> u32 list \<Rightarrow> u32 list \<times> u32 list" where
  "R data j a b c d e f g h i = (\<lambda>(T, W).
    let (w, W') = (if j \<noteq> 0 then blk2 i W else blk0 data i W);
        T = T[h := T ! h + (S1 (T ! e) + Ch (T ! e) (T ! f) (T ! g) + K ! (i + j) + w)];
        T = T[d := T ! d + T ! h];
        T = T[h := T ! h + (S0 (T ! a) + Maj (T ! a) (T ! b) (T ! c))]
    in (T, W'))"

definition RX_8 :: "u32 list \<Rightarrow> nat \<Rightarrow> nat \<Rightarrow> u32 list \<times> u32 list \<Rightarrow> u32 list \<times> u32 list" where
  "RX_8 data j i s =
    (let s = R data j 0 1 2 3 4 5 6 7 i s;
         s = R data j 7 0 1 2 3 4 5 6 (i + 1) s;
         s = R data j 6 7 0 1 2 3 4 5 (i + 2) s;
         s = R data j 5 6 7 0 1 2 3 4 (i + 3) s;
         s = R data j 4 5 6 7 0 1 2 3 (i + 4) s;
         s = R data j 3 4 5 6 7 0 1 2 (i + 5) s;
         s = R data j 2 3 4 5 6 7 0 1 (i + 6) s
     in R data j 1 2 3 4 5 6 7 0 (i + 7) s)"

text \<open>The array \<open>W\<close> is not initialised by the code; its first contents are a parameter.\<close>

definition sha256_transform :: "u32 list \<Rightarrow> u32 list \<Rightarrow> u32 list \<Rightarrow> u32 list" where
  "sha256_transform W0 state data =
    (let (T, W) = fold (\<lambda>j s. RX_8 data j 8 (RX_8 data j 0 s)) [0, 16, 32, 48] (take 8 state, W0)
     in map2 (+) state T)"

text \<open>
  \<open>beint_from_bytes\<close> always reads 64 bytes and writes 16 words, also where
  \<open>sha256_transform_bytes\<close> calls it on the 32 byte state with the 8 word array
  \<open>state32\<close>. Reading past the state sees the memory that follows it, the parameter
  \<open>after\<close> of the model; the eight words written past \<open>state32\<close> land in the stack frame of
  the caller. Where they land is the choice of the compiler, so the frame is a parameter
  too: which of the two arrays lies lower, how many free words lie between them and above
  both, and what the frame and the array \<open>W\<close> of the callee hold before. A write that
  leaves these words (and so meets a saved register or the return address) is a fault.
\<close>

record sha_frame =
  state32_low :: bool
  between :: nat
  above :: nat
  stale :: "nat \<Rightarrow> u32"
  schedule :: "nat \<Rightarrow> u32"

definition frame_words :: "sha_frame \<Rightarrow> nat" where
  "frame_words fr = 8 + between fr + 16 + above fr"

definition state32_at :: "sha_frame \<Rightarrow> nat" where
  "state32_at fr = (if state32_low fr then 0 else 16 + between fr)"

definition data32_at :: "sha_frame \<Rightarrow> nat" where
  "data32_at fr = (if state32_low fr then 8 + between fr else 0)"

text \<open>The frame has room for the sixteen words written at \<open>state32\<close>.\<close>

definition frame_room :: "sha_frame \<Rightarrow> bool" where
  "frame_room fr \<longleftrightarrow> state32_low fr \<or> 8 \<le> above fr"

definition beint_words :: "bytes \<Rightarrow> u32 list" where
  "beint_words buffer = map (\<lambda>i.
     push_bit 24 (ucast (buffer ! (i * 4))) +
     push_bit 16 (ucast (buffer ! (i * 4 + 1))) +
     push_bit 8 (ucast (buffer ! (i * 4 + 2))) +
     ucast (buffer ! (i * 4 + 3))) [0..<16]"

definition beint_from_bytes :: "bytes \<Rightarrow> nat \<Rightarrow> u32 list \<Rightarrow> u32 list res" where
  "beint_from_bytes buffer at frame = memcpy at 16 (beint_words buffer) frame"

definition beint_to_bytes :: "u32 list \<Rightarrow> bytes" where
  "beint_to_bytes data32 = concat (map (\<lambda>i.
     [ucast (drop_bit 24 (data32 ! i)), ucast (drop_bit 16 (data32 ! i)),
      ucast (drop_bit 8 (data32 ! i)), ucast (data32 ! i)]) [0..<8])"

definition sha256_init_state :: "u32 list" where
  "sha256_init_state =
    [0x6A09E667, 0xBB67AE85, 0x3C6EF372, 0xA54FF53A, 0x510E527F, 0x9B05688C, 0x1F83D9AB, 0x5BE0CD19]"

definition sha256_init_bytes :: bytes where
  "sha256_init_bytes = beint_to_bytes sha256_init_state"

definition sha256_transform_bytes :: "sha_frame \<Rightarrow> bytes \<Rightarrow> bytes \<Rightarrow> bytes \<Rightarrow> bytes res" where
  "sha256_transform_bytes fr after state buffer =
    rbind (beint_from_bytes (state @ after) (state32_at fr) (map (stale fr) [0..<frame_words fr])) (\<lambda>frame.
    rbind (beint_from_bytes buffer (data32_at fr) frame) (\<lambda>frame.
      let state32 = slice (state32_at fr) 8 frame;
          data32 = slice (data32_at fr) 16 frame
      in Inr (beint_to_bytes (sha256_transform (map (schedule fr) [0..<16]) state32 data32))))"

section \<open>SHA-256 as the standard defines it\<close>

definition fips_ch :: "u32 \<Rightarrow> u32 \<Rightarrow> u32 \<Rightarrow> u32" where
  "fips_ch x y z = (x AND y) XOR (NOT x AND z)"

definition fips_maj :: "u32 \<Rightarrow> u32 \<Rightarrow> u32 \<Rightarrow> u32" where
  "fips_maj x y z = (x AND y) XOR (x AND z) XOR (y AND z)"

definition fips_S0 :: "u32 \<Rightarrow> u32" where
  "fips_S0 x = word_rotr 2 x XOR word_rotr 13 x XOR word_rotr 22 x"

definition fips_S1 :: "u32 \<Rightarrow> u32" where
  "fips_S1 x = word_rotr 6 x XOR word_rotr 11 x XOR word_rotr 25 x"

definition fips_s0 :: "u32 \<Rightarrow> u32" where
  "fips_s0 x = word_rotr 7 x XOR word_rotr 18 x XOR drop_bit 3 x"

definition fips_s1 :: "u32 \<Rightarrow> u32" where
  "fips_s1 x = word_rotr 17 x XOR word_rotr 19 x XOR drop_bit 10 x"

fun fips_sched :: "u32 list \<Rightarrow> nat \<Rightarrow> u32" where
  "fips_sched M t =
    (if t < 16 then M ! t
     else fips_s1 (fips_sched M (t - 2)) + fips_sched M (t - 7) +
          fips_s0 (fips_sched M (t - 15)) + fips_sched M (t - 16))"

declare fips_sched.simps [simp del]

fun fips_round :: "u32 \<Rightarrow> u32 list \<Rightarrow> u32 list" where
  "fips_round kw [a, b, c, d, e, f, g, h] =
    (let T1 = h + fips_S1 e + fips_ch e f g + kw;
         T2 = fips_S0 a + fips_maj a b c
     in [T1 + T2, a, b, c, d + T1, e, f, g])"
| "fips_round kw _ = []"

definition fips_compress :: "u32 list \<Rightarrow> u32 list \<Rightarrow> u32 list" where
  "fips_compress H M =
    map2 (+) H (fold (\<lambda>t. fips_round (K ! t + fips_sched M t)) [0..<64] H)"

section \<open>The round functions agree\<close>

lemma ROTR32_word_rotr: "0 < n \<Longrightarrow> n < 32 \<Longrightarrow> ROTR32 x n = word_rotr n x"
proof (rule bit_word_eqI)
  fix i assume n: "0 < n" "n < 32" and i: "i < LENGTH(32)"
  have "bit (ROTR32 x n) i \<longleftrightarrow> (if i < 32 - n then bit x (i + n) else bit x (i + n - 32))"
  proof (cases "i < 32 - n")
    case True
    with n show ?thesis by (auto simp: ROTR32_def ROTL32_def bit_simps add.commute)
  next
    case False
    have "\<not> bit x (n + i)"
      using False bit_imp_le_length[of x "n + i"] by auto
    moreover have "i - (32 - n) = i + n - 32" using n by simp
    ultimately show ?thesis using False i n by (auto simp: ROTR32_def ROTL32_def bit_simps)
  qed
  also have "\<dots> \<longleftrightarrow> bit x ((i + n) mod 32)"
    using n i by (auto simp: mod_if not_less)
  finally show "bit (ROTR32 x n) i \<longleftrightarrow> bit (word_rotr n x) i"
    using i by (simp add: bit_word_rotr_iff)
qed

lemma Ch_fips: "Ch x y z = fips_ch x y z"
  by (rule bit_word_eqI) (auto simp: Ch_def fips_ch_def bit_simps)

lemma Maj_fips: "Maj x y z = fips_maj x y z"
  by (rule bit_word_eqI) (auto simp: Maj_def fips_maj_def bit_simps)

lemma Sigma_fips:
  "S0 x = fips_S0 x" "S1 x = fips_S1 x" "s0 x = fips_s0 x" "s1 x = fips_s1 x"
  by (simp_all add: S0_def S1_def s0_def s1_def fips_S0_def fips_S1_def fips_s0_def fips_s1_def
      ROTR32_word_rotr)

lemmas round_fips = Ch_fips Maj_fips Sigma_fips

section \<open>The transform computes the standard's compression function\<close>

text \<open>After \<open>i\<close> rounds the role \<open>r\<close> (0 for \<open>a\<close> .. 7 for \<open>h\<close>) is played by this register.\<close>

definition role_reg :: "nat \<Rightarrow> nat \<Rightarrow> nat" where
  "role_reg i r = (r + (8 - i mod 8)) mod 8"

definition roles :: "nat \<Rightarrow> u32 list \<Rightarrow> u32 list" where
  "roles i T = map (\<lambda>r. T ! role_reg i r) [0..<8]"

definition R_at :: "u32 list \<Rightarrow> nat \<Rightarrow> u32 list \<times> u32 list \<Rightarrow> u32 list \<times> u32 list" where
  "R_at data t = R data (t - t mod 16) (role_reg t 0) (role_reg t 1) (role_reg t 2) (role_reg t 3)
     (role_reg t 4) (role_reg t 5) (role_reg t 6) (role_reg t 7) (t mod 16)"

lemma upt_8: "[0..<8] = [0, 1, 2, 3, 4, 5, 6, 7 :: nat]"
  by (simp add: upt_rec numeral_eq_Suc)

lemma RX_8_R_at:
  assumes "j \<in> {0, 16, 32, 48}" and "i \<in> {0, 8}"
  shows "RX_8 data j i s = fold (R_at data) [j + i..<j + i + 8] s"
proof -
  have u: "[n..<n + 8] = [n, n+1, n+2, n+3, n+4, n+5, n+6, n+7]" for n :: nat
    by (simp add: upt_rec numeral_eq_Suc)
  show ?thesis
    unfolding u using assms
    by (elim insertE emptyE) (simp_all add: RX_8_def R_at_def role_reg_def Let_def numeral_2_eq_2[symmetric] del: One_nat_def)
qed

lemma sha256_rounds:
  "fold (\<lambda>j s. RX_8 data j 8 (RX_8 data j 0 s)) [0, 16, 32, 48] s = fold (R_at data) [0..<64] s"
proof -
  have "[0..<64] = [0..<0 + 8] @ [8..<8 + 8] @ [16..<16 + 8] @ [24..<24 + 8] @ [32..<32 + 8] @
      [40..<40 + 8] @ [48..<48 + 8] @ [56..<56 + (8 :: nat)]"
    using upt_add_eq_append[of 0 8 56] upt_add_eq_append[of 8 16 48] upt_add_eq_append[of 16 24 40]
      upt_add_eq_append[of 24 32 32] upt_add_eq_append[of 32 40 24] upt_add_eq_append[of 40 48 16]
      upt_add_eq_append[of 48 56 8] by simp
  then show ?thesis
    using RX_8_R_at[of 0 0 data] RX_8_R_at[of 0 8 data] RX_8_R_at[of 16 0 data] RX_8_R_at[of 16 8 data]
      RX_8_R_at[of 32 0 data] RX_8_R_at[of 32 8 data] RX_8_R_at[of 48 0 data] RX_8_R_at[of 48 8 data]
    by simp
qed

text \<open>What the circular buffer holds after \<open>t\<close> rounds: the last sixteen schedule words.\<close>

definition sched_inv :: "u32 list \<Rightarrow> nat \<Rightarrow> u32 list \<Rightarrow> bool" where
  "sched_inv data t W \<longleftrightarrow>
     length W = 16 \<and> (\<forall>s<t. t \<le> s + 16 \<longrightarrow> W ! (s mod 16) = fips_sched data s)"

definition sched_word :: "u32 list \<Rightarrow> nat \<Rightarrow> u32 list \<Rightarrow> u32 \<times> u32 list" where
  "sched_word data t W = (if t - t mod 16 \<noteq> 0 then blk2 (t mod 16) W else blk0 data (t mod 16) W)"

lemma mod_16_back:
  assumes "k \<le> 16" and "16 \<le> (t :: nat)"
  shows "(t - k) mod 16 = (t mod 16 + (16 - k)) mod 16"
proof -
  have "(t mod 16 + (16 - k)) mod 16 = (t + (16 - k)) mod 16" by (rule mod_add_left_eq)
  also have "t + (16 - k) = (t - k) + 16" using assms by simp
  also have "((t - k) + 16) mod 16 = (t - k) mod 16" by (rule mod_add_self2)
  finally show ?thesis ..
qed

lemma sched_word_value:
  assumes inv: "sched_inv data t W"
  shows "fst (sched_word data t W) = fips_sched data t"
proof (cases "t < 16")
  case True
  then show ?thesis by (simp add: sched_word_def blk0_def fips_sched.simps)
next
  case False
  have at: "W ! ((t mod 16 + (16 - k)) mod 16) = fips_sched data (t - k)" if "0 < k" "k \<le> 16" for k
  proof -
    have "(t mod 16 + (16 - k)) mod 16 = (t - k) mod 16"
      using that False by (simp only: mod_16_back not_less)
    then show ?thesis using inv that False by (simp add: sched_inv_def)
  qed
  have "t - t mod 16 \<noteq> 0" using False by (simp add: minus_mod_eq_mult_div)
  with False show ?thesis
    using at[of 16] at[of 2] at[of 7] at[of 15]
    by (simp add: sched_word_def blk2_def Let_def fips_sched.simps[of data t] round_fips)
qed

lemma sched_word_inv:
  assumes inv: "sched_inv data t W"
  shows "sched_inv data (Suc t) (snd (sched_word data t W))"
proof -
  have len: "length W = 16" using inv by (simp add: sched_inv_def)
  have upd: "snd (sched_word data t W) = W[t mod 16 := fips_sched data t]"
    using sched_word_value[OF inv] by (auto simp: sched_word_def blk0_def blk2_def Let_def)
  have "W[t mod 16 := fips_sched data t] ! (s mod 16) = fips_sched data s"
    if s: "s < Suc t" "Suc t \<le> s + 16" for s
  proof (cases "s = t")
    case True
    then show ?thesis using len by simp
  next
    case False
    then have "s < t" "t \<le> s + 16" "t - s < 16" using s by simp_all
    moreover have "s mod 16 \<noteq> t mod 16"
    proof
      assume "s mod 16 = t mod 16"
      then have "(t - s) mod 16 = 0" using \<open>s < t\<close> by (metis mod_eq_dvd_iff_nat less_imp_le mod_0_imp_dvd dvd_imp_mod_0)
      with \<open>t - s < 16\<close> \<open>s < t\<close> show False by simp
    qed
    ultimately show ?thesis using inv by (simp add: sched_inv_def)
  qed
  then show ?thesis unfolding upd by (simp add: sched_inv_def len)
qed

lemma length_8E:
  assumes "length T = 8"
  obtains a b c d e f g h where "T = [a, b, c, d, e, f, g, h]"
  using assms by (auto simp: numeral_eq_Suc length_Suc_conv)

lemma mod_8_cases:
  fixes t :: nat
  obtains "t mod 8 = 0" | "t mod 8 = 1" | "t mod 8 = 2" | "t mod 8 = 3"
    | "t mod 8 = 4" | "t mod 8 = 5" | "t mod 8 = 6" | "t mod 8 = 7"
proof -
  have "t mod 8 < 8" by simp
  then have "t mod 8 \<in> {0, 1, 2, 3, 4, 5, 6, 7}" by auto
  then show ?thesis by (elim insertE emptyE) (auto intro: that)
qed

lemma R_at_roles:
  assumes "length T = 8"
  shows "R_at data t (T, W) =
    (let T' = fst (R_at data t (T, W)) in (T', snd (sched_word data t W))) \<and>
    length (fst (R_at data t (T, W))) = 8 \<and>
    roles (Suc t) (fst (R_at data t (T, W))) =
      fips_round (K ! t + fst (sched_word data t W)) (roles t T)"
proof -
  obtain a b c d e f g h where T: "T = [a, b, c, d, e, f, g, h]"
    using assms by (rule length_8E)
  obtain w W' where sw: "sched_word data t W = (w, W')" by fastforce
  have idx: "t mod 16 + (t - t mod 16) = t" by simp
  have eq: "R_at data t (T, W) = (let T1 = T[role_reg t 7 := T ! role_reg t 7 + (S1 (T ! role_reg t 4) +
        Ch (T ! role_reg t 4) (T ! role_reg t 5) (T ! role_reg t 6) + K ! t + w)];
        T2 = T1[role_reg t 3 := T1 ! role_reg t 3 + T1 ! role_reg t 7]
      in (T2[role_reg t 7 := T2 ! role_reg t 7 + (S0 (T2 ! role_reg t 0) +
        Maj (T2 ! role_reg t 0) (T2 ! role_reg t 1) (T2 ! role_reg t 2))], W'))"
    using sw unfolding sched_word_def R_at_def R_def by (simp add: idx Let_def split: prod.splits if_splits)
  show ?thesis
    unfolding eq
    by (cases rule: mod_8_cases[of t])
      (simp_all add: T sw Let_def role_reg_def roles_def upt_8 mod_Suc round_fips ac_simps)
qed

lemma sha256_rounds_inv:
  assumes "length T0 = 8" and "length W0 = 16" and "fold (R_at data) [0..<t] (T0, W0) = (T, W)"
  shows "length T = 8 \<and> sched_inv data t W \<and>
    roles t T = fold (\<lambda>t. fips_round (K ! t + fips_sched data t)) [0..<t] T0"
  using assms(3)
proof (induction t arbitrary: T W)
  case 0
  obtain a b c d e f g h where "T0 = [a, b, c, d, e, f, g, h]"
    using assms(1) by (rule length_8E)
  with 0 assms(2) show ?case by (auto simp: sched_inv_def roles_def role_reg_def upt_8)
next
  case (Suc t)
  obtain T1 W1 where s1: "fold (R_at data) [0..<t] (T0, W0) = (T1, W1)" by fastforce
  with Suc have step: "R_at data t (T1, W1) = (T, W)" by simp
  note IH = Suc.IH[OF s1]
  from IH have inv: "sched_inv data t W1" and len: "length T1 = 8" by simp_all
  from R_at_roles[OF len, of data t W1] step sched_word_value[OF inv] sched_word_inv[OF inv] IH
  show ?case by (simp add: Let_def)
qed

text \<open>
  The code's transform is the standard's compression function, whatever the uninitialised
  schedule array held.
\<close>

lemma sha256_transform_fips:
  assumes "length state = 8" and "length W0 = 16"
  shows "sha256_transform W0 state data = fips_compress state data"
proof -
  obtain T W where s: "fold (R_at data) [0..<64] (state, W0) = (T, W)" by fastforce
  from sha256_rounds_inv[OF assms s] have len: "length T = 8" and
    r: "roles 64 T = fold (\<lambda>t. fips_round (K ! t + fips_sched data t)) [0..<64] state" by simp_all
  obtain a b c d e f g h where "T = [a, b, c, d, e, f, g, h]"
    using len by (rule length_8E)
  then have "roles 64 T = T" by (simp add: roles_def role_reg_def upt_8)
  with r s show ?thesis
    unfolding sha256_transform_def fips_compress_def sha256_rounds by (simp add: assms(1))
qed

section \<open>Bytes, blocks and messages\<close>

lemma length_beint [simp]: "length (beint_words bs) = 16" "length (beint_to_bytes ws) = 32"
  by (simp_all add: beint_words_def beint_to_bytes_def upt_8)

lemma be_word_bytes:
  fixes v :: u32
  shows "push_bit 24 (ucast (ucast (drop_bit 24 v) :: u8)) + push_bit 16 (ucast (ucast (drop_bit 16 v) :: u8)) +
    push_bit 8 (ucast (ucast (drop_bit 8 v) :: u8)) + ucast (ucast v :: u8) = v"
    (is "?a + ?b + ?c + ?d = v")
proof -
  have ab: "?a + ?b = ?a OR ?b"
    by (intro disjunctive_add_eq_or bit_word_eqI) (auto simp: bit_simps)
  have abc: "?a + ?b + ?c = ?a OR ?b OR ?c"
    unfolding ab or.assoc[symmetric] by (intro disjunctive_add_eq_or bit_word_eqI) (auto simp: bit_simps)
  have abcd: "?a + ?b + ?c + ?d = ?a OR ?b OR ?c OR ?d"
    unfolding abc or.assoc[symmetric] by (intro disjunctive_add_eq_or bit_word_eqI) (auto simp: bit_simps)
  show ?thesis
    unfolding abcd
  proof (rule bit_word_eqI)
    fix n assume n: "n < LENGTH(32)"
    then consider "n < 8" | "8 \<le> n" "n < 16" | "16 \<le> n" "n < 24" | "24 \<le> n" by linarith
    then show "bit (?a OR ?b OR ?c OR ?d) n = bit v n"
      by cases (use n in \<open>auto simp: bit_simps\<close>)
  qed
qed

lemma take_8_beint_round_trip:
  assumes "length ws = 8"
  shows "take 8 (beint_words (beint_to_bytes ws @ after)) = ws"
proof -
  obtain a b c d e f g h where ws: "ws = [a, b, c, d, e, f, g, h]"
    using assms by (rule length_8E)
  have u: "take 8 [0..<16] = [0, 1, 2, 3, 4, 5, 6, 7 :: nat]"
    by (simp add: upt_8)
  show ?thesis
    unfolding beint_words_def take_map u
    by (simp add: beint_to_bytes_def upt_8 ws be_word_bytes del: take_map)
qed

lemma beint_words_prefix: "64 \<le> length bs \<Longrightarrow> beint_words (bs @ cs) = beint_words bs"
  unfolding beint_words_def by (rule map_cong) (auto simp: nth_append)

lemma beint_words_take: "64 \<le> length bs \<Longrightarrow> beint_words (take 64 bs) = beint_words bs"
  using beint_words_prefix[of "take 64 bs" "drop 64 bs"] by simp

lemma length_fips_round: "length H = 8 \<Longrightarrow> length (fips_round kw H) = 8"
  by (erule length_8E) (simp add: Let_def)

lemma length_fips_compress [simp]:
  assumes "length H = 8"
  shows "length (fips_compress H M) = 8"
proof -
  have "length (fold (\<lambda>t. fips_round (K ! t + fips_sched M t)) ts H) = 8" for ts
    using assms by (induction ts arbitrary: H) (auto simp: length_fips_round)
  with assms show ?thesis by (simp add: fips_compress_def)
qed

text \<open>
  One block through the byte interface of the file, as a function of the bytes: its outcome
  does not depend on what the frame and the schedule array held.
\<close>

definition transform_out :: "bytes \<Rightarrow> bytes \<Rightarrow> bytes \<Rightarrow> bytes" where
  "transform_out after state buffer =
    beint_to_bytes (fips_compress (take 8 (beint_words (state @ after))) (beint_words buffer))"

lemma length_transform_out [simp]: "length (transform_out after state buffer) = 32"
  by (simp add: transform_out_def)

lemma sha256_transform_bytes_room:
  assumes "frame_room fr"
  shows "sha256_transform_bytes fr after state buffer = Inr (transform_out after state buffer)"
proof -
  let ?s = "state32_at fr" and ?d = "data32_at fr" and ?ws = "beint_words (state @ after)"
    and ?f0 = "map (stale fr) [0..<frame_words fr]"
  have f0: "length ?f0 = frame_words fr" by simp
  have fits: "?s + 16 \<le> frame_words fr" "?d + 16 \<le> frame_words fr" "?s + 8 \<le> ?d \<or> ?d + 16 \<le> ?s"
    using assms by (auto simp: frame_room_def state32_at_def data32_at_def frame_words_def)
  define f1 where "f1 = blit ?s ?ws ?f0"
  have f1: "length f1 = frame_words fr" using fits(1) by (simp add: f1_def)
  have one: "beint_from_bytes (state @ after) ?s ?f0 = Inr f1"
    using fits(1) by (simp add: beint_from_bytes_def memcpy_def f1_def)
  have two: "beint_from_bytes buffer ?d f1 = Inr (blit ?d (beint_words buffer) f1)"
    using fits(2) f1 by (simp add: beint_from_bytes_def memcpy_def)
  have "slice ?s 8 (blit ?d (beint_words buffer) f1) = slice ?s 8 f1"
    using fits f1 by (intro slice_blit_other) auto
  also have "slice ?s 8 f1 = take 8 ?ws"
  proof (rule nth_equalityI)
    show "length (slice ?s 8 f1) = length (take 8 ?ws)" using fits(1) f1 by simp
    fix i assume "i < length (slice ?s 8 f1)"
    then have "i < 8" using fits(1) f1 by simp
    then show "slice ?s 8 f1 ! i = take 8 ?ws ! i"
      using fits(1) f1 unfolding f1_def by (simp add: nth_blit)
  qed
  finally have "slice ?s 8 (blit ?d (beint_words buffer) f1) = take 8 ?ws" .
  moreover have "slice ?d 16 (blit ?d (beint_words buffer) f1) = beint_words buffer"
    using fits(2) f1 by simp
  ultimately show ?thesis
    unfolding sha256_transform_bytes_def one rbind_simps two
    by (simp add: Let_def transform_out_def sha256_transform_fips)
qed

lemma sha256_transform_bytes_no_room:
  "\<not> frame_room fr \<Longrightarrow> sha256_transform_bytes fr after state buffer = Inl OutOfBounds"
  by (simp add: sha256_transform_bytes_def frame_room_def beint_from_bytes_def memcpy_def state32_at_def
      frame_words_def)

lemma transform_out_fips:
  assumes "length H = 8"
  shows "transform_out after (beint_to_bytes H) block = beint_to_bytes (fips_compress H (beint_words block))"
  using assms by (simp add: transform_out_def take_8_beint_round_trip)

function fips_process :: "u32 list \<Rightarrow> bytes \<Rightarrow> u32 list" where
  "fips_process H bs =
    (if length bs < 64 then H
     else fips_process (fips_compress H (beint_words (take 64 bs))) (drop 64 bs))"
  by pat_completeness auto
termination
  by (relation "measure (\<lambda>(H, bs). length bs)") auto

declare fips_process.simps [simp del]

definition fips_pad :: "bytes \<Rightarrow> bytes" where
  "fips_pad msg = msg @ [0x80] @ replicate ((119 - length msg mod 64) mod 64) 0 @
     rev (le_bytes 8 (of_nat (8 * length msg) :: u64))"

definition fips_sha256 :: "bytes \<Rightarrow> bytes" where
  "fips_sha256 msg = beint_to_bytes (fips_process sha256_init_state (fips_pad msg))"

lemma length_sha256_init_state [simp]: "length sha256_init_state = 8"
  by (simp add: sha256_init_state_def)

lemma length_fips_process [simp]: "length H = 8 \<Longrightarrow> length (fips_process H bs) = 8"
  by (induction H bs rule: fips_process.induct) (subst fips_process.simps, auto)

lemma fips_process_short: "length bs < 64 \<Longrightarrow> fips_process H bs = H"
  by (simp add: fips_process.simps)

lemma fips_process_block:
  "length b = 64 \<Longrightarrow> fips_process H (b @ bs) = fips_process (fips_compress H (beint_words b)) bs"
  by (simp add: fips_process.simps[of H "b @ bs"])

lemma fips_process_append:
  "length xs mod 64 = 0 \<Longrightarrow> fips_process H (xs @ ys) = fips_process (fips_process H xs) ys"
proof (induction H xs rule: fips_process.induct)
  case (1 H xs)
  show ?case
  proof (cases "length xs < 64")
    case True
    with "1.prems" have "xs = []" by simp
    then show ?thesis by (simp add: fips_process_short)
  next
    case False
    then have "length (drop 64 xs) mod 64 = 0" using "1.prems" by (simp add: le_mod_geq)
    moreover have "xs @ ys = take 64 xs @ (drop 64 xs @ ys)" by simp
    ultimately show ?thesis
      using "1.IH" False fips_process_block[of "take 64 xs"]
      by (metis append_take_drop_id length_take min.absorb2 not_less)
  qed
qed

lemma fips_process_one: "length b = 64 \<Longrightarrow> fips_process H b = fips_compress H (beint_words b)"
  using fips_process_block[of b H "[]"] by (simp add: fips_process_short)

lemma length_fips_pad: "length (fips_pad msg) mod 64 = 0"
proof -
  define m where "m = length msg mod 64"
  obtain q where q: "length msg = 64 * q + m" using m_def by (metis mult_div_mod_eq)
  have "m < 64" by (simp add: m_def)
  then have "(119 - m) mod 64 = (if m \<le> 55 then 55 - m else 119 - m)"
    by (simp add: mod_if)
  moreover have "length (fips_pad msg) = 64 * q + m + 9 + (119 - m) mod 64"
    by (simp add: fips_pad_def m_def[symmetric]) (simp add: q)
  ultimately have "length (fips_pad msg) = (if m \<le> 55 then 64 * (q + 1) else 64 * (q + 2))"
    using \<open>m < 64\<close> by simp
  then show ?thesis by (simp split: if_splits)
qed

end
