(* ===== verification/Gpdma.thy ===== *)
theory Gpdma
  imports Prelude
begin

text \<open>
  \<open>periph/ocs/dma/gpdma.c\<close>: the DMA engine that the OCS units embed. It moves data in
  turns of at most 64 bytes between the bus and the unit's internal port, through the
  global array \<open>gpdma_buffer\<close>. The C structure holds its registers and four function
  pointers; here the registers are a record, and the pointers are a record \<open>dma_ops\<close> over
  the state \<open>'w\<close> of the whole program, so that what a callback does to the registers or to
  the unit is seen by the next turn, as it is in the code.
\<close>

definition GPDMA_REG_SRC_ADDR :: int where "GPDMA_REG_SRC_ADDR = 0x400"
definition GPDMA_REG_DST_ADDR :: int where "GPDMA_REG_DST_ADDR = 0x404"
definition GPDMA_REG_SRC_SIZE :: int where "GPDMA_REG_SRC_SIZE = 0x408"
definition GPDMA_REG_DST_SIZE :: int where "GPDMA_REG_DST_SIZE = 0x40C"
definition GPDMA_REG_CONTROL :: int where "GPDMA_REG_CONTROL = 0x410"
definition GPDMA_REG_STATUS :: int where "GPDMA_REG_STATUS = 0x428"

lemmas gpdma_regs = GPDMA_REG_SRC_ADDR_def GPDMA_REG_DST_ADDR_def GPDMA_REG_SRC_SIZE_def
  GPDMA_REG_DST_SIZE_def GPDMA_REG_CONTROL_def GPDMA_REG_STATUS_def

record gpdma_state =
  src_addr :: u32
  src_size :: u32
  dst_addr :: u32
  dst_size :: u32
  control :: u32
  status :: u32

text \<open>
  The callbacks and where the engine's registers and \<open>gpdma_buffer\<close> live in \<open>'w\<close>. A
  callback that is handed the buffer returns its new contents; \<open>bus_write\<close> may change it
  too, because the function installed there by \<open>ocs_spawn\<close> does.
\<close>

record 'w dma_ops =
  dma_get :: "'w \<Rightarrow> gpdma_state"
  dma_put :: "gpdma_state \<Rightarrow> 'w \<Rightarrow> 'w"
  buf_get :: "'w \<Rightarrow> bytes"
  buf_put :: "bytes \<Rightarrow> 'w \<Rightarrow> 'w"
  bus_read :: "u32 \<Rightarrow> bytes \<Rightarrow> nat \<Rightarrow> 'w \<Rightarrow> (bytes \<times> 'w) res"
  bus_write :: "u32 \<Rightarrow> bytes \<Rightarrow> nat \<Rightarrow> 'w \<Rightarrow> (bytes \<times> 'w) res"
  int_read :: "bytes \<Rightarrow> nat \<Rightarrow> 'w \<Rightarrow> (bytes \<times> 'w) res"
  int_write :: "bytes \<Rightarrow> nat \<Rightarrow> 'w \<Rightarrow> 'w res"

definition gpdma_read :: "gpdma_state \<Rightarrow> int \<Rightarrow> bytes \<Rightarrow> int \<Rightarrow> (int \<times> bytes) res" where
  "gpdma_read st addr buf count =
    (if addr < 0x400 \<or> 0x500 \<le> addr then Inr (0, buf)
     else if count \<noteq> 4 \<or> addr mod 4 \<noteq> 0 then Inr (1, buf)
     else rbind
       (if addr = GPDMA_REG_SRC_ADDR then st32 (src_addr st) buf
        else if addr = GPDMA_REG_DST_ADDR then st32 (dst_addr st) buf
        else if addr = GPDMA_REG_SRC_SIZE then st32 (src_size st) buf
        else if addr = GPDMA_REG_DST_SIZE then st32 (dst_size st) buf
        else if addr = GPDMA_REG_CONTROL then st32 (control st) buf
        else if addr = GPDMA_REG_STATUS then st32 (status st) buf
        else Inr buf)
       (\<lambda>buf. Inr (1, buf)))"

text \<open>
  One turn: fill the buffer from the bus or from the unit, then drain it to the bus or to
  the unit. The addresses are read again in every turn.
\<close>

definition gpdma_turn :: "'w dma_ops \<Rightarrow> u32 \<Rightarrow> nat \<Rightarrow> 'w \<Rightarrow> 'w res" where
  "gpdma_turn ops pos turnsize w =
    rbind (if src_addr (dma_get ops w) \<noteq> 0
           then bus_read ops (src_addr (dma_get ops w) + pos) (buf_get ops w) turnsize w
           else int_read ops (buf_get ops w) turnsize w)
      (\<lambda>(buf, w). let w = buf_put ops buf w in
        if dst_addr (dma_get ops w) \<noteq> 0
        then rbind (bus_write ops (dst_addr (dma_get ops w) + pos) (buf_get ops w) turnsize w)
               (\<lambda>(buf, w). Inr (buf_put ops buf w))
        else int_write ops (buf_get ops w) turnsize w)"

text \<open>
  The loop \<open>while (count)\<close>. \<open>count\<close> and \<open>pos\<close> are C \<open>int\<close>s that hold \<open>uint32_t\<close> values;
  the test against \<open>sizeof gpdma_buffer\<close> is unsigned, so a size of 2 GiB or more, which
  makes the \<open>int\<close> negative, is cut to 64 like any other.
\<close>

function gpdma_loop :: "'w dma_ops \<Rightarrow> u32 \<Rightarrow> u32 \<Rightarrow> 'w \<Rightarrow> 'w res" where
  "gpdma_loop ops pos count w =
    (if count = 0 then Inr w
     else let turnsize = (if 64 < count then 64 else count) in
       rbind (gpdma_turn ops pos (unat turnsize) w)
         (\<lambda>w. gpdma_loop ops (pos + turnsize) (count - turnsize) w))"
  by pat_completeness auto
termination
proof (relation "measure (\<lambda>(ops, pos, count, w). unat count)", goal_cases)
  case 1
  show ?case by simp
next
  case (2 ops pos count w turn w')
  then have "0 < turn" "turn \<le> count" by (auto simp: word_neq_0_conv not_less split: if_splits)
  then show ?case by (simp add: unat_sub_less)
qed

declare gpdma_loop.simps [simp del]

definition gpdma_run_transaction :: "'w dma_ops \<Rightarrow> 'w \<Rightarrow> 'w res" where
  "gpdma_run_transaction ops w =
    (let st = dma_get ops w in
     if ntst (control st) (BIT 31) then Inr w
     else
       let st = st\<lparr>control := control st AND NOT (BIT 31)\<rparr>;
           count = (if dst_size st > src_size st then dst_size st else src_size st)
       in gpdma_loop ops 0 count (dma_put ops st w))"

definition gpdma_write :: "'w dma_ops \<Rightarrow> int \<Rightarrow> bytes \<Rightarrow> int \<Rightarrow> 'w \<Rightarrow> (int \<times> 'w) res" where
  "gpdma_write ops addr buf count w =
    (if addr < 0x400 \<or> 0x500 \<le> addr then Inr (0, w)
     else if count \<noteq> 4 \<or> addr mod 4 \<noteq> 0 then Inr (1, w)
     else rbind (ld32 buf) (\<lambda>v.
       let st = dma_get ops w;
           st = (if addr = GPDMA_REG_SRC_ADDR then st\<lparr>src_addr := v\<rparr>
                 else if addr = GPDMA_REG_DST_ADDR then st\<lparr>dst_addr := v\<rparr>
                 else if addr = GPDMA_REG_SRC_SIZE then st\<lparr>src_size := v\<rparr>
                 else if addr = GPDMA_REG_DST_SIZE then st\<lparr>dst_size := v\<rparr>
                 else if addr = GPDMA_REG_CONTROL then st\<lparr>control := v\<rparr>
                 else if addr = GPDMA_REG_STATUS then st\<lparr>status := v\<rparr>
                 else st)
       in rbind (gpdma_run_transaction ops (dma_put ops st w)) (\<lambda>w. Inr (1, w))))"

definition gpdma_init :: "gpdma_state \<Rightarrow> gpdma_state" where
  "gpdma_init st = st\<lparr>control := 0, status := 0\<rparr>"

section \<open>What a host of the engine promises, and what a transfer then does\<close>

text \<open>
  The engine is used to feed a unit from memory. A host of the engine promises: reading the
  bus over the range of a transfer gives the bytes of \<open>mem\<close> and changes nothing, the unit
  takes the data of its port with \<open>sink\<close>, which neither touches the engine's registers nor
  depends on how the data is cut into turns, and the registers and the buffer are kept as in
  a store. A full transfer is then one \<open>sink\<close> of the whole range.
\<close>

definition mem_range :: "(u32 \<Rightarrow> u8) \<Rightarrow> u32 \<Rightarrow> nat \<Rightarrow> bytes" where
  "mem_range mem a n = map (\<lambda>i. mem (a + of_nat i)) [0..<n]"

lemma length_mem_range [simp]: "length (mem_range mem a n) = n"
  by (simp add: mem_range_def)

lemma mem_range_append:
  "mem_range mem a m @ mem_range mem (a + of_nat m) n = mem_range mem a (m + n)"
  by (rule nth_equalityI) (auto simp: mem_range_def nth_append add.assoc of_nat_diff)

lemma if_less_max: "(if a < b then b else a) = max a (b :: 'a::linorder)"
  by (auto simp: max_def)

locale dma_host =
  fixes ops :: "'w dma_ops"
    and mem :: "u32 \<Rightarrow> u8"
    and sink :: "bytes \<Rightarrow> 'w \<Rightarrow> 'w"
    and ok :: "'w \<Rightarrow> bool"
  assumes buf_length: "ok w \<Longrightarrow> length (buf_get ops w) = 64"
    and bus_read_mem: "ok w \<Longrightarrow> length b = 64 \<Longrightarrow> n \<le> 64 \<Longrightarrow>
      bus_read ops a b n w = Inr (mem_range mem a n @ drop n b, w)"
    and int_write_sink: "ok w \<Longrightarrow> 0 < n \<Longrightarrow> n \<le> length b \<Longrightarrow>
      int_write ops b n w = Inr (sink (take n b) w)"
    and sink_append: "ok w \<Longrightarrow> sink (xs @ ys) w = sink ys (sink xs w)"
    and sink_nil: "ok w \<Longrightarrow> sink [] w = w"
    and sink_ok: "ok w \<Longrightarrow> ok (sink bs w)"
    and sink_dma: "ok w \<Longrightarrow> dma_get ops (sink bs w) = dma_get ops w"
    and sink_buf: "ok w \<Longrightarrow> sink bs (buf_put ops b w) = buf_put ops b (sink bs w)"
    and buf_get_put: "ok w \<Longrightarrow> buf_get ops (buf_put ops b w) = b"
    and buf_put_put: "ok w \<Longrightarrow> buf_put ops b' (buf_put ops b w) = buf_put ops b' w"
    and buf_put_get: "ok w \<Longrightarrow> buf_put ops (buf_get ops w) w = w"
    and buf_put_dma: "ok w \<Longrightarrow> dma_get ops (buf_put ops b w) = dma_get ops w"
    and buf_put_ok: "ok w \<Longrightarrow> length b = 64 \<Longrightarrow> ok (buf_put ops b w)"
    and dma_get_put: "ok w \<Longrightarrow> dma_get ops (dma_put ops st w) = st"
    and dma_put_ok: "ok w \<Longrightarrow> ok (dma_put ops st w)"
begin

lemma turn_sink:
  assumes "ok w" and "0 < n" and "n \<le> 64"
    and "src_addr (dma_get ops w) \<noteq> 0" and "dst_addr (dma_get ops w) = 0"
  shows "\<exists>b. length b = 64 \<and> gpdma_turn ops pos n w =
    Inr (buf_put ops b (sink (mem_range mem (src_addr (dma_get ops w) + pos) n) w))"
proof -
  define b where "b = mem_range mem (src_addr (dma_get ops w) + pos) n @ drop n (buf_get ops w)"
  have lb: "length b = 64" using assms by (simp add: b_def buf_length)
  have "gpdma_turn ops pos n w = Inr (sink (take n b) (buf_put ops b w))"
    using assms lb
    by (simp add: gpdma_turn_def bus_read_mem buf_length buf_put_dma buf_get_put buf_put_ok
        int_write_sink Let_def b_def[symmetric])
  moreover have "take n b = mem_range mem (src_addr (dma_get ops w) + pos) n"
    by (simp add: b_def)
  ultimately show ?thesis using assms lb by (auto simp: sink_buf)
qed

lemma loop_sink:
  assumes "ok w" and "src_addr (dma_get ops w) \<noteq> 0" and "dst_addr (dma_get ops w) = 0"
  shows "\<exists>b. length b = 64 \<and> gpdma_loop ops pos count w =
    Inr (buf_put ops b (sink (mem_range mem (src_addr (dma_get ops w) + pos) (unat count)) w))"
  using assms
proof (induction "unat count" arbitrary: pos count w rule: less_induct)
  case less
  show ?case
  proof (cases "count = 0")
    case True
    have "gpdma_loop ops pos count w = Inr (buf_put ops (buf_get ops w) (sink [] w))"
      using True less.prems(1) by (simp add: gpdma_loop.simps sink_nil buf_put_get)
    then show ?thesis
      using True less.prems(1) buf_length by (auto simp: mem_range_def intro!: exI[of _ "buf_get ops w"])
  next
    case False
    define n where "n = (if 64 < count then 64 else count)"
    have n: "0 < n" "n \<le> count" "n \<le> 64"
      using False by (auto simp: n_def word_neq_0_conv not_less)
    then have un: "0 < unat n" "unat n \<le> unat count" "unat n \<le> 64"
      by (simp_all add: word_less_nat_alt word_le_nat_alt)
    define d1 where "d1 = mem_range mem (src_addr (dma_get ops w) + pos) (unat n)"
    obtain b where b: "length b = 64" and t: "gpdma_turn ops pos (unat n) w = Inr (buf_put ops b (sink d1 w))"
      using turn_sink[OF less.prems(1) un(1,3) less.prems(2,3), of pos] by (auto simp: d1_def)
    define w1 where "w1 = buf_put ops b (sink d1 w)"
    have w1: "ok w1" "dma_get ops w1 = dma_get ops w"
      using less.prems(1) b by (simp_all add: w1_def sink_ok buf_put_ok buf_put_dma sink_dma)
    define d2 where "d2 = mem_range mem (src_addr (dma_get ops w) + (pos + n)) (unat (count - n))"
    obtain b' where b': "length b' = 64" and l: "gpdma_loop ops (pos + n) (count - n) w1 = Inr (buf_put ops b' (sink d2 w1))"
      using less.hyps[OF unat_sub_less[OF n(1,2)] w1(1), of "pos + n"] less.prems(2,3)
      by (auto simp: w1(2) d2_def)
    have d: "d1 @ d2 = mem_range mem (src_addr (dma_get ops w) + pos) (unat count)"
      using mem_range_append[of mem "src_addr (dma_get ops w) + pos" "unat n" "unat (count - n)"] n un
      by (simp add: d1_def d2_def add.assoc unat_sub)
    have "gpdma_loop ops pos count w = Inr (buf_put ops b' (sink d2 w1))"
      using False t l by (simp add: gpdma_loop.simps[of ops pos count] Let_def n_def[symmetric] w1_def)
    also have "sink d2 w1 = buf_put ops b (sink (d1 @ d2) w)"
      using less.prems(1) by (simp add: w1_def sink_buf sink_ok sink_append)
    finally show ?thesis
      using b' less.prems(1) by (auto simp: d buf_put_put sink_ok)
  qed
qed

text \<open>The whole transaction: the GO bit is cleared and the range is sunk.\<close>

lemma transaction_sink:
  assumes "ok w" and st: "dma_get ops w = st" and "bit (control st) 31"
    and "src_addr st \<noteq> 0" and "dst_addr st = 0"
  shows "\<exists>b. length b = 64 \<and> gpdma_run_transaction ops w =
    Inr (buf_put ops b (sink (mem_range mem (src_addr st) (unat (max (src_size st) (dst_size st))))
      (dma_put ops (st\<lparr>control := control st AND NOT (BIT 31)\<rparr>) w)))"
  using assms loop_sink[OF dma_put_ok[OF assms(1)], of "st\<lparr>control := control st AND NOT (BIT 31)\<rparr>" 0
      "max (src_size st) (dst_size st)"]
  by (simp add: gpdma_run_transaction_def dma_get_put Let_def if_less_max)

end

text \<open>Without the GO bit a write of a register only stores it.\<close>

lemma gpdma_run_transaction_idle:
  "\<not> bit (control (dma_get ops w)) 31 \<Longrightarrow> gpdma_run_transaction ops w = Inr w"
  by (simp add: gpdma_run_transaction_def Let_def)

end
