(* ===== verification/HashUnit.thy ===== *)
theory HashUnit
  imports Sha256 Gpdma
begin

text \<open>
  \<open>periph/ocs/hash/hash.c\<close> (and \<open>hash.h\<close>): the hash control unit. It buffers data into
  64 byte blocks, compresses full blocks with SHA-256, pads the message on the flush
  command, and runs the two passes of HMAC. The unit is the record \<open>ocs_hash\<close>; the
  register interface also drives the unit's DMA engine and is written over the state \<open>'w\<close>
  of a host that contains the unit (\<open>hash_host\<close>).
\<close>

section \<open>State\<close>

definition HASH_SIZE :: int where "HASH_SIZE = 0x1000"
definition HASH_REG_MODE :: int where "HASH_REG_MODE = 0x000"
definition HASH_REG_HASH :: int where "HASH_REG_HASH = 0x004"
definition HASH_REG_CMD :: int where "HASH_REG_CMD = 0x008"
definition HASH_REG_STS1 :: int where "HASH_REG_STS1 = 0x050"
definition HASH_REG_STS2 :: int where "HASH_REG_STS2 = 0x058"
definition HASH_REG_COUNTL :: int where "HASH_REG_COUNTL = 0x060"
definition HASH_REG_COUNTH :: int where "HASH_REG_COUNTH = 0x064"
definition HASH_REG_DATA :: int where "HASH_REG_DATA = 0x600"

definition HASH_MODE_ALGO_MASK :: u32 where "HASH_MODE_ALGO_MASK = 0x00030000"
definition HASH_MODE_ALGO_SHA256 :: u32 where "HASH_MODE_ALGO_SHA256 = 0x00020000"
definition HASH_MODE_HMAC :: u32 where "HASH_MODE_HMAC = BIT 22"

definition HASH_CMD_START_DATA :: u32 where "HASH_CMD_START_DATA = 1"
definition HASH_CMD_FLUSH_DATA :: u32 where "HASH_CMD_FLUSH_DATA = 2"

lemmas hash_regs = HASH_SIZE_def HASH_REG_MODE_def HASH_REG_HASH_def HASH_REG_CMD_def
  HASH_REG_STS1_def HASH_REG_STS2_def HASH_REG_COUNTL_def HASH_REG_COUNTH_def HASH_REG_DATA_def

record ocs_hash =
  hash_key :: bytes
  hash_buffer :: bytes
  hash_state :: bytes
  hash_count :: u64
  hash_dataptr :: int
  hash_stateptr :: int
  hash_mode :: u32
  hash_status1 :: u32
  hash_status2 :: u32
  hash_hmac_temp :: bytes
  hash_gpdma :: gpdma_state

text \<open>
  The 32 bytes that follow \<open>hash_state\<close> in the structure; the code reads them, see
  \<open>beint_from_bytes\<close>.
\<close>

definition after_hash_state :: "ocs_hash \<Rightarrow> bytes" where
  "after_hash_state h =
    le_bytes 8 (hash_count h) @ le_bytes 4 (word_of_int (hash_dataptr h) :: u32) @
    le_bytes 4 (word_of_int (hash_stateptr h) :: u32) @ le_bytes 4 (hash_mode h) @
    le_bytes 4 (hash_status1 h) @ le_bytes 4 (hash_status2 h) @ take 4 (hash_hmac_temp h)"

section \<open>Rounds\<close>

definition hash_sha256 :: "ocs_hash \<Rightarrow> bool" where
  "hash_sha256 h \<longleftrightarrow> hash_mode h AND HASH_MODE_ALGO_MASK = HASH_MODE_ALGO_SHA256"

definition hash_round_init :: "ocs_hash \<Rightarrow> ocs_hash" where
  "hash_round_init h =
    (let h = h\<lparr>hash_count := 0, hash_status1 := 0, hash_status2 := 0\<rparr>
     in if hash_sha256 h then h\<lparr>hash_state := sha256_init_bytes\<rparr> else h)"

text \<open>
  A round works in the stack frame \<open>fr\<close> of \<open>sha256_transform_bytes\<close>, see there; where that
  frame has no room for what is written behind \<open>state32\<close>, it faults.
\<close>

definition hash_round_process :: "sha_frame \<Rightarrow> ocs_hash \<Rightarrow> ocs_hash res" where
  "hash_round_process fr h =
    (let h = h\<lparr>hash_stateptr := 0\<rparr>
     in if hash_sha256 h
        then rbind (sha256_transform_bytes fr (after_hash_state h) (hash_state h) (hash_buffer h))
          (\<lambda>s. Inr (h\<lparr>hash_state := s\<rparr>))
        else Inr h)"

text \<open>
  The padding loop of \<open>hash_round_finish\<close>, \<open>pos\<close> is \<open>curBufferPos\<close>:
  \<open>while (pos != 56) { pos &= 0x3F; if (pos == 0) process; buffer[pos++] = 0; }\<close>
\<close>

function hash_pad_loop :: "sha_frame \<Rightarrow> nat \<Rightarrow> ocs_hash \<Rightarrow> ocs_hash res" where
  "hash_pad_loop fr pos h =
    (if pos = 56 then Inr h
     else let pos = pos mod 64
          in rbind (if pos = 0 then hash_round_process fr h else Inr h) (\<lambda>h.
            hash_pad_loop fr (pos + 1) (h\<lparr>hash_buffer := (hash_buffer h)[pos := 0]\<rparr>)))"
  by pat_completeness auto

text \<open>The distance of the position to 56, going round at 64.\<close>

definition pad_distance :: "nat \<Rightarrow> nat" where
  "pad_distance pos = (if 64 < pos then 64 else if pos \<le> 56 then 56 - pos else 120 - pos)"

lemma pad_distance_step: "pos \<noteq> 56 \<Longrightarrow> pad_distance (Suc (pos mod 64)) < pad_distance pos"
proof -
  assume n: "pos \<noteq> 56"
  have "pos mod 64 < 64" by simp
  moreover have "pos \<le> 64 \<Longrightarrow> pos mod 64 = pos \<or> pos = 64 \<and> pos mod 64 = 0" by (cases "pos = 64") auto
  ultimately show ?thesis using n by (auto simp: pad_distance_def split: if_splits)
qed

termination hash_pad_loop
  by (relation "measure (\<lambda>(fr, pos, h). pad_distance pos)") (simp_all add: pad_distance_step)

declare hash_pad_loop.simps [simp del]

definition hash_length_bytes :: "u64 \<Rightarrow> bytes" where
  "hash_length_bytes lenInBits = map (\<lambda>i. ucast (drop_bit 56 (push_bit (8 * i) lenInBits))) [0..<8]"

definition hash_pad :: "sha_frame \<Rightarrow> ocs_hash \<Rightarrow> ocs_hash res" where
  "hash_pad fr h =
    (let lenInBits = push_bit 3 (hash_count h);
         curBufferPos = unat (hash_count h AND 0x3F)
     in if hash_sha256 h then
          let h = h\<lparr>hash_buffer := (hash_buffer h)[curBufferPos := 0x80]\<rparr>
          in rbind (hash_pad_loop fr (curBufferPos + 1) h) (\<lambda>h.
               hash_round_process fr (h\<lparr>hash_buffer := blit 56 (hash_length_bytes lenInBits) (hash_buffer h)\<rparr>))
        else Inr h)"

definition hash_xor_key :: "u8 \<Rightarrow> ocs_hash \<Rightarrow> bytes" where
  "hash_xor_key p h = map (\<lambda>i. hash_key h ! i XOR p) [0..<64]"

function hash_round_finish :: "sha_frame \<Rightarrow> ocs_hash \<Rightarrow> bool \<Rightarrow> ocs_hash res" where
  "hash_round_finish fr h r =
    rbind (hash_pad fr h) (\<lambda>h.
    rbind (if tst (hash_mode h) HASH_MODE_HMAC \<and> \<not> r then
             let h = h\<lparr>hash_hmac_temp := blit 0 (take 32 (hash_state h)) (hash_hmac_temp h)\<rparr>;
                 h = hash_round_init h;
                 h = h\<lparr>hash_buffer := hash_xor_key 0x5C h\<rparr>;
                 h = h\<lparr>hash_count := hash_count h + 64\<rparr>
             in rbind (hash_round_process fr h) (\<lambda>h.
               let h = h\<lparr>hash_buffer := blit 0 (take 32 (hash_hmac_temp h)) (hash_buffer h)\<rparr>;
                   h = h\<lparr>hash_count := hash_count h + 32\<rparr>
               in hash_round_finish fr h True)
           else Inr h) (\<lambda>h.
      Inr (h\<lparr>hash_status1 := hash_status1 h OR 4\<rparr>)))"
  by pat_completeness auto
termination
  by (relation "measure (\<lambda>(fr, h, r). if r then 0 else 1)") auto

declare hash_round_finish.simps [simp del]

definition hash_hmac_round1_init :: "sha_frame \<Rightarrow> ocs_hash \<Rightarrow> ocs_hash res" where
  "hash_hmac_round1_init fr h =
    hash_round_process fr (h\<lparr>hash_buffer := hash_xor_key 0x36 h, hash_count := 64\<rparr>)"

definition hash_do_command :: "sha_frame \<Rightarrow> ocs_hash \<Rightarrow> u32 \<Rightarrow> ocs_hash res" where
  "hash_do_command fr h cmd =
    (if cmd = HASH_CMD_START_DATA then
       let h = h\<lparr>hash_count := hash_count h AND NOT 63\<rparr>
       in if tst (hash_mode h) HASH_MODE_HMAC then hash_hmac_round1_init fr h else Inr h
     else if cmd = HASH_CMD_FLUSH_DATA then hash_round_finish fr h False
     else Inr h)"

lemma unat_and_63: "unat (w AND 63 :: u64) = unat w mod 64"
proof -
  have "w AND 63 = take_bit 6 w" by (simp add: take_bit_eq_mask mask_eq_exp_minus_1)
  then show ?thesis by (simp add: take_bit_eq_mod unat_mod)
qed

text \<open>
  The loop of \<open>hash_dma_write\<close>; \<open>bs\<close> is what is left of the caller's data. Its callers pass
  at most the 64 bytes of the engine's buffer, or a count that is an \<open>int\<close>.
\<close>

function hash_dma_write :: "sha_frame \<Rightarrow> ocs_hash \<Rightarrow> bytes \<Rightarrow> ocs_hash res" where
  "hash_dma_write fr h bs =
    (if bs = [] then Inr h
     else
       let bp = unat (hash_count h AND 63);
           rc = (if length bs + bp > 64 then 64 - bp else length bs);
           h = h\<lparr>hash_buffer := blit bp (take rc bs) (hash_buffer h)\<rparr>;
           h = h\<lparr>hash_count := hash_count h + of_nat rc\<rparr>
       in rbind (if hash_count h AND 63 = 0 then hash_round_process fr h else Inr h) (\<lambda>h.
         hash_dma_write fr h (drop rc bs)))"
  by pat_completeness auto

termination
proof (relation "measure (\<lambda>(fr, h, bs). length bs)", goal_cases)
  case 1
  show ?case by simp
next
  case (2 fr h bs bp rc h1 h2 h3)
  have "bp < 64" using 2 by (simp add: unat_and_63)
  with 2 show ?case by auto
qed

declare hash_dma_write.simps [simp del]

section \<open>Register interface\<close>

definition hash_load_key :: "ocs_hash \<Rightarrow> bytes \<Rightarrow> nat \<Rightarrow> ocs_hash" where
  "hash_load_key h data count =
    (let h = h\<lparr>hash_key := blit 0 (replicate count 0) (hash_key h)\<rparr>
     in h\<lparr>hash_key := blit 0 (take count data) (hash_key h)\<rparr>)"

text \<open>The bytes copied to the caller and the return value.\<close>

definition hash_get_result :: "ocs_hash \<Rightarrow> nat \<Rightarrow> int \<times> bytes" where
  "hash_get_result h count = (1, take count (hash_state h))"

definition hash_zero :: ocs_hash where
  "hash_zero = \<lparr>hash_key = replicate 64 0, hash_buffer = replicate 64 0, hash_state = replicate 32 0,
    hash_count = 0, hash_dataptr = 0, hash_stateptr = 0, hash_mode = 0, hash_status1 = 0,
    hash_status2 = 0, hash_hmac_temp = replicate 64 0,
    hash_gpdma = \<lparr>src_addr = 0, src_size = 0, dst_addr = 0, dst_size = 0, control = 0, status = 0\<rparr>\<rparr>"

definition hash_init :: ocs_hash where
  "hash_init = (let h = hash_zero in h\<lparr>hash_gpdma := gpdma_init (hash_gpdma h)\<rparr>)"

definition hash_read :: "ocs_hash \<Rightarrow> int \<Rightarrow> bytes \<Rightarrow> int \<Rightarrow> (int \<times> ocs_hash \<times> bytes) res" where
  "hash_read h addr buf count =
    (if addr < 0 \<or> HASH_SIZE \<le> addr then Inr (0, h, buf)
     else if count \<noteq> 4 \<or> addr mod 4 \<noteq> 0 then Inr (1, h, buf)
     else if addr = HASH_REG_STS1 then rbind (st32 (hash_status1 h) buf) (\<lambda>buf. Inr (1, h, buf))
     else if addr = HASH_REG_STS2 then rbind (st32 (hash_status2 h) buf) (\<lambda>buf. Inr (1, h, buf))
     else if addr = HASH_REG_COUNTL then
       rbind (memcpy 0 4 (le_bytes 8 (hash_count h)) buf) (\<lambda>buf. Inr (1, h, buf))
     else if addr = HASH_REG_COUNTH then
       rbind (memcpy 0 4 (drop 4 (le_bytes 8 (hash_count h))) buf) (\<lambda>buf. Inr (1, h, buf))
     else if addr = HASH_REG_HASH then
       (if hash_stateptr h + count > 32 then Inr (1, h, buf)
        else rbind (memcpy 0 4 (drop (nat (hash_stateptr h)) (hash_state h)) buf)
          (\<lambda>buf. Inr (1, h\<lparr>hash_stateptr := hash_stateptr h + count\<rparr>, buf)))
     else rbind (gpdma_read (hash_gpdma h) addr buf count) (\<lambda>(s, buf). Inr (1, h, buf)))"

text \<open>
  A host of the unit: the program state \<open>'w\<close> that holds the unit and the global
  \<open>gpdma_buffer\<close>, and the two bus callbacks \<open>ocs_spawn\<close> installs in the unit's engine.
\<close>

record 'w hash_host =
  hh_frame :: sha_frame
  hh_get :: "'w \<Rightarrow> ocs_hash"
  hh_put :: "ocs_hash \<Rightarrow> 'w \<Rightarrow> 'w"
  hh_buf_get :: "'w \<Rightarrow> bytes"
  hh_buf_put :: "bytes \<Rightarrow> 'w \<Rightarrow> 'w"
  hh_bus_read :: "u32 \<Rightarrow> bytes \<Rightarrow> nat \<Rightarrow> 'w \<Rightarrow> (bytes \<times> 'w) res"
  hh_bus_write :: "u32 \<Rightarrow> bytes \<Rightarrow> nat \<Rightarrow> 'w \<Rightarrow> (bytes \<times> 'w) res"

text \<open>
  The engine's callbacks as \<open>hash_init\<close> sets them: the internal port is
  \<open>hash_dma_write\<close>, and \<open>hash_dma_read\<close> only logs an error.
\<close>

definition hash_dma_ops :: "'w hash_host \<Rightarrow> 'w dma_ops" where
  "hash_dma_ops host = \<lparr>
     dma_get = (\<lambda>w. hash_gpdma (hh_get host w)),
     dma_put = (\<lambda>st w. hh_put host ((hh_get host w)\<lparr>hash_gpdma := st\<rparr>) w),
     buf_get = hh_buf_get host,
     buf_put = hh_buf_put host,
     bus_read = hh_bus_read host,
     bus_write = hh_bus_write host,
     int_read = (\<lambda>buf n w. Inr (buf, w)),
     int_write = (\<lambda>buf n w. if n \<le> length buf
       then rbind (hash_dma_write (hh_frame host) (hh_get host w) (take n buf)) (\<lambda>h. Inr (hh_put host h w))
       else Inl OutOfBounds)\<rparr>"

definition hash_write :: "'w hash_host \<Rightarrow> int \<Rightarrow> bytes \<Rightarrow> int \<Rightarrow> 'w \<Rightarrow> (int \<times> 'w) res" where
  "hash_write host addr buf count w =
    (let h = hh_get host w; ret = (\<lambda>h. Inr (1, hh_put host h w)) in
     if addr < 0 \<or> HASH_SIZE \<le> addr then Inr (0, w)
     else if addr = HASH_REG_DATA then
       (if 0 \<le> count \<and> nat count \<le> length buf
        then rbind (hash_dma_write (hh_frame host) h (take (nat count) buf)) ret else Inl OutOfBounds)
     else if count \<noteq> 4 \<or> addr mod 4 \<noteq> 0 then Inr (1, w)
     else rbind (ld32 buf) (\<lambda>v.
       if addr = HASH_REG_MODE then ret (hash_round_init (h\<lparr>hash_mode := v, hash_stateptr := 0\<rparr>))
       else if addr = HASH_REG_CMD then rbind (hash_do_command (hh_frame host) h v) ret
       else if addr = HASH_REG_HASH then
         (if hash_stateptr h + count > 32 then Inr (1, w)
          else rbind (memcpy (nat (hash_stateptr h)) 4 buf (hash_state h))
            (\<lambda>s. ret (h\<lparr>hash_state := s, hash_stateptr := hash_stateptr h + count\<rparr>)))
       else if addr = HASH_REG_COUNTL then
         ret (h\<lparr>hash_count := (hash_count h AND NOT (mask 32)) OR ucast v\<rparr>)
       else if addr = HASH_REG_COUNTH then
         ret (h\<lparr>hash_count := (hash_count h AND mask 32) OR push_bit 32 (ucast v)\<rparr>)
       else if addr = HASH_REG_STS1 then ret (h\<lparr>hash_status1 := hash_status1 h AND NOT v\<rparr>)
       else if addr = HASH_REG_STS2 then ret (h\<lparr>hash_status2 := hash_status2 h AND NOT v\<rparr>)
       else rbind (gpdma_write (hash_dma_ops host) addr buf count w) (\<lambda>(s, w). Inr (1, w))))"

section \<open>The unit in a frame with room\<close>

text \<open>
  The same operations where no round faults, as functions on the unit. Each operation of the
  code ends as its function says, or the frame has no room and a round has faulted.
\<close>

definition round_ends :: "sha_frame \<Rightarrow> 'a res \<Rightarrow> 'a \<Rightarrow> bool" where
  "round_ends fr m x \<longleftrightarrow> m = Inr x \<or> m = Inl OutOfBounds \<and> \<not> frame_room fr"

lemma round_ends_Inr [intro, simp]: "round_ends fr (Inr x) x"
  by (simp add: round_ends_def)

lemma round_ends_rbind: "round_ends fr m x \<Longrightarrow> round_ends fr (f x) y \<Longrightarrow> round_ends fr (rbind m f) y"
  by (auto simp: round_ends_def)

lemma round_ends_room: "round_ends fr m x \<Longrightarrow> frame_room fr \<Longrightarrow> m = Inr x"
  by (simp add: round_ends_def)

definition round_process :: "ocs_hash \<Rightarrow> ocs_hash" where
  "round_process h =
    (let h = h\<lparr>hash_stateptr := 0\<rparr>
     in if hash_sha256 h
        then h\<lparr>hash_state := transform_out (after_hash_state h) (hash_state h) (hash_buffer h)\<rparr>
        else h)"

function pad_loop :: "nat \<Rightarrow> ocs_hash \<Rightarrow> ocs_hash" where
  "pad_loop pos h =
    (if pos = 56 then h
     else let pos = pos mod 64;
              h = (if pos = 0 then round_process h else h)
          in pad_loop (pos + 1) (h\<lparr>hash_buffer := (hash_buffer h)[pos := 0]\<rparr>))"
  by pat_completeness auto
termination
  by (relation "measure (\<lambda>(pos, h). pad_distance pos)") (simp_all add: pad_distance_step)

declare pad_loop.simps [simp del]

definition pad_unit :: "ocs_hash \<Rightarrow> ocs_hash" where
  "pad_unit h =
    (let lenInBits = push_bit 3 (hash_count h);
         curBufferPos = unat (hash_count h AND 0x3F)
     in if hash_sha256 h then
          let h = h\<lparr>hash_buffer := (hash_buffer h)[curBufferPos := 0x80]\<rparr>;
              h = pad_loop (curBufferPos + 1) h;
              h = h\<lparr>hash_buffer := blit 56 (hash_length_bytes lenInBits) (hash_buffer h)\<rparr>
          in round_process h
        else h)"

function round_finish :: "ocs_hash \<Rightarrow> bool \<Rightarrow> ocs_hash" where
  "round_finish h r =
    (let h = pad_unit h;
         h = (if tst (hash_mode h) HASH_MODE_HMAC \<and> \<not> r then
                let h = h\<lparr>hash_hmac_temp := blit 0 (take 32 (hash_state h)) (hash_hmac_temp h)\<rparr>;
                    h = hash_round_init h;
                    h = h\<lparr>hash_buffer := hash_xor_key 0x5C h\<rparr>;
                    h = h\<lparr>hash_count := hash_count h + 64\<rparr>;
                    h = round_process h;
                    h = h\<lparr>hash_buffer := blit 0 (take 32 (hash_hmac_temp h)) (hash_buffer h)\<rparr>;
                    h = h\<lparr>hash_count := hash_count h + 32\<rparr>
                in round_finish h True
              else h)
     in h\<lparr>hash_status1 := hash_status1 h OR 4\<rparr>)"
  by pat_completeness auto
termination
  by (relation "measure (\<lambda>(h, r). if r then 0 else 1)") auto

declare round_finish.simps [simp del]

definition hmac_round1 :: "ocs_hash \<Rightarrow> ocs_hash" where
  "hmac_round1 h =
    round_process (h\<lparr>hash_buffer := hash_xor_key 0x36 h, hash_count := 64\<rparr>)"

definition do_command :: "ocs_hash \<Rightarrow> u32 \<Rightarrow> ocs_hash" where
  "do_command h cmd =
    (if cmd = HASH_CMD_START_DATA then
       let h = h\<lparr>hash_count := hash_count h AND NOT 63\<rparr>
       in if tst (hash_mode h) HASH_MODE_HMAC then hmac_round1 h else h
     else if cmd = HASH_CMD_FLUSH_DATA then round_finish h False
     else h)"

function dma_take :: "ocs_hash \<Rightarrow> bytes \<Rightarrow> ocs_hash" where
  "dma_take h bs =
    (if bs = [] then h
     else
       let bp = unat (hash_count h AND 63);
           rc = (if length bs + bp > 64 then 64 - bp else length bs);
           h = h\<lparr>hash_buffer := blit bp (take rc bs) (hash_buffer h)\<rparr>;
           h = h\<lparr>hash_count := hash_count h + of_nat rc\<rparr>;
           h = (if hash_count h AND 63 = 0 then round_process h else h)
       in dma_take h (drop rc bs))"
  by pat_completeness auto

termination
proof (relation "measure (\<lambda>(h, bs). length bs)", goal_cases)
  case 1
  show ?case by simp
next
  case (2 h bs bp rc h1 h2 h3)
  have "bp < 64" using 2 by (simp add: unat_and_63)
  with 2 show ?case by auto
qed

declare dma_take.simps [simp del]

lemma hash_round_process_ends: "round_ends fr (hash_round_process fr h) (round_process h)"
  using sha256_transform_bytes_room sha256_transform_bytes_no_room
  by (cases "frame_room fr") (simp_all add: round_ends_def hash_round_process_def round_process_def Let_def)

lemma hash_round_process_stuck:
  "\<not> frame_room fr \<Longrightarrow> hash_sha256 h \<Longrightarrow> hash_round_process fr h = Inl OutOfBounds"
  by (simp add: hash_round_process_def hash_sha256_def sha256_transform_bytes_no_room Let_def)

lemma hash_pad_loop_ends: "round_ends fr (hash_pad_loop fr pos h) (pad_loop pos h)"
proof (induction pos h rule: pad_loop.induct)
  case (1 pos h)
  show ?case
  proof (cases "pos = 56")
    case False
    have "round_ends fr (if pos mod 64 = 0 then hash_round_process fr h else Inr h)
        (if pos mod 64 = 0 then round_process h else h)"
      by (simp add: hash_round_process_ends)
    then show ?thesis
      unfolding hash_pad_loop.simps[of fr pos h] pad_loop.simps[of pos h] Let_def if_not_P[OF False]
      by (rule round_ends_rbind) (rule "1.IH"[OF False refl refl])
  qed (simp add: hash_pad_loop.simps pad_loop.simps)
qed

lemma hash_pad_ends: "round_ends fr (hash_pad fr h) (pad_unit h)"
proof (cases "hash_sha256 h")
  case True
  show ?thesis
    unfolding hash_pad_def pad_unit_def Let_def if_P[OF True]
    by (rule round_ends_rbind, rule hash_pad_loop_ends, rule hash_round_process_ends)
qed (simp add: hash_pad_def pad_unit_def Let_def)

lemma hash_round_finish_last: "round_ends fr (hash_round_finish fr h True) (round_finish h True)"
  unfolding hash_round_finish.simps[of fr h True] round_finish.simps[of h True] Let_def
  by (rule round_ends_rbind[OF hash_pad_ends]) simp

lemma hash_round_finish_ends: "round_ends fr (hash_round_finish fr h False) (round_finish h False)"
  unfolding hash_round_finish.simps[of fr h False] round_finish.simps[of h False] Let_def
  by (rule round_ends_rbind[OF hash_pad_ends], rule round_ends_rbind[rotated], rule round_ends_Inr)
    (auto intro: round_ends_rbind[OF hash_round_process_ends] hash_round_finish_last)

lemma hash_do_command_ends: "round_ends fr (hash_do_command fr h cmd) (do_command h cmd)"
  by (simp add: hash_do_command_def do_command_def Let_def hash_round_finish_ends
      hash_hmac_round1_init_def hmac_round1_def hash_round_process_ends)

lemma hash_dma_write_ends: "round_ends fr (hash_dma_write fr h bs) (dma_take h bs)"
proof (induction h bs rule: dma_take.induct)
  case (1 h bs)
  show ?case
  proof (cases "bs = []")
    case False
    show ?thesis
      unfolding hash_dma_write.simps[of fr h bs] dma_take.simps[of h bs] Let_def if_not_P[OF False]
      by (rule round_ends_rbind[rotated], rule "1.IH"[OF False refl refl refl refl refl])
        (simp add: hash_round_process_ends)
  qed (simp add: hash_dma_write.simps dma_take.simps)
qed

section \<open>The unit hashes what it is fed\<close>

definition hash_wf :: "ocs_hash \<Rightarrow> bool" where
  "hash_wf h \<longleftrightarrow> length (hash_key h) = 64 \<and> length (hash_buffer h) = 64 \<and>
     length (hash_state h) = 32 \<and> length (hash_hmac_temp h) = 64"

text \<open>
  \<open>fed h xs t\<close>: since the last initialisation the unit has been fed the full blocks
  \<open>xs\<close>, which are compressed into its state, and \<open>t\<close>, which is in its buffer.
  \<open>absorbed h msg\<close>: it has been fed \<open>msg\<close>.
\<close>

definition fed :: "ocs_hash \<Rightarrow> bytes \<Rightarrow> bytes \<Rightarrow> bool" where
  "fed h xs t \<longleftrightarrow> hash_wf h \<and> hash_sha256 h \<and> length xs mod 64 = 0 \<and> length t < 64 \<and>
     hash_count h = of_nat (length xs + length t) \<and>
     hash_state h = beint_to_bytes (fips_process sha256_init_state xs) \<and>
     take (length t) (hash_buffer h) = t"

definition absorbed :: "ocs_hash \<Rightarrow> bytes \<Rightarrow> bool" where
  "absorbed h msg \<longleftrightarrow> (\<exists>xs t. msg = xs @ t \<and> fed h xs t)"

lemma hash_sha256_update [simp]:
  "hash_sha256 (h\<lparr>hash_count := c\<rparr>) = hash_sha256 h"
  "hash_sha256 (h\<lparr>hash_state := s\<rparr>) = hash_sha256 h"
  "hash_sha256 (h\<lparr>hash_buffer := b\<rparr>) = hash_sha256 h"
  "hash_sha256 (h\<lparr>hash_stateptr := p\<rparr>) = hash_sha256 h"
  "hash_sha256 (h\<lparr>hash_status1 := a\<rparr>) = hash_sha256 h"
  "hash_sha256 (h\<lparr>hash_status2 := a\<rparr>) = hash_sha256 h"
  "hash_sha256 (h\<lparr>hash_hmac_temp := b\<rparr>) = hash_sha256 h"
  "hash_sha256 (h\<lparr>hash_gpdma := g\<rparr>) = hash_sha256 h"
  "hash_sha256 (h\<lparr>hash_key := k\<rparr>) = hash_sha256 h"
  by (simp_all add: hash_sha256_def)

lemma hash_round_process_sha256:
  assumes "hash_sha256 h" and "hash_state h = beint_to_bytes H" and "length H = 8"
  shows "round_process h = h\<lparr>hash_stateptr := 0,
    hash_state := beint_to_bytes (fips_compress H (beint_words (hash_buffer h)))\<rparr>"
  using assms by (simp add: round_process_def transform_out_fips Let_def)

text \<open>Compressing a full buffer that holds the next block.\<close>

lemma hash_round_process_block:
  assumes "hash_sha256 h" and "hash_state h = beint_to_bytes (fips_process sha256_init_state xs)"
    and "length xs mod 64 = 0" and "length (hash_buffer h) = 64"
  shows "round_process h = h\<lparr>hash_stateptr := 0,
    hash_state := beint_to_bytes (fips_process sha256_init_state (xs @ hash_buffer h))\<rparr>"
  using assms by (subst hash_round_process_sha256) (simp_all add: fips_process_append fips_process_one)

lemma fed_block:
  assumes "hash_wf h" and "hash_sha256 h" and "length xs mod 64 = 0"
    and "hash_count h = of_nat (length xs + 64)"
    and "hash_state h = beint_to_bytes (fips_process sha256_init_state xs)"
  shows "fed (round_process h) (xs @ hash_buffer h) []"
proof -
  have b: "length (hash_buffer h) = 64" using assms(1) by (simp add: hash_wf_def)
  show ?thesis
    using assms b hash_round_process_block[OF assms(2,5,3) b]
    by (simp add: fed_def hash_wf_def)
qed

lemma unat_of_nat_and_63: "unat (of_nat n AND 63 :: u64) = n mod 64"
  by (simp add: unat_and_63 unsigned_of_nat take_bit_eq_mod mod_mod_cancel)

lemma and_63_eq_0: "(of_nat n AND 63 :: u64) = 0 \<longleftrightarrow> n mod 64 = 0"
  by (metis unat_of_nat_and_63 unat_eq_zero)

lemma mod_add_blocks: "(a :: nat) mod 64 = 0 \<Longrightarrow> (a + b) mod 64 = b mod 64"
  using mod_add_left_eq[of a 64 b] by simp

lemma fed_position:
  assumes "fed h xs t"
  shows "unat (hash_count h AND 63) = length t"
proof -
  have "(length xs + length t) mod 64 = length t"
    using assms by (subst mod_add_blocks) (simp_all add: fed_def)
  with assms show ?thesis by (simp only: fed_def unat_of_nat_and_63)
qed

text \<open>One pass of the loop: as much data as fits is stored, a full buffer is compressed.\<close>

definition dma_chunk :: "ocs_hash \<Rightarrow> bytes \<Rightarrow> ocs_hash" where
  "dma_chunk h ds =
    (let bp = unat (hash_count h AND 63);
         h = h\<lparr>hash_buffer := blit bp ds (hash_buffer h)\<rparr>;
         h = h\<lparr>hash_count := hash_count h + of_nat (length ds)\<rparr>
     in if hash_count h AND 63 = 0 then round_process h else h)"

definition chunk_size :: "ocs_hash \<Rightarrow> bytes \<Rightarrow> nat" where
  "chunk_size h bs = (let bp = unat (hash_count h AND 63) in
     if length bs + bp > 64 then 64 - bp else length bs)"

lemma hash_dma_write_step:
  assumes "bs \<noteq> []"
  shows "dma_take h bs =
    dma_take (dma_chunk h (take (chunk_size h bs) bs)) (drop (chunk_size h bs) bs)"
proof -
  have "length (take (chunk_size h bs) bs) = chunk_size h bs"
    by (auto simp: chunk_size_def Let_def)
  with assms show ?thesis
    by (simp add: dma_take.simps[of h bs] dma_chunk_def Let_def chunk_size_def)
qed

lemma dma_chunk_fed:
  assumes "fed h xs t" and "length t + length ds \<le> 64" and "ds \<noteq> []"
  shows "absorbed (dma_chunk h ds) ((xs @ t) @ ds)"
proof -
  note bp = fed_position[OF assms(1)]
  have wf: "hash_wf h" "length (hash_buffer h) = 64"
    using assms(1) by (simp_all add: fed_def hash_wf_def)
  define h1 where "h1 = h\<lparr>hash_buffer := blit (length t) ds (hash_buffer h),
    hash_count := hash_count h + of_nat (length ds)\<rparr>"
  have wf1: "hash_wf h1" "hash_sha256 h1" "hash_state h1 = hash_state h"
    using assms wf by (simp_all add: h1_def hash_wf_def fed_def)
  have count: "hash_count h1 = of_nat (length xs + (length t + length ds))"
    using assms(1) by (simp add: h1_def fed_def)
  have pre: "take (length t + length ds) (hash_buffer h1) = t @ ds"
  proof -
    have "take (length t) (hash_buffer h) = t" using assms(1) by (simp only: fed_def)
    from take_blit[OF this refl, of ds] show ?thesis by (simp add: h1_def)
  qed
  have chunk: "dma_chunk h ds = (if hash_count h1 AND 63 = 0 then round_process h1 else h1)"
    by (simp add: dma_chunk_def bp h1_def Let_def)
  have m: "(length xs + (length t + length ds)) mod 64 = (length t + length ds) mod 64"
    by (rule mod_add_blocks) (use assms(1) in \<open>simp add: fed_def\<close>)
  show ?thesis
  proof (cases "length t + length ds = 64")
    case True
    have "hash_buffer h1 = t @ ds"
      using pre True wf1(1) by (simp add: hash_wf_def)
    moreover have "fed (round_process h1) (xs @ hash_buffer h1) []"
      using assms(1) wf1 count True by (intro fed_block) (auto simp: fed_def)
    moreover have "dma_chunk h ds = round_process h1"
      unfolding chunk count and_63_eq_0 m by (simp add: True)
    ultimately show ?thesis unfolding absorbed_def by (intro exI[of _ "xs @ t @ ds"] exI[of _ "[]"]) simp
  next
    case False
    with assms(2) have lt: "length t + length ds < 64" by simp
    have "dma_chunk h ds = h1"
      unfolding chunk count and_63_eq_0 m using lt assms(3) by simp
    moreover have "fed h1 xs (t @ ds)"
      using wf1 assms(1) lt count pre by (simp add: fed_def)
    ultimately show ?thesis
      unfolding absorbed_def by (intro exI[of _ xs] exI[of _ "t @ ds"]) simp
  qed
qed

text \<open>Feeding more data, in whatever pieces, appends it to what was absorbed.\<close>

lemma hash_dma_write_absorbed:
  "absorbed h msg \<Longrightarrow> absorbed (dma_take h bs) (msg @ bs)"
proof (induction "length bs" arbitrary: h msg bs rule: less_induct)
  case less
  show ?case
  proof (cases "bs = []")
    case True
    then show ?thesis using less.prems by (simp add: dma_take.simps)
  next
    case False
    obtain xs t where msg: "msg = xs @ t" and fed: "fed h xs t"
      using less.prems by (auto simp: absorbed_def)
    let ?n = "chunk_size h bs"
    have n: "0 < ?n" "?n \<le> length bs" "length t + ?n \<le> 64"
      using False fed_position[OF fed] fed by (auto simp: chunk_size_def fed_def Let_def)
    have "absorbed (dma_chunk h (take ?n bs)) (msg @ take ?n bs)"
      unfolding msg using n False by (intro dma_chunk_fed[OF fed]) simp_all
    then have "absorbed (dma_take (dma_chunk h (take ?n bs)) (drop ?n bs))
        ((msg @ take ?n bs) @ drop ?n bs)"
      using n by (intro less.hyps) simp_all
    then show ?thesis by (simp only: hash_dma_write_step[OF False] append_assoc append_take_drop_id)
  qed
qed

section \<open>Padding and the digest\<close>

lemma hash_pad_loop_low:
  assumes "0 < pos" and "pos \<le> 56" and "length (hash_buffer h) = 64"
  shows "pad_loop pos h =
    h\<lparr>hash_buffer := take pos (hash_buffer h) @ replicate (56 - pos) 0 @ drop 56 (hash_buffer h)\<rparr>"
  using assms
proof (induction "56 - pos" arbitrary: pos h)
  case 0
  then show ?case by (simp add: pad_loop.simps)
next
  case (Suc n)
  let ?b = "(hash_buffer h)[pos := 0]"
  have pos: "0 < pos" "pos < 56" "pos < length (hash_buffer h)" using Suc by simp_all
  have step: "pad_loop pos h = pad_loop (pos + 1) (h\<lparr>hash_buffer := ?b\<rparr>)"
    using pos by (simp add: pad_loop.simps[of pos h])
  have t: "take (pos + 1) ?b = take pos (hash_buffer h) @ [0]"
    using pos by (simp add: take_Suc_conv_app_nth)
  have d: "drop 56 ?b = drop 56 (hash_buffer h)" using pos by simp
  have r: "replicate (56 - pos) 0 = 0 # replicate (56 - (pos + 1)) (0 :: u8)"
    using pos by (simp add: Suc_diff_Suc flip: replicate_Suc)
  have "pad_loop (pos + 1) (h\<lparr>hash_buffer := ?b\<rparr>) = h\<lparr>hash_buffer :=
      take (pos + 1) ?b @ replicate (56 - (pos + 1)) 0 @ drop 56 ?b\<rparr>"
    using Suc.hyps(1)[of "pos + 1" "h\<lparr>hash_buffer := ?b\<rparr>"] Suc.hyps(2) Suc.prems pos by simp
  then show ?case unfolding step t d r by simp
qed

lemma length_hash_state_round [simp]:
  "hash_buffer (round_process h) = hash_buffer h"
  by (simp add: round_process_def Let_def)

lemma hash_pad_loop_high:
  assumes "56 < pos" and "pos \<le> 64" and "length (hash_buffer h) = 64"
  shows "pad_loop pos h =
    (let h1 = round_process (h\<lparr>hash_buffer := take pos (hash_buffer h) @ replicate (64 - pos) 0\<rparr>)
     in h1\<lparr>hash_buffer := replicate 56 0 @ drop 56 (hash_buffer h1)\<rparr>)"
  using assms
proof (induction "64 - pos" arbitrary: pos h)
  case 0
  then have pos: "pos = 64" by simp
  define h1 where "h1 = round_process h"
  have len: "length (hash_buffer h1) = 64" using 0 by (simp add: h1_def)
  have "pad_loop 64 h = pad_loop 1 (h1\<lparr>hash_buffer := (hash_buffer h1)[0 := 0]\<rparr>)"
    by (simp add: pad_loop.simps[of 64 h] h1_def)
  moreover have "take 1 ((hash_buffer h1)[0 := 0]) = [0]"
    using len by (cases "hash_buffer h1") simp_all
  moreover have "replicate 56 0 = 0 # replicate (56 - 1) (0 :: u8)" by (simp flip: replicate_Suc)
  ultimately show ?case
    using len 0 by (simp add: hash_pad_loop_low pos Let_def h1_def[symmetric] del: One_nat_def)
next
  case (Suc n)
  let ?b = "(hash_buffer h)[pos := 0]"
  have pos: "56 < pos" "pos < 64" using Suc by simp_all
  have step: "pad_loop pos h = pad_loop (pos + 1) (h\<lparr>hash_buffer := ?b\<rparr>)"
    using pos by (simp add: pad_loop.simps[of pos h])
  have t: "take (pos + 1) ?b = take pos (hash_buffer h) @ [0]"
    using pos Suc.prems(3) by (simp add: take_Suc_conv_app_nth)
  have r: "replicate (64 - pos) 0 = 0 # replicate (64 - (pos + 1)) (0 :: u8)"
    using pos by (simp add: Suc_diff_Suc flip: replicate_Suc)
  have "pad_loop (pos + 1) (h\<lparr>hash_buffer := ?b\<rparr>) =
      (let h1 = round_process (h\<lparr>hash_buffer := take (pos + 1) ?b @ replicate (64 - (pos + 1)) 0\<rparr>)
       in h1\<lparr>hash_buffer := replicate 56 0 @ drop 56 (hash_buffer h1)\<rparr>)"
    using Suc.hyps(1)[of "pos + 1" "h\<lparr>hash_buffer := ?b\<rparr>"] Suc.hyps(2) Suc.prems pos by simp
  then show ?case unfolding step t r by simp
qed

lemma length_hash_length_bytes [simp]: "length (hash_length_bytes n) = 8"
  by (simp add: hash_length_bytes_def)

text \<open>The length field: the code emits the top byte and shifts, the standard says big-endian.\<close>

lemma hash_length_bytes_be: "hash_length_bytes n = rev (le_bytes 8 n)"
proof (rule nth_equalityI)
  fix i assume "i < length (hash_length_bytes n)"
  then have i: "i < 8" by simp
  show "hash_length_bytes n ! i = rev (le_bytes 8 n) ! i"
  proof (rule bit_word_eqI)
    fix j :: nat assume "j < LENGTH(8)"
    then have j: "j < 8" by simp
    have "8 * i \<le> 56 + j" "56 + j - 8 * i = 8 * (8 - Suc i) + j" using i by simp_all
    then show "bit (hash_length_bytes n ! i) j = bit (rev (le_bytes 8 n) ! i) j"
      using i j by (simp add: hash_length_bytes_def rev_nth le_bytes_def bit_simps)
  qed
qed simp

lemma length_bits: "push_bit 3 (of_nat n :: u64) = of_nat (8 * n)"
  by (simp add: push_bit_eq_mult)

text \<open>The last one or two blocks, as the code builds them from what is in the buffer.\<close>

definition pad_tail :: "bytes \<Rightarrow> nat \<Rightarrow> bytes" where
  "pad_tail t n = t @ [0x80] @ replicate ((119 - length t) mod 64) 0 @ rev (le_bytes 8 (of_nat (8 * n) :: u64))"

lemma fips_pad_tail:
  assumes "length xs mod 64 = 0" and "length t < 64"
  shows "fips_pad (xs @ t) = xs @ pad_tail t (length xs + length t)"
proof -
  have "length (xs @ t) mod 64 = length t"
    using assms mod_add_blocks[of "length xs" "length t"] by simp
  then show ?thesis by (simp only: fips_pad_def pad_tail_def append_assoc length_append)
qed

lemma pad_prefix:
  assumes "take (length t) b = t" and "length t < length b"
  shows "take (length t + 1) (b[length t := c]) = t @ [c]"
  using assms by (simp add: take_Suc_conv_app_nth)

lemma hash_pad_digest:
  assumes f: "fed h xs t"
  shows "hash_state (pad_unit h) = fips_sha256 (xs @ t)"
proof -
  have wf: "length (hash_buffer h) = 64" "hash_sha256 h" "length xs mod 64 = 0" "length t < 64"
      "hash_count h = of_nat (length xs + length t)" "take (length t) (hash_buffer h) = t"
    and st: "hash_state h = beint_to_bytes (fips_process sha256_init_state xs)"
    using f by (simp_all add: fed_def hash_wf_def)
  define len where "len = rev (le_bytes 8 (of_nat (8 * (length xs + length t)) :: u64))"
  have llen: "length len = 8" by (simp add: len_def)
  have lenb: "hash_length_bytes (push_bit 3 (hash_count h)) = len"
    unfolding wf(5) hash_length_bytes_be length_bits len_def ..
  define h1 where "h1 = h\<lparr>hash_buffer := (hash_buffer h)[length t := 0x80]\<rparr>"
  have h1: "length (hash_buffer h1) = 64" "hash_sha256 h1" "hash_state h1 = hash_state h"
    using wf by (simp_all add: h1_def)
  have pre: "take (length t + 1) (hash_buffer h1) = t @ [0x80]"
    using pad_prefix[OF wf(6), of "0x80"] wf by (simp add: h1_def)
  define h2 where "h2 = pad_loop (length t + 1) h1"
  define h3 where "h3 = h2\<lparr>hash_buffer := blit 56 len (hash_buffer h2)\<rparr>"
  have pad: "pad_unit h = round_process h3"
    unfolding pad_unit_def Let_def lenb fed_position[OF f] h1_def h2_def h3_def using wf(2) by simp
  have blit: "blit 56 len (p @ q) = p @ len" if "length p = 56" "length q = 8" for p q
    using that llen by (simp add: blit_def)
  show ?thesis
  proof (cases "length t + 1 \<le> 56")
    case True
    define b2 where "b2 = (t @ [0x80]) @ replicate (56 - (length t + 1)) 0"
    have "0 < length t + 1" by simp
    from hash_pad_loop_low[OF this True h1(1)]
    have h2: "h2 = h1\<lparr>hash_buffer := b2 @ drop 56 (hash_buffer h1)\<rparr>"
      unfolding h2_def pre b2_def by (simp only: append_assoc)
    have "length b2 = 56" using True by (simp add: b2_def)
    then have buf: "hash_buffer h3 = b2 @ len"
      using h1(1) by (simp add: h3_def h2 blit)
    have "(119 - length t) mod 64 = 56 - (length t + 1)" using True by (simp add: mod_if)
    then have pt: "hash_buffer h3 = pad_tail t (length xs + length t)"
      by (simp add: pad_tail_def buf b2_def len_def)
    have st3: "hash_sha256 h3" "hash_state h3 = beint_to_bytes (fips_process sha256_init_state xs)"
      "length (hash_buffer h3) = 64"
      using h1 st llen \<open>length b2 = 56\<close> by (simp_all add: h3_def h2)
    show ?thesis
      unfolding pad hash_round_process_block[OF st3(1,2) wf(3) st3(3)]
      by (simp add: pt fips_sha256_def fips_pad_tail wf)
  next
    case False
    define pos where "pos = length t + 1"
    have pos: "56 < pos" "pos \<le> 64" using False wf by (simp_all add: pos_def)
    define b1 where "b1 = t @ [0x80] @ replicate (64 - pos) 0"
    define g where "g = round_process (h1\<lparr>hash_buffer := b1\<rparr>)"
    have b1: "length b1 = 64" using wf by (simp add: b1_def pos_def)
    have g: "g = h1\<lparr>hash_buffer := b1, hash_stateptr := 0,
        hash_state := beint_to_bytes (fips_process sha256_init_state (xs @ b1))\<rparr>"
      unfolding g_def using h1 st wf b1 by (subst hash_round_process_block[of _ xs]) simp_all
    have h2: "h2 = g\<lparr>hash_buffer := replicate 56 0 @ drop 56 b1\<rparr>"
      unfolding h2_def pos_def[symmetric] hash_pad_loop_high[OF pos h1(1)] Let_def
        pre[folded pos_def] append_assoc b1_def[symmetric] g_def[symmetric] by (simp add: g_def)
    have buf: "hash_buffer h3 = replicate 56 0 @ len"
      using b1 by (simp add: h3_def h2 blit)
    have "(119 - length t) mod 64 = (64 - pos) + 56" using pos by (simp add: pos_def mod_if)
    then have pt: "pad_tail t (length xs + length t) = b1 @ hash_buffer h3"
      by (simp add: pad_tail_def buf len_def b1_def replicate_add)
    have st3: "hash_sha256 h3" "hash_state h3 = beint_to_bytes (fips_process sha256_init_state (xs @ b1))"
      "length (hash_buffer h3) = 64" "length (xs @ b1) mod 64 = 0"
      using h1 llen wf b1 by (simp_all add: h3_def h2 g mod_add_blocks)
    show ?thesis
      unfolding pad hash_round_process_block[OF st3(1,2,4,3)]
      by (simp add: pt fips_sha256_def fips_pad_tail wf)
  qed
qed

section \<open>What the operations keep\<close>

text \<open>The mode and the key only change by register writes, the arrays keep their size, and
  the read pointer of the state stays or is reset.\<close>

definition same_setup :: "ocs_hash \<Rightarrow> ocs_hash \<Rightarrow> bool" where
  "same_setup h h' \<longleftrightarrow> hash_mode h' = hash_mode h \<and> hash_key h' = hash_key h \<and> hash_gpdma h' = hash_gpdma h \<and>
     length (hash_hmac_temp h') = length (hash_hmac_temp h) \<and>
     length (hash_buffer h') = length (hash_buffer h) \<and>
     (length (hash_state h) = 32 \<longrightarrow> length (hash_state h') = 32) \<and>
     (hash_stateptr h' = hash_stateptr h \<or> hash_stateptr h' = 0)"

lemma same_setup_refl [intro, simp]: "same_setup h h"
  by (simp add: same_setup_def)

lemma same_setup_trans: "same_setup h h' \<Longrightarrow> same_setup h' h'' \<Longrightarrow> same_setup h h''"
  by (auto simp: same_setup_def)

lemma same_setup_wf: "same_setup h h' \<Longrightarrow> hash_wf h \<Longrightarrow> hash_wf h'"
  by (simp add: same_setup_def hash_wf_def)

lemma same_setup_sha256: "same_setup h h' \<Longrightarrow> hash_sha256 h' = hash_sha256 h"
  by (simp add: same_setup_def hash_sha256_def)

lemma same_setup_process: "same_setup h (round_process h)"
  by (simp add: same_setup_def round_process_def Let_def)

lemma same_setup_buffer: "length b = length (hash_buffer h) \<Longrightarrow> same_setup h (h\<lparr>hash_buffer := b\<rparr>)"
  by (simp add: same_setup_def)

lemma same_setup_pad_loop: "same_setup h (pad_loop pos h)"
proof (induction pos h rule: pad_loop.induct)
  case (1 pos h)
  define p where "p = pos mod 64"
  define g where "g = (if p = 0 then round_process h else h)"
  define g' where "g' = g\<lparr>hash_buffer := (hash_buffer g)[p := 0]\<rparr>"
  have "same_setup h g" by (simp add: g_def same_setup_process)
  then have hg: "same_setup h g'" by (simp add: same_setup_def g'_def)
  show ?case
  proof (cases "pos = 56")
    case False
    have eq: "pad_loop pos h = pad_loop (p + 1) g'"
      using False by (simp add: pad_loop.simps[of pos h] p_def g_def g'_def Let_def)
    have "same_setup g' (pad_loop (p + 1) g')"
      unfolding g'_def by (rule "1.IH"[OF False p_def g_def])
    with hg show ?thesis unfolding eq by (rule same_setup_trans)
  qed (simp add: pad_loop.simps)
qed

lemma same_setup_pad:
  assumes "hash_wf h"
  shows "same_setup h (pad_unit h)"
proof (cases "hash_sha256 h")
  case True
  define p where "p = unat (hash_count h AND 63)"
  define h1 where "h1 = h\<lparr>hash_buffer := (hash_buffer h)[p := 0x80]\<rparr>"
  define h2 where "h2 = pad_loop (p + 1) h1"
  define h3 where "h3 = h2\<lparr>hash_buffer := blit 56 (hash_length_bytes (push_bit 3 (hash_count h))) (hash_buffer h2)\<rparr>"
  have "same_setup h h1" by (simp add: h1_def same_setup_buffer)
  then have 2: "same_setup h h2" unfolding h2_def by (rule same_setup_trans) (rule same_setup_pad_loop)
  then have "length (hash_buffer h2) = 64" using assms by (simp add: same_setup_def hash_wf_def)
  then have "same_setup h2 h3" unfolding h3_def by (intro same_setup_buffer) simp
  from same_setup_trans[OF same_setup_trans[OF 2 this] same_setup_process[of h3]]
  show ?thesis
    using True by (simp add: pad_unit_def Let_def h3_def h2_def h1_def p_def)
qed (simp add: pad_unit_def Let_def)

lemma chunk_size_bounds:
  "unat (hash_count h AND 63) + chunk_size h bs \<le> 64" "chunk_size h bs \<le> length bs"
  "bs \<noteq> [] \<Longrightarrow> 0 < chunk_size h bs"
  using pos_mod_bound by (auto simp: chunk_size_def Let_def unat_and_63 intro: less_imp_le)

lemma same_setup_dma_chunk:
  assumes "hash_wf h" and "unat (hash_count h AND 63) + length ds \<le> 64"
  shows "same_setup h (dma_chunk h ds)"
proof -
  define c where "c = h\<lparr>hash_buffer := blit (unat (hash_count h AND 63)) ds (hash_buffer h),
    hash_count := hash_count h + of_nat (length ds)\<rparr>"
  have c: "same_setup h c" using assms by (simp add: c_def same_setup_def hash_wf_def)
  have "dma_chunk h ds = c \<or> dma_chunk h ds = round_process c" by (simp add: dma_chunk_def c_def Let_def)
  with c show ?thesis using same_setup_trans[OF c same_setup_process] by auto
qed

lemma same_setup_dma_write:
  assumes "hash_wf h"
  shows "same_setup h (dma_take h bs)"
  using assms
proof (induction "length bs" arbitrary: h bs rule: less_induct)
  case less
  show ?case
  proof (cases "bs = []")
    case False
    let ?n = "chunk_size h bs" let ?g = "dma_chunk h (take (chunk_size h bs) bs)"
    note n = chunk_size_bounds(1,2)[of h bs] chunk_size_bounds(3)[OF False]
    have g: "same_setup h ?g" using n by (intro same_setup_dma_chunk less.prems) simp
    have "same_setup ?g (dma_take ?g (drop ?n bs))"
      using n False same_setup_wf[OF g less.prems] by (intro less.hyps) (cases bs, simp_all)
    with g show ?thesis
      unfolding hash_dma_write_step[OF False] by (rule same_setup_trans)
  qed (simp add: dma_take.simps)
qed

text \<open>How the data is cut does not matter, in whatever state the unit is.\<close>

lemma position_add: "unat ((w + of_nat n) AND 63 :: u64) = (unat (w AND 63) + n) mod 64"
proof -
  have "unat (w + of_nat n) mod 64 = (unat w + n) mod 64"
    by (simp add: unat_word_ariths(1) unsigned_of_nat take_bit_eq_mod mod_simps mod_mod_cancel)
  then show ?thesis by (simp add: unat_and_63 mod_simps)
qed

lemma dma_chunk_append:
  assumes "hash_wf h" and "xs \<noteq> []" and "unat (hash_count h AND 63) + length xs < 64"
    and "unat (hash_count h AND 63) + length xs + length ys \<le> 64"
  shows "dma_chunk (dma_chunk h xs) ys = dma_chunk h (xs @ ys)"
    and "unat (hash_count (dma_chunk h xs) AND 63) = unat (hash_count h AND 63) + length xs"
proof -
  let ?bp = "unat (hash_count h AND 63)"
  have bp: "unat ((hash_count h + of_nat (length xs)) AND 63) = ?bp + length xs"
    using assms(3) by (simp add: position_add)
  have "0 < ?bp + length xs" using assms(2) by simp
  then have "(hash_count h + of_nat (length xs)) AND 63 \<noteq> 0" using bp by (metis less_irrefl unat_0)
  then have one: "dma_chunk h xs = h\<lparr>hash_buffer := blit ?bp xs (hash_buffer h),
      hash_count := hash_count h + of_nat (length xs)\<rparr>"
    by (simp add: dma_chunk_def Let_def)
  show "unat (hash_count (dma_chunk h xs) AND 63) = ?bp + length xs" by (simp add: one bp)
  show "dma_chunk (dma_chunk h xs) ys = dma_chunk h (xs @ ys)"
    using assms(1,4) bp unfolding one
    by (simp add: dma_chunk_def[of _ ys] dma_chunk_def[of _ "xs @ ys"] Let_def blit_append hash_wf_def add.assoc)
qed

lemma hash_dma_write_append:
  "hash_wf h \<Longrightarrow> dma_take h (xs @ ys) = dma_take (dma_take h xs) ys"
proof (induction "length xs" arbitrary: h xs rule: less_induct)
  case less
  let ?bp = "unat (hash_count h AND 63)"
  show ?case
  proof (cases "xs = [] \<or> ys = []")
    case True
    then show ?thesis by (auto simp: dma_take.simps[of _ "[]"])
  next
    case False
    then have ne: "xs \<noteq> []" "xs @ ys \<noteq> []" "0 < length ys" by auto
    note n = chunk_size_bounds(1,2)[of h xs] chunk_size_bounds(3)[OF ne(1)]
    show ?thesis
    proof (cases "64 \<le> ?bp + length xs")
      case True
      obtain k where k: "length ys = Suc k" using ne(3) by (cases ys) auto
      have c: "chunk_size h (xs @ ys) = chunk_size h xs" "chunk_size h xs \<le> length xs"
        using True k by (auto simp: chunk_size_def Let_def)
      let ?g = "dma_chunk h (take (chunk_size h xs) xs)"
      have wf: "hash_wf ?g" using n by (intro same_setup_wf[OF same_setup_dma_chunk less.prems] less.prems) simp
      have "dma_take ?g (drop (chunk_size h xs) xs @ ys) =
          dma_take (dma_take ?g (drop (chunk_size h xs) xs)) ys"
        using n ne(1) by (intro less.hyps wf) (cases xs, simp_all)
      then show ?thesis
        unfolding hash_dma_write_step[OF ne(1)] hash_dma_write_step[OF ne(2)] using c by simp
    next
      case fits: False
      then have c: "chunk_size h xs = length xs" by (simp add: chunk_size_def)
      then have w: "dma_take h xs = dma_chunk h xs"
        by (simp add: hash_dma_write_step[OF ne(1)] dma_take.simps[of _ "[]"])
      have p: "unat (hash_count (dma_chunk h xs) AND 63) = ?bp + length xs"
        using fits ne by (intro dma_chunk_append(2)[where ys = "[]"] less.prems) simp_all
      let ?m = "chunk_size (dma_chunk h xs) ys"
      have m: "chunk_size h (xs @ ys) = length xs + ?m" "?bp + length xs + ?m \<le> 64" "?m \<le> length ys"
        using fits by (auto simp: chunk_size_def Let_def p)
      have ys: "ys \<noteq> []" using ne(3) by simp
      have "dma_chunk (dma_chunk h xs) (take ?m ys) = dma_chunk h (xs @ take ?m ys)"
        using fits m ne by (intro dma_chunk_append(1) less.prems) simp_all
      then show ?thesis
        unfolding w hash_dma_write_step[OF ne(2)] hash_dma_write_step[OF ys] m(1) by simp
    qed
  qed
qed

section \<open>Digest and HMAC\<close>

definition feed_unit :: "bytes list \<Rightarrow> ocs_hash \<Rightarrow> ocs_hash" where
  "feed_unit = fold (\<lambda>bs h. dma_take h bs)"

lemma hash_feed_absorbed: "absorbed h msg \<Longrightarrow> absorbed (feed_unit cs h) (msg @ concat cs)"
  by (induction cs arbitrary: h msg)
    (auto simp: feed_unit_def simp flip: append_assoc intro: hash_dma_write_absorbed)

lemma same_setup_feed: "hash_wf h \<Longrightarrow> same_setup h (feed_unit cs h)"
  by (induction cs arbitrary: h)
    (auto simp: feed_unit_def intro: same_setup_trans same_setup_dma_write same_setup_wf)

lemma absorbed_wf: "absorbed h msg \<Longrightarrow> hash_wf h \<and> hash_sha256 h"
  by (auto simp: absorbed_def fed_def)

lemma hash_round_init_absorbed:
  assumes "hash_wf h" and "hash_sha256 h"
  shows "absorbed (hash_round_init h) []" and "same_setup h (hash_round_init h)"
  using assms
  by (simp_all add: absorbed_def fed_def hash_round_init_def hash_wf_def sha256_init_bytes_def
      fips_process_short same_setup_def Let_def)

lemma hash_pad_absorbed: "absorbed h msg \<Longrightarrow> hash_state (pad_unit h) = fips_sha256 msg"
  by (auto simp: absorbed_def hash_pad_digest)

text \<open>FIPS 198-1, for a key already padded to the block size.\<close>

definition hmac_sha256 :: "bytes \<Rightarrow> bytes \<Rightarrow> bytes" where
  "hmac_sha256 key msg =
    fips_sha256 (map (\<lambda>k. k XOR 0x5C) key @ fips_sha256 (map (\<lambda>k. k XOR 0x36) key @ msg))"

lemma length_fips_sha256 [simp]: "length (fips_sha256 msg) = 32"
  by (simp add: fips_sha256_def)

lemma hash_xor_key_map:
  assumes "hash_wf h"
  shows "hash_xor_key p h = map (\<lambda>k. k XOR p) (hash_key h)"
proof -
  have "[0..<64] = [0..<length (hash_key h)]" using assms by (simp add: hash_wf_def)
  then have "hash_xor_key p h = map (\<lambda>k. k XOR p) (map ((!) (hash_key h)) [0..<length (hash_key h)])"
    by (simp add: hash_xor_key_def)
  then show ?thesis by (simp only: map_nth)
qed

lemma hash_start_hmac_absorbed:
  assumes "hash_wf h" and "hash_sha256 h" and "hash_state h = sha256_init_bytes"
  shows "absorbed (hmac_round1 h) (map (\<lambda>k. k XOR 0x36) (hash_key h))"
    and "same_setup h (hmac_round1 h)"
proof -
  define b where "b = map (\<lambda>k. k XOR 0x36) (hash_key h)"
  define g where "g = h\<lparr>hash_buffer := b, hash_count := 64\<rparr>"
  have eq: "hmac_round1 h = round_process g"
    by (simp add: hmac_round1_def g_def b_def hash_xor_key_map[OF assms(1)])
  have lb: "length b = 64" using assms(1) by (simp add: b_def hash_wf_def)
  have "fed (round_process g) ([] @ hash_buffer g) []"
    using assms lb by (intro fed_block) (simp_all add: g_def hash_wf_def sha256_init_bytes_def fips_process_short)
  then show "absorbed (hmac_round1 h) (map (\<lambda>k. k XOR 0x36) (hash_key h))"
    unfolding eq b_def[symmetric] absorbed_def by (intro exI[of _ b] exI[of _ "[]"]) (simp add: g_def)
  have "same_setup h g" using assms(1) lb by (simp add: g_def same_setup_def hash_wf_def)
  then show "same_setup h (hmac_round1 h)"
    unfolding eq by (rule same_setup_trans) (rule same_setup_process)
qed

lemma hash_round_finish_plain:
  assumes "r \<or> \<not> tst (hash_mode (pad_unit h)) HASH_MODE_HMAC"
  shows "round_finish h r = (pad_unit h)\<lparr>hash_status1 := hash_status1 (pad_unit h) OR 4\<rparr>"
  using assms by (auto simp: round_finish.simps Let_def)

lemma hash_flush_digest:
  assumes "absorbed h msg" and "\<not> tst (hash_mode h) HASH_MODE_HMAC"
  shows "hash_state (do_command h HASH_CMD_FLUSH_DATA) = fips_sha256 msg"
    and "bit (hash_status1 (do_command h HASH_CMD_FLUSH_DATA)) 2"
proof -
  have "\<not> tst (hash_mode (pad_unit h)) HASH_MODE_HMAC"
    using same_setup_pad absorbed_wf[OF assms(1)] assms(2) by (simp add: same_setup_def)
  then have eq: "do_command h HASH_CMD_FLUSH_DATA =
      (pad_unit h)\<lparr>hash_status1 := hash_status1 (pad_unit h) OR 4\<rparr>"
    by (simp add: do_command_def HASH_CMD_START_DATA_def HASH_CMD_FLUSH_DATA_def hash_round_finish_plain)
  show "hash_state (do_command h HASH_CMD_FLUSH_DATA) = fips_sha256 msg"
    by (simp add: eq hash_pad_absorbed[OF assms(1)])
  show "bit (hash_status1 (do_command h HASH_CMD_FLUSH_DATA)) 2"
    by (simp add: eq bit_or_iff)
qed

lemma absorbed_gpdma: "absorbed h msg \<Longrightarrow> absorbed (h\<lparr>hash_gpdma := st\<rparr>) msg"
  by (auto simp: absorbed_def fed_def hash_wf_def hash_sha256_def)

text \<open>The outer pass: the code reuses the unit for the second hash.\<close>

definition hmac_outer :: "ocs_hash \<Rightarrow> ocs_hash" where
  "hmac_outer h =
    (let h = h\<lparr>hash_hmac_temp := blit 0 (take 32 (hash_state h)) (hash_hmac_temp h)\<rparr>;
         h = hash_round_init h;
         h = h\<lparr>hash_buffer := hash_xor_key 0x5C h\<rparr>;
         h = h\<lparr>hash_count := hash_count h + 64\<rparr>;
         h = round_process h;
         h = h\<lparr>hash_buffer := blit 0 (take 32 (hash_hmac_temp h)) (hash_buffer h)\<rparr>
     in h\<lparr>hash_count := hash_count h + 32\<rparr>)"

lemma hash_round_finish_hmac:
  assumes "tst (hash_mode (pad_unit h)) HASH_MODE_HMAC"
  shows "hash_state (round_finish h False) = hash_state (pad_unit (hmac_outer (pad_unit h)))"
  using assms by (simp add: round_finish.simps[of h False] hash_round_finish_plain hmac_outer_def Let_def)

lemma hmac_outer_absorbed:
  assumes "hash_wf h" and "hash_sha256 h"
  shows "absorbed (hmac_outer h) (map (\<lambda>k. k XOR 0x5C) (hash_key h) @ hash_state h)"
proof -
  have len: "length (hash_state h) = 32" "length (hash_hmac_temp h) = 64"
    using assms(1) by (simp_all add: hash_wf_def)
  define b where "b = map (\<lambda>k. k XOR 0x5C) (hash_key h)"
  define g0 where "g0 = h\<lparr>hash_hmac_temp := blit 0 (take 32 (hash_state h)) (hash_hmac_temp h)\<rparr>"
  define g1 where "g1 = hash_round_init g0"
  define g where "g = g1\<lparr>hash_buffer := b, hash_count := 64\<rparr>"
  define p where "p = round_process g"
  have wf0: "hash_wf g0" "hash_sha256 g0" "hash_key g0 = hash_key h"
    using assms len by (simp_all add: g0_def hash_wf_def)
  have temp: "take 32 (hash_hmac_temp p) = hash_state h"
    using len by (simp add: p_def g_def g1_def g0_def round_process_def hash_round_init_def blit_def Let_def)
  have wf1: "hash_wf g1" "hash_key g1 = hash_key h" "hash_sha256 g1" "hash_count g1 = 0"
      "hash_state g1 = sha256_init_bytes"
    using same_setup_wf[OF hash_round_init_absorbed(2)[OF wf0(1,2)] wf0(1)]
      hash_round_init_absorbed(2)[OF wf0(1,2)] wf0
      same_setup_sha256[OF hash_round_init_absorbed(2)[OF wf0(1,2)]]
    by (simp_all add: g1_def same_setup_def) (simp_all add: hash_round_init_def Let_def)
  have eq: "hmac_outer h = p\<lparr>hash_buffer := blit 0 (hash_state h) (hash_buffer p),
      hash_count := hash_count p + 32\<rparr>"
    using temp by (simp add: hmac_outer_def Let_def p_def g_def g0_def[symmetric] g1_def[symmetric]
        hash_xor_key_map[OF wf1(1)] wf1(2,4) b_def)
  have lb: "length b = 64" using assms(1) by (simp add: b_def hash_wf_def)
  have "fed (round_process g) ([] @ hash_buffer g) []"
    using wf1 lb by (intro fed_block) (simp_all add: g_def hash_wf_def sha256_init_bytes_def fips_process_short)
  then have "fed p b []" by (simp add: p_def g_def)
  then have "fed (hmac_outer h) b (hash_state h)"
    using len lb by (simp add: fed_def eq hash_wf_def blit_def)
  then show ?thesis unfolding absorbed_def b_def by blast
qed

definition run_unit :: "bytes list \<Rightarrow> ocs_hash \<Rightarrow> ocs_hash" where
  "run_unit cs h = do_command (feed_unit cs (do_command (hash_round_init h) HASH_CMD_START_DATA))
     HASH_CMD_FLUSH_DATA"

lemma hash_run_fold:
  "run_unit cs h = round_finish (feed_unit cs (do_command (hash_round_init h) HASH_CMD_START_DATA)) False"
  by (simp add: run_unit_def do_command_def HASH_CMD_START_DATA_def HASH_CMD_FLUSH_DATA_def)

lemma hash_start:
  "do_command (hash_round_init h) HASH_CMD_START_DATA =
    (if tst (hash_mode h) HASH_MODE_HMAC then hmac_round1 (hash_round_init h) else hash_round_init h)"
proof -
  have c: "hash_count (hash_round_init h) = 0" "hash_mode (hash_round_init h) = hash_mode h"
    by (simp_all add: hash_round_init_def Let_def)
  moreover have "(hash_round_init h)\<lparr>hash_count := 0\<rparr> = hash_round_init h"
    by (simp add: hash_round_init_def Let_def)
  ultimately show ?thesis
    by (simp add: do_command_def Let_def hmac_round1_def hash_xor_key_def)
qed

lemma pad_mode_feed:
  assumes "hash_wf h"
  shows "hash_mode (pad_unit (feed_unit cs h)) = hash_mode h"
    and "hash_key (pad_unit (feed_unit cs h)) = hash_key h"
proof -
  note f = same_setup_feed[OF assms, of cs]
  from same_setup_trans[OF f same_setup_pad[OF same_setup_wf[OF f assms]]]
  show "hash_mode (pad_unit (feed_unit cs h)) = hash_mode h"
    "hash_key (pad_unit (feed_unit cs h)) = hash_key h"
    by (simp_all add: same_setup_def)
qed

text \<open>
  The sequence of the driver: the mode is written (\<open>hash_round_init\<close>), the start command,
  the data in pieces of any size, the flush command.
\<close>

fun hash_feed :: "sha_frame \<Rightarrow> bytes list \<Rightarrow> ocs_hash \<Rightarrow> ocs_hash res" where
  "hash_feed fr [] h = Inr h"
| "hash_feed fr (bs # cs) h = rbind (hash_dma_write fr h bs) (hash_feed fr cs)"

definition hash_run :: "sha_frame \<Rightarrow> bytes list \<Rightarrow> ocs_hash \<Rightarrow> ocs_hash res" where
  "hash_run fr cs h =
    rbind (hash_do_command fr (hash_round_init h) HASH_CMD_START_DATA) (\<lambda>h.
    rbind (hash_feed fr cs h) (\<lambda>h.
      hash_do_command fr h HASH_CMD_FLUSH_DATA))"

lemma hash_feed_ends: "round_ends fr (hash_feed fr cs h) (feed_unit cs h)"
  by (induction cs arbitrary: h) (auto simp: feed_unit_def intro: round_ends_rbind[OF hash_dma_write_ends])

lemma hash_run_ends: "round_ends fr (hash_run fr cs h) (run_unit cs h)"
  unfolding hash_run_def run_unit_def
  by (intro round_ends_rbind[OF hash_do_command_ends] round_ends_rbind[OF hash_feed_ends] hash_do_command_ends)

text \<open>The flush command hashes a block, so without room in the frame it does not end.\<close>

lemma hash_pad_stuck:
  assumes "\<not> frame_room fr" and "hash_wf h" and "hash_sha256 h"
  shows "hash_pad fr h = Inl OutOfBounds"
proof -
  define p where "p = unat (hash_count h AND 63)"
  define h1 where "h1 = h\<lparr>hash_buffer := (hash_buffer h)[p := 0x80]\<rparr>"
  have "hash_pad_loop fr (p + 1) h1 = Inl OutOfBounds \<or> hash_pad_loop fr (p + 1) h1 = Inr (pad_loop (p + 1) h1)"
    using hash_pad_loop_ends[of fr "p + 1" h1] by (auto simp: round_ends_def)
  moreover have "hash_sha256 (pad_loop (p + 1) h1)"
    using same_setup_sha256[OF same_setup_pad_loop] assms(3) by (simp add: h1_def)
  ultimately show ?thesis
    using assms hash_round_process_stuck
    unfolding hash_pad_def Let_def p_def[symmetric] h1_def[symmetric] by auto
qed

lemma hash_run_stuck:
  assumes "\<not> frame_room fr" and "hash_wf h" and "hash_sha256 h"
  shows "hash_run fr cs h = Inl OutOfBounds"
proof -
  let ?h1 = "hash_round_init h" let ?h2 = "do_command ?h1 HASH_CMD_START_DATA"
  let ?h3 = "feed_unit cs ?h2"
  note i = hash_round_init_absorbed[OF assms(2,3)]
  have 1: "hash_wf ?h1" "hash_sha256 ?h1" "hash_state ?h1 = sha256_init_bytes"
    using same_setup_wf[OF i(2) assms(2)] same_setup_sha256[OF i(2)] assms(3)
    by (simp_all add: hash_round_init_def Let_def)
  have 2: "hash_wf ?h2" "hash_sha256 ?h2"
    using 1 same_setup_wf[OF hash_start_hmac_absorbed(2)[OF 1] 1(1)] same_setup_sha256[OF hash_start_hmac_absorbed(2)[OF 1]]
    unfolding hash_start by auto
  have 3: "hash_wf ?h3" "hash_sha256 ?h3"
    using same_setup_wf[OF same_setup_feed[OF 2(1)] 2(1)] same_setup_sha256[OF same_setup_feed[OF 2(1)]] 2(2)
    by simp_all
  have "hash_do_command fr ?h3 HASH_CMD_FLUSH_DATA = Inl OutOfBounds"
    using hash_pad_stuck[OF assms(1) 3]
    by (simp add: hash_do_command_def HASH_CMD_START_DATA_def HASH_CMD_FLUSH_DATA_def hash_round_finish.simps)
  then show ?thesis
    using hash_do_command_ends[of fr ?h1 HASH_CMD_START_DATA] hash_feed_ends[of fr cs ?h2]
    by (auto simp: hash_run_def round_ends_def)
qed

text \<open>What the sequence does is decided by the frame.\<close>

lemma hash_run_cases:
  assumes "hash_wf h" and "hash_sha256 h" and "frame_room fr \<Longrightarrow> P (run_unit cs h)"
  shows "case hash_run fr cs h of Inl e \<Rightarrow> e = OutOfBounds \<and> \<not> frame_room fr | Inr h' \<Rightarrow> frame_room fr \<and> P h'"
  using hash_run_stuck[OF _ assms(1,2), of fr cs] round_ends_room[OF hash_run_ends, of fr cs h] assms(3)
  by (cases "frame_room fr") simp_all

text \<open>Two frames that a compiler may lay out: \<open>state32\<close> below \<open>data32\<close>, and above it.\<close>

definition low_frame :: sha_frame where
  "low_frame = \<lparr>state32_low = True, between = 0, above = 0, stale = (\<lambda>i. 0), schedule = (\<lambda>i. 0)\<rparr>"

definition tight_frame :: sha_frame where
  "tight_frame = low_frame\<lparr>state32_low := False\<rparr>"

lemma frame_room_frames [simp]: "frame_room low_frame" "\<not> frame_room tight_frame"
  by (simp_all add: frame_room_def low_frame_def tight_frame_def)

lemma unit_digest:
  assumes "hash_wf h" and "hash_sha256 h" and "\<not> tst (hash_mode h) HASH_MODE_HMAC"
  shows "hash_state (run_unit cs h) = fips_sha256 (concat cs) \<and> bit (hash_status1 (run_unit cs h)) 2"
proof -
  note i = hash_round_init_absorbed[OF assms(1,2)]
  let ?g = "feed_unit cs (hash_round_init h)"
  have mode: "hash_mode (pad_unit ?g) = hash_mode h"
    using pad_mode_feed[OF same_setup_wf[OF i(2) assms(1)]] i(2) by (simp add: same_setup_def)
  have "absorbed ?g (concat cs)" using hash_feed_absorbed[OF i(1), of cs] by simp
  from hash_pad_absorbed[OF this] show ?thesis
    using assms(3) mode by (simp add: hash_run_fold hash_start hash_round_finish_plain bit_simps)
qed

lemma unit_hmac:
  assumes "hash_wf h" and "hash_sha256 h" and "tst (hash_mode h) HASH_MODE_HMAC"
  shows "hash_state (run_unit cs h) = hmac_sha256 (hash_key h) (concat cs)"
proof -
  note i = hash_round_init_absorbed[OF assms(1,2)]
  let ?h1 = "hash_round_init h" let ?h2 = "hmac_round1 (hash_round_init h)"
  have wf1: "hash_wf ?h1" "hash_sha256 ?h1" "hash_state ?h1 = sha256_init_bytes"
    using same_setup_wf[OF i(2) assms(1)] same_setup_sha256[OF i(2)] assms(2)
    by (simp_all add: hash_round_init_def Let_def)
  note s = hash_start_hmac_absorbed[OF wf1]
  let ?g = "feed_unit cs ?h2"
  have wf2: "hash_wf ?h2" using same_setup_wf[OF s(2) wf1(1)] .
  have mode: "hash_mode (pad_unit ?g) = hash_mode h" "hash_key (pad_unit ?g) = hash_key h"
    using pad_mode_feed[OF wf2, of cs] s(2) i(2) by (simp_all add: same_setup_def)
  have abs: "absorbed ?g (map (\<lambda>k. k XOR 0x36) (hash_key h) @ concat cs)"
    using hash_feed_absorbed[OF s(1), of cs] i(2) by (simp add: same_setup_def)
  have wfp: "hash_wf (pad_unit ?g)" "hash_sha256 (pad_unit ?g)"
    using absorbed_wf[OF abs] same_setup_pad[of ?g] same_setup_wf same_setup_sha256 by blast+
  have "hash_state (pad_unit (hmac_outer (pad_unit ?g))) = hmac_sha256 (hash_key h) (concat cs)"
    using hash_pad_absorbed[OF hmac_outer_absorbed[OF wfp]] hash_pad_absorbed[OF abs]
    by (simp add: hmac_sha256_def mode)
  then show ?thesis
    using assms(3) mode by (simp add: hash_run_fold hash_start hash_round_finish_hmac)
qed

text \<open>C1. Whatever the pieces in which data is fed to the unit, with SHA-256 selected and
  HMAC off, the sequence leaves the FIPS 180-4 digest of the data in the state and sets
  bit 2 ("hashing done") of status 1, if the stack frame of the round function has room for
  the eight words it writes behind \<open>state32\<close>; if not, the sequence does not end but faults
  on that write. The 64 byte buffer, the padding loop and the rotating-role compression code
  together compute the standard's function.\<close>

theorem hash_unit_digest:
  assumes "hash_wf h" and "hash_sha256 h" and "\<not> tst (hash_mode h) HASH_MODE_HMAC"
  shows "case hash_run fr cs h of
     Inl e \<Rightarrow> e = OutOfBounds \<and> \<not> frame_room fr
   | Inr h' \<Rightarrow> frame_room fr \<and> hash_state h' = fips_sha256 (concat cs) \<and> bit (hash_status1 h') 2"
  by (rule hash_run_cases[OF assms(1,2)]) (rule unit_digest[OF assms])

theorem hash_unit_digest_witness:
  "(\<exists>h'. hash_run low_frame [c_bytes ''ab'', c_bytes ''c''] (hash_zero\<lparr>hash_mode := 0x20000\<rparr>) = Inr h' \<and>
     hash_state h' = fips_sha256 (c_bytes ''abc'')) \<and>
   hash_run tight_frame [c_bytes ''ab'', c_bytes ''c''] (hash_zero\<lparr>hash_mode := 0x20000\<rparr>) = Inl OutOfBounds"
proof -
  have "hash_wf (hash_zero\<lparr>hash_mode := 0x20000\<rparr>) \<and> hash_sha256 (hash_zero\<lparr>hash_mode := 0x20000\<rparr>) \<and>
      \<not> tst (hash_mode (hash_zero\<lparr>hash_mode := 0x20000\<rparr>)) HASH_MODE_HMAC"
    by (simp add: hash_wf_def hash_zero_def hash_sha256_def HASH_MODE_ALGO_MASK_def
      HASH_MODE_ALGO_SHA256_def HASH_MODE_HMAC_def)
  then show ?thesis
    using hash_unit_digest[of "hash_zero\<lparr>hash_mode := 0x20000\<rparr>" low_frame "[c_bytes ''ab'', c_bytes ''c'']"]
      hash_unit_digest[of "hash_zero\<lparr>hash_mode := 0x20000\<rparr>" tight_frame "[c_bytes ''ab'', c_bytes ''c'']"]
    by (auto split: sum.splits simp: c_bytes_def)
qed

text \<open>C2. With HMAC selected, the same sequence leaves HMAC-SHA-256 (FIPS 198-1) of the data
  under the 64 byte key register, although the inner digest, the two key pads and the
  second hash all go through the one buffer and the one state of the unit; again where the
  stack frame of the round function has room, and with a fault where it has not.\<close>

theorem hash_unit_hmac:
  assumes "hash_wf h" and "hash_sha256 h" and "tst (hash_mode h) HASH_MODE_HMAC"
  shows "case hash_run fr cs h of
     Inl e \<Rightarrow> e = OutOfBounds \<and> \<not> frame_room fr
   | Inr h' \<Rightarrow> frame_room fr \<and> hash_state h' = hmac_sha256 (hash_key h) (concat cs)"
  by (rule hash_run_cases[OF assms(1,2)]) (rule unit_hmac[OF assms])

theorem hash_unit_hmac_witness:
  "\<exists>h'. hash_run low_frame [c_bytes ''data''] (hash_zero\<lparr>hash_mode := 0x420000\<rparr>) = Inr h' \<and>
    hash_state h' = hmac_sha256 (replicate 64 0) (c_bytes ''data'')"
proof -
  have "hash_wf (hash_zero\<lparr>hash_mode := 0x420000\<rparr>) \<and> hash_sha256 (hash_zero\<lparr>hash_mode := 0x420000\<rparr>) \<and>
      tst (hash_mode (hash_zero\<lparr>hash_mode := 0x420000\<rparr>)) HASH_MODE_HMAC \<and>
      hash_key (hash_zero\<lparr>hash_mode := 0x420000\<rparr>) = replicate 64 0"
    by (simp add: hash_wf_def hash_zero_def hash_sha256_def HASH_MODE_ALGO_MASK_def
      HASH_MODE_ALGO_SHA256_def HASH_MODE_HMAC_def)
  then show ?thesis
    using hash_unit_hmac[of "hash_zero\<lparr>hash_mode := 0x420000\<rparr>" low_frame "[c_bytes ''data'']"]
    by (auto split: sum.splits)
qed

end
