(* ===== verification/CfgFile.thy ===== *)
theory CfgFile
  imports Prelude
begin

text \<open>
  \<open>include/cfg_file.h\<close> and the lookup functions of \<open>config/cfgparser.c\<close>: a
  configuration file is a list of named sections of named entries, an entry holds a string
  or a 64 bit integer, and every lookup returns the first match.

  The C lists are chained through \<open>next\<close> pointers. The lists here end in null. The parser
  does not make them so: it builds the raw lists of \<open>CfgParser\<close>, of which \<open>config_of\<close> gives a
  \<open>cfg_file\<close> only if their last pointers are null. A lookup that stores through an \<open>out\<close> pointer returns the value to store, and
  \<open>None\<close> where the C function returns \<open>-1\<close> and leaves \<open>*out\<close> alone.
\<close>

section \<open>Data\<close>

text \<open>\<open>CONFIG_TYPE_STRING\<close> and \<open>CONFIG_TYPE_INT64\<close>; nothing creates an entry of type
  \<open>CONFIG_TYPE_ENUM\<close>.\<close>

datatype cfg_value = CfgString string | CfgInt64 u64

record cfg_entry =
  entry_name :: string
  entry_value :: cfg_value

record cfg_section =
  section_type :: string
  section_name :: string
  section_entries :: "cfg_entry list"

text \<open>\<open>last_section\<close> is a pointer into the list of sections; here it is an index.\<close>

record cfg_file =
  file_name :: string
  file_sections :: "cfg_section list"
  last_section :: nat

section \<open>Lookup\<close>

fun cfg_find_section_in :: "cfg_section list \<Rightarrow> string \<Rightarrow> cfg_section option" where
  "cfg_find_section_in [] name = None"
| "cfg_find_section_in (cur # rest) name =
    (if section_name cur = name then Some cur else cfg_find_section_in rest name)"

definition cfg_find_section :: "cfg_file \<Rightarrow> string \<Rightarrow> cfg_section option" where
  "cfg_find_section file name = cfg_find_section_in (file_sections file) name"

fun cfg_find_entry_in :: "cfg_entry list \<Rightarrow> string \<Rightarrow> cfg_entry option" where
  "cfg_find_entry_in [] name = None"
| "cfg_find_entry_in (cur # rest) name =
    (if entry_name cur = name then Some cur else cfg_find_entry_in rest name)"

definition cfg_find_entry :: "cfg_section \<Rightarrow> string \<Rightarrow> cfg_entry option" where
  "cfg_find_entry sec name = cfg_find_entry_in (section_entries sec) name"

definition cfg_find_string :: "cfg_section \<Rightarrow> string \<Rightarrow> string option" where
  "cfg_find_string sec name =
    (case cfg_find_entry_in (section_entries sec) name of
       None \<Rightarrow> None
     | Some cur \<Rightarrow> (case entry_value cur of CfgString s \<Rightarrow> Some s | CfgInt64 _ \<Rightarrow> None))"

definition cfg_find_int64 :: "cfg_section \<Rightarrow> string \<Rightarrow> u64 option" where
  "cfg_find_int64 sec name =
    (case cfg_find_entry_in (section_entries sec) name of
       None \<Rightarrow> None
     | Some cur \<Rightarrow> (case entry_value cur of CfgString _ \<Rightarrow> None | CfgInt64 v \<Rightarrow> Some v))"

definition cfg_find_int32 :: "cfg_section \<Rightarrow> string \<Rightarrow> u32 option" where
  "cfg_find_int32 sec name =
    (case cfg_find_entry_in (section_entries sec) name of
       None \<Rightarrow> None
     | Some cur \<Rightarrow> (case entry_value cur of CfgString _ \<Rightarrow> None | CfgInt64 v \<Rightarrow> Some (ucast v)))"

definition cfg_find_int16 :: "cfg_section \<Rightarrow> string \<Rightarrow> u16 option" where
  "cfg_find_int16 sec name =
    (case cfg_find_entry_in (section_entries sec) name of
       None \<Rightarrow> None
     | Some cur \<Rightarrow> (case entry_value cur of CfgString _ \<Rightarrow> None | CfgInt64 v \<Rightarrow> Some (ucast v)))"

definition cfg_find_int8 :: "cfg_section \<Rightarrow> string \<Rightarrow> u8 option" where
  "cfg_find_int8 sec name =
    (case cfg_find_entry_in (section_entries sec) name of
       None \<Rightarrow> None
     | Some cur \<Rightarrow> (case entry_value cur of CfgString _ \<Rightarrow> None | CfgInt64 v \<Rightarrow> Some (ucast v)))"

lemmas cfg_finders = cfg_find_string_def cfg_find_int64_def cfg_find_int32_def
  cfg_find_int16_def cfg_find_int8_def cfg_find_entry_def

text \<open>The idiom of the callers: a missing entry leaves the field as it was.\<close>

definition cfg_or :: "'a option \<Rightarrow> 'a \<Rightarrow> 'a" where
  "cfg_or found old = (case found of None \<Rightarrow> old | Some v \<Rightarrow> v)"

lemma cfg_or_simps [simp]: "cfg_or None old = old" "cfg_or (Some v) old = v"
  by (simp_all add: cfg_or_def)

text \<open>The idiom \<open>if ( cfg_find_int32( .. ) < 0 || v > limit ) exit( EXIT_FAILURE );\<close>\<close>

definition cfg_require :: "u32 option \<Rightarrow> u32 \<Rightarrow> u32 res" where
  "cfg_require found limit =
    (case found of None \<Rightarrow> Inl ExitFailure
     | Some v \<Rightarrow> if v > limit then Inl ExitFailure else Inr v)"

lemma cfg_require_Inr: "cfg_require found limit = Inr v \<longleftrightarrow> found = Some v \<and> v \<le> limit"
  by (auto simp: cfg_require_def split: option.splits)

text \<open>\<open>%i\<close> in the name of an entry that \<open>snprintf\<close> makes.\<close>

fun dec_digits :: "nat \<Rightarrow> string" where
  "dec_digits n = (if n < 10 then [char_of (48 + n)] else dec_digits (n div 10) @ [char_of (48 + n mod 10)])"

declare dec_digits.simps [simp del]

section \<open>Lookup as a map\<close>

text \<open>The entries of a section as a map: the first entry of a name wins.\<close>

definition section_map :: "cfg_section \<Rightarrow> string \<rightharpoonup> cfg_value" where
  "section_map sec = map_of (map (\<lambda>e. (entry_name e, entry_value e)) (section_entries sec))"

lemma find_entry_map_of:
  "map_option entry_value (cfg_find_entry_in es name) =
    map_of (map (\<lambda>e. (entry_name e, entry_value e)) es) name"
  by (induction es) auto

lemma section_map_entry: "section_map sec name = map_option entry_value (cfg_find_entry_in (section_entries sec) name)"
  by (simp add: section_map_def find_entry_map_of)

text \<open>Every lookup of a section is a projection of one map, in which the first entry of
  a name shadows the later ones: a string lookup succeeds exactly on string entries, an
  integer lookup exactly on integer entries, and the narrower lookups return the low bits
  of the 64 bit value.\<close>

lemma cfg_find_section_map:
  "cfg_find_string sec name =
     (case section_map sec name of Some (CfgString s) \<Rightarrow> Some s | _ \<Rightarrow> None) \<and>
   cfg_find_int64 sec name =
     (case section_map sec name of Some (CfgInt64 v) \<Rightarrow> Some v | _ \<Rightarrow> None) \<and>
   cfg_find_int32 sec name = map_option (\<lambda>v. ucast (take_bit 32 v)) (cfg_find_int64 sec name) \<and>
   cfg_find_int16 sec name = map_option (\<lambda>v. ucast (take_bit 16 v)) (cfg_find_int64 sec name) \<and>
   cfg_find_int8 sec name = map_option (\<lambda>v. ucast (take_bit 8 v)) (cfg_find_int64 sec name)"
proof -
  have "ucast (take_bit 32 v) = (ucast v :: u32)" "ucast (take_bit 16 v) = (ucast v :: u16)"
    "ucast (take_bit 8 v) = (ucast v :: u8)" for v :: u64
    by (auto intro!: bit_word_eqI simp: bit_simps)
  then show ?thesis
    by (cases "cfg_find_entry_in (section_entries sec) name")
      (simp_all add: section_map_entry cfg_finders split: cfg_value.splits)
qed

end
