(* ===== verification/CfgParser.thy ===== *)
theory CfgParser
  imports CfgFile "HOL-Library.Char_ord"
begin

text \<open>
  \<open>config/cfgparser.c\<close>: the recursive-descent parser of configuration files and the loader
  that splices included files into the list of sections.

  The parser reads a stream of bytes; a byte is a \<open>char\<close> here. The static variables of the
  file are the record \<open>pstate\<close>, which is threaded through every function. Every
  \<open>parser_fatal\<close>, \<open>ensure_noteof\<close> and \<open>exit\<close> is the fault \<open>ExitFailure\<close>. \<open>char\<close> is
  signed on the target: a byte from 128 on is negative, and the byte 255 converts to
  \<open>EOF\<close> where the code keeps the result of \<open>getc\<close> in a \<open>char\<close>.

  \<open>accept_entry\<close> and \<open>accept_section\<close> take their objects from \<open>malloc\<close> and do not set
  \<open>next\<close>; it is set when another object is linked behind, so the last entry of a section and
  the last section of a file keep what \<open>malloc\<close> left there. That is the parameter \<open>new\<close> of
  the functions from \<open>accept_entry\<close> on: \<open>new p\<close> is the \<open>next\<close> of an object allocated when
  the parser is in state \<open>p\<close>. The lists of the parser are therefore raw ones, which record
  the \<open>next\<close> of their last element. A loop that walks such a list behaves as intended if
  that pointer is null, and otherwise goes on at a wild pointer, the fault \<open>BadUsage\<close>.
\<close>

section \<open>The input stream\<close>

record pstate =
  parse_input :: string
  parse_line :: int
  parse_col :: int
  last_line_col :: int

definition accept_rawchar_or_eof :: "pstate \<Rightarrow> char option \<times> pstate" where
  "accept_rawchar_or_eof p =
    (case parse_input p of
       [] \<Rightarrow> (None, p)
     | c # rest \<Rightarrow> let p = p\<lparr>parse_input := rest\<rparr> in
         if c = CHR 0x0A
         then (Some c, p\<lparr>parse_line := parse_line p + 1, last_line_col := parse_col p, parse_col := 0\<rparr>)
         else (Some c, p\<lparr>parse_col := parse_col p + 1\<rparr>))"

definition accept_rawchar :: "pstate \<Rightarrow> (char \<times> pstate) res" where
  "accept_rawchar p =
    (case accept_rawchar_or_eof p of (None, p) \<Rightarrow> Inl ExitFailure | (Some c, p) \<Rightarrow> Inr (c, p))"

text \<open>\<open>ungetc( c, .. )\<close> with \<open>c\<close> a \<open>char\<close> of value \<open>-1\<close> fails.\<close>

definition return_rawchar :: "char \<Rightarrow> pstate \<Rightarrow> pstate res" where
  "return_rawchar c p =
    (if c = CHR 0xFF then Inl ExitFailure
     else let p = p\<lparr>parse_input := c # parse_input p\<rparr> in
       if c = CHR 0x0A
       then Inr (p\<lparr>parse_line := parse_line p - 1, parse_col := last_line_col p\<rparr>)
       else Inr (p\<lparr>parse_col := parse_col p - 1\<rparr>))"

definition expect_char :: "char \<Rightarrow> pstate \<Rightarrow> pstate res" where
  "expect_char c p =
    rbind (accept_rawchar p) (\<lambda>(d, p). if d \<noteq> c then Inl ExitFailure else Inr p)"

definition accept_char :: "char \<Rightarrow> pstate \<Rightarrow> (bool \<times> pstate) res" where
  "accept_char c p =
    rbind (accept_rawchar p) (\<lambda>(d, p).
      if d \<noteq> c then rbind (return_rawchar d p) (\<lambda>p. Inr (False, p)) else Inr (True, p))"

text \<open>\<open>char in = accept_rawchar_or_eof(); if ( in == EOF ) return NULL;\<close>\<close>

definition accept_char_or_eof :: "pstate \<Rightarrow> char option \<times> pstate" where
  "accept_char_or_eof p =
    (case accept_rawchar_or_eof p of (c, p) \<Rightarrow> (if c = Some (CHR 0xFF) then None else c, p))"

section \<open>Character classes (C locale)\<close>

definition code :: "char \<Rightarrow> nat" where
  "code c = of_char c"

definition in_range :: "char \<Rightarrow> char \<Rightarrow> char \<Rightarrow> bool" where
  "in_range lo hi c \<longleftrightarrow> code lo \<le> code c \<and> code c \<le> code hi"

definition isdigit :: "char \<Rightarrow> bool" where
  "isdigit c \<longleftrightarrow> in_range (CHR ''0'') (CHR ''9'') c"

definition isalpha :: "char \<Rightarrow> bool" where
  "isalpha c \<longleftrightarrow> in_range (CHR ''A'') (CHR ''Z'') c \<or> in_range (CHR ''a'') (CHR ''z'') c"

definition isalnum :: "char \<Rightarrow> bool" where
  "isalnum c \<longleftrightarrow> isalpha c \<or> isdigit c"

definition isspace :: "char \<Rightarrow> bool" where
  "isspace c \<longleftrightarrow> c = CHR '' '' \<or> in_range (CHR 0x09) (CHR 0x0D) c"

definition map_esc :: "char \<Rightarrow> char res" where
  "map_esc c =
    (if c = CHR 0x22 then Inr (CHR 0x22)
     else if c = CHR 0x5C then Inr (CHR 0x5C)
     else if c = CHR 0x27 then Inr (CHR 0x27)
     else if c = CHR ''n'' then Inr (CHR 0x0A)
     else if c = CHR ''r'' then Inr (CHR 0x0D)
     else if c = CHR ''t'' then Inr (CHR 0x09)
     else if c = CHR ''b'' then Inr (CHR 0x08)
     else Inl ExitFailure)"

definition map_digit :: "char \<Rightarrow> nat option" where
  "map_digit a =
    (if in_range (CHR ''0'') (CHR ''9'') a then Some (code a - code (CHR ''0''))
     else if in_range (CHR ''a'') (CHR ''f'') a then Some (code a - code (CHR ''a'') + 10)
     else if in_range (CHR ''A'') (CHR ''F'') a then Some (code a - code (CHR ''A'') + 10)
     else None)"

text \<open>A \<open>char\<close> promoted to \<open>int\<close>.\<close>

definition char_int :: "char \<Rightarrow> int" where
  "char_int c = (if code c < 128 then int (code c) else int (code c) - 256)"

text \<open>The C string in a buffer of characters: it ends at the first NUL.\<close>

definition c_str :: "string \<Rightarrow> string" where
  "c_str s = takeWhile (\<lambda>c. c \<noteq> CHR 0x00) s"

section \<open>Every read consumes input\<close>

definition left :: "pstate \<Rightarrow> nat" where
  "left p = length (parse_input p)"

lemma rawchar_or_eof_left:
  "accept_rawchar_or_eof p = (Some c, p') \<Longrightarrow> left p = Suc (left p')"
  "accept_rawchar_or_eof p = (None, p') \<Longrightarrow> p' = p"
  by (auto simp: accept_rawchar_or_eof_def left_def Let_def split: list.splits if_splits)

lemma rawchar_left: "accept_rawchar p = Inr (c, p') \<Longrightarrow> left p = Suc (left p')"
  by (auto simp: accept_rawchar_def rawchar_or_eof_left split: prod.splits option.splits)

lemma return_left: "return_rawchar c p = Inr p' \<Longrightarrow> left p' = Suc (left p)"
  by (auto simp: return_rawchar_def left_def Let_def split: if_splits)

lemma expect_left: "expect_char c p = Inr p' \<Longrightarrow> left p = Suc (left p')"
  by (auto simp: expect_char_def rbind_Inr_iff rawchar_left split: prod.splits if_splits)

lemma accept_char_left: "accept_char c p = Inr (b, p') \<Longrightarrow> left p = (if b then Suc (left p') else left p')"
  by (auto simp: accept_char_def rbind_Inr_iff dest!: rawchar_left return_left split: prod.splits if_splits)

section \<open>Literals and names\<close>

text \<open>
  The buffers grow by \<open>realloc\<close>, so they are lists here. The loop of \<open>accept_string\<close>
  reads up to the closing quote, which is put back and read again.
\<close>

function accept_string_loop :: "string \<Rightarrow> pstate \<Rightarrow> (string \<times> pstate) res" where
  "accept_string_loop buffer p =
    rbind (accept_rawchar p) (\<lambda>(c, p).
      if c = CHR 0x22 then rbind (return_rawchar c p) (\<lambda>p. Inr (buffer, p))
      else if c = CHR 0x5C then
        rbind (accept_rawchar p) (\<lambda>(e, p). rbind (map_esc e) (\<lambda>e. accept_string_loop (buffer @ [e]) p))
      else accept_string_loop (buffer @ [c]) p)"
  by pat_completeness auto
termination
  by (relation "measure (\<lambda>(b, p). left p)") (auto dest!: rawchar_left)

declare accept_string_loop.simps [simp del]

definition accept_string :: "pstate \<Rightarrow> (string option \<times> pstate) res" where
  "accept_string p =
    (case accept_char_or_eof p of
       (None, p) \<Rightarrow> Inr (None, p)
     | (Some c, p) \<Rightarrow>
         if c \<noteq> CHR 0x22 then rbind (return_rawchar c p) (\<lambda>p. Inr (None, p))
         else rbind (accept_string_loop [] p) (\<lambda>(buffer, p).
           rbind (expect_char (CHR 0x22) p) (\<lambda>p. Inr (Some (c_str buffer), p))))"

text \<open>The \<open>do .. while\<close> of \<open>accept_name\<close>; \<open>c\<close> is the character that was read last.\<close>

function accept_name_loop :: "string \<Rightarrow> char \<Rightarrow> pstate \<Rightarrow> (string \<times> pstate) res" where
  "accept_name_loop buffer c p =
    rbind (if c = CHR 0x5C
           then rbind (accept_rawchar p) (\<lambda>(e, p). rbind (map_esc e) (\<lambda>e. Inr (buffer @ [e], p)))
           else Inr (buffer @ [c], p))
      (\<lambda>(buffer, p). rbind (accept_rawchar p) (\<lambda>(c, p).
         if isalnum c \<or> c = CHR ''_'' then accept_name_loop buffer c p
         else rbind (return_rawchar c p) (\<lambda>p. Inr (buffer, p))))"
  by pat_completeness auto
termination
  by (relation "measure (\<lambda>(b, c, p). left p)")
    (auto dest!: rawchar_left simp: rbind_Inr_iff split: if_splits)

declare accept_name_loop.simps [simp del]

definition accept_name :: "pstate \<Rightarrow> (string option \<times> pstate) res" where
  "accept_name p =
    (case accept_char_or_eof p of
       (None, p) \<Rightarrow> Inr (None, p)
     | (Some c, p) \<Rightarrow>
         if \<not> isalpha c then rbind (return_rawchar c p) (\<lambda>p. Inr (None, p))
         else rbind (accept_name_loop [] c p) (\<lambda>(buffer, p). Inr (Some (c_str buffer), p)))"

function accept_whitespace :: "pstate \<Rightarrow> pstate res" where
  "accept_whitespace p =
    (case accept_rawchar_or_eof p of
       (None, p) \<Rightarrow> Inr p
     | (Some c, p) \<Rightarrow> if isspace c then accept_whitespace p else return_rawchar c p)"
  by pat_completeness auto
termination
  by (relation "measure left") (auto dest!: rawchar_or_eof_left(1)[OF sym])

declare accept_whitespace.simps [simp del]

definition accept_char_literal :: "pstate \<Rightarrow> (int \<times> pstate) res" where
  "accept_char_literal p =
    (case accept_rawchar_or_eof p of
       (None, p) \<Rightarrow> Inr (-1, p)
     | (Some c, p) \<Rightarrow>
         if c \<noteq> CHR 0x27 then rbind (return_rawchar c p) (\<lambda>p. Inr (-1, p))
         else rbind (accept_rawchar p) (\<lambda>(c, p).
           rbind (if c = CHR 0x5C
                  then rbind (accept_rawchar p) (\<lambda>(e, p). rbind (map_esc e) (\<lambda>e. Inr (char_int e, p)))
                  else Inr (char_int c, p))
             (\<lambda>(val, p). rbind (expect_char (CHR 0x27) p) (\<lambda>p. Inr (val, p)))))"

text \<open>The loop over the digits; \<open>c\<close> was read last, and the first non-digit is returned.\<close>

function accept_digits :: "nat \<Rightarrow> u64 \<Rightarrow> char \<Rightarrow> pstate \<Rightarrow> (u64 \<times> char \<times> pstate) res" where
  "accept_digits radix out c p =
    (case map_digit c of
       None \<Rightarrow> Inr (out, c, p)
     | Some val \<Rightarrow>
         if val \<ge> radix then Inr (out, c, p)
         else rbind (accept_rawchar p) (\<lambda>(d, p). accept_digits radix (out * of_nat radix + of_nat val) d p))"
  by pat_completeness auto
termination
  by (relation "measure (\<lambda>(r, out, c, p). left p)") (auto dest!: rawchar_left)

declare accept_digits.simps [simp del]

text \<open>
  \<open>accept_int\<close>, in three parts: the sign, the digits with their radix (which ends, at the
  label \<open>done\<close>, with the first character after the literal in hand), and the rest.
  \<open>None\<close> is a negative status.
\<close>

definition accept_sign :: "char \<Rightarrow> pstate \<Rightarrow> (bool \<times> char \<times> pstate) res" where
  "accept_sign c p =
    (if c = CHR ''-''
     then rbind (accept_rawchar p) (\<lambda>(c, p). if \<not> isdigit c then Inl ExitFailure else Inr (True, c, p))
     else Inr (False, c, p))"

definition accept_magnitude :: "char \<Rightarrow> pstate \<Rightarrow> (u64 \<times> char \<times> pstate) res" where
  "accept_magnitude c p =
    (if c = CHR ''0'' then
       rbind (accept_rawchar p) (\<lambda>(c, p).
         if c = CHR ''x'' \<or> c = CHR ''X'' then
           rbind (accept_rawchar p) (\<lambda>(c, p).
             if map_digit c = None then Inl ExitFailure else accept_digits 16 0 c p)
         else if \<not> isdigit c then Inr (0, c, p)
         else accept_digits 8 0 c p)
     else accept_digits 10 0 c p)"

definition accept_int :: "pstate \<Rightarrow> (u64 option \<times> pstate) res" where
  "accept_int p =
    (case accept_rawchar_or_eof p of
       (None, p) \<Rightarrow> Inr (None, p)
     | (Some c, p) \<Rightarrow>
         if c \<noteq> CHR ''-'' \<and> \<not> isdigit c then rbind (return_rawchar c p) (\<lambda>p. Inr (None, p))
         else rbind (accept_sign c p) (\<lambda>(neg, c, p).
           rbind (accept_magnitude c p) (\<lambda>(out, c, p).
             rbind (return_rawchar c p) (\<lambda>p. Inr (Some (if neg then - out else out), p)))))"

definition accept_number :: "pstate \<Rightarrow> (u64 option \<times> pstate) res" where
  "accept_number p =
    rbind (accept_char_literal p) (\<lambda>(ch, p).
      if 0 < ch \<and> ch < 256 then Inr (Some (word_of_int ch), p) else accept_int p)"

section \<open>Entries, sections, files\<close>

text \<open>A section whose last entry has \<open>entries_end\<close> as \<open>next\<close>, and a file whose last section
  has \<open>raw_end\<close> as \<open>next\<close>.\<close>

record raw_section = cfg_section +
  entries_end :: u32

record raw_file =
  raw_name :: string
  raw_sections :: "raw_section list"
  raw_last :: nat
  raw_end :: u32

text \<open>The entry, with what its \<open>next\<close> holds.\<close>

definition accept_entry :: "(pstate \<Rightarrow> u32) \<Rightarrow> pstate \<Rightarrow> ((cfg_entry \<times> u32) option \<times> pstate) res" where
  "accept_entry new p =
    rbind (accept_whitespace p) (\<lambda>p.
    rbind (accept_name p) (\<lambda>(name, p).
      case name of
        None \<Rightarrow> Inr (None, p)
      | Some name \<Rightarrow>
        let garbage = new p in
        rbind (accept_whitespace p) (\<lambda>p.
        rbind (expect_char (CHR ''='') p) (\<lambda>p.
        rbind (accept_whitespace p) (\<lambda>p.
        rbind (accept_string p) (\<lambda>(str, p).
          case str of
            Some s \<Rightarrow> Inr (Some (\<lparr>entry_name = name, entry_value = CfgString s\<rparr>, garbage), p)
          | None \<Rightarrow> rbind (accept_number p) (\<lambda>(num, p).
              case num of
                Some v \<Rightarrow> Inr (Some (\<lparr>entry_name = name, entry_value = CfgInt64 v\<rparr>, garbage), p)
              | None \<Rightarrow> rbind (accept_name p) (\<lambda>(str, p).
                  case str of
                    Some s \<Rightarrow> Inr (Some (\<lparr>entry_name = name, entry_value = CfgString s\<rparr>, garbage), p)
                  | None \<Rightarrow> Inl ExitFailure))))))))"

lemma accept_char_or_eof_left:
  "accept_char_or_eof p = (Some c, p') \<Longrightarrow> left p = Suc (left p')"
  "accept_char_or_eof p = (None, p') \<Longrightarrow> left p' \<le> left p"
  by (auto simp: accept_char_or_eof_def dest: rawchar_or_eof_left split: prod.splits if_splits)

section \<open>Progress\<close>

text \<open>\<open>consumes g n m\<close>: a result \<open>x\<close> of \<open>m\<close> leaves at most \<open>n - g x\<close> characters.\<close>

definition consumes :: "('a \<Rightarrow> nat) \<Rightarrow> nat \<Rightarrow> ('a \<times> pstate) res \<Rightarrow> bool" where
  "consumes g n m \<longleftrightarrow> (\<forall>x p. m = Inr (x, p) \<longrightarrow> left p + g x \<le> n)"

definition opt :: "'a option \<Rightarrow> nat" where
  "opt x = (case x of None \<Rightarrow> 0 | Some _ \<Rightarrow> 1)"

abbreviation none :: "'a \<Rightarrow> nat" where "none \<equiv> \<lambda>_. 0"

lemma opt_simps [simp]: "opt None = 0" "opt (Some x) = 1"
  by (simp_all add: opt_def)

named_theorems consume \<open>how much of the input the readers take\<close>

lemma consumesD: "consumes g n m \<Longrightarrow> m = Inr (x, p) \<Longrightarrow> left p + g x \<le> n"
  by (simp add: consumes_def)

lemma consumes_weaken: "consumes g k m \<Longrightarrow> k \<le> n \<Longrightarrow> consumes g n m"
  unfolding consumes_def by fastforce

lemma consumes_results [consume]:
  "consumes g n (Inl e)"
  "left p + g x \<le> n \<Longrightarrow> consumes g n (Inr (x, p))"
  by (simp_all add: consumes_def)

lemma consumes_bind:
  assumes "consumes g n m" and "\<And>x p. left p + g x \<le> n \<Longrightarrow> consumes h k (f x p)"
  shows "consumes h k (rbind m (case_prod f))"
  using assms unfolding consumes_def rbind_Inr_iff by fastforce

lemma consumes_rawchar [consume]:
  "(\<And>c p'. left p = Suc (left p') \<Longrightarrow> consumes g n (f c p')) \<Longrightarrow>
   consumes g n (rbind (accept_rawchar p) (case_prod f))"
  using rawchar_left unfolding consumes_def rbind_Inr_iff by fastforce

lemma consumes_return [consume]:
  "(\<And>p'. left p' = Suc (left p) \<Longrightarrow> consumes g n (f p')) \<Longrightarrow> consumes g n (rbind (return_rawchar c p) f)"
  using return_left unfolding consumes_def rbind_Inr_iff by fastforce

lemma consumes_expect [consume]:
  "(\<And>p'. left p = Suc (left p') \<Longrightarrow> consumes g n (f p')) \<Longrightarrow> consumes g n (rbind (expect_char c p) f)"
  using expect_left unfolding consumes_def rbind_Inr_iff by fastforce

lemma consumes_accept_char [consume]:
  "(\<And>b p'. left p = (if b then Suc (left p') else left p') \<Longrightarrow> consumes g n (f b p')) \<Longrightarrow>
   consumes g n (rbind (accept_char c p) (case_prod f))"
  using accept_char_left unfolding consumes_def rbind_Inr_iff by fastforce

lemma consumes_map_esc [consume]:
  "(\<And>e. consumes g n (f e)) \<Longrightarrow> consumes g n (rbind (map_esc c) f)"
  unfolding consumes_def rbind_Inr_iff by fastforce

lemma consumes_cases [consume]:
  "(b \<Longrightarrow> consumes g n x) \<Longrightarrow> (\<not> b \<Longrightarrow> consumes g n y) \<Longrightarrow> consumes g n (if b then x else y)"
  "(z = None \<Longrightarrow> consumes g n u) \<Longrightarrow> (\<And>a. z = Some a \<Longrightarrow> consumes g n (v a)) \<Longrightarrow>
    consumes g n (case z of None \<Rightarrow> u | Some a \<Rightarrow> v a)"
  by (simp_all split: option.splits)

lemma consumes_char_or_eof [consume]:
  "(\<And>p'. left p' \<le> left p \<Longrightarrow> consumes g n (u p')) \<Longrightarrow>
   (\<And>c p'. left p = Suc (left p') \<Longrightarrow> consumes g n (v p' c)) \<Longrightarrow>
   consumes g n (case accept_char_or_eof p of (c, p) \<Rightarrow> case_option (u p) (v p) c)"
  using accept_char_or_eof_left[of p] by (auto split: prod.splits option.splits)

lemma consumes_rawchar_or_eof [consume]:
  "consumes g n (u p) \<Longrightarrow>
   (\<And>c p'. left p = Suc (left p') \<Longrightarrow> consumes g n (v p' c)) \<Longrightarrow>
   consumes g n (case accept_rawchar_or_eof p of (c, p) \<Rightarrow> case_option (u p) (v p) c)"
  using rawchar_or_eof_left[of p] by (auto split: prod.splits option.splits)

lemma consumes_string_loop: "consumes none (left p) (accept_string_loop b p)"
proof (induction "left p" arbitrary: b p rule: less_induct)
  case less
  have IH: "consumes none n (accept_string_loop b' p')" if "left p' < left p" "left p' \<le> n" for b' p' n
    using less[OF that(1)] that(2) unfolding consumes_def by fastforce
  show ?case
    by (subst accept_string_loop.simps) (intro consume IH; simp)
qed

lemma consumes_name_loop: "consumes none (left p) (accept_name_loop b c p)"
proof (induction "left p" arbitrary: b c p rule: less_induct)
  case less
  have IH: "consumes none n (accept_name_loop b' c' p')" if "left p' < left p" "left p' \<le> n" for b' c' p' n
    using less[OF that(1)] that(2) unfolding consumes_def by fastforce
  show ?case
    by (subst accept_name_loop.simps)
      (intro consumes_bind[of none "left p"] consume IH; simp)
qed

lemma digits_left: "accept_digits r v c p = Inr (v', c', p') \<Longrightarrow> left p' \<le> left p"
proof (induction r v c p rule: accept_digits.induct)
  case (1 r v c p)
  show ?case
  proof (cases "map_digit c")
    case None
    then show ?thesis using "1.prems" by (simp add: accept_digits.simps)
  next
    case (Some a)
    show ?thesis
    proof (cases "a \<ge> r")
      case True
      then show ?thesis using "1.prems" Some by (simp add: accept_digits.simps)
    next
      case False
      then obtain d q where q: "accept_rawchar p = Inr (d, q)"
        and rest: "accept_digits r (v * of_nat r + of_nat a) d q = Inr (v', c', p')"
        using "1.prems" Some by (auto simp: accept_digits.simps[of r v c p] rbind_Inr_iff)
      from "1.IH"[OF Some False q refl rest] rawchar_left[OF q] show ?thesis by simp
    qed
  qed
qed

lemma consumes_digits [consume]:
  "(\<And>v' c' p'. left p' \<le> left p \<Longrightarrow> consumes g n (f (v', c', p'))) \<Longrightarrow>
   consumes g n (rbind (accept_digits r v c p) f)"
  using digits_left unfolding consumes_def rbind_Inr_iff by fastforce

lemma consumes_string: "consumes none (left p) (accept_string p)"
  unfolding accept_string_def
  by (intro consume consumes_bind[OF consumes_string_loop]; simp)

lemma consumes_name: "consumes none (left p) (accept_name p)"
  unfolding accept_name_def
  by (intro consume consumes_bind[OF consumes_name_loop]; simp)

lemma whitespace_left: "accept_whitespace p = Inr p' \<Longrightarrow> left p' \<le> left p"
proof (induction p rule: accept_whitespace.induct)
  case (1 p)
  then show ?case
    by (simp add: accept_whitespace.simps[of p] split: prod.splits option.splits if_splits)
      (auto dest!: rawchar_or_eof_left return_left)
qed

lemma consumes_whitespace [consume]:
  "(\<And>p'. left p' \<le> left p \<Longrightarrow> consumes g n (f p')) \<Longrightarrow> consumes g n (rbind (accept_whitespace p) f)"
  using whitespace_left unfolding consumes_def rbind_Inr_iff by fastforce

lemma consumes_char_literal: "consumes none (left p) (accept_char_literal p)"
  unfolding accept_char_literal_def
  by (intro consume consumes_bind[of none "left p"]; simp)

lemma consumes_magnitude [consume]:
  assumes "\<And>v' c' p'. left p' \<le> left p \<Longrightarrow> consumes g n (f v' c' p')"
  shows "consumes g n (rbind (accept_magnitude c p) (\<lambda>(v, c, p). f v c p))"
proof -
  have "left p' \<le> left p" if "accept_magnitude c p = Inr (v', c', p')" for v' c' p'
    using that unfolding accept_magnitude_def rbind_Inr_iff
    by (auto split: if_splits prod.splits simp: rbind_Inr_iff dest!: digits_left rawchar_left)
  then show ?thesis using assms unfolding consumes_def rbind_Inr_iff by fastforce
qed

lemma sign_left: "accept_sign c p = Inr (neg, c', p') \<Longrightarrow> left p' \<le> left p"
  by (auto simp: accept_sign_def rbind_Inr_iff dest!: rawchar_left split: if_splits)

lemma consumes_sign [consume]:
  "(\<And>neg c' p'. left p' \<le> left p \<Longrightarrow> consumes g n (f neg c' p')) \<Longrightarrow>
   consumes g n (rbind (accept_sign c p) (\<lambda>(neg, c, p). f neg c p))"
  using sign_left unfolding consumes_def rbind_Inr_iff by fastforce

lemma consumes_int: "consumes none (left p) (accept_int p)"
  unfolding accept_int_def by (intro consume; simp)

lemmas consumes_literal_binds [consume] =
  consumes_bind[OF consumes_string] consumes_bind[OF consumes_name]
  consumes_bind[OF consumes_char_literal] consumes_bind[OF consumes_int]

lemma consumes_number: "consumes none (left p) (accept_number p)"
  unfolding accept_number_def
  by (intro consume consumes_weaken[OF consumes_int]; simp)

lemmas consumes_number_bind [consume] = consumes_bind[OF consumes_number]

lemma consumes_entry: "consumes opt (left p) (accept_entry new p)"
  unfolding accept_entry_def Let_def by (intro consume; simp)

lemmas consumes_entry_bind [consume] = consumes_bind[OF consumes_entry]

lemma consumes_pair:
  "(\<And>a b. consumes g n (f a b)) \<Longrightarrow> consumes g n (case x of (a, b) \<Rightarrow> f a b)"
  "(\<And>a b. consumes g n (h a b p)) \<Longrightarrow> consumes g n ((case x of (a, b) \<Rightarrow> h a b) p)"
  by (simp_all add: case_prod_unfold)

section \<open>Sections and files\<close>

text \<open>
  The loop of \<open>accept_section\<close>; \<open>entries\<close> is the chain from \<open>first_entry\<close> to
  \<open>last_entry\<close>. The body runs at least once, so a section has an entry. With the chain the
  loop returns the \<open>next\<close> of its last entry.
\<close>

function accept_section_loop :: "(pstate \<Rightarrow> u32) \<Rightarrow> cfg_entry list \<Rightarrow> pstate \<Rightarrow>
    ((cfg_entry list \<times> u32) \<times> pstate) res" where
  "accept_section_loop new entries p =
    rbind (accept_entry new p) (\<lambda>(entry, p).
      case entry of
        None \<Rightarrow> Inl ExitFailure
      | Some (e, garbage) \<Rightarrow>
        (let entries = entries @ [e] in
         rbind (accept_whitespace p) (\<lambda>p.
         rbind (accept_char (CHR '';'') p) (\<lambda>(semi, p).
           if \<not> semi then Inl ExitFailure
           else rbind (accept_whitespace p) (\<lambda>p.
             rbind (accept_char (CHR 0x7D) p) (\<lambda>(brace, p).
               if brace then Inr ((entries, garbage), p) else accept_section_loop new entries p))))))"
  by pat_completeness auto
termination
  by (relation "measure (\<lambda>(new, es, p). left p)")
    (auto dest!: consumesD[OF consumes_entry] whitespace_left accept_char_left)

declare accept_section_loop.simps [simp del]

definition accept_section :: "(pstate \<Rightarrow> u32) \<Rightarrow> pstate \<Rightarrow> ((raw_section \<times> u32) option \<times> pstate) res" where
  "accept_section new p =
    rbind (accept_whitespace p) (\<lambda>p.
    rbind (accept_name p) (\<lambda>(type, p).
      case type of
        None \<Rightarrow> Inr (None, p)
      | Some type \<Rightarrow>
        rbind (accept_whitespace p) (\<lambda>p.
        rbind (accept_name p) (\<lambda>(name, p).
        rbind (case name of Some n \<Rightarrow> Inr (name, p) | None \<Rightarrow> accept_string p) (\<lambda>(name, p).
          case name of
            None \<Rightarrow> Inl ExitFailure
          | Some name \<Rightarrow>
            let garbage = new p in
            rbind (accept_whitespace p) (\<lambda>p.
            rbind (expect_char (CHR 0x7B) p) (\<lambda>p.
            rbind (accept_section_loop new [] p) (\<lambda>((entries, eend), p).
              Inr (Some (\<lparr>section_type = type, section_name = name, section_entries = entries,
                entries_end = eend\<rparr>, garbage), p)))))))))"

lemma consumes_section_loop: "consumes none (left p) (accept_section_loop new es p)"
proof (induction "left p" arbitrary: es p rule: less_induct)
  case less
  have IH: "consumes none n (accept_section_loop new es' p')" if "left p' < left p" "left p' \<le> n" for es' p' n
    using less[OF that(1)] that(2) unfolding consumes_def by fastforce
  show ?case
    by (subst accept_section_loop.simps) (unfold Let_def, intro consume consumes_pair IH; simp)
qed

lemmas consumes_section_loop_bind [consume] = consumes_bind[OF consumes_section_loop]

lemma consumes_section: "consumes opt (left p) (accept_section new p)"
proof -
  have "consumes none (left p) (case name of Some n \<Rightarrow> Inr (name, p) | None \<Rightarrow> accept_string p)" for name p
    by (cases name) (simp_all add: consume consumes_string)
  note [consume] = consumes_bind[OF this]
  show ?thesis unfolding accept_section_def Let_def by (intro consume consumes_pair; simp)
qed

lemmas consumes_section_bind [consume] = consumes_bind[OF consumes_section]

text \<open>The loop of \<open>accept_file\<close>: sections separated by commas, at least one.\<close>

function accept_file_loop :: "(pstate \<Rightarrow> u32) \<Rightarrow> raw_section list \<Rightarrow> pstate \<Rightarrow>
    ((raw_section list \<times> u32) \<times> pstate) res" where
  "accept_file_loop new sections p =
    rbind (accept_section new p) (\<lambda>(sec, p).
      case sec of
        None \<Rightarrow> Inl ExitFailure
      | Some (s, garbage) \<Rightarrow>
        (let sections = sections @ [s] in
         rbind (accept_whitespace p) (\<lambda>p.
         rbind (accept_char (CHR 0x7D) p) (\<lambda>(brace, p).
           if brace then Inr ((sections, garbage), p)
           else rbind (accept_char (CHR '','') p) (\<lambda>(comma, p).
             if \<not> comma then Inl ExitFailure else accept_file_loop new sections p)))))"
  by pat_completeness auto
termination
  by (relation "measure (\<lambda>(new, ss, p). left p)")
    (auto dest!: consumesD[OF consumes_section] whitespace_left accept_char_left)

declare accept_file_loop.simps [simp del]

definition accept_file :: "(pstate \<Rightarrow> u32) \<Rightarrow> pstate \<Rightarrow> (raw_file option \<times> pstate) res" where
  "accept_file new p =
    rbind (accept_whitespace p) (\<lambda>p.
    rbind (accept_name p) (\<lambda>(name, p).
      case name of
        None \<Rightarrow> Inr (None, p)
      | Some name \<Rightarrow>
        rbind (accept_whitespace p) (\<lambda>p.
        rbind (expect_char (CHR 0x7B) p) (\<lambda>p.
        rbind (accept_file_loop new [] p) (\<lambda>((sections, send), p).
          Inr (Some \<lparr>raw_name = name, raw_sections = sections,
                raw_last = length sections - 1, raw_end = send\<rparr>, p))))))"

section \<open>Loading a file with its includes\<close>

text \<open>
  \<open>fs\<close> is the file system (\<open>fopen\<close> and the contents read). Splicing relinks
  \<open>next\<close> pointers: \<open>include->last_section->next = insert_point->next\<close> cuts whatever
  followed the section that \<open>last_section\<close> of the included file points to, and moves on what
  followed the insert point, the wild end of the list too.
\<close>

definition splice :: "nat \<Rightarrow> raw_file \<Rightarrow> raw_file \<Rightarrow> raw_file \<times> nat" where
  "splice insert_point incl file =
    (if raw_sections incl \<noteq> [] then
       let new = take (Suc (raw_last incl)) (raw_sections incl);
           secs = raw_sections file
       in (file\<lparr>raw_sections := take (Suc insert_point) secs @ new @ drop (Suc insert_point) secs,
                raw_last := (if raw_last file > insert_point
                  then raw_last file + length new else raw_last file)\<rparr>,
           insert_point + length new)
     else (file, insert_point))"

text \<open>
  The two loops of \<open>load_config\<close>. \<open>load\<close> is the recursive call. The loop over the entries
  ends at the \<open>next\<close> of the last entry, \<open>eend\<close>. The outer loop visits the \<open>n\<close> sections that
  the file itself has: \<open>next_section\<close> is taken before the includes of a section are spliced
  in after it, so it continues behind them, and after the last one it is the \<open>next\<close> which
  that section had.
\<close>

fun load_entries :: "(string \<Rightarrow> pstate \<Rightarrow> (raw_file \<times> pstate) res) \<Rightarrow> cfg_entry list \<Rightarrow> u32 \<Rightarrow>
    nat \<Rightarrow> raw_file \<Rightarrow> pstate \<Rightarrow> (raw_file \<times> nat \<times> pstate) res" where
  "load_entries load [] eend insert_point file p =
    (if eend \<noteq> 0 then Inl BadUsage else Inr (file, insert_point, p))"
| "load_entries load (e # es) eend insert_point file p =
    (case entry_value e of
       CfgInt64 _ \<Rightarrow> load_entries load es eend insert_point file p
     | CfgString path \<Rightarrow> rbind (load path p) (\<lambda>(incl, p).
         let (file, insert_point) = splice insert_point incl file
         in load_entries load es eend insert_point file p))"

fun load_sections :: "(string \<Rightarrow> pstate \<Rightarrow> (raw_file \<times> pstate) res) \<Rightarrow> nat \<Rightarrow> nat \<Rightarrow>
    raw_file \<Rightarrow> pstate \<Rightarrow> (raw_file \<times> pstate) res" where
  "load_sections load 0 i file p = (if raw_end file \<noteq> 0 then Inl BadUsage else Inr (file, p))"
| "load_sections load (Suc n) i file p =
    (let section = raw_sections file ! i in
     if section_type section \<noteq> ''include'' then load_sections load n (Suc i) file p
     else rbind (load_entries load (section_entries section) (entries_end section) i file p)
       (\<lambda>(file, insert_point, p). load_sections load n (Suc insert_point) file p))"

text \<open>The fuel bounds the depth of the recursion: a file that includes itself never ends.\<close>

fun load_config :: "(pstate \<Rightarrow> u32) \<Rightarrow> nat \<Rightarrow> (string \<Rightarrow> string option) \<Rightarrow> string \<Rightarrow> pstate \<Rightarrow>
    (raw_file \<times> pstate) res" where
  "load_config new 0 fs path p = Inl NoReturn"
| "load_config new (Suc fuel) fs path p =
    (case fs path of
       None \<Rightarrow> Inl ExitFailure
     | Some text \<Rightarrow>
         rbind (accept_file new (p\<lparr>parse_input := text\<rparr>)) (\<lambda>(file, p).
           case file of
             None \<Rightarrow> Inl ExitFailure
           | Some file \<Rightarrow> load_sections (load_config new fuel fs) (length (raw_sections file)) 0 file p))"

section \<open>The lists as the rest of the program reads them\<close>

text \<open>
  The lists without their ends, and all the ends. The lookups and the devices are modelled
  on lists that end in null (\<open>cfg_file\<close>), which a raw file is if all its ends are null. A
  lookup that finds what it looks for does not reach the end, one that does not find it
  walks into it. Here a file with an end that is not null is a fault where the rest of the
  program gets it, so a run that gets further has only read lists that end.
\<close>

definition bare_section :: "raw_section \<Rightarrow> cfg_section" where
  "bare_section s = \<lparr>section_type = section_type s, section_name = section_name s,
     section_entries = section_entries s\<rparr>"

definition bare_file :: "raw_file \<Rightarrow> cfg_file" where
  "bare_file f = \<lparr>file_name = raw_name f, file_sections = map bare_section (raw_sections f),
     last_section = raw_last f\<rparr>"

definition list_ends :: "raw_file \<Rightarrow> u32 list" where
  "list_ends f = raw_end f # map entries_end (raw_sections f)"

definition config_of :: "raw_file \<Rightarrow> cfg_file res" where
  "config_of f = (if list_all (\<lambda>e. e = 0) (list_ends f) then Inr (bare_file f) else Inl BadUsage)"

definition parse_start :: pstate where
  "parse_start = \<lparr>parse_input = [], parse_line = 1, parse_col = 0, last_line_col = 0\<rparr>"

end
