(* ===== verification/CfgPrint.thy ===== *)
theory CfgPrint
  imports CfgParser
begin

text \<open>
  A printer for configuration files, written from the grammar in the comments of
  \<open>cfgparser.c\<close>, and the round trip: the parser reads back what the printer writes.
\<close>

section \<open>The printer\<close>

definition digit_char :: "nat \<Rightarrow> char" where
  "digit_char d = (if d < 10 then char_of (code (CHR ''0'') + d) else char_of (code (CHR ''a'') + (d - 10)))"

fun hex_digits :: "nat \<Rightarrow> nat list" where
  "hex_digits n = (if n < 16 then [n] else hex_digits (n div 16) @ [n mod 16])"

declare hex_digits.simps [simp del]

definition quote_char :: "char \<Rightarrow> string" where
  "quote_char c = (if c = CHR 0x22 \<or> c = CHR 0x5C then [CHR 0x5C, c] else [c])"

definition quoted :: "string \<Rightarrow> string" where
  "quoted s = [CHR 0x22] @ concat (map quote_char s) @ [CHR 0x22]"

fun print_value :: "cfg_value \<Rightarrow> string" where
  "print_value (CfgString s) = quoted s"
| "print_value (CfgInt64 v) = ''0x'' @ map digit_char (hex_digits (unat v))"

definition print_entry :: "cfg_entry \<Rightarrow> string" where
  "print_entry e = entry_name e @ '' = '' @ print_value (entry_value e)"

text \<open>The entries with their semicolons, one per line, and the closing brace.\<close>

definition print_entries :: "cfg_entry list \<Rightarrow> string" where
  "print_entries es = concat (map (\<lambda>e. print_entry e @ [CHR '';'', CHR 0x0A]) es) @ [CHR 0x7D]"

definition print_section :: "cfg_section \<Rightarrow> string" where
  "print_section s = section_type s @ '' '' @ quoted (section_name s) @ '' {'' @ [CHR 0x0A] @
     print_entries (section_entries s)"

fun print_sections :: "cfg_section list \<Rightarrow> string" where
  "print_sections [] = []"
| "print_sections [s] = print_section s @ [CHR 0x0A] @ ''}''"
| "print_sections (s # t # ss) = print_section s @ '', '' @ print_sections (t # ss)"

definition print_file :: "cfg_file \<Rightarrow> string" where
  "print_file f = file_name f @ '' {'' @ [CHR 0x0A] @ print_sections (file_sections f)"

text \<open>What the grammar can express.\<close>

definition is_name :: "string \<Rightarrow> bool" where
  "is_name s \<longleftrightarrow> s \<noteq> [] \<and> isalpha (hd s) \<and> list_all (\<lambda>c. isalnum c \<or> c = CHR ''_'') s"

definition is_text :: "string \<Rightarrow> bool" where
  "is_text s \<longleftrightarrow> list_all (\<lambda>c. c \<noteq> CHR 0x00) s"

definition printable_entry :: "cfg_entry \<Rightarrow> bool" where
  "printable_entry e \<longleftrightarrow> is_name (entry_name e) \<and>
    (case entry_value e of CfgString s \<Rightarrow> is_text s | CfgInt64 _ \<Rightarrow> True)"

definition printable_section :: "cfg_section \<Rightarrow> bool" where
  "printable_section s \<longleftrightarrow> is_name (section_type s) \<and> is_text (section_name s) \<and>
    section_entries s \<noteq> [] \<and> list_all printable_entry (section_entries s)"

definition printable :: "cfg_file \<Rightarrow> bool" where
  "printable f \<longleftrightarrow> is_name (file_name f) \<and> file_sections f \<noteq> [] \<and>
    list_all printable_section (file_sections f) \<and> last_section f = length (file_sections f) - 1"

section \<open>Reading what was printed\<close>

text \<open>\<open>reads m x rest\<close>: \<open>m\<close> succeeds with \<open>x\<close> and leaves \<open>rest\<close>, whatever the
  line and column counters become.\<close>

definition reads :: "('a \<times> pstate) res \<Rightarrow> 'a \<Rightarrow> string \<Rightarrow> bool" where
  "reads m x rest \<longleftrightarrow> (\<exists>p. m = Inr (x, p) \<and> parse_input p = rest)"

definition leaves :: "pstate res \<Rightarrow> string \<Rightarrow> bool" where
  "leaves m rest \<longleftrightarrow> (\<exists>p. m = Inr p \<and> parse_input p = rest)"

lemma reads_bind:
  "reads m x r \<Longrightarrow> (\<And>p. parse_input p = r \<Longrightarrow> reads (f x p) y s) \<Longrightarrow> reads (rbind m (case_prod f)) y s"
  by (auto simp: reads_def)

lemma leaves_bind:
  "leaves m r \<Longrightarrow> (\<And>p. parse_input p = r \<Longrightarrow> reads (f p) y s) \<Longrightarrow> reads (rbind m f) y s"
  by (auto simp: reads_def leaves_def)

lemma reads_Inr [simp]: "reads (Inr (x, p)) y r \<longleftrightarrow> x = y \<and> parse_input p = r"
  by (auto simp: reads_def)

lemma rawchar_or_eof_Cons:
  "parse_input p = c # r \<Longrightarrow> \<exists>p'. accept_rawchar_or_eof p = (Some c, p') \<and> parse_input p' = r"
  by (simp add: accept_rawchar_or_eof_def Let_def)

lemma reads_rawchar: "parse_input p = c # r \<Longrightarrow> reads (accept_rawchar p) c r"
  using rawchar_or_eof_Cons[of p c r] by (auto simp: reads_def accept_rawchar_def)

lemma leaves_return: "c \<noteq> CHR 0xFF \<Longrightarrow> parse_input p = r \<Longrightarrow> leaves (return_rawchar c p) (c # r)"
  by (auto simp: leaves_def return_rawchar_def Let_def)

lemma leaves_expect: "parse_input p = c # r \<Longrightarrow> leaves (expect_char c p) r"
  using reads_rawchar[of p c r] by (auto simp: leaves_def expect_char_def reads_def)

lemma reads_accept_char: "parse_input p = c # r \<Longrightarrow> reads (accept_char c p) True r"
  using reads_rawchar[of p c r] by (auto simp: accept_char_def reads_def)

lemma reads_accept_char_other:
  "parse_input p = d # r \<Longrightarrow> d \<noteq> c \<Longrightarrow> d \<noteq> CHR 0xFF \<Longrightarrow> reads (accept_char c p) False (d # r)"
  unfolding accept_char_def
  by (rule reads_bind[OF reads_rawchar], assumption) (auto intro: leaves_bind[OF leaves_return])

lemma char_or_eof_Cons:
  "parse_input p = c # r \<Longrightarrow> c \<noteq> CHR 0xFF \<Longrightarrow>
   \<exists>p'. accept_char_or_eof p = (Some c, p') \<and> parse_input p' = r"
  using rawchar_or_eof_Cons[of p c r] by (auto simp: accept_char_or_eof_def)

subsection \<open>White space\<close>

lemma leaves_whitespace:
  "parse_input p = ws @ c # r \<Longrightarrow> list_all isspace ws \<Longrightarrow> \<not> isspace c \<Longrightarrow> c \<noteq> CHR 0xFF \<Longrightarrow>
   leaves (accept_whitespace p) (c # r)"
proof (induction ws arbitrary: p)
  case Nil
  then obtain p' where "accept_rawchar_or_eof p = (Some c, p')" "parse_input p' = r"
    using rawchar_or_eof_Cons[of p c r] by auto
  with Nil leaves_return[of c p' r] show ?case by (subst accept_whitespace.simps) simp
next
  case (Cons w ws)
  then obtain p' where "accept_rawchar_or_eof p = (Some w, p')" "parse_input p' = ws @ c # r"
    using rawchar_or_eof_Cons[of p w "ws @ c # r"] by auto
  with Cons show ?case by (subst accept_whitespace.simps) simp
qed

subsection \<open>Strings and names\<close>

lemma c_str_id: "is_text s \<Longrightarrow> c_str s = s"
  by (simp add: c_str_def is_text_def list_all_iff takeWhile_eq_all_conv)

lemma reads_string_loop:
  "parse_input p = concat (map quote_char s) @ CHR 0x22 # r \<Longrightarrow>
   reads (accept_string_loop buf p) (buf @ s) (CHR 0x22 # r)"
proof (induction s arbitrary: buf p)
  case Nil
  then show ?case
    by (subst accept_string_loop.simps)
      (rule reads_bind[OF reads_rawchar], auto intro: leaves_bind[OF leaves_return])
next
  case (Cons c s)
  have IH: "reads (accept_string_loop (buf @ [c]) p') (buf @ c # s) (CHR 0x22 # r)"
    if "parse_input p' = concat (map quote_char s) @ CHR 0x22 # r" for p'
    using Cons.IH[OF that, of "buf @ [c]"] by simp
  show ?case
  proof (cases "c = CHR 0x22 \<or> c = CHR 0x5C")
    case True
    then have esc: "map_esc c = Inr c" and q: "quote_char c = [CHR 0x5C, c]"
      by (auto simp: map_esc_def quote_char_def)
    have "parse_input p = CHR 0x5C # c # concat (map quote_char s) @ CHR 0x22 # r"
      using Cons.prems q by simp
    then show ?thesis
      by (subst accept_string_loop.simps)
        (rule reads_bind[OF reads_rawchar], assumption,
         auto simp: esc intro!: reads_bind[OF reads_rawchar] IH)
  next
    case False
    then have "quote_char c = [c]" by (simp add: quote_char_def)
    then have "parse_input p = c # concat (map quote_char s) @ CHR 0x22 # r"
      using Cons.prems by simp
    with False show ?thesis
      by (subst accept_string_loop.simps)
        (rule reads_bind[OF reads_rawchar], assumption, auto intro!: IH)
  qed
qed

lemma reads_string:
  assumes "parse_input p = quoted s @ r" and "is_text s"
  shows "reads (accept_string p) (Some s) r"
proof -
  obtain p' where p': "accept_char_or_eof p = (Some (CHR 0x22), p')"
      "parse_input p' = concat (map quote_char s) @ CHR 0x22 # r"
    using assms(1) char_or_eof_Cons[of p "CHR 0x22"] by (auto simp: quoted_def)
  show ?thesis
    unfolding accept_string_def
    using p' by (auto intro!: reads_bind[OF reads_string_loop] leaves_bind[OF leaves_expect] simp: c_str_id[OF assms(2)])
qed

lemma reads_string_other:
  assumes "parse_input p = c # r" and "c \<noteq> CHR 0x22" and "c \<noteq> CHR 0xFF"
  shows "reads (accept_string p) None (c # r)"
  using char_or_eof_Cons[OF assms(1,3)] assms
  by (auto simp: accept_string_def intro!: leaves_bind[OF leaves_return])

lemma isalnum_not [simp]: "\<not> isalnum (CHR 0x5C)" "\<not> isalpha (CHR 0x5C)" "\<not> isalpha (CHR 0xFF)" "\<not> isalnum (CHR 0xFF)"
  "\<not> isalpha (CHR 0x22)" "\<not> isspace (CHR 0x22)"
  by (simp_all add: isalnum_def isalpha_def isdigit_def isspace_def in_range_def code_def of_char_def)

lemma isalpha_alnum: "isalpha c \<Longrightarrow> isalnum c"
  by (simp add: isalnum_def)

lemma reads_name_loop:
  "parse_input p = s @ t # r \<Longrightarrow> isalnum c \<or> c = CHR ''_'' \<Longrightarrow>
   list_all (\<lambda>c. isalnum c \<or> c = CHR ''_'') s \<Longrightarrow>
   \<not> isalnum t \<Longrightarrow> t \<noteq> CHR ''_'' \<Longrightarrow> t \<noteq> CHR 0xFF \<Longrightarrow>
   reads (accept_name_loop buf c p) (buf @ c # s) (t # r)"
proof (induction s arbitrary: buf c p)
  case Nil
  then have "c \<noteq> CHR 0x5C" by auto
  with Nil show ?case
    by (subst accept_name_loop.simps)
      (auto intro!: reads_bind[OF reads_rawchar] leaves_bind[OF leaves_return])
next
  case (Cons d s)
  then have "c \<noteq> CHR 0x5C" by auto
  with Cons.prems have "reads (rbind (accept_rawchar p) (\<lambda>(e, p).
      if isalnum e \<or> e = CHR ''_'' then accept_name_loop (buf @ [c]) e p
      else rbind (return_rawchar e p) (\<lambda>p. Inr (buf @ [c], p)))) (buf @ c # d # s) (t # r)"
    using Cons.IH[where buf = "buf @ [c]" and c = d]
    by (intro reads_bind[OF reads_rawchar]) auto
  with \<open>c \<noteq> CHR 0x5C\<close> show ?case by (subst accept_name_loop.simps) simp
qed

lemma is_name_text: "is_name s \<Longrightarrow> is_text s"
  by (auto simp: is_name_def is_text_def list_all_iff isalnum_def isalpha_def isdigit_def
      in_range_def code_def of_char_def)

lemma reads_name:
  assumes "parse_input p = s @ t # r" and "is_name s" and "\<not> isalnum t" "t \<noteq> CHR ''_''" "t \<noteq> CHR 0xFF"
  shows "reads (accept_name p) (Some s) (t # r)"
proof -
  obtain c s' where s: "s = c # s'" using assms(2) by (cases s) (auto simp: is_name_def)
  then have c: "isalpha c" "list_all (\<lambda>c. isalnum c \<or> c = CHR ''_'') s'" "c \<noteq> CHR 0xFF"
    using assms(2) by (auto simp: is_name_def)
  obtain p' where p': "accept_char_or_eof p = (Some c, p')" "parse_input p' = s' @ t # r"
    using char_or_eof_Cons[of p c "s' @ t # r"] c assms(1) s by auto
  have "reads (rbind (accept_name_loop [] c p') (\<lambda>(buffer, p). Inr (Some (c_str buffer), p))) (Some s) (t # r)"
    using c assms p' s c_str_id[OF is_name_text[OF assms(2)]]
    by (intro reads_bind[OF reads_name_loop[of p' s' t r c "[]"]]) (auto simp: isalpha_alnum)
  with p' c show ?thesis by (simp add: accept_name_def)
qed

lemma reads_name_other:
  assumes "parse_input p = c # r" and "\<not> isalpha c" and "c \<noteq> CHR 0xFF"
  shows "reads (accept_name p) None (c # r)"
  using char_or_eof_Cons[OF assms(1,3)] assms
  by (auto simp: accept_name_def intro!: leaves_bind[OF leaves_return])

lemma whitespace_none: "parse_input p = c # r \<Longrightarrow> \<not> isspace c \<Longrightarrow> c \<noteq> CHR 0xFF \<Longrightarrow> leaves (accept_whitespace p) (c # r)"
  using leaves_whitespace[of p "[]" c r] by simp

lemma whitespace_one: "parse_input p = w # c # r \<Longrightarrow> isspace w \<Longrightarrow> \<not> isspace c \<Longrightarrow> c \<noteq> CHR 0xFF \<Longrightarrow>
  leaves (accept_whitespace p) (c # r)"
  using leaves_whitespace[of p "[w]" c r] by simp

subsection \<open>Numbers\<close>

lemma digit_char_less:
  assumes "d < 16"
  shows "map_digit (digit_char d) = Some d" and "code (digit_char d) < 128"
proof -
  have u: "[0..<16] = [0, 1, 2, 3, 4, 5, 6, 7, 8, 9, 10, 11, 12, 13, 14, 15 :: nat]"
    by (simp add: upt_rec)
  have "d \<in> set [0..<16]" using assms by simp
  then show "map_digit (digit_char d) = Some d" "code (digit_char d) < 128"
    unfolding u by (auto simp: digit_char_def map_digit_def in_range_def code_def)
qed

lemma hex_digits_less: "list_all (\<lambda>d. d < 16) (hex_digits n)"
  by (induction n rule: hex_digits.induct) (subst hex_digits.simps, simp)

lemma hex_digits_value: "foldl (\<lambda>out d. out * 16 + d) 0 (hex_digits n) = n"
proof (induction n rule: hex_digits.induct)
  case (1 n)
  then show ?case by (subst hex_digits.simps) simp
qed

lemma foldl_of_nat:
  "foldl (\<lambda>out d. out * 16 + of_nat d) (of_nat a) ds = (of_nat (foldl (\<lambda>out d. out * 16 + d) a ds) :: u64)"
proof (induction ds arbitrary: a)
  case (Cons d ds)
  show ?case using Cons[of "a * 16 + d"] by simp
qed simp

lemma hex_digits_nonempty: "hex_digits n \<noteq> []"
  by (subst hex_digits.simps) simp

lemma accept_hex:
  "parse_input p = map digit_char ds @ t # r \<Longrightarrow> d < 16 \<Longrightarrow> list_all (\<lambda>d. d < 16) ds \<Longrightarrow> map_digit t = None \<Longrightarrow>
   \<exists>p'. accept_digits 16 out (digit_char d) p =
     Inr (foldl (\<lambda>out d. out * 16 + of_nat d) out (d # ds), t, p') \<and> parse_input p' = r"
proof (induction ds arbitrary: out d p)
  case Nil
  then obtain q where "accept_rawchar p = Inr (t, q)" "parse_input q = r"
    using reads_rawchar[of p t r] by (auto simp: reads_def)
  with Nil show ?case
    by (subst accept_digits.simps) (simp add: digit_char_less accept_digits.simps[of 16 _ t])
next
  case (Cons e ds)
  then obtain q where q: "accept_rawchar p = Inr (digit_char e, q)" "parse_input q = map digit_char ds @ t # r"
    using reads_rawchar[of p "digit_char e"] by (auto simp: reads_def)
  with Cons.prems show ?case
    using Cons.IH[of q e "out * 16 + of_nat d"]
    by (subst accept_digits.simps) (simp add: digit_char_less)
qed

lemma reads_int:
  assumes "parse_input p = ''0x'' @ map digit_char (hex_digits (unat v)) @ t # r"
    and "map_digit t = None" and "t \<noteq> CHR 0xFF"
  shows "reads (accept_int p) (Some v) (t # r)"
proof -
  obtain d ds where ds: "hex_digits (unat v) = d # ds"
    using hex_digits_nonempty by (cases "hex_digits (unat v)") auto
  then have lt: "d < 16" "list_all (\<lambda>d. d < 16) ds" using hex_digits_less[of "unat v"] by auto
  have val: "foldl (\<lambda>out d. out * 16 + of_nat d) 0 (d # ds) = v"
    using foldl_of_nat[of 0 "d # ds"] hex_digits_value[of "unat v"] by (simp add: ds)
  obtain p0 where p0: "accept_rawchar_or_eof p = (Some (CHR ''0''), p0)"
      "parse_input p0 = CHR ''x'' # digit_char d # map digit_char ds @ t # r"
    using assms(1) rawchar_or_eof_Cons[of p "CHR ''0''"] by (auto simp: ds)
  obtain p1 where p1: "accept_rawchar p0 = Inr (CHR ''x'', p1)"
      "parse_input p1 = digit_char d # map digit_char ds @ t # r"
    using reads_rawchar[OF p0(2)] by (auto simp: reads_def)
  obtain p2 where p2: "accept_rawchar p1 = Inr (digit_char d, p2)" "parse_input p2 = map digit_char ds @ t # r"
    using reads_rawchar[OF p1(2)] by (auto simp: reads_def)
  obtain p3 where p3: "accept_digits 16 0 (digit_char d) p2 = Inr (v, t, p3)" "parse_input p3 = r"
    using accept_hex[OF p2(2) lt assms(2), of 0] val by auto
  have "accept_magnitude (CHR ''0'') p0 = Inr (v, t, p3)"
    using p1 p2 p3 lt by (simp add: accept_magnitude_def digit_char_less)
  moreover have "isdigit (CHR ''0'')" by (simp add: isdigit_def in_range_def code_def)
  ultimately show ?thesis
    using p0(1) leaves_return[OF assms(3) p3(2)]
    by (auto simp: accept_int_def accept_sign_def leaves_def)
qed

lemma reads_number:
  assumes "parse_input p = ''0x'' @ map digit_char (hex_digits (unat v)) @ t # r"
    and "map_digit t = None" and "t \<noteq> CHR 0xFF"
  shows "reads (accept_number p) (Some v) (t # r)"
proof -
  obtain p0 where "accept_rawchar_or_eof p = (Some (CHR ''0''), p0)" "parse_input p0 = tl (parse_input p)"
    using assms(1) rawchar_or_eof_Cons[of p "CHR ''0''"] by auto
  then have "reads (accept_char_literal p) (-1) (parse_input p)"
    using assms(1) by (auto simp: accept_char_literal_def intro!: leaves_bind[OF leaves_return])
  with assms show ?thesis
    unfolding accept_number_def by (auto intro!: reads_bind reads_int)
qed

subsection \<open>Entries, sections, files\<close>

lemma code_lit: "code (CHR ''A'') = 65" "code (CHR ''Z'') = 90" "code (CHR ''a'') = 97" "code (CHR ''z'') = 122"
  "code (CHR '' '') = 32" "code (CHR 0x09) = 9" "code (CHR 0x0D) = 13" "code (CHR 0xFF) = 255"
  by (simp_all add: code_def of_char_def)

lemma alpha_code: "isalpha c \<Longrightarrow> 65 \<le> code c \<and> code c \<le> 122"
  by (auto simp: isalpha_def in_range_def code_lit)

lemma space_code: "isspace c \<Longrightarrow> code c \<le> 32" "code (CHR 0xFF) = 255"
  by (auto simp: isspace_def in_range_def code_lit)

lemma name_head:
  assumes "is_name s"
  obtains c s' where "s = c # s'" and "\<not> isspace c" and "c \<noteq> CHR 0xFF" and "isalpha c"
proof (cases s)
  case (Cons c s')
  with assms have "isalpha c" by (simp add: is_name_def)
  moreover from this have "\<not> isspace c" "c \<noteq> CHR 0xFF"
    using alpha_code space_code by fastforce+
  ultimately show ?thesis using that Cons by blast
qed (use assms in \<open>simp add: is_name_def\<close>)

lemma char_facts [simp]:
  "isspace (CHR '' '')" "isspace (CHR 0x0A)" "\<not> isspace (CHR ''='')" "\<not> isspace (CHR 0x7B)"
  "\<not> isspace (CHR 0x7D)" "\<not> isspace (CHR '';'')" "\<not> isspace (CHR '','')" "\<not> isspace (CHR ''0'')"
  "\<not> isalnum (CHR '' '')" "\<not> isalnum (CHR '';'')" "\<not> isalpha (CHR 0x7D)" "map_digit (CHR '';'') = None"
  by (simp_all add: isspace_def isalnum_def isalpha_def isdigit_def in_range_def code_def of_char_def map_digit_def)

lemma readsE: "reads m x r \<Longrightarrow> (\<And>p. m = Inr (x, p) \<Longrightarrow> parse_input p = r \<Longrightarrow> thesis) \<Longrightarrow> thesis"
  by (auto simp: reads_def)

lemma leavesE: "leaves m r \<Longrightarrow> (\<And>p. m = Inr p \<Longrightarrow> parse_input p = r \<Longrightarrow> thesis) \<Longrightarrow> thesis"
  by (auto simp: leaves_def)

lemma print_value_head: "\<exists>c s. print_value v @ r = c # s \<and> (c = CHR 0x22 \<or> c = CHR ''0'')"
  by (cases v) (simp_all add: quoted_def)

text \<open>What follows the equals sign of an entry: a string or else a number.\<close>

lemma reads_value_string:
  assumes "parse_input p = print_value (CfgString s) @ r" and "is_text s"
  obtains p' where "accept_string p = Inr (Some s, p')" and "parse_input p' = r"
  using reads_string[of p s r] assms by (auto elim: readsE)

lemma reads_value_int:
  assumes "parse_input p = print_value (CfgInt64 v) @ CHR '';'' # r"
  obtains p' p'' where "accept_string p = Inr (None, p')" and "accept_number p' = Inr (Some v, p'')"
    and "parse_input p'' = CHR '';'' # r"
proof -
  have "reads (accept_string p) None (parse_input p)"
    using reads_string_other[of p "CHR ''0''" "tl (parse_input p)"] assms by simp
  then obtain p' where p': "accept_string p = Inr (None, p')" "parse_input p' = parse_input p"
    by (rule readsE)
  have "reads (accept_number p') (Some v) (CHR '';'' # r)"
    using p' assms by (intro reads_number) simp_all
  with p' that show thesis by (auto elim: readsE)
qed

lemma reads_entry:
  assumes "parse_input p = ws @ print_entry e @ CHR '';'' # r" and "list_all isspace ws" and "printable_entry e"
  shows "\<exists>g\<in>range new. reads (accept_entry new p) (Some (e, g)) (CHR '';'' # r)"
proof -
  let ?v = "print_value (entry_value e) @ CHR '';'' # r"
  have name: "is_name (entry_name e)" using assms(3) by (simp add: printable_entry_def)
  obtain c s where c: "entry_name e = c # s" "\<not> isspace c" "c \<noteq> CHR 0xFF" "isalpha c"
    using name by (rule name_head)
  have "leaves (accept_whitespace p) (entry_name e @ CHR '' '' # CHR ''='' # CHR '' '' # ?v)"
    using leaves_whitespace[of p ws c] assms(1,2) c by (auto simp: print_entry_def)
  then obtain p1 where 1: "accept_whitespace p = Inr p1"
      "parse_input p1 = entry_name e @ CHR '' '' # CHR ''='' # CHR '' '' # ?v" by (rule leavesE)
  obtain p2 where 2: "accept_name p1 = Inr (Some (entry_name e), p2)"
      "parse_input p2 = CHR '' '' # CHR ''='' # CHR '' '' # ?v"
    using reads_name[OF 1(2) name] by (auto elim: readsE)
  obtain p3 where 3: "accept_whitespace p2 = Inr p3" "parse_input p3 = CHR ''='' # CHR '' '' # ?v"
    using whitespace_one[OF 2(2)] by (auto elim: leavesE)
  obtain p4 where 4: "expect_char (CHR ''='') p3 = Inr p4" "parse_input p4 = CHR '' '' # ?v"
    using leaves_expect[OF 3(2)] by (rule leavesE)
  have "leaves (accept_whitespace p4) ?v"
    using print_value_head[of "entry_value e" "CHR '';'' # r"] 4(2) by (auto intro!: whitespace_one)
  then obtain p5 where 5: "accept_whitespace p4 = Inr p5" "parse_input p5 = ?v" by (rule leavesE)
  note steps = 1(1) 2(1) 3(1) 4(1) 5(1)
  have "reads (accept_entry new p) (Some (e, new p2)) (CHR '';'' # r)"
  proof (cases "entry_value e")
    case (CfgString str)
    with assms(3) have "is_text str" by (simp add: printable_entry_def)
    with 5(2) CfgString obtain p6 where "accept_string p5 = Inr (Some str, p6)" "parse_input p6 = CHR '';'' # r"
      by (metis reads_value_string)
    with CfgString show ?thesis by (simp add: accept_entry_def steps Let_def)
  next
    case (CfgInt64 v)
    with 5(2) obtain p6 p7 where "accept_string p5 = Inr (None, p6)" "accept_number p6 = Inr (Some v, p7)"
        "parse_input p7 = CHR '';'' # r"
      by (metis reads_value_int)
    with CfgInt64 show ?thesis by (simp add: accept_entry_def steps Let_def)
  qed
  then show ?thesis by blast
qed

lemma print_entries_Cons: "print_entries (e # es) = print_entry e @ CHR '';'' # CHR 0x0A # print_entries es"
  by (simp add: print_entries_def)

lemma reads_section_loop:
  "parse_input p = ws @ print_entries (e # es) @ r \<Longrightarrow> list_all isspace ws \<Longrightarrow>
   list_all printable_entry (e # es) \<Longrightarrow> \<exists>g\<in>range new. reads (accept_section_loop new acc p) (acc @ e # es, g) r"
proof (induction es arbitrary: acc e p ws)
  case (Nil acc e p)
  have inp: "parse_input p = ws @ print_entry e @ CHR '';'' # CHR 0x0A # CHR 0x7D # r"
    using Nil(1) by (simp add: print_entries_def)
  obtain g p1 where g: "g \<in> range new"
    and 1: "accept_entry new p = Inr (Some (e, g), p1)" "parse_input p1 = CHR '';'' # CHR 0x0A # CHR 0x7D # r"
    using reads_entry[OF inp, of new] Nil(2,3) by (auto elim!: readsE)
  obtain p2 where 2: "accept_whitespace p1 = Inr p2" "parse_input p2 = CHR '';'' # CHR 0x0A # CHR 0x7D # r"
    using whitespace_none[OF 1(2)] by (auto elim: leavesE)
  obtain p3 where 3: "accept_char (CHR '';'') p2 = Inr (True, p3)" "parse_input p3 = CHR 0x0A # CHR 0x7D # r"
    using reads_accept_char[OF 2(2)] by (rule readsE)
  obtain p4 where 4: "accept_whitespace p3 = Inr p4" "parse_input p4 = CHR 0x7D # r"
    using whitespace_one[OF 3(2)] by (auto elim: leavesE)
  obtain p5 where 5: "accept_char (CHR 0x7D) p4 = Inr (True, p5)" "parse_input p5 = r"
    using reads_accept_char[OF 4(2)] by (rule readsE)
  have "reads (accept_section_loop new acc p) (acc @ [e], g) r"
    by (subst accept_section_loop.simps) (simp add: 1(1) 2(1) 3(1) 4(1) 5)
  with g show ?case by blast
next
  case (Cons f es acc e p)
  define tl where "tl = print_entries (f # es) @ r"
  obtain c s where c: "tl = c # s" "\<not> isspace c" "c \<noteq> CHR 0xFF" "c \<noteq> CHR 0x7D"
  proof -
    have "is_name (entry_name f)" using Cons.prems(3) by (simp add: printable_entry_def)
    then obtain c s where "entry_name f = c # s" "\<not> isspace c" "c \<noteq> CHR 0xFF" "isalpha c"
      by (rule name_head)
    moreover from this have "c \<noteq> CHR 0x7D" by auto
    ultimately show ?thesis using that by (simp add: tl_def print_entries_Cons print_entry_def)
  qed
  have inp: "parse_input p = ws @ print_entry e @ CHR '';'' # CHR 0x0A # tl"
    using Cons.prems(1) by (simp add: print_entries_Cons[of e] tl_def)
  obtain g p1 where 1: "accept_entry new p = Inr (Some (e, g), p1)" "parse_input p1 = CHR '';'' # CHR 0x0A # tl"
    using reads_entry[OF inp, of new] Cons.prems(2,3) by (auto elim!: readsE)
  obtain p2 where 2: "accept_whitespace p1 = Inr p2" "parse_input p2 = CHR '';'' # CHR 0x0A # tl"
    using whitespace_none[OF 1(2)] by (auto elim: leavesE)
  obtain p3 where 3: "accept_char (CHR '';'') p2 = Inr (True, p3)" "parse_input p3 = CHR 0x0A # tl"
    using reads_accept_char[OF 2(2)] by (rule readsE)
  obtain p4 where 4: "accept_whitespace p3 = Inr p4" "parse_input p4 = tl"
    using whitespace_one[of p3 "CHR 0x0A" c s] 3(2) c by (auto elim: leavesE)
  obtain p5 where 5: "accept_char (CHR 0x7D) p4 = Inr (False, p5)" "parse_input p5 = tl"
    using reads_accept_char_other[of p4 c s] 4(2) c by (auto elim: readsE)
  have "\<exists>g\<in>range new. reads (accept_section_loop new (acc @ [e]) p5) ((acc @ [e]) @ f # es, g) r"
    using 5(2) Cons.prems(3) by (intro Cons.IH[of p5 "[]"]) (simp_all add: tl_def)
  then show ?case
    by (subst accept_section_loop.simps) (simp add: 1(1) 2(1) 3(1) 4(1) 5)
qed

lemma reads_section:
  assumes "parse_input p = ws @ print_section s @ r" and "list_all isspace ws" and "printable_section s"
  shows "\<exists>s' g. bare_section s' = s \<and> {entries_end s', g} \<subseteq> range new \<and> reads (accept_section new p) (Some (s', g)) r"
proof -
  have name: "is_name (section_type s)" "is_text (section_name s)"
    using assms(3) by (simp_all add: printable_section_def)
  obtain e es where es: "section_entries s = e # es" "list_all printable_entry (e # es)"
    using assms(3) by (cases "section_entries s") (auto simp: printable_section_def)
  obtain c t where c: "section_type s = c # t" "\<not> isspace c" "c \<noteq> CHR 0xFF" "isalpha c"
    using name(1) by (rule name_head)
  define t1 where "t1 = CHR '' '' # CHR 0x7B # CHR 0x0A # print_entries (e # es) @ r"
  define t2 where "t2 = quoted (section_name s) @ t1"
  obtain t3 where t3: "t2 = CHR 0x22 # t3" by (simp add: t2_def quoted_def)
  obtain p1 where 1: "accept_whitespace p = Inr p1" "parse_input p1 = section_type s @ CHR '' '' # t2"
    using leaves_whitespace[of p ws c "t @ CHR '' '' # t2"] assms(1,2) c es
    by (auto elim: leavesE simp: print_section_def t2_def t1_def)
  obtain p2 where 2: "accept_name p1 = Inr (Some (section_type s), p2)" "parse_input p2 = CHR '' '' # t2"
    using reads_name[OF 1(2) name(1)] by (auto elim: readsE)
  obtain p3 where 3: "accept_whitespace p2 = Inr p3" "parse_input p3 = t2"
    using whitespace_one[of p2 "CHR '' ''" "CHR 0x22" t3] 2(2) by (auto elim: leavesE simp: t3)
  obtain p4 where 4: "accept_name p3 = Inr (None, p4)" "parse_input p4 = t2"
    using reads_name_other[of p3 "CHR 0x22" t3] 3(2) by (auto elim: readsE simp: t3)
  obtain p5 where 5: "accept_string p4 = Inr (Some (section_name s), p5)" "parse_input p5 = t1"
    using reads_string[of p4 "section_name s" t1] 4(2) name(2) by (auto elim: readsE simp: t2_def)
  obtain p6 where 6: "accept_whitespace p5 = Inr p6" "parse_input p6 = CHR 0x7B # CHR 0x0A # print_entries (e # es) @ r"
    using whitespace_one[of p5 "CHR '' ''" "CHR 0x7B"] 5(2) by (auto elim: leavesE simp: t1_def)
  obtain p7 where 7: "expect_char (CHR 0x7B) p6 = Inr p7" "parse_input p7 = [CHR 0x0A] @ print_entries (e # es) @ r"
    using leaves_expect[OF 6(2)] by (auto elim: leavesE)
  obtain g p8 where g: "g \<in> range new"
    and 8: "accept_section_loop new [] p7 = Inr ((e # es, g), p8)" "parse_input p8 = r"
    using reads_section_loop[OF 7(2) _ es(2), of new "[]"] by (auto elim!: readsE)
  have "reads (accept_section new p) (Some (\<lparr>section_type = section_type s, section_name = section_name s,
      section_entries = e # es, entries_end = g\<rparr>, new p5)) r"
    by (simp add: accept_section_def Let_def 1(1) 2(1) 3(1) 4(1) 5(1) 6(1) 7(1) 8)
  moreover have "bare_section \<lparr>section_type = section_type s, section_name = section_name s,
      section_entries = e # es, entries_end = g\<rparr> = s"
    by (simp add: bare_section_def es(1)[symmetric])
  ultimately show ?thesis using g by fastforce
qed

lemma reads_file_loop:
  "parse_input p = ws @ print_sections (s # ss) @ r \<Longrightarrow> list_all isspace ws \<Longrightarrow>
   list_all printable_section (s # ss) \<Longrightarrow> \<exists>ss' g. map bare_section ss' = s # ss \<and>
     insert g (entries_end ` set ss') \<subseteq> range new \<and> reads (accept_file_loop new acc p) (acc @ ss', g) r"
proof (induction ss arbitrary: acc s p ws)
  case (Nil acc s p)
  then have inp: "parse_input p = ws @ print_section s @ CHR 0x0A # CHR 0x7D # r" by simp
  obtain s' g p1 where s': "bare_section s' = s" "{entries_end s', g} \<subseteq> range new"
    and 1: "accept_section new p = Inr (Some (s', g), p1)" "parse_input p1 = CHR 0x0A # CHR 0x7D # r"
    using reads_section[OF inp Nil(2), of new] Nil(3) by simp (blast elim: readsE)
  obtain p2 where 2: "accept_whitespace p1 = Inr p2" "parse_input p2 = CHR 0x7D # r"
    using whitespace_one[OF 1(2)] by (auto elim: leavesE)
  obtain p3 where 3: "accept_char (CHR 0x7D) p2 = Inr (True, p3)" "parse_input p3 = r"
    using reads_accept_char[OF 2(2)] by (rule readsE)
  have "reads (accept_file_loop new acc p) (acc @ [s'], g) r"
    by (subst accept_file_loop.simps) (simp add: 1(1) 2(1) 3)
  with s' show ?case by (intro exI[of _ "[s']"] exI[of _ g]) simp
next
  case (Cons s2 ss acc s p)
  define tl where "tl = print_sections (s2 # ss) @ r"
  have inp: "parse_input p = ws @ print_section s @ CHR '','' # CHR '' '' # tl"
    using Cons.prems(1) by (simp add: tl_def)
  obtain s' g p1 where s': "bare_section s' = s" "entries_end s' \<in> range new"
    and 1: "accept_section new p = Inr (Some (s', g), p1)" "parse_input p1 = CHR '','' # CHR '' '' # tl"
    using reads_section[OF inp Cons.prems(2), of new] Cons.prems(3) by simp (blast elim: readsE)
  obtain p2 where 2: "accept_whitespace p1 = Inr p2" "parse_input p2 = CHR '','' # CHR '' '' # tl"
    using whitespace_none[OF 1(2)] by (auto elim: leavesE)
  obtain p3 where 3: "accept_char (CHR 0x7D) p2 = Inr (False, p3)" "parse_input p3 = CHR '','' # CHR '' '' # tl"
    using reads_accept_char_other[OF 2(2), of "CHR 0x7D"] by (auto elim: readsE)
  obtain p4 where 4: "accept_char (CHR '','') p3 = Inr (True, p4)" "parse_input p4 = CHR '' '' # tl"
    using reads_accept_char[OF 3(2)] by (rule readsE)
  obtain ss' h where ss': "map bare_section ss' = s2 # ss" "insert h (entries_end ` set ss') \<subseteq> range new"
      "reads (accept_file_loop new (acc @ [s']) p4) ((acc @ [s']) @ ss', h) r"
  proof -
    have "\<exists>ss' h. map bare_section ss' = s2 # ss \<and> insert h (entries_end ` set ss') \<subseteq> range new \<and>
        reads (accept_file_loop new (acc @ [s']) p4) ((acc @ [s']) @ ss', h) r"
      using 4(2) Cons.prems(3) by (intro Cons.IH[of p4 "[CHR '' '']"]) (simp_all add: tl_def)
    then show ?thesis by (elim exE conjE) (rule that)
  qed
  then have "reads (accept_file_loop new acc p) (acc @ s' # ss', h) r"
    by (subst accept_file_loop.simps) (simp add: 1(1) 2(1) 3(1) 4(1))
  with s' ss' show ?case by (intro exI[of _ "s' # ss'"] exI[of _ h]) simp
qed

lemma accept_file_print:
  assumes "printable f"
  shows "\<exists>rf p'. accept_file new (p\<lparr>parse_input := print_file f @ rest\<rparr>) = Inr (Some rf, p') \<and>
    parse_input p' = rest \<and> bare_file rf = f \<and> set (list_ends rf) \<subseteq> range new"
proof -
  let ?p = "p\<lparr>parse_input := print_file f @ rest\<rparr>"
  have f: "is_name (file_name f)" "last_section f = length (file_sections f) - 1"
    using assms by (simp_all add: printable_def)
  obtain s ss where ss: "file_sections f = s # ss" "list_all printable_section (s # ss)"
    using assms by (cases "file_sections f") (auto simp: printable_def)
  obtain c t where c: "file_name f = c # t" "\<not> isspace c" "c \<noteq> CHR 0xFF" "isalpha c"
    using f(1) by (rule name_head)
  define tl where "tl = CHR 0x7B # CHR 0x0A # print_sections (s # ss) @ rest"
  obtain p1 where 1: "accept_whitespace ?p = Inr p1" "parse_input p1 = file_name f @ CHR '' '' # tl"
    using whitespace_none[of ?p c "t @ CHR '' '' # tl"] c ss
    by (auto elim: leavesE simp: print_file_def tl_def)
  obtain p2 where 2: "accept_name p1 = Inr (Some (file_name f), p2)" "parse_input p2 = CHR '' '' # tl"
    using reads_name[OF 1(2) f(1)] by (auto elim: readsE)
  obtain p3 where 3: "accept_whitespace p2 = Inr p3" "parse_input p3 = tl"
    using whitespace_one[of p2 "CHR '' ''" "CHR 0x7B"] 2(2) by (auto elim: leavesE simp: tl_def)
  obtain p4 where 4: "expect_char (CHR 0x7B) p3 = Inr p4" "parse_input p4 = [CHR 0x0A] @ print_sections (s # ss) @ rest"
    using leaves_expect[of p3 "CHR 0x7B"] 3(2) by (auto elim: leavesE simp: tl_def)
  have "list_all isspace [CHR 0x0A]" by simp
  from reads_file_loop[OF 4(2) this ss(2), of new "[]", unfolded append_Nil]
  obtain ss' g p5 where ss': "map bare_section ss' = s # ss" "insert g (entries_end ` set ss') \<subseteq> range new"
    and 5: "accept_file_loop new [] p4 = Inr ((ss', g), p5)" "parse_input p5 = rest"
    by (elim exE conjE readsE)
  have "length ss' = length (s # ss)" using arg_cong[OF ss'(1), of length] by simp
  then have "bare_file \<lparr>raw_name = file_name f, raw_sections = ss', raw_last = length ss' - 1, raw_end = g\<rparr> = f"
    using f(2) ss(1) ss'(1) by (simp add: bare_file_def)
  with 5(2) ss'(2) show ?thesis
    by (simp add: accept_file_def list_ends_def 1(1) 2(1) 3(1) 4(1) 5(1))
qed

lemma config_of_ends:
  assumes "set (list_ends f) \<subseteq> range new"
  shows "(\<forall>q. new q = 0) \<Longrightarrow> config_of f = Inr (bare_file f)"
    and "(\<forall>q. new q \<noteq> 0) \<Longrightarrow> config_of f = Inl BadUsage"
proof -
  have "e \<in> set (list_ends f) \<Longrightarrow> \<exists>q. e = new q" for e using assms by blast
  moreover have "raw_end f \<in> set (list_ends f)" by (simp add: list_ends_def)
  ultimately show "(\<forall>q. new q = 0) \<Longrightarrow> config_of f = Inr (bare_file f)"
    and "(\<forall>q. new q \<noteq> 0) \<Longrightarrow> config_of f = Inl BadUsage"
    by (fastforce simp: config_of_def list_all_iff)+
qed

text \<open>C10. The parser reads back what the printer writes: for every configuration whose names
  are identifiers, whose strings have no NUL, and whose sections have entries (all the
  grammar can express), parsing the printed text, followed by anything, gives lists with the
  same contents. Strings go through the escapes and 64 bit values through hexadecimal. The
  lists end in what \<open>malloc\<close> left in the last elements: where it gives zeroed memory the
  result is the printed configuration, where it never does it is not one the program can
  walk.\<close>

theorem accept_file_print_file:
  assumes "printable f"
  shows "\<exists>rf p'. accept_file new (p\<lparr>parse_input := print_file f @ rest\<rparr>) = Inr (Some rf, p') \<and>
    parse_input p' = rest \<and> bare_file rf = f \<and> set (list_ends rf) \<subseteq> range new \<and>
    ((\<forall>q. new q = 0) \<longrightarrow> config_of rf = Inr f) \<and> ((\<forall>q. new q \<noteq> 0) \<longrightarrow> config_of rf = Inl BadUsage)"
proof -
  obtain rf p' where "accept_file new (p\<lparr>parse_input := print_file f @ rest\<rparr>) = Inr (Some rf, p')"
      "parse_input p' = rest" "bare_file rf = f" "set (list_ends rf) \<subseteq> range new"
    using accept_file_print[OF assms] by blast
  then show ?thesis using config_of_ends[of rf new] by (intro exI[of _ rf] exI[of _ p']) blast
qed

definition sample_file :: cfg_file where
  "sample_file = \<lparr>file_name = ''cfg'', file_sections =
     [\<lparr>section_type = ''device'', section_name = ''d 0'', section_entries =
        [\<lparr>entry_name = ''sai'', entry_value = CfgInt64 0x1F\<rparr>,
         \<lparr>entry_name = ''bus'', entry_value = CfgString ''a\"b''\<rparr>]\<rparr>],
     last_section = 0\<rparr>"

lemma sample_printable: "printable sample_file"
  by (simp add: sample_file_def printable_def printable_section_def printable_entry_def is_name_def
      is_text_def isalnum_def isalpha_def isdigit_def in_range_def code_def)

theorem accept_file_print_file_witness:
  "(\<exists>rf p'. accept_file (\<lambda>q. 0) (parse_start\<lparr>parse_input := print_file sample_file @ []\<rparr>) = Inr (Some rf, p') \<and>
    parse_input p' = [] \<and> config_of rf = Inr sample_file) \<and>
   (\<exists>rf p'. accept_file (\<lambda>q. 1) (parse_start\<lparr>parse_input := print_file sample_file @ []\<rparr>) = Inr (Some rf, p') \<and>
    bare_file rf = sample_file \<and> config_of rf = Inl BadUsage)"
  using accept_file_print_file[OF sample_printable, where new = "\<lambda>q. 0" and p = parse_start and rest = "[]"]
    accept_file_print_file[OF sample_printable, where new = "\<lambda>q. 1" and p = parse_start and rest = "[]"]
  by fastforce

end
