(* ===== verification/CfgLoad.thy ===== *)
theory CfgLoad
  imports CfgPrint
begin

text \<open>
  What \<open>load_config\<close> computes: the specification expands every include section in place,
  and the relinking of \<open>next\<close> pointers implements it. Also what gets lost on the way, and
  what happens to a file that includes itself.
\<close>

section \<open>Specification\<close>

text \<open>The sections of an included file that stay reachable when it is spliced.\<close>

definition visible :: "raw_file \<Rightarrow> raw_section list" where
  "visible f = take (Suc (raw_last f)) (raw_sections f)"

fun expand_entries :: "(string \<Rightarrow> pstate \<Rightarrow> (raw_file \<times> pstate) res) \<Rightarrow> cfg_entry list \<Rightarrow> u32 \<Rightarrow> pstate \<Rightarrow>
    (raw_section list \<times> pstate) res" where
  "expand_entries load [] eend p = (if eend \<noteq> 0 then Inl BadUsage else Inr ([], p))"
| "expand_entries load (e # es) eend p =
    (case entry_value e of
       CfgInt64 _ \<Rightarrow> expand_entries load es eend p
     | CfgString path \<Rightarrow> rbind (load path p) (\<lambda>(incl, p).
         rbind (expand_entries load es eend p) (\<lambda>(ss, p). Inr (visible incl @ ss, p))))"

text \<open>Each section with what it includes.\<close>

fun expand :: "(string \<Rightarrow> pstate \<Rightarrow> (raw_file \<times> pstate) res) \<Rightarrow> raw_section list \<Rightarrow> pstate \<Rightarrow>
    (raw_section list list \<times> pstate) res" where
  "expand load [] p = Inr ([], p)"
| "expand load (s # secs) p =
    rbind (if section_type s = ''include'' then expand_entries load (section_entries s) (entries_end s) p else Inr ([], p))
      (\<lambda>(ss, p). rbind (expand load secs p) (\<lambda>(gs, p). Inr ((s # ss) # gs, p)))"

section \<open>The pointer splicing implements it\<close>

definition insert_after :: "nat \<Rightarrow> raw_section list \<Rightarrow> raw_file \<Rightarrow> raw_file" where
  "insert_after i ss f = f\<lparr>
     raw_sections := take (Suc i) (raw_sections f) @ ss @ drop (Suc i) (raw_sections f),
     raw_last := (if raw_last f > i then raw_last f + length ss else raw_last f)\<rparr>"

lemma insert_after_Nil: "insert_after i [] f = f"
  by (simp add: insert_after_def)

lemma insert_after_append:
  "i < length (raw_sections f) \<Longrightarrow>
   insert_after (i + length as) bs (insert_after i as f) = insert_after i (as @ bs) f"
  by (simp add: insert_after_def min_def)

lemma splice_insert: "splice i incl f = (insert_after i (visible incl) f, i + length (visible incl))"
  by (cases "raw_sections incl") (simp_all add: splice_def insert_after_def visible_def Let_def)

lemma load_entries_expand:
  "i < length (raw_sections f) \<Longrightarrow> load_entries load es eend i f p =
    rbind (expand_entries load es eend p) (\<lambda>(ss, p). Inr (insert_after i ss f, i + length ss, p))"
proof (induction es arbitrary: i f p)
  case (Cons e es)
  have len: "i + length (visible incl) < length (raw_sections (insert_after i (visible incl) f))" for incl
    using Cons.prems by (simp add: insert_after_def)
  show ?case
  proof (cases "entry_value e")
    case (CfgString path)
    show ?thesis
      by (cases "load path p")
        (auto simp: CfgString splice_insert rbind_assoc case_prod_unfold Cons.IH[OF len]
          insert_after_append[OF Cons.prems] add.assoc intro!: rbind_cong)
  qed (simp add: Cons)
qed (simp add: insert_after_Nil)

definition last_after :: "raw_file \<Rightarrow> raw_section list \<Rightarrow> raw_section list list \<Rightarrow> nat" where
  "last_after f pre gs = (if gs = [] then raw_last f else length (pre @ concat (butlast gs)))"

lemma expand_length: "expand load secs p = Inr (gs, p') \<Longrightarrow> length gs = length secs"
  by (induction secs arbitrary: p gs p') (auto simp: rbind_Inr_iff)

lemma load_sections_expand:
  assumes "raw_sections f = pre @ orig"
    and "orig \<noteq> [] \<Longrightarrow> raw_last f = length pre + length orig - 1"
  shows "load_sections load (length orig) (length pre) f p =
    rbind (expand load orig p) (\<lambda>(gs, p).
      if raw_end f \<noteq> 0 then Inl BadUsage
      else Inr (f\<lparr>raw_sections := pre @ concat gs, raw_last := last_after f pre gs\<rparr>, p))"
  using assms
proof (induction orig arbitrary: pre f p)
  case Nil
  then show ?case by (simp add: last_after_def)
next
  case (Cons s orig)
  have at: "raw_sections f ! length pre = s" using Cons.prems(1) by simp
  have step: "load_sections load (length orig) (length (pre @ s # ss)) (insert_after (length pre) ss f) p =
      rbind (expand load orig p) (\<lambda>(gs, p). if raw_end f \<noteq> 0 then Inl BadUsage
        else Inr (f\<lparr>raw_sections := pre @ concat ((s # ss) # gs),
          raw_last := last_after f pre ((s # ss) # gs)\<rparr>, p))" for ss p
  proof -
    let ?f = "insert_after (length pre) ss f"
    have "raw_sections ?f = (pre @ s # ss) @ orig"
      using Cons.prems(1) by (simp add: insert_after_def)
    moreover have "orig \<noteq> [] \<Longrightarrow> raw_last ?f = length (pre @ s # ss) + length orig - 1"
      using Cons.prems by (cases orig) (auto simp: insert_after_def)
    ultimately have "load_sections load (length orig) (length (pre @ s # ss)) ?f p =
      rbind (expand load orig p) (\<lambda>(gs, p). if raw_end ?f \<noteq> 0 then Inl BadUsage
        else Inr (?f\<lparr>raw_sections := (pre @ s # ss) @ concat gs, raw_last := last_after ?f (pre @ s # ss) gs\<rparr>, p))"
      by (rule Cons.IH)
    moreover have "last_after ?f (pre @ s # ss) gs = last_after f pre ((s # ss) # gs)"
      if "expand load orig p = Inr (gs, p')" for gs p'
      using expand_length[OF that] Cons.prems
      by (cases orig) (auto simp: last_after_def insert_after_def)
    ultimately show ?thesis
      by (cases "expand load orig p") (auto simp: insert_after_def)
  qed
  show ?case
  proof (cases "section_type s = ''include''")
    case True
    have lt: "length pre < length (raw_sections f)" using Cons.prems(1) by simp
    show ?thesis
      using True step
      by (cases "expand_entries load (section_entries s) (entries_end s) p")
        (auto simp: at load_entries_expand[OF lt] rbind_assoc case_prod_unfold Let_def cong: if_cong)
  next
    case False
    then show ?thesis
      using step[of "[]" p] by (simp add: at rbind_assoc case_prod_unfold insert_after_Nil Let_def cong: if_cong)
  qed
qed

lemma accept_entry_garbage: "accept_entry new p = Inr (Some (e, g), p') \<Longrightarrow> g \<in> range new"
  by (auto simp: accept_entry_def rbind_Inr_iff Let_def split: option.splits)

lemma accept_section_garbage: "accept_section new p = Inr (Some (s, g), p') \<Longrightarrow> g \<in> range new"
  by (auto simp: accept_section_def rbind_Inr_iff Let_def split: option.splits)

lemma accept_file_loop_end:
  "accept_file_loop new ss p = Inr ((ss', g), p') \<Longrightarrow> ss' \<noteq> [] \<and> g \<in> range new"
proof (induction "left p" arbitrary: ss p rule: less_induct)
  case less
  obtain s h p1 p2 brace p3 where 1: "accept_section new p = Inr (Some (s, h), p1)" "accept_whitespace p1 = Inr p2"
      "accept_char (CHR 0x7D) p2 = Inr (brace, p3)"
    and rest: "(if brace then Inr ((ss @ [s], h), p3)
       else rbind (accept_char (CHR '','') p3) (\<lambda>(comma, p).
         if \<not> comma then Inl ExitFailure else accept_file_loop new (ss @ [s]) p)) = Inr ((ss', g), p')"
    using less.prems unfolding accept_file_loop.simps[of new ss p]
    by (auto simp: rbind_Inr_iff Let_def split: option.splits)
  note l = consumesD[OF consumes_section 1(1)] whitespace_left[OF 1(2)] accept_char_left[OF 1(3)]
  show ?case
  proof (cases brace)
    case True
    then show ?thesis using rest accept_section_garbage[OF 1(1)] by auto
  next
    case False
    then obtain p4 where p4: "accept_char (CHR '','') p3 = Inr (True, p4)"
        "accept_file_loop new (ss @ [s]) p4 = Inr ((ss', g), p')"
      using rest by (auto simp: rbind_Inr_iff split: if_splits)
    have "left p4 < left p" using l accept_char_left[OF p4(1)] False by simp
    from less.hyps[OF this p4(2)] show ?thesis .
  qed
qed

lemma accept_file_parsed:
  assumes "accept_file new p = Inr (Some f, p')"
  shows "raw_last f = length (raw_sections f) - 1" and "raw_sections f \<noteq> []" and "raw_end f \<in> range new"
proof -
  obtain q where l: "accept_file_loop new [] q = Inr ((raw_sections f, raw_end f), p')"
    and "raw_last f = length (raw_sections f) - 1"
    using assms by (auto simp: accept_file_def rbind_Inr_iff split: option.splits prod.splits)
  then show "raw_last f = length (raw_sections f) - 1" "raw_sections f \<noteq> []" "raw_end f \<in> range new"
    using accept_file_loop_end[OF l] by simp_all
qed

lemma expand_heads:
  "expand load secs p = Inr (gs, q) \<Longrightarrow> map hd gs = secs \<and> list_all (\<lambda>g. g \<noteq> []) gs"
  by (induction secs arbitrary: p gs q) (auto simp: rbind_Inr_iff)

lemma load_config_expands_eq:
  assumes "fs path = Some inp" and "accept_file new (p\<lparr>parse_input := inp\<rparr>) = Inr (Some f, q)"
  shows "load_config new (Suc fuel) fs path p =
    rbind (expand (load_config new fuel fs) (raw_sections f) q) (\<lambda>(gs, q).
      if raw_end f \<noteq> 0 then Inl BadUsage
      else Inr (f\<lparr>raw_sections := concat gs, raw_last := last_after f [] gs\<rparr>, q))"
  using load_sections_expand[of f "[]" "raw_sections f" "load_config new fuel fs" q]
    accept_file_parsed(1)[OF assms(2)] assms
  by (simp cong: if_cong)

text \<open>C9. Loading a file expands its include sections in place: the result has the sections
  of the parsed file in their order, each include section directly followed by the
  reachable sections of the files that it names, in the order of its entries, each loaded
  by the same function. The relinking of \<open>next\<close> pointers around a moving insert point is
  this concatenation, and a fault of any part is the fault of the whole. Nothing is assumed
  of what \<open>malloc\<close> left in the \<open>next\<close> of the last entries and sections: where the \<open>next\<close> of
  the last entry of an include section, or of the file's own last section, is not null, the
  loop runs on at a wild pointer and the load faults.\<close>

theorem load_config_expands:
  assumes "fs path = Some inp" and "accept_file new (p\<lparr>parse_input := inp\<rparr>) = Inr (Some f, q)"
  shows "load_config new (Suc fuel) fs path p =
    rbind (expand (load_config new fuel fs) (raw_sections f) q) (\<lambda>(gs, q).
      if raw_end f \<noteq> 0 then Inl BadUsage
      else Inr (f\<lparr>raw_sections := concat gs, raw_last := last_after f [] gs\<rparr>, q))"
  using assms by (rule load_config_expands_eq)

text \<open>A file that includes the sample.\<close>

definition main_file :: cfg_file where
  "main_file = \<lparr>file_name = ''m'', file_sections = [\<lparr>section_type = ''include'', section_name = ''i'',
     section_entries = [\<lparr>entry_name = ''p'', entry_value = CfgString ''f''\<rparr>]\<rparr>], last_section = 0\<rparr>"

definition sample_files :: "string \<Rightarrow> string option" where
  "sample_files path = (if path = ''f'' then Some (print_file sample_file)
     else if path = ''m'' then Some (print_file main_file) else None)"

lemma sample_texts: "sample_files ''f'' = Some (print_file sample_file)" "sample_files ''m'' = Some (print_file main_file)"
  by (simp_all add: sample_files_def)

lemma main_printable: "printable main_file"
  by (simp add: main_file_def printable_def printable_section_def printable_entry_def is_name_def
      is_text_def isalnum_def isalpha_def isdigit_def in_range_def code_def)

lemma parse_print:
  assumes "printable f"
  obtains rf q where "accept_file new (p\<lparr>parse_input := print_file f\<rparr>) = Inr (Some rf, q)"
    and "map bare_section (raw_sections rf) = file_sections f" and "raw_last rf = last_section f"
    and "raw_name rf = file_name f" and "set (list_ends rf) \<subseteq> range new"
proof -
  obtain rf q where r: "accept_file new (p\<lparr>parse_input := print_file f @ []\<rparr>) = Inr (Some rf, q)"
    "bare_file rf = f" "set (list_ends rf) \<subseteq> range new"
    using accept_file_print[OF assms] by blast
  show thesis
    by (rule that[OF r(1)[unfolded append_Nil2]]) (use r(2,3) in \<open>auto simp: bare_file_def\<close>)
qed

lemma bare_section_simps:
  "bare_section s = t \<Longrightarrow> section_type s = section_type t \<and> section_name s = section_name t \<and>
     section_entries s = section_entries t"
  by (auto simp: bare_section_def)

lemma sample_loads:
  "\<exists>s f q. load_config (\<lambda>q. 0) (Suc n) sample_files ''f'' p = Inr (f, q) \<and> raw_sections f = [s] \<and>
    raw_last f = 0 \<and> [bare_section s] = file_sections sample_file \<and> entries_end s = 0"
proof -
  obtain rf q where r: "accept_file (\<lambda>q. 0) (p\<lparr>parse_input := print_file sample_file\<rparr>) = Inr (Some rf, q)"
      "map bare_section (raw_sections rf) = file_sections sample_file" "raw_last rf = last_section sample_file"
      "set (list_ends rf) \<subseteq> range (\<lambda>q :: pstate. 0)"
    using parse_print[OF sample_printable, of "\<lambda>q. 0" p] by metis
  obtain s where s: "raw_sections rf = [s]" using r(2) by (auto simp: sample_file_def)
  have e: "raw_end rf = 0" "entries_end s = 0" "raw_last rf = 0" "section_type s = ''device''"
    using r(2-4) s bare_section_simps[of s] by (auto simp: list_ends_def sample_file_def)
  show ?thesis
    using r(2) s e by (auto simp: load_config_expands_eq[where fs = sample_files and path = "''f''", OF sample_texts(1) r(1)] last_after_def simp del: load_config.simps intro!: exI[of _ s])
qed

theorem load_config_expands_witness:
  "(\<exists>rf q. load_config (\<lambda>q. 0) 2 sample_files ''m'' parse_start = Inr (rf, q) \<and>
     config_of rf = Inr (main_file\<lparr>file_sections := file_sections main_file @ file_sections sample_file\<rparr>)) \<and>
   load_config (\<lambda>q. 1) (Suc 0) sample_files ''f'' parse_start = Inl BadUsage"
proof (rule conjI, goal_cases)
  case 1
  obtain rf q where r: "accept_file (\<lambda>q. 0) (parse_start\<lparr>parse_input := print_file main_file\<rparr>) = Inr (Some rf, q)"
      "map bare_section (raw_sections rf) = file_sections main_file" "raw_last rf = last_section main_file"
      "raw_name rf = file_name main_file" "set (list_ends rf) \<subseteq> range (\<lambda>q :: pstate. 0)"
    using parse_print[OF main_printable, of "\<lambda>q. 0" parse_start] by metis
  obtain s where s: "raw_sections rf = [s]" using r(2) by (auto simp: main_file_def)
  have e: "raw_end rf = 0" "entries_end s = 0" "raw_last rf = 0" "section_type s = ''include''"
    "section_entries s = [\<lparr>entry_name = ''p'', entry_value = CfgString ''f''\<rparr>]"
    using r(2,3,5) s bare_section_simps[of s] by (auto simp: list_ends_def main_file_def)
  obtain t f q' where t: "load_config (\<lambda>q. 0) (Suc 0) sample_files ''f'' q = Inr (f, q')" "raw_sections f = [t]"
    "raw_last f = 0" "[bare_section t] = file_sections sample_file" "entries_end t = 0"
    using sample_loads[of 0 q] by blast
  have x: "expand (load_config (\<lambda>q. 0) (Suc 0) sample_files) (raw_sections rf) q = Inr ([[s, t]], q')"
    using s e t by (simp add: visible_def)
  from load_config_expands[where fuel = "Suc 0" and fs = sample_files and path = "''m''", OF sample_texts(2) r(1), unfolded x] show ?case
    using r(2,4) s e t by (auto simp: config_of_def list_ends_def bare_file_def last_after_def main_file_def numeral_2_eq_2)
next
  case 2
  obtain rf q where r: "accept_file (\<lambda>q. 1) (parse_start\<lparr>parse_input := print_file sample_file\<rparr>) = Inr (Some rf, q)"
      "map bare_section (raw_sections rf) = file_sections sample_file" "set (list_ends rf) \<subseteq> range (\<lambda>q :: pstate. 1)"
    using parse_print[OF sample_printable, of "\<lambda>q. 1" parse_start] by metis
  obtain s where s: "raw_sections rf = [s]" using r(2) by (auto simp: sample_file_def)
  have e: "raw_end rf = 1" "section_type s = ''device''"
    using r(2,3) s bare_section_simps[of s] by (auto simp: list_ends_def sample_file_def)
  show ?case by (simp add: load_config_expands[where fs = sample_files and path = "''f''", OF sample_texts(1) r(1)] s e del: load_config.simps)
qed

text \<open>Where \<open>malloc\<close> never gives a null \<open>next\<close>, no file can be loaded.\<close>

lemma load_config_wild:
  assumes "\<forall>q. new q \<noteq> 0"
  shows "\<not> returns (load_config new fuel fs path p)"
proof (cases fuel)
  case (Suc n)
  have "False" if r: "load_config new fuel fs path p = Inr r" for r
  proof -
    obtain inp f q where f: "fs path = Some inp" "accept_file new (p\<lparr>parse_input := inp\<rparr>) = Inr (Some f, q)"
      using r by (auto simp: Suc rbind_Inr_iff split: option.splits)
    have "raw_end f \<noteq> 0" using accept_file_parsed(3)[OF f(2)] assms by auto
    then show False
      using r unfolding Suc load_config_expands_eq[where fs = fs and path = path, OF f]
      by (auto simp: rbind_Inr_iff)
  qed
  then show ?thesis by (auto simp: returns_iff)
qed simp

section \<open>What a nested include loses\<close>

text \<open>C34. What an including file sees of a loaded file ends at the file's own last section:
  if that section is an include, everything it pulled in is cut off when the file is
  spliced in turn, because \<open>last_section\<close> is not moved when sections are inserted after it.
  A file that loads at all was parsed into a list of sections whose last \<open>next\<close> is null, and
  so is that of the loaded list.\<close>

theorem load_config_visible:
  assumes "load_config new (Suc fuel) fs path p = Inr (f, q)"
  shows "\<exists>inp own q0 gs. fs path = Some inp \<and>
    accept_file new (p\<lparr>parse_input := inp\<rparr>) = Inr (Some own, q0) \<and> raw_end own = 0 \<and>
    map hd gs = raw_sections own \<and> list_all (\<lambda>g. g \<noteq> []) gs \<and> raw_sections f = concat gs \<and> raw_end f = 0 \<and>
    visible f = concat (butlast gs) @ [last (raw_sections own)]"
proof -
  obtain inp own q0 where own: "fs path = Some inp" "accept_file new (p\<lparr>parse_input := inp\<rparr>) = Inr (Some own, q0)"
    using assms by (auto simp: rbind_Inr_iff split: option.splits)
  note load_config_expands_eq[where fs = fs and path = path and fuel = fuel, OF own]
  then obtain gs where t: "expand (load_config new fuel fs) (raw_sections own) q0 = Inr (gs, q)" "raw_end own = 0"
    and f: "f = own\<lparr>raw_sections := concat gs, raw_last := last_after own [] gs\<rparr>"
    using assms by (auto simp: rbind_Inr_iff split: if_splits)
  have ne: "raw_sections own \<noteq> []" using accept_file_parsed(2)[OF own(2)] .
  have gs: "map hd gs = raw_sections own" "list_all (\<lambda>g. g \<noteq> []) gs"
    using expand_heads[OF t(1)] by simp_all
  have "gs \<noteq> []" using gs(1) ne by auto
  then obtain hs g where hg: "gs = hs @ [g]" by (cases gs rule: rev_cases) auto
  with gs have g: "g \<noteq> []" "last (raw_sections own) = hd g" by (auto simp flip: gs(1))
  then have "visible f = concat hs @ [hd g]"
    by (cases g) (simp_all add: visible_def f last_after_def hg)
  then have "visible f = concat (butlast gs) @ [last (raw_sections own)]" using hg g(2) by simp
  with own gs t(2) show ?thesis
    by (intro exI[of _ inp] exI[of _ own] exI[of _ q0] exI[of _ gs]) (simp add: f)
qed

theorem load_config_visible_witness:
  "\<exists>f q own q0 gs. load_config (\<lambda>q. 0) (Suc 0) sample_files ''f'' parse_start = Inr (f, q) \<and>
    accept_file (\<lambda>q. 0) (parse_start\<lparr>parse_input := print_file sample_file\<rparr>) = Inr (Some own, q0) \<and>
    raw_sections f = concat gs \<and> visible f = concat (butlast gs) @ [last (raw_sections own)]"
proof -
  obtain f q where l: "load_config (\<lambda>q. 0) (Suc 0) sample_files ''f'' parse_start = Inr (f, q)"
    using sample_loads by blast
  from load_config_visible[OF l] l show ?thesis by (auto simp: sample_texts)
qed

section \<open>A file that includes itself\<close>

definition self_including :: "string \<Rightarrow> cfg_file \<Rightarrow> bool" where
  "self_including path f \<longleftrightarrow> (\<exists>pre s es post. file_sections f = pre @ s # post \<and>
     list_all (\<lambda>s. section_type s \<noteq> ''include'') pre \<and> section_type s = ''include'' \<and>
     (\<exists>n. section_entries s = \<lparr>entry_name = n, entry_value = CfgString path\<rparr> # es))"

text \<open>A printable file whose first include names the file itself is never loaded: the
  recursion of \<open>load_config\<close> does not end at any depth.\<close>

lemma load_config_self_include:
  assumes "printable f" and "fs path = Some (print_file f)" and "self_including path f"
  shows "load_config new fuel fs path p = Inl NoReturn"
proof (induction fuel arbitrary: p)
  case 0
  show ?case by simp
next
  case (Suc fuel)
  obtain rf q where q: "accept_file new (p\<lparr>parse_input := print_file f\<rparr>) = Inr (Some rf, q)"
      "map bare_section (raw_sections rf) = file_sections f"
    using parse_print[OF assms(1), of new p] by metis
  have skip: "expand load (pre @ secs) q = Inl NoReturn"
    if "list_all (\<lambda>s. section_type s \<noteq> ''include'') pre" "expand load secs q = Inl NoReturn"
    for load pre secs and q
    using that by (induction pre) simp_all
  obtain pre s post es n where f: "file_sections f = pre @ s # post" "section_type s = ''include''"
      "list_all (\<lambda>s. section_type s \<noteq> ''include'') pre"
      "section_entries s = \<lparr>entry_name = n, entry_value = CfgString path\<rparr> # es"
    using assms(3) by (auto simp: self_including_def)
  obtain pre' s' post' where r: "raw_sections rf = pre' @ s' # post'" "map bare_section pre' = pre" "bare_section s' = s"
    using q(2) f(1) by (auto simp: map_eq_append_conv map_eq_Cons_conv)
  have "list_all (\<lambda>s. section_type s \<noteq> ''include'') pre'"
    using f(3) by (simp add: r(2)[symmetric] list_all_iff bare_section_def)
  then have "expand (load_config new fuel fs) (raw_sections rf) q = Inl NoReturn"
    using bare_section_simps[OF r(3)] f(2,4) Suc.IH by (simp add: r(1) skip)
  then show ?case
    using load_config_expands_eq[where fs = fs and path = path, OF assms(2) q(1)] by simp
qed

definition loop_file :: cfg_file where
  "loop_file = \<lparr>file_name = ''a'', file_sections = [\<lparr>section_type = ''include'', section_name = ''i'',
     section_entries = [\<lparr>entry_name = ''p'', entry_value = CfgString ''a''\<rparr>]\<rparr>], last_section = 0\<rparr>"

lemma loop_includes: "self_including ''a'' loop_file"
  unfolding self_including_def loop_file_def by (intro exI[of _ "[]"]) simp

end
