(* ===== verification/DevReg.thy ===== *)
theory DevReg
  imports CfgFile
begin

text \<open>
  \<open>config/devreg.c\<close>: the registries of device types and of device instances, and the loop
  that spawns the devices of a configuration. The same registration contract (a duplicate
  name is fatal, a lookup finds what was registered) holds for PCI buses and functions, so
  it is stated once, as the locale \<open>registry\<close>.
\<close>

section \<open>The contract of a registry\<close>

text \<open>Registering several objects, one after the other.\<close>

fun register_all :: "('a \<Rightarrow> 's \<Rightarrow> 's res) \<Rightarrow> 'a list \<Rightarrow> 's \<Rightarrow> 's res" where
  "register_all register [] s = Inr s"
| "register_all register (a # as) s = rbind (register a s) (register_all register as)"

text \<open>
  \<open>key\<close> is what an object is registered under, \<open>norm\<close> the part of a key that the lookup
  compares, and \<open>stored a s\<close> the object as the registration leaves it in the list.
\<close>

locale registry =
  fixes find :: "'k \<Rightarrow> 's \<Rightarrow> 'a option"
    and register :: "'a \<Rightarrow> 's \<Rightarrow> 's res"
    and key :: "'a \<Rightarrow> 'k"
    and norm :: "'k \<Rightarrow> 'n"
    and stored :: "'a \<Rightarrow> 's \<Rightarrow> 'a"
  assumes register_dup: "find (key a) s \<noteq> None \<Longrightarrow> register a s = Inl ExitFailure"
    and register_new: "find (key a) s = None \<Longrightarrow> \<exists>s'. register a s = Inr s'"
    and find_register: "register a s = Inr s' \<Longrightarrow>
      find k s' = (if norm k = norm (key a) then Some (stored a s) else find k s)"
begin

lemma register_iff: "register a s = Inr s' \<Longrightarrow> find (key a) s = None"
  using register_dup[of a s] by (cases "find (key a) s") auto

lemma register_Inl: "register a s = Inl e \<Longrightarrow> find (key a) s \<noteq> None \<and> e = ExitFailure"
  using register_new[of a s] register_dup[of a s] by (cases "find (key a) s") auto

lemma find_registered: "register a s = Inr s' \<Longrightarrow> find (key a) s' = Some (stored a s)"
  by (simp add: find_register)

lemma register_twice: "register a s = Inr s' \<Longrightarrow> norm (key b) = norm (key a) \<Longrightarrow> register b s' = Inl ExitFailure"
  by (intro register_dup) (simp add: find_register)

text \<open>A sequence of registrations succeeds exactly if all keys are new and different.\<close>

lemma register_all_ok:
  "(\<exists>s'. register_all register as s = Inr s') \<longleftrightarrow>
    distinct (map (\<lambda>a. norm (key a)) as) \<and> (\<forall>a\<in>set as. find (key a) s = None)"
proof (induction as arbitrary: s)
  case (Cons a as)
  show ?case
  proof (cases "register a s")
    case (Inl e)
    with register_Inl[OF Inl] show ?thesis by auto
  next
    case (Inr s1)
    have "(\<forall>b\<in>set as. find (key b) s1 = None) \<longleftrightarrow>
      (\<forall>b\<in>set as. norm (key b) \<noteq> norm (key a) \<and> find (key b) s = None)"
      by (auto simp: find_register[OF Inr])
    moreover have "norm (key a) \<notin> (\<lambda>a. norm (key a)) ` set as \<longleftrightarrow> (\<forall>b\<in>set as. norm (key b) \<noteq> norm (key a))"
      unfolding image_iff by metis
    ultimately show ?thesis using Inr register_iff[OF Inr] Cons.IH[of s1] by auto
  qed
qed simp

lemma register_all_fault: "register_all register as s = Inl e \<Longrightarrow> e = ExitFailure"
proof (induction as arbitrary: s)
  case (Cons a as)
  then show ?case by (cases "register a s") (auto dest: register_Inl)
qed simp

lemma register_all_keeps:
  "register_all register as s = Inr s' \<Longrightarrow> (\<forall>a\<in>set as. norm k \<noteq> norm (key a)) \<Longrightarrow> find k s' = find k s"
  by (induction as arbitrary: s) (auto simp: rbind_Inr_iff find_register)

end

section \<open>Device types and devices\<close>

record 'w device_type =
  type_name :: string
  spawn :: "cfg_file \<Rightarrow> cfg_section \<Rightarrow> 'w \<Rightarrow> 'w res"

record 'i device_instance =
  device_name :: string
  device_impl :: 'i

text \<open>The lists \<open>type_list\<close> and \<open>device_list\<close> are the states; new elements go to the front.\<close>

fun device_type_find :: "string \<Rightarrow> 'w device_type list \<Rightarrow> 'w device_type option" where
  "device_type_find name [] = None"
| "device_type_find name (cur # next) = (if type_name cur = name then Some cur else device_type_find name next)"

definition device_type_register :: "'w device_type \<Rightarrow> 'w device_type list \<Rightarrow> 'w device_type list res" where
  "device_type_register type type_list =
    (if device_type_find (type_name type) type_list \<noteq> None then Inl ExitFailure else Inr (type # type_list))"

fun device_find :: "string \<Rightarrow> 'i device_instance list \<Rightarrow> 'i device_instance option" where
  "device_find name [] = None"
| "device_find name (cur # next) = (if device_name cur = name then Some cur else device_find name next)"

definition device_register :: "'i device_instance \<Rightarrow> 'i device_instance list \<Rightarrow> 'i device_instance list res" where
  "device_register device device_list =
    (if device_find (device_name device) device_list \<noteq> None then Inl ExitFailure else Inr (device # device_list))"

fun initialize_sections :: "'w device_type list \<Rightarrow> cfg_file \<Rightarrow> cfg_section list \<Rightarrow> 'w \<Rightarrow> 'w res" where
  "initialize_sections types file [] w = Inr w"
| "initialize_sections types file (sec # next) w =
    (if section_type sec \<noteq> ''device'' then initialize_sections types file next w
     else case cfg_find_string sec ''type'' of
       None \<Rightarrow> Inl ExitFailure
     | Some typename \<Rightarrow>
         (case device_type_find typename types of
            None \<Rightarrow> Inl ExitFailure
          | Some type \<Rightarrow> rbind (spawn type file sec w) (initialize_sections types file next)))"

definition initialize_devices :: "'w device_type list \<Rightarrow> cfg_file \<Rightarrow> 'w \<Rightarrow> 'w res" where
  "initialize_devices types file w = initialize_sections types file (file_sections file) w"

interpretation types: registry device_type_find device_type_register type_name "\<lambda>k. k" "\<lambda>a s. a"
  by unfold_locales (auto simp: device_type_register_def split: if_splits)

interpretation devices: registry device_find device_register device_name "\<lambda>k. k" "\<lambda>a s. a"
  by unfold_locales (auto simp: device_register_def split: if_splits)

section \<open>Starting the configured devices\<close>

text \<open>What a section asks for: nothing, a device of a known type, or a fatal error.\<close>

definition spawn_of :: "'w device_type list \<Rightarrow> cfg_section \<Rightarrow> (cfg_file \<Rightarrow> cfg_section \<Rightarrow> 'w \<Rightarrow> 'w res) option" where
  "spawn_of types sec = Option.bind (cfg_find_string sec ''type'')
     (\<lambda>n. map_option spawn (device_type_find n types))"

definition device_sections :: "cfg_file \<Rightarrow> cfg_section list" where
  "device_sections file = filter (\<lambda>s. section_type s = ''device'') (file_sections file)"

fun spawn_all :: "'w device_type list \<Rightarrow> cfg_file \<Rightarrow> cfg_section list \<Rightarrow> 'w \<Rightarrow> 'w res" where
  "spawn_all types file [] w = Inr w"
| "spawn_all types file (sec # secs) w =
    (case spawn_of types sec of
       None \<Rightarrow> Inl ExitFailure
     | Some sp \<Rightarrow> rbind (sp file sec w) (spawn_all types file secs))"

text \<open>The configured devices are spawned in the order of their sections: sections that
  are not devices are skipped, and the first device section without a type, or with a type
  that is not registered, ends the program, after the devices before it were spawned.\<close>

lemma initialize_devices_spawns:
  "initialize_devices types file w = spawn_all types file (device_sections file) w"
proof -
  have "initialize_sections types file secs w =
    spawn_all types file (filter (\<lambda>s. section_type s = ''device'') secs) w" for secs
    by (induction secs arbitrary: w)
      (auto simp: spawn_of_def Option.bind_def split: option.splits intro!: rbind_cong)
  then show ?thesis by (simp add: initialize_devices_def device_sections_def)
qed

text \<open>Registering a list of device types at start-up succeeds exactly if their names are
  all different, each lookup then finds the type of that name, and the only other outcome
  is the fatal exit for a redefinition.\<close>

lemma device_types_registered:
  "case register_all device_type_register types [] of
     Inr type_list \<Rightarrow> distinct (map type_name types) \<and>
       list_all (\<lambda>t. device_type_find (type_name t) type_list = Some t) types
   | Inl e \<Rightarrow> e = ExitFailure \<and> \<not> distinct (map type_name types)"
proof -
  have found: "register_all device_type_register ts s = Inr s' \<Longrightarrow> t \<in> set ts \<Longrightarrow>
      device_type_find (type_name t) s' = Some t" for ts s s' and t :: "'a device_type"
  proof (induction ts arbitrary: s)
    case (Cons a ts)
    then obtain s1 where s1: "device_type_register a s = Inr s1"
        "register_all device_type_register ts s1 = Inr s'" by (auto simp: rbind_Inr_iff)
    show ?case
    proof (cases "t \<in> set ts")
      case True
      then show ?thesis using Cons.IH s1 by blast
    next
      case False
      then have "t = a" using Cons.prems by simp
      moreover have "\<forall>b\<in>set ts. device_type_find (type_name b) s1 = None"
        using types.register_all_ok[of ts s1] s1(2) by blast
      then have "\<forall>b\<in>set ts. type_name a \<noteq> type_name b"
        using types.find_registered[OF s1(1)] by force
      ultimately show ?thesis
        using types.register_all_keeps[OF s1(2), of "type_name a"] types.find_registered[OF s1(1)] by simp
    qed
  qed simp
  show ?thesis
  proof (cases "register_all device_type_register types []")
    case (Inl e)
    then show ?thesis
      using types.register_all_fault[OF Inl] types.register_all_ok[of types "[]"] by auto
  next
    case (Inr s')
    then show ?thesis
      using types.register_all_ok[of types "[]"] found[OF Inr] by (auto simp: list_all_iff)
  qed
qed

end
