(* ===== verification/PciBus.thy ===== *)
theory PciBus
  imports DevReg
begin

text \<open>
  \<open>include/pci/bus.h\<close> and \<open>periph/pci/master.c\<close>: configuration addresses, the registry of
  buses and of the functions on a bus, and the bus cycles. A function is the record of its
  callbacks over the state \<open>'w\<close> of the whole program; it may be a bridge, whose callback
  runs a cycle on another bus, so every cycle is state passing.
\<close>

section \<open>Addresses\<close>

definition PCI_CONFIG_SIZE :: int where "PCI_CONFIG_SIZE = 0x1000"
definition PCI_ADDR_TYPE0 :: u64 where "PCI_ADDR_TYPE0 = 0"
definition PCI_ADDR_TYPE1 :: u64 where "PCI_ADDR_TYPE1 = 0x10000000"
definition PCI_ADDR_TYPE0_MASK :: u64 where "PCI_ADDR_TYPE0_MASK = 0x00007FFF"
definition PCI_ADDR_TYPE1_MASK :: u64 where "PCI_ADDR_TYPE1_MASK = 0x0FFFFFFF"
definition PCI_ADDR_BDF_MASK :: u64 where "PCI_ADDR_BDF_MASK = 0x0FFFF000"
definition PCI_BDF_DF_MASK :: u32 where "PCI_BDF_DF_MASK = 0x000FF000"

definition PCI_ADDR_TYPE :: "u64 \<Rightarrow> u64" where "PCI_ADDR_TYPE a = a AND 0x10000000"
definition PCI_ADDR_BUS :: "u64 \<Rightarrow> u64" where "PCI_ADDR_BUS a = drop_bit 20 a AND 0xFF"
definition PCI_ADDR_DEV :: "u64 \<Rightarrow> u64" where "PCI_ADDR_DEV a = drop_bit 15 a AND 0x1F"
definition PCI_ADDR_FUNC :: "u64 \<Rightarrow> u64" where "PCI_ADDR_FUNC a = drop_bit 12 a AND 0x7"
definition PCI_ADDR_REG :: "u64 \<Rightarrow> u64" where "PCI_ADDR_REG a = a AND 0xFFF"

definition PCI_PACK_BDF :: "u32 \<Rightarrow> u32 \<Rightarrow> u32 \<Rightarrow> u32" where
  "PCI_PACK_BDF b d f = push_bit 12 (push_bit 8 b OR push_bit 3 d OR f)"

definition PCI_PACK_ADDR :: "u32 \<Rightarrow> u32 \<Rightarrow> u32 \<Rightarrow> u32 \<Rightarrow> u32" where
  "PCI_PACK_ADDR b d f r = PCI_PACK_BDF b d f OR r"

lemmas pci_masks = PCI_ADDR_TYPE0_def PCI_ADDR_TYPE1_def PCI_ADDR_TYPE0_MASK_def
  PCI_ADDR_TYPE1_MASK_def PCI_ADDR_BDF_MASK_def PCI_BDF_DF_MASK_def

lemmas pci_fields = PCI_ADDR_TYPE_def PCI_ADDR_BUS_def PCI_ADDR_DEV_def PCI_ADDR_FUNC_def PCI_ADDR_REG_def

section \<open>Buses and functions\<close>

text \<open>
  A read callback is given the caller's buffer and returns it as it leaves it, so that a
  read that fails half-way is visible. The \<open>device\<close> pointer of a function is in the
  closures of its callbacks.
\<close>

record 'w pci_func =
  func_bdf :: u32
  cfg_read :: "u64 \<Rightarrow> bytes \<Rightarrow> int \<Rightarrow> 'w \<Rightarrow> (int \<times> bytes \<times> 'w) res"
  cfg_write :: "u64 \<Rightarrow> bytes \<Rightarrow> int \<Rightarrow> 'w \<Rightarrow> (int \<times> 'w) res"
  mem_read :: "u64 \<Rightarrow> bytes \<Rightarrow> int \<Rightarrow> int \<Rightarrow> int \<Rightarrow> 'w \<Rightarrow> (int \<times> bytes \<times> 'w) res"
  mem_write :: "u64 \<Rightarrow> bytes \<Rightarrow> int \<Rightarrow> int \<Rightarrow> int \<Rightarrow> 'w \<Rightarrow> (int \<times> 'w) res"

record 'w pci_bus =
  bus_name :: string
  bus_funcs :: "'w pci_func list"
  bus_num :: u32

fun pci_bus_find :: "string \<Rightarrow> 'w pci_bus list \<Rightarrow> 'w pci_bus option" where
  "pci_bus_find name [] = None"
| "pci_bus_find name (cur # next) = (if bus_name cur = name then Some cur else pci_bus_find name next)"

definition pci_bus_register :: "'w pci_bus \<Rightarrow> 'w pci_bus list \<Rightarrow> 'w pci_bus list res" where
  "pci_bus_register bus bus_list =
    (if pci_bus_find (bus_name bus) bus_list \<noteq> None then Inl ExitFailure else Inr (bus # bus_list))"

fun pci_func_find_in :: "u32 \<Rightarrow> 'w pci_func list \<Rightarrow> 'w pci_func option" where
  "pci_func_find_in bdf [] = None"
| "pci_func_find_in bdf (cur # next) =
    (if bdf = func_bdf cur AND PCI_BDF_DF_MASK then Some cur else pci_func_find_in bdf next)"

definition pci_func_find :: "u32 \<Rightarrow> 'w pci_bus \<Rightarrow> 'w pci_func option" where
  "pci_func_find bdf bus = pci_func_find_in (bdf AND PCI_BDF_DF_MASK) (bus_funcs bus)"

definition on_bus :: "u32 \<Rightarrow> 'w pci_func \<Rightarrow> 'w pci_func" where
  "on_bus num func = func\<lparr>func_bdf := (func_bdf func AND PCI_BDF_DF_MASK) OR PCI_PACK_BDF num 0 0\<rparr>"

definition pci_func_register :: "'w pci_func \<Rightarrow> 'w pci_bus \<Rightarrow> 'w pci_bus res" where
  "pci_func_register func bus =
    (if pci_func_find (func_bdf func) bus \<noteq> None then Inl ExitFailure
     else Inr (bus\<lparr>bus_funcs := on_bus (bus_num bus) func # bus_funcs bus\<rparr>))"

definition pci_set_bus_num :: "u32 \<Rightarrow> 'w pci_bus \<Rightarrow> 'w pci_bus" where
  "pci_set_bus_num num bus = bus\<lparr>bus_num := num, bus_funcs := map (on_bus num) (bus_funcs bus)\<rparr>"

section \<open>Configuration cycles\<close>

text \<open>The loop over all functions of a type 1 cycle: it ends at the first status 0.\<close>

fun type1_read :: "u64 \<Rightarrow> 'w pci_func list \<Rightarrow> bytes \<Rightarrow> int \<Rightarrow> 'w \<Rightarrow> (int \<times> bytes \<times> 'w) res" where
  "type1_read addr [] out count w = Inr (-1, out, w)"
| "type1_read addr (func # next) out count w =
    rbind (cfg_read func addr out count w) (\<lambda>(s, out, w).
      if s = 0 then Inr (0, out, w) else type1_read addr next out count w)"

definition pci_bus_config_read :: "'w pci_bus \<Rightarrow> u64 \<Rightarrow> bytes \<Rightarrow> int \<Rightarrow> 'w \<Rightarrow> (int \<times> bytes \<times> 'w) res" where
  "pci_bus_config_read bus addr out count w =
    (if PCI_ADDR_BUS addr \<noteq> ucast (bus_num bus) then
       let addr = (addr AND PCI_ADDR_TYPE1_MASK) OR PCI_ADDR_TYPE1
       in type1_read addr (bus_funcs bus) out count w
     else case pci_func_find (ucast (addr AND PCI_ADDR_BDF_MASK)) bus of
       None \<Rightarrow> Inr (-1, out, w)
     | Some func \<Rightarrow>
         let addr = (addr AND PCI_ADDR_TYPE0_MASK) OR PCI_ADDR_TYPE0
         in cfg_read func (addr AND PCI_ADDR_TYPE0_MASK) out count w)"

fun type1_write :: "u64 \<Rightarrow> 'w pci_func list \<Rightarrow> bytes \<Rightarrow> int \<Rightarrow> 'w \<Rightarrow> (int \<times> 'w) res" where
  "type1_write addr [] out count w = Inr (-1, w)"
| "type1_write addr (func # next) out count w =
    rbind (cfg_write func addr out count w) (\<lambda>(s, w).
      if s = 0 then Inr (0, w) else type1_write addr next out count w)"

definition pci_bus_config_write :: "'w pci_bus \<Rightarrow> u64 \<Rightarrow> bytes \<Rightarrow> int \<Rightarrow> 'w \<Rightarrow> (int \<times> 'w) res" where
  "pci_bus_config_write bus addr out count w =
    (if PCI_ADDR_BUS addr \<noteq> ucast (bus_num bus) then
       let addr = (addr AND PCI_ADDR_TYPE1_MASK) OR PCI_ADDR_TYPE1
       in type1_write addr (bus_funcs bus) out count w
     else case pci_func_find (ucast (addr AND PCI_ADDR_BDF_MASK)) bus of
       None \<Rightarrow> Inr (-1, w)
     | Some func \<Rightarrow>
         let addr = (addr AND PCI_ADDR_TYPE0_MASK) OR PCI_ADDR_TYPE0
         in cfg_write func (addr AND PCI_ADDR_TYPE0_MASK) out count w)"

section \<open>Memory cycles\<close>

text \<open>
  The functions are asked in turn, then again with the next value of \<open>lat\<close>, until one does
  not answer \<open>-1\<close>.
\<close>

fun mem_read_funcs :: "'w pci_func list \<Rightarrow> u64 \<Rightarrow> bytes \<Rightarrow> int \<Rightarrow> int \<Rightarrow> int \<Rightarrow> 'w \<Rightarrow> (int \<times> bytes \<times> 'w) res" where
  "mem_read_funcs [] addr out count sai lat w = Inr (-1, out, w)"
| "mem_read_funcs (func # next) addr out count sai lat w =
    rbind (mem_read func addr out count sai lat w) (\<lambda>(csai, out, w).
      if csai \<ge> 0 \<or> csai < -1 then Inr (csai, out, w)
      else mem_read_funcs next addr out count sai lat w)"

fun mem_read_lats :: "nat \<Rightarrow> 'w pci_func list \<Rightarrow> u64 \<Rightarrow> bytes \<Rightarrow> int \<Rightarrow> int \<Rightarrow> int \<Rightarrow> 'w \<Rightarrow> (int \<times> bytes \<times> 'w) res" where
  "mem_read_lats 0 funcs addr out count sai lat w = Inr (-1, out, w)"
| "mem_read_lats (Suc n) funcs addr out count sai lat w =
    rbind (mem_read_funcs funcs addr out count sai lat w) (\<lambda>(csai, out, w).
      if csai \<noteq> -1 then Inr (csai, out, w)
      else mem_read_lats n funcs addr out count sai (lat + 1) w)"

definition pci_bus_mem_read :: "'w pci_bus \<Rightarrow> u64 \<Rightarrow> bytes \<Rightarrow> int \<Rightarrow> int \<Rightarrow> int \<Rightarrow> 'w \<Rightarrow> (int \<times> bytes \<times> 'w) res" where
  "pci_bus_mem_read bus addr out count sai max_lat w =
    mem_read_lats (nat max_lat) (bus_funcs bus) addr out count sai 0 w"

fun mem_write_funcs :: "'w pci_func list \<Rightarrow> u64 \<Rightarrow> bytes \<Rightarrow> int \<Rightarrow> int \<Rightarrow> int \<Rightarrow> 'w \<Rightarrow> (int \<times> 'w) res" where
  "mem_write_funcs [] addr out count sai lat w = Inr (-1, w)"
| "mem_write_funcs (func # next) addr out count sai lat w =
    rbind (mem_write func addr out count sai lat w) (\<lambda>(s, w).
      if s \<ge> 0 \<or> s < -1 then Inr (s, w) else mem_write_funcs next addr out count sai lat w)"

fun mem_write_lats :: "nat \<Rightarrow> 'w pci_func list \<Rightarrow> u64 \<Rightarrow> bytes \<Rightarrow> int \<Rightarrow> int \<Rightarrow> int \<Rightarrow> 'w \<Rightarrow> (int \<times> 'w) res" where
  "mem_write_lats 0 funcs addr out count sai lat w = Inr (-1, w)"
| "mem_write_lats (Suc n) funcs addr out count sai lat w =
    rbind (mem_write_funcs funcs addr out count sai lat w) (\<lambda>(s, w).
      if s \<noteq> -1 then Inr (s, w) else mem_write_lats n funcs addr out count sai (lat + 1) w)"

definition pci_bus_mem_write :: "'w pci_bus \<Rightarrow> u64 \<Rightarrow> bytes \<Rightarrow> int \<Rightarrow> int \<Rightarrow> int \<Rightarrow> 'w \<Rightarrow> (int \<times> 'w) res" where
  "pci_bus_mem_write bus addr out count sai max_lat w =
    mem_write_lats (nat max_lat) (bus_funcs bus) addr out count sai 0 w"

text \<open>The bodies of the IO cycles are commented out in the source.\<close>

definition pci_bus_io_read :: "'w pci_bus \<Rightarrow> u64 \<Rightarrow> bytes \<Rightarrow> int \<Rightarrow> int \<Rightarrow> int \<Rightarrow> 'w \<Rightarrow> (int \<times> bytes \<times> 'w) res" where
  "pci_bus_io_read bus addr out count sai max_lat w = Inr (-1, out, w)"

definition pci_bus_io_write :: "'w pci_bus \<Rightarrow> u64 \<Rightarrow> bytes \<Rightarrow> int \<Rightarrow> int \<Rightarrow> int \<Rightarrow> 'w \<Rightarrow> (int \<times> 'w) res" where
  "pci_bus_io_write bus addr out count sai max_lat w = Inr (-1, w)"

section \<open>The registries\<close>

lemma df_mask: "PCI_BDF_DF_MASK = push_bit 12 (mask 8)"
  by (simp add: PCI_BDF_DF_MASK_def mask_eq_exp_minus_1 push_bit_eq_mult)

lemma on_bus_df [simp]: "func_bdf (on_bus n f) AND PCI_BDF_DF_MASK = func_bdf f AND PCI_BDF_DF_MASK"
proof -
  have "PCI_PACK_BDF n 0 0 AND PCI_BDF_DF_MASK = 0"
    by (rule bit_word_eqI) (auto simp: PCI_PACK_BDF_def df_mask bit_simps)
  then show ?thesis by (simp add: on_bus_def bit.conj_disj_distrib2)
qed

interpretation buses: registry pci_bus_find pci_bus_register bus_name "\<lambda>k. k" "\<lambda>a s. a"
  by unfold_locales (auto simp: pci_bus_register_def split: if_splits)

interpretation funcs: registry pci_func_find pci_func_register func_bdf "\<lambda>k. k AND PCI_BDF_DF_MASK"
  "\<lambda>f bus. on_bus (bus_num bus) f"
  by unfold_locales (auto simp: pci_func_register_def pci_func_find_def split: if_splits)

section \<open>Well-formed buses\<close>

text \<open>
  The functions of a bus have different device and function numbers, and the bus number of
  the bus in their addresses.
\<close>

definition bus_wf :: "'w pci_bus \<Rightarrow> bool" where
  "bus_wf bus \<longleftrightarrow> distinct (map (\<lambda>f. func_bdf f AND PCI_BDF_DF_MASK) (bus_funcs bus)) \<and>
     list_all (\<lambda>f. func_bdf f = (func_bdf f AND PCI_BDF_DF_MASK) OR PCI_PACK_BDF (bus_num bus) 0 0) (bus_funcs bus)"

lemma on_bus_bdf: "func_bdf (on_bus n f) = (func_bdf (on_bus n f) AND PCI_BDF_DF_MASK) OR PCI_PACK_BDF n 0 0"
  unfolding on_bus_df by (simp add: on_bus_def)

lemma find_in_none: "pci_func_find_in k fs = None \<longleftrightarrow> k \<notin> set (map (\<lambda>f. func_bdf f AND PCI_BDF_DF_MASK) fs)"
  by (induction fs) auto

lemma find_in_some:
  "distinct (map (\<lambda>f. func_bdf f AND PCI_BDF_DF_MASK) fs) \<Longrightarrow> f \<in> set fs \<Longrightarrow>
   pci_func_find_in (func_bdf f AND PCI_BDF_DF_MASK) fs = Some f"
  by (induction fs) (auto simp: image_iff)

lemma find_in_mem: "pci_func_find_in k fs = Some f \<Longrightarrow> f \<in> set fs \<and> func_bdf f AND PCI_BDF_DF_MASK = k"
  by (induction fs) (auto split: if_splits)

lemma bus_wf_register: "bus_wf bus \<Longrightarrow> pci_func_register func bus = Inr bus' \<Longrightarrow> bus_wf bus'"
  using on_bus_bdf
  by (auto simp: bus_wf_def pci_func_register_def pci_func_find_def find_in_none split: if_splits)

lemma bus_wf_set_num: "bus_wf bus \<Longrightarrow> bus_wf (pci_set_bus_num n bus)"
  using on_bus_bdf by (auto simp: bus_wf_def pci_set_bus_num_def list_all_iff comp_def)

datatype 'w bus_op = Register "'w pci_func" | Renumber u32

fun run_bus_ops :: "'w bus_op list \<Rightarrow> 'w pci_bus \<Rightarrow> 'w pci_bus res" where
  "run_bus_ops [] bus = Inr bus"
| "run_bus_ops (Register f # ops) bus = rbind (pci_func_register f bus) (run_bus_ops ops)"
| "run_bus_ops (Renumber n # ops) bus = run_bus_ops ops (pci_set_bus_num n bus)"

lemma run_bus_ops_wf: "run_bus_ops ops bus = Inr bus' \<Longrightarrow> bus_wf bus \<Longrightarrow> bus_wf bus'"
  by (induction ops bus rule: run_bus_ops.induct)
    (auto simp: rbind_Inr_iff bus_wf_set_num dest: bus_wf_register)

text \<open>From an empty bus on, whatever functions are registered and however the bus is
  renumbered in between: the device and function numbers on the bus stay different, every
  function carries the number of the bus, and a further registration is fatal exactly if
  its device and function number is taken.\<close>

lemma pci_bus_ops_wf:
  assumes "run_bus_ops ops \<lparr>bus_name = name, bus_funcs = [], bus_num = n\<rparr> = Inr bus"
  shows "bus_wf bus \<and> pci_func_register f bus =
    (if func_bdf f AND PCI_BDF_DF_MASK \<in> (\<lambda>g. func_bdf g AND PCI_BDF_DF_MASK) ` set (bus_funcs bus)
     then Inl ExitFailure else Inr (bus\<lparr>bus_funcs := on_bus (bus_num bus) f # bus_funcs bus\<rparr>))"
  using run_bus_ops_wf[OF assms]
  by (auto simp: bus_wf_def pci_func_register_def pci_func_find_def find_in_none)

section \<open>Configuration cycles reach the addressed function\<close>

lemma df_of_bdf: "ucast (addr AND PCI_ADDR_BDF_MASK) AND PCI_BDF_DF_MASK = (ucast addr AND PCI_BDF_DF_MASK :: u32)"
proof -
  have m: "PCI_ADDR_BDF_MASK = push_bit 12 (mask 16)"
    by (simp add: PCI_ADDR_BDF_MASK_def mask_eq_exp_minus_1 push_bit_eq_mult)
  show ?thesis by (rule bit_word_eqI) (auto simp: df_mask m bit_simps)
qed

lemma type0_addr: "((addr AND PCI_ADDR_TYPE0_MASK) OR PCI_ADDR_TYPE0) AND PCI_ADDR_TYPE0_MASK = addr AND PCI_ADDR_TYPE0_MASK"
  by (simp add: PCI_ADDR_TYPE0_def)

text \<open>What a type 1 cycle keeps of the address.\<close>

lemma type1_addr:
  "PCI_ADDR_TYPE ((addr AND PCI_ADDR_TYPE1_MASK) OR PCI_ADDR_TYPE1) = PCI_ADDR_TYPE1"
  "((addr AND PCI_ADDR_TYPE1_MASK) OR PCI_ADDR_TYPE1) AND PCI_ADDR_TYPE1_MASK = addr AND PCI_ADDR_TYPE1_MASK"
proof -
  have m: "PCI_ADDR_TYPE1_MASK = mask 28" "PCI_ADDR_TYPE1 = BIT 28"
    by (simp_all add: PCI_ADDR_TYPE1_MASK_def PCI_ADDR_TYPE1_def mask_eq_exp_minus_1 BIT_def push_bit_eq_mult)
  have t: "(0x10000000 :: u64) = BIT 28" by (simp add: BIT_def push_bit_eq_mult)
  show "PCI_ADDR_TYPE ((addr AND PCI_ADDR_TYPE1_MASK) OR PCI_ADDR_TYPE1) = PCI_ADDR_TYPE1"
    unfolding PCI_ADDR_TYPE_def m t by (rule bit_word_eqI) (auto simp: bit_simps)
  show "((addr AND PCI_ADDR_TYPE1_MASK) OR PCI_ADDR_TYPE1) AND PCI_ADDR_TYPE1_MASK = addr AND PCI_ADDR_TYPE1_MASK"
    unfolding m by (rule bit_word_eqI) (auto simp: bit_simps)
qed

text \<open>Registrations and renumberings keep what is on a bus, up to the bus number.\<close>

definition same_func :: "'w pci_func \<Rightarrow> 'w pci_func \<Rightarrow> bool" where
  "same_func f g \<longleftrightarrow> func_bdf f AND PCI_BDF_DF_MASK = func_bdf g AND PCI_BDF_DF_MASK \<and>
     cfg_read f = cfg_read g \<and> cfg_write f = cfg_write g \<and> mem_read f = mem_read g \<and> mem_write f = mem_write g"

lemma same_func_refl [simp]: "same_func f f"
  by (simp add: same_func_def)

lemma same_func_on_bus [simp]: "same_func (on_bus n f) g = same_func f g"
  by (simp add: same_func_def) (simp add: on_bus_def)

lemma same_func_right: "same_func f (on_bus n g) = same_func f g"
  by (simp add: same_func_def) (simp add: on_bus_def)

lemma run_bus_ops_keep:
  "run_bus_ops ops bus = Inr bus' \<Longrightarrow> \<exists>f\<in>set (bus_funcs bus). same_func f g \<Longrightarrow> \<exists>f\<in>set (bus_funcs bus'). same_func f g"
  by (induction ops bus rule: run_bus_ops.induct)
    (auto simp: rbind_Inr_iff pci_func_register_def pci_set_bus_num_def split: if_splits)

lemma run_bus_ops_registered:
  "run_bus_ops ops bus = Inr bus' \<Longrightarrow> Register g \<in> set ops \<Longrightarrow> \<exists>f\<in>set (bus_funcs bus'). same_func f g"
proof (induction ops bus rule: run_bus_ops.induct)
  case (2 f ops bus)
  then obtain bus1 where b: "pci_func_register f bus = Inr bus1" "run_bus_ops ops bus1 = Inr bus'"
    by (auto simp: rbind_Inr_iff)
  have "\<exists>h\<in>set (bus_funcs bus1). same_func h f"
    using b(1) by (auto simp: pci_func_register_def split: if_splits)
  from run_bus_ops_keep[OF b(2) this] "2.IH"[OF b] "2.prems"(2) show ?case by auto
qed auto

lemma run_bus_ops_from:
  "run_bus_ops ops bus = Inr bus' \<Longrightarrow> f \<in> set (bus_funcs bus') \<Longrightarrow>
   (\<exists>g\<in>set (bus_funcs bus). same_func f g) \<or> (\<exists>g. Register g \<in> set ops \<and> same_func f g)"
proof (induction ops bus rule: run_bus_ops.induct)
  case (1 bus)
  then show ?case by (auto intro!: bexI[of _ f])
next
  case (2 g ops bus)
  then obtain bus1 where b: "pci_func_register g bus = Inr bus1" "run_bus_ops ops bus1 = Inr bus'"
    by (auto simp: rbind_Inr_iff)
  have "set (bus_funcs bus1) = insert (on_bus (bus_num bus) g) (set (bus_funcs bus))"
    using b(1) by (auto simp: pci_func_register_def split: if_splits)
  with "2.IH"[OF b "2.prems"(2)] show ?case by (auto simp: same_func_right)
next
  case (3 n ops bus)
  then show ?case by (auto simp: pci_set_bus_num_def same_func_right)
qed

lemma bdf_fields:
  assumes "addr AND PCI_ADDR_BDF_MASK = ucast ((b AND PCI_BDF_DF_MASK) OR PCI_PACK_BDF num 0 0)" and "num < 0x100"
  shows "PCI_ADDR_BUS addr = ucast num" and "ucast addr AND PCI_BDF_DF_MASK = b AND PCI_BDF_DF_MASK"
proof -
  have m: "PCI_ADDR_BDF_MASK = push_bit 12 (mask 16)" "(0xFF :: u64) = mask 8"
    by (simp_all add: PCI_ADDR_BDF_MASK_def mask_eq_exp_minus_1 push_bit_eq_mult)
  have "num = take_bit 8 num"
    using assms(2) by (simp add: word_unat_eq_iff unsigned_take_bit_eq take_bit_nat_eq_self word_less_nat_alt)
  then have num: "bit num k \<longleftrightarrow> bit num k \<and> k < 8" for k by (metis bit_take_bit_iff)
  have bits: "bit (addr AND PCI_ADDR_BDF_MASK) k = bit (ucast ((b AND PCI_BDF_DF_MASK) OR PCI_PACK_BDF num 0 0) :: u64) k" for k
    by (simp only: assms(1))
  have low: "bit addr k \<longleftrightarrow> bit b k" if "12 \<le> k" "k < 20" for k
  proof -
    have "k - 12 < 8" using that by linarith
    then show ?thesis using bits[of k] that by (simp add: m df_mask PCI_PACK_BDF_def bit_simps)
  qed
  have high: "bit addr (k + 20) \<longleftrightarrow> bit num k" if "k < 8" for k
    using bits[of "k + 20"] that by (simp add: m df_mask PCI_PACK_BDF_def bit_simps)
  show "PCI_ADDR_BUS addr = ucast num"
  proof (rule bit_word_eqI)
    fix k assume "k < LENGTH(64)"
    show "bit (PCI_ADDR_BUS addr) k = bit (ucast num :: u64) k"
      using high[of k] num[of k] by (cases "k < 8") (auto simp: PCI_ADDR_BUS_def m bit_simps add.commute)
  qed
  show "ucast addr AND PCI_BDF_DF_MASK = b AND PCI_BDF_DF_MASK"
    by (rule bit_word_eqI) (use low in \<open>auto simp: df_mask bit_simps\<close>)
qed

text \<open>C19. Whatever functions were registered on a bus and however often it was renumbered in
  between: a configuration cycle whose address has the number that the bus has now, and the
  device and function number with which a function was registered, is delivered to the
  callback of that function and no other, for reads and for writes, with the low 15 bits of
  the address; an address with the number of the bus that belongs to no function on it is
  answered with -1 and changes nothing.\<close>

theorem pci_config_reaches:
  assumes run: "run_bus_ops ops \<lparr>bus_name = name, bus_funcs = [], bus_num = n\<rparr> = Inr bus"
    and num: "bus_num bus < 0x100" and reg: "Register g \<in> set ops"
    and addr: "addr AND PCI_ADDR_BDF_MASK = ucast ((func_bdf g AND PCI_BDF_DF_MASK) OR PCI_PACK_BDF (bus_num bus) 0 0)"
  shows "pci_bus_config_read bus addr out count w = cfg_read g (addr AND PCI_ADDR_TYPE0_MASK) out count w \<and>
    pci_bus_config_write bus addr out count w = cfg_write g (addr AND PCI_ADDR_TYPE0_MASK) out count w \<and>
    (\<forall>a. PCI_ADDR_BUS a = ucast (bus_num bus) \<and>
       (\<forall>h. Register h \<in> set ops \<longrightarrow> func_bdf h AND PCI_BDF_DF_MASK \<noteq> ucast a AND PCI_BDF_DF_MASK) \<longrightarrow>
       pci_bus_config_read bus a out count w = Inr (-1, out, w) \<and> pci_bus_config_write bus a out count w = Inr (-1, w))"
proof (intro conjI allI impI)
  have wf: "bus_wf bus" using run_bus_ops_wf[OF run] by (simp add: bus_wf_def)
  obtain f where f: "f \<in> set (bus_funcs bus)" "same_func f g" using run_bus_ops_registered[OF run reg] by blast
  note fields = bdf_fields[OF addr num]
  have "pci_func_find_in (ucast addr AND PCI_BDF_DF_MASK) (bus_funcs bus) = Some f"
    using find_in_some[OF _ f(1)] wf f(2) fields(2) by (simp add: bus_wf_def same_func_def)
  then show "pci_bus_config_read bus addr out count w = cfg_read g (addr AND PCI_ADDR_TYPE0_MASK) out count w"
    "pci_bus_config_write bus addr out count w = cfg_write g (addr AND PCI_ADDR_TYPE0_MASK) out count w"
    using fields(1) f(2)
    by (simp_all add: pci_bus_config_read_def pci_bus_config_write_def pci_func_find_def df_of_bdf type0_addr Let_def same_func_def)
next
  fix a assume a: "PCI_ADDR_BUS a = ucast (bus_num bus) \<and>
    (\<forall>h. Register h \<in> set ops \<longrightarrow> func_bdf h AND PCI_BDF_DF_MASK \<noteq> ucast a AND PCI_BDF_DF_MASK)"
  have "\<exists>h. Register h \<in> set ops \<and> same_func f h" if "f \<in> set (bus_funcs bus)" for f
    using run_bus_ops_from[OF run that] by simp
  then have "pci_func_find_in (ucast a AND PCI_BDF_DF_MASK) (bus_funcs bus) = None"
    using a by (fastforce simp: find_in_none same_func_def)
  then show "pci_bus_config_read bus a out count w = Inr (-1, out, w)" "pci_bus_config_write bus a out count w = Inr (-1, w)"
    using a by (simp_all add: pci_bus_config_read_def pci_bus_config_write_def pci_func_find_def df_of_bdf Let_def)
qed

text \<open>Two functions that note what they are given, and a bus that is numbered after the first.\<close>

definition noting_func :: "u32 \<Rightarrow> nat \<Rightarrow> (nat \<times> u64) list pci_func" where
  "noting_func bdf k = \<lparr>func_bdf = bdf, cfg_read = (\<lambda>a out n w. Inr (0, out, w @ [(k, a)])),
     cfg_write = (\<lambda>a out n w. Inr (0, w @ [(k, a)])), mem_read = (\<lambda>a out n sai lat w. Inr (-1, out, w)),
     mem_write = (\<lambda>a out n sai lat w. Inr (-1, w))\<rparr>"

theorem pci_config_reaches_witness:
  "\<exists>bus. run_bus_ops [Register (noting_func 0x8000 1), Renumber 2, Register (noting_func 0x9000 2)]
      \<lparr>bus_name = ''b'', bus_funcs = [], bus_num = 0\<rparr> = Inr bus \<and>
    pci_bus_config_read bus 0x208010 [] 4 [] = Inr (0, [], [(1, 0x10)]) \<and>
    pci_bus_config_write bus 0x209010 [] 4 [] = Inr (0, [(2, 0x1010)]) \<and>
    pci_bus_config_read bus 0x20A010 [] 4 [] = Inr (-1, [], [])"
proof -
  let ?ops = "[Register (noting_func 0x8000 1), Renumber 2, Register (noting_func 0x9000 2)]"
  obtain bus where run: "run_bus_ops ?ops \<lparr>bus_name = ''b'', bus_funcs = [], bus_num = 0\<rparr> = Inr bus" and n: "bus_num bus = 2"
    by (simp add: pci_func_register_def pci_func_find_def pci_set_bus_num_def on_bus_def noting_func_def PCI_BDF_DF_MASK_def
        PCI_PACK_BDF_def)
  have g: "Register (noting_func 0x8000 1) \<in> set ?ops" "Register (noting_func 0x9000 2) \<in> set ?ops" by simp_all
  have a: "(0x208010 :: u64) AND PCI_ADDR_BDF_MASK =
      ucast ((func_bdf (noting_func 0x8000 1) AND PCI_BDF_DF_MASK) OR PCI_PACK_BDF (bus_num bus) 0 0)"
    "(0x209010 :: u64) AND PCI_ADDR_BDF_MASK =
      ucast ((func_bdf (noting_func 0x9000 2) AND PCI_BDF_DF_MASK) OR PCI_PACK_BDF (bus_num bus) 0 0)"
    by (simp_all add: n noting_func_def PCI_ADDR_BDF_MASK_def PCI_BDF_DF_MASK_def PCI_PACK_BDF_def)
  have num: "bus_num bus < 0x100" by (simp add: n)
  have c: "cfg_read (noting_func b k) x out m w = Inr (0, out, w @ [(k, x)])"
    "cfg_write (noting_func b k) x out m w = Inr (0, w @ [(k, x)])" for b k x out m w
    by (simp_all add: noting_func_def)
  have none: "\<forall>h. Register h \<in> set ?ops \<longrightarrow> func_bdf h AND PCI_BDF_DF_MASK \<noteq> ucast (0x20A010 :: u64) AND PCI_BDF_DF_MASK"
    by (simp add: noting_func_def PCI_BDF_DF_MASK_def)
  have bus: "PCI_ADDR_BUS 0x20A010 = ucast (bus_num bus)" by (simp add: PCI_ADDR_BUS_def n)
  have m: "(0x208010 :: u64) AND PCI_ADDR_TYPE0_MASK = 0x10" "(0x209010 :: u64) AND PCI_ADDR_TYPE0_MASK = 0x1010"
    by (simp_all add: PCI_ADDR_TYPE0_MASK_def)
  show ?thesis
    using run pci_config_reaches[OF run num g(1) a(1), of "[]" 4 "[]"] pci_config_reaches[OF run num g(2) a(2), of "[]" 4 "[]"]
      none bus unfolding c m by (intro exI[of _ bus]) simp
qed

section \<open>Memory cycles and address decoding\<close>

text \<open>Who answers in the first cycle answers for the bus, whatever is registered behind it.\<close>

lemma answered_append:
  "mem_read_funcs fs addr out count sai lat w = Inr (s, out', w') \<Longrightarrow> s \<noteq> -1 \<Longrightarrow>
    mem_read_funcs (fs @ gs) addr out count sai lat w = Inr (s, out', w')"
  "mem_write_funcs fs addr out count sai lat w = Inr (s, w') \<Longrightarrow> s \<noteq> -1 \<Longrightarrow>
    mem_write_funcs (fs @ gs) addr out count sai lat w = Inr (s, w')"
  by (induction fs arbitrary: out w) (auto simp: rbind_def split: sum.splits if_splits prod.splits)

lemma first_cycle:
  assumes "0 < max_lat"
  shows "mem_read_funcs (bus_funcs bus) addr out count sai 0 w = Inr (s, out', w') \<Longrightarrow> s \<noteq> -1 \<Longrightarrow>
      pci_bus_mem_read bus addr out count sai max_lat w = Inr (s, out', w')"
    and "mem_write_funcs (bus_funcs bus) addr out count sai 0 w = Inr (s, w') \<Longrightarrow> s \<noteq> -1 \<Longrightarrow>
      pci_bus_mem_write bus addr out count sai max_lat w = Inr (s, w')"
proof -
  obtain n where n: "nat max_lat = Suc n" using assms by (cases "nat max_lat") auto
  show "mem_read_funcs (bus_funcs bus) addr out count sai 0 w = Inr (s, out', w') \<Longrightarrow> s \<noteq> -1 \<Longrightarrow>
      pci_bus_mem_read bus addr out count sai max_lat w = Inr (s, out', w')"
    by (simp add: pci_bus_mem_read_def n)
  show "mem_write_funcs (bus_funcs bus) addr out count sai 0 w = Inr (s, w') \<Longrightarrow> s \<noteq> -1 \<Longrightarrow>
      pci_bus_mem_write bus addr out count sai max_lat w = Inr (s, w')"
    by (simp add: pci_bus_mem_write_def n)
qed

text \<open>
  The contract of the functions on a bus: outside of what it decodes (which depends on its
  base address registers, so on the state) a function answers -1 in every cycle and changes
  nothing, and no two functions decode the same address.
\<close>

locale decoded_bus =
  fixes bus :: "'w pci_bus" and decodes :: "'w pci_func \<Rightarrow> u64 \<Rightarrow> 'w \<Rightarrow> bool"
  assumes silent_read: "f \<in> set (bus_funcs bus) \<Longrightarrow> \<not> decodes f addr w \<Longrightarrow>
      mem_read f addr out count sai lat w = Inr (-1, out, w)"
    and silent_write: "f \<in> set (bus_funcs bus) \<Longrightarrow> \<not> decodes f addr w \<Longrightarrow>
      mem_write f addr out count sai lat w = Inr (-1, w)"
begin

lemma unclaimed_funcs:
  "\<forall>f\<in>set fs. \<not> decodes f addr w \<Longrightarrow> set fs \<subseteq> set (bus_funcs bus) \<Longrightarrow>
   mem_read_funcs fs addr out count sai lat w = Inr (-1, out, w) \<and>
   mem_write_funcs fs addr out count sai lat w = Inr (-1, w)"
  by (induction fs) (simp_all add: silent_read silent_write)

lemma unclaimed_lats:
  assumes "\<forall>f\<in>set (bus_funcs bus). \<not> decodes f addr w"
  shows "mem_read_lats n (bus_funcs bus) addr out count sai lat w = Inr (-1, out, w)"
    and "mem_write_lats n (bus_funcs bus) addr out count sai lat w = Inr (-1, w)"
  using unclaimed_funcs[OF assms order_refl] by (induction n arbitrary: lat) simp_all

text \<open>An address nobody decodes: all cycles pass, nothing changes, the master sees -1.\<close>

lemma unclaimed:
  assumes "\<forall>f\<in>set (bus_funcs bus). \<not> decodes f addr w"
  shows "pci_bus_mem_read bus addr out count sai max_lat w = Inr (-1, out, w)"
    and "pci_bus_mem_write bus addr out count sai max_lat w = Inr (-1, w)"
  using unclaimed_lats[OF assms] by (simp_all add: pci_bus_mem_read_def pci_bus_mem_write_def)

lemma claimed_funcs:
  assumes "f \<in> set fs" and "set fs \<subseteq> set (bus_funcs bus)" and "\<forall>g\<in>set fs. g \<noteq> f \<longrightarrow> \<not> decodes g addr w"
  shows "mem_read f addr out count sai lat w = Inr (s, out', w') \<Longrightarrow> s \<noteq> -1 \<Longrightarrow>
      mem_read_funcs fs addr out count sai lat w = Inr (s, out', w')"
    and "mem_write f addr out count sai lat w = Inr (s, w') \<Longrightarrow> s \<noteq> -1 \<Longrightarrow>
      mem_write_funcs fs addr out count sai lat w = Inr (s, w')"
proof -
  assume r: "mem_read f addr out count sai lat w = Inr (s, out', w')" and "s \<noteq> -1"
  then have "0 \<le> s \<or> s < -1" by auto
  with r assms show "mem_read_funcs fs addr out count sai lat w = Inr (s, out', w')"
    by (induction fs) (auto simp: silent_read)
next
  assume r: "mem_write f addr out count sai lat w = Inr (s, w')" and "s \<noteq> -1"
  then have "0 \<le> s \<or> s < -1" by auto
  with r assms show "mem_write_funcs fs addr out count sai lat w = Inr (s, w')"
    by (induction fs) (auto simp: silent_write)
qed

text \<open>An address that exactly one function decodes, which answers in the first cycle.\<close>

lemma claimed:
  assumes "f \<in> set (bus_funcs bus)" and "\<forall>g\<in>set (bus_funcs bus). g \<noteq> f \<longrightarrow> \<not> decodes g addr w" and "0 < max_lat"
  shows "mem_read f addr out count sai 0 w = Inr (s, out', w') \<Longrightarrow> s \<noteq> -1 \<Longrightarrow>
      pci_bus_mem_read bus addr out count sai max_lat w = Inr (s, out', w')"
    and "mem_write f addr out count sai 0 w = Inr (s, w') \<Longrightarrow> s \<noteq> -1 \<Longrightarrow>
      pci_bus_mem_write bus addr out count sai max_lat w = Inr (s, w')"
  subgoal using claimed_funcs(1)[OF assms(1) order_refl assms(2)] first_cycle(1)[OF assms(3), of bus] by blast
  subgoal using claimed_funcs(2)[OF assms(1) order_refl assms(2)] first_cycle(2)[OF assms(3), of bus] by blast
  done

end

end
