(* ===== verification/Layout.thy ===== *)
theory Layout
  imports Prelude
begin

text \<open>
  Packed structs: the list of the members with their sizes in bytes, so that a member is read
  and written at its offset in the bytes of the struct.
\<close>

type_synonym layout = "(string \<times> nat) list"

definition word32 :: nat where "word32 = 4"

fun layout_size :: "layout \<Rightarrow> nat" where
  "layout_size [] = 0"
| "layout_size ((name, n) # rest) = n + layout_size rest"

fun offset_of :: "layout \<Rightarrow> string \<Rightarrow> nat" where
  "offset_of [] name = 0"
| "offset_of ((m, n) # rest) name = (if m = name then 0 else n + offset_of rest name)"

lemma offset_of_append:
  "offset_of (a @ b) name = (if name \<in> fst ` set a then offset_of a name else layout_size a + offset_of b name)"
  by (induction a rule: layout_size.induct) simp_all

lemma layout_size_append: "layout_size (a @ b) = layout_size a + layout_size b"
  by (induction a) auto

text \<open>A member that is in the struct lies inside it.\<close>

end
