(* ===== verification/PciConfig.thy ===== *)
theory PciConfig
  imports PciBus Layout
begin

text \<open>
  \<open>include/pci/cfgspace.h\<close>, \<open>periph/pci/config.c\<close> and \<open>periph/pci/simplefunc.c\<close>: the
  configuration space of a function, its initialisation from the configuration file, and
  the generic function that decodes its base address registers.
\<close>

section \<open>Configuration space\<close>

definition PCI_BAR_ADDRESS_MASK :: u32 where "PCI_BAR_ADDRESS_MASK = 0xFFFFFFF0"
definition PCI_BAR_ADDRESS64_MASK :: u64 where "PCI_BAR_ADDRESS64_MASK = 0xFFFFFFFFFFFFFFF0"
definition PCI_COMMAND_MSE :: u16 where "PCI_COMMAND_MSE = BIT 1"
definition PCI_COMMAND_BME :: u16 where "PCI_COMMAND_BME = BIT 2"

text \<open>
  \<open>pci_cfgspace\<close> is a union of 4096 bytes with the packed type 0 header: the bytes are the
  model, and a field is read and written at its offset.
\<close>

type_synonym pci_cfgspace = bytes

text \<open>The union of \<open>bar\<close> and \<open>bar64\<close> is one member here.\<close>

definition pci_cfgspace_type0 :: layout where
  "pci_cfgspace_type0 =
    [(''vid'', 2), (''did'', 2), (''command'', 2), (''status'', 2), (''revision_id'', 1), (''class_low'', 2),
     (''class_high'', 1), (''cache_line_size'', 1), (''latency_timer'', 1), (''header_type'', 1), (''bist'', 1),
     (''bar'', 24), (''cardbus_cis_pointer'', 4), (''ss_vid'', 2), (''ss_id'', 2), (''rom_bar'', 4),
     (''cap_pointer'', 1), (''reserved'', 7), (''int_line'', 1), (''int_pin'', 1), (''min_grant'', 1),
     (''max_latency'', 1)]"

definition get_field :: "nat \<Rightarrow> nat \<Rightarrow> pci_cfgspace \<Rightarrow> 'a::len word" where
  "get_field off n cfg = le_word (slice off n cfg)"

definition put_field :: "nat \<Rightarrow> nat \<Rightarrow> 'a::len word \<Rightarrow> pci_cfgspace \<Rightarrow> pci_cfgspace" where
  "put_field off n v cfg = blit off (le_bytes n v) cfg"

definition cfg_command :: "pci_cfgspace \<Rightarrow> u16" where "cfg_command cfg = get_field 4 2 cfg"
definition cfg_bar :: "nat \<Rightarrow> pci_cfgspace \<Rightarrow> u32" where "cfg_bar i cfg = get_field (16 + 4 * i) 4 cfg"
definition cfg_bar64 :: "nat \<Rightarrow> pci_cfgspace \<Rightarrow> u64" where "cfg_bar64 i cfg = get_field (16 + 8 * i) 8 cfg"

text \<open>The offsets above, and those of the initialisation below, are those of the packed struct.\<close>

lemma type0_offsets:
  "cfg_command = get_field (offset_of pci_cfgspace_type0 ''command'') 2"
  "cfg_bar i = get_field (offset_of pci_cfgspace_type0 ''bar'' + 4 * i) 4"
  "cfg_bar64 i = get_field (offset_of pci_cfgspace_type0 ''bar'' + 8 * i) 8"
  "map (offset_of pci_cfgspace_type0) [''vid'', ''did'', ''status''] = [0, 2, 6]"
  "layout_size pci_cfgspace_type0 = 64"
  by (simp_all add: fun_eq_iff cfg_command_def cfg_bar_def cfg_bar64_def pci_cfgspace_type0_def)

lemma get_put_field:
  "off + n \<le> length cfg \<Longrightarrow> 8 * n = LENGTH('a) \<Longrightarrow> get_field off n (put_field off n (v :: 'a::len word) cfg) = v"
  by (simp add: get_field_def put_field_def le_word_le_bytes)

lemma get_put_field_other:
  "off' + n' \<le> length cfg \<Longrightarrow> off + n \<le> length cfg \<Longrightarrow> off + n \<le> off' \<or> off' + n' \<le> off \<Longrightarrow>
   get_field off n (put_field off' n' v cfg) = get_field off n cfg"
  unfolding get_field_def put_field_def
  by (rule arg_cong[where f = le_word], rule slice_blit_other) auto

lemma length_put_field [simp]: "off + n \<le> length cfg \<Longrightarrow> length (put_field off n v cfg) = length cfg"
  by (simp add: put_field_def)

section \<open>Initialisation from a section\<close>

definition set_cfg :: "nat \<Rightarrow> nat \<Rightarrow> 'a::len word option \<Rightarrow> pci_cfgspace \<Rightarrow> pci_cfgspace" where
  "set_cfg off n found cfg = (case found of None \<Rightarrow> cfg | Some v \<Rightarrow> put_field off n v cfg)"

definition pci_cfg_handle_type0 :: "cfg_section \<Rightarrow> bool \<Rightarrow> pci_cfgspace \<Rightarrow> pci_cfgspace" where
  "pci_cfg_handle_type0 sec bit64 cfg =
    (let cfg = set_cfg 2 2 (cfg_find_int16 sec ''device_id'') cfg;
         cfg = set_cfg 0 2 (cfg_find_int16 sec ''vendor_id'') cfg;
         cfg = set_cfg 4 2 (cfg_find_int16 sec ''command'') cfg;
         cfg = set_cfg 6 2 (cfg_find_int16 sec ''status'') cfg
     in if \<not> bit64 then
          let cfg = set_cfg 16 4 (cfg_find_int32 sec ''bar0'') cfg;
              cfg = set_cfg 20 4 (cfg_find_int32 sec ''bar1'') cfg;
              cfg = set_cfg 24 4 (cfg_find_int32 sec ''bar2'') cfg;
              cfg = set_cfg 28 4 (cfg_find_int32 sec ''bar3'') cfg;
              cfg = set_cfg 32 4 (cfg_find_int32 sec ''bar4'') cfg
          in set_cfg 36 4 (cfg_find_int32 sec ''bar5'') cfg
        else
          let cfg = set_cfg 16 8 (cfg_find_int64 sec ''bar0'') cfg;
              cfg = set_cfg 24 8 (cfg_find_int64 sec ''bar1'') cfg
          in set_cfg 32 8 (cfg_find_int64 sec ''bar2'') cfg)"

text \<open>The list of buses with one bus replaced: \<open>pci_func_register\<close> works through a pointer.\<close>

fun replace_bus :: "'w pci_bus \<Rightarrow> 'w pci_bus list \<Rightarrow> 'w pci_bus list" where
  "replace_bus bus [] = []"
| "replace_bus bus (cur # next) = (if bus_name cur = bus_name bus then bus # next else cur # replace_bus bus next)"

text \<open>The function in the argument is registered with its \<open>bdf\<close> set; the buses are returned.\<close>

definition pci_cfg_handle_device :: "'w pci_func \<Rightarrow> cfg_section \<Rightarrow> 'w pci_bus list \<Rightarrow> 'w pci_bus list res" where
  "pci_cfg_handle_device func sec buses =
    rbind (cfg_require (cfg_find_int32 sec ''device_no'') 31) (\<lambda>dev_no.
    rbind (cfg_require (cfg_find_int32 sec ''func_no'') 7) (\<lambda>func_no.
      let func = func\<lparr>func_bdf := PCI_PACK_BDF 0 dev_no func_no\<rparr> in
      case cfg_find_string sec ''bus'' of
        None \<Rightarrow> Inl ExitFailure
      | Some name \<Rightarrow>
          (case pci_bus_find name buses of
             None \<Rightarrow> Inl ExitFailure
           | Some bus \<Rightarrow> rbind (pci_func_register func bus) (\<lambda>bus. Inr (replace_bus bus buses)))))"

section \<open>The simple function\<close>

text \<open>
  \<open>pci_simplefunc\<close>, over the program state \<open>'w\<close> in which the configuration space and the
  device live. The four function pointers may be null.
\<close>

record 'w pci_simplefunc =
  sf_flags :: u32
  sf_max_bar :: nat
  sf_bar_size :: "int list"
  sf_get_config :: "'w \<Rightarrow> pci_cfgspace"
  sf_put_config :: "pci_cfgspace \<Rightarrow> 'w \<Rightarrow> 'w"
  sf_bar_read :: "(nat \<Rightarrow> u64 \<Rightarrow> bytes \<Rightarrow> int \<Rightarrow> 'w \<Rightarrow> (int \<times> bytes \<times> 'w) res) option"
  sf_bar_write :: "(nat \<Rightarrow> u64 \<Rightarrow> bytes \<Rightarrow> int \<Rightarrow> 'w \<Rightarrow> (int \<times> 'w) res) option"
  sf_cfg_read :: "(int \<Rightarrow> 'w \<Rightarrow> 'w res) option"
  sf_cfg_write :: "(int \<Rightarrow> 'w \<Rightarrow> 'w res) option"

definition PCI_SIMPLEFUNC_64BIT :: u32 where "PCI_SIMPLEFUNC_64BIT = BIT 0"

definition call_hook :: "('a \<Rightarrow> 'w \<Rightarrow> 'w res) option \<Rightarrow> 'a \<Rightarrow> 'w \<Rightarrow> 'w res" where
  "call_hook hook x w = (case hook of None \<Rightarrow> Inr w | Some f \<Rightarrow> f x w)"

definition pci_simple_cfg_read :: "'w pci_simplefunc \<Rightarrow> u64 \<Rightarrow> bytes \<Rightarrow> int \<Rightarrow> 'w \<Rightarrow> (int \<times> bytes \<times> 'w) res" where
  "pci_simple_cfg_read sf addr out count w =
    (if PCI_ADDR_TYPE addr \<noteq> PCI_ADDR_TYPE0 then Inr (-1, out, w)
     else let off = uint (PCI_ADDR_REG addr) in
       if off + count > PCI_CONFIG_SIZE then Inr (-1, out, w)
       else rbind (call_hook (sf_cfg_read sf) off w) (\<lambda>w.
         rbind (memcpy_int 0 count (drop (nat off) (sf_get_config sf w)) out) (\<lambda>out. Inr (0, out, w))))"

definition pci_simple_cfg_write :: "'w pci_simplefunc \<Rightarrow> u64 \<Rightarrow> bytes \<Rightarrow> int \<Rightarrow> 'w \<Rightarrow> (int \<times> 'w) res" where
  "pci_simple_cfg_write sf addr out count w =
    (if PCI_ADDR_TYPE addr \<noteq> PCI_ADDR_TYPE0 then Inr (-1, w)
     else let off = uint (PCI_ADDR_REG addr) in
       if off + count > PCI_CONFIG_SIZE then Inr (-1, w)
       else rbind (memcpy_int (nat off) count out (sf_get_config sf w)) (\<lambda>cfg.
         rbind (call_hook (sf_cfg_write sf) off (sf_put_config sf cfg w)) (\<lambda>w. Inr (0, w))))"

definition sf_base :: "'w pci_simplefunc \<Rightarrow> pci_cfgspace \<Rightarrow> nat \<Rightarrow> u64" where
  "sf_base sf cfg bar =
    (if tst (sf_flags sf) PCI_SIMPLEFUNC_64BIT then cfg_bar64 bar cfg AND PCI_BAR_ADDRESS64_MASK
     else ucast (cfg_bar bar cfg AND PCI_BAR_ADDRESS_MASK))"

text \<open>
  The search for the BAR that an address hits, from \<open>bar\<close> on: \<open>n\<close> BARs are left. The
  comparison of \<open>off\<close> with the \<open>int\<close> size is unsigned and lets \<open>off = bar_size\<close> through.
\<close>

fun match_bar :: "'w pci_simplefunc \<Rightarrow> pci_cfgspace \<Rightarrow> u64 \<Rightarrow> nat \<Rightarrow> nat \<Rightarrow> (nat \<times> u64) option" where
  "match_bar sf cfg addr bar 0 = None"
| "match_bar sf cfg addr bar (Suc n) =
    (let base = sf_base sf cfg bar in
     if addr < base then match_bar sf cfg addr (Suc bar) n
     else let off = addr - base in
       if off \<le> word_of_int (sf_bar_size sf ! bar) then Some (bar, off)
       else match_bar sf cfg addr (Suc bar) n)"

definition pci_simple_mem_read :: "'w pci_simplefunc \<Rightarrow> u64 \<Rightarrow> bytes \<Rightarrow> int \<Rightarrow> int \<Rightarrow> int \<Rightarrow> 'w \<Rightarrow> (int \<times> bytes \<times> 'w) res" where
  "pci_simple_mem_read sf addr buf count sai lat w =
    (case match_bar sf (sf_get_config sf w) addr 0 (sf_max_bar sf) of
       None \<Rightarrow> Inr (-1, buf, w)
     | Some (bar, off) \<Rightarrow>
         if off + word_of_int count > word_of_int (sf_bar_size sf ! bar) then Inr (-1, buf, w)
         else if ntst (cfg_command (sf_get_config sf w)) PCI_COMMAND_MSE then Inr (-1, buf, w)
         else (case sf_bar_read sf of
                 None \<Rightarrow> Inr (-1, buf, w)
               | Some bar_read \<Rightarrow> bar_read bar off buf count w))"

text \<open>The write path tests \<open>bar_read\<close>, not \<open>bar_write\<close>, before it calls \<open>bar_write\<close>.\<close>

definition pci_simple_mem_write :: "'w pci_simplefunc \<Rightarrow> u64 \<Rightarrow> bytes \<Rightarrow> int \<Rightarrow> int \<Rightarrow> int \<Rightarrow> 'w \<Rightarrow> (int \<times> 'w) res" where
  "pci_simple_mem_write sf addr buf count sai lat w =
    (case match_bar sf (sf_get_config sf w) addr 0 (sf_max_bar sf) of
       None \<Rightarrow> Inr (-1, w)
     | Some (bar, off) \<Rightarrow>
         if off + word_of_int count > word_of_int (sf_bar_size sf ! bar) then Inr (-1, w)
         else if ntst (cfg_command (sf_get_config sf w)) PCI_COMMAND_MSE then Inr (-1, w)
         else if sf_bar_read sf = None then Inr (-1, w)
         else (case sf_bar_write sf of
                 None \<Rightarrow> Inl NullCall
               | Some bar_write \<Rightarrow> bar_write bar off buf count w))"

definition simple_func :: "'w pci_simplefunc \<Rightarrow> 'w pci_func" where
  "simple_func sf = \<lparr>func_bdf = 0, cfg_read = pci_simple_cfg_read sf, cfg_write = pci_simple_cfg_write sf,
     mem_read = pci_simple_mem_read sf, mem_write = pci_simple_mem_write sf\<rparr>"

text \<open>The section argument may be null; the configuration space is updated in \<open>'w\<close>.\<close>

definition pci_simple_init :: "'w pci_simplefunc \<Rightarrow> cfg_section option \<Rightarrow> 'w pci_bus list \<Rightarrow> 'w \<Rightarrow>
    ('w pci_bus list \<times> 'w) res" where
  "pci_simple_init sf section buses w =
    (case section of
       None \<Rightarrow> Inl ExitFailure
     | Some sec \<Rightarrow>
         let cfg = pci_cfg_handle_type0 sec (tst (sf_flags sf) PCI_SIMPLEFUNC_64BIT) (sf_get_config sf w);
             w = sf_put_config sf cfg w
         in rbind (pci_cfg_handle_device (simple_func sf) sec buses) (\<lambda>buses. Inr (buses, w)))"

section \<open>What the configuration file sets\<close>

lemma set_cfg_length [simp]: "off + n \<le> length cfg \<Longrightarrow> length (set_cfg off n v cfg) = length cfg"
  by (simp add: set_cfg_def split: option.splits)

lemma get_set_cfg:
  "off + n \<le> length cfg \<Longrightarrow> 8 * n = LENGTH('a) \<Longrightarrow>
   get_field off n (set_cfg off n (v :: 'a::len word option) cfg) = cfg_or v (get_field off n cfg)"
  by (simp add: set_cfg_def get_put_field split: option.splits)

lemma get_set_cfg_other:
  "off' + n' \<le> length cfg \<Longrightarrow> off + n \<le> length cfg \<Longrightarrow> off + n \<le> off' \<or> off' + n' \<le> off \<Longrightarrow>
   get_field off n (set_cfg off' n' v cfg) = get_field off n cfg"
  by (simp add: set_cfg_def get_put_field_other split: option.splits)

text \<open>After the initialisation from a section, each header field holds the entry of its
  name in the section, or what it held before if the section has no integer entry of that
  name; with 64 bit BARs the three pairs are set, otherwise the six 32 bit registers.\<close>

lemma pci_cfg_handle_type0_fields:
  assumes "length cfg = 0x1000"
  shows "cfg_command (pci_cfg_handle_type0 sec b cfg) = cfg_or (cfg_find_int16 sec ''command'') (cfg_command cfg) \<and>
   get_field 0 2 (pci_cfg_handle_type0 sec b cfg) = cfg_or (cfg_find_int16 sec ''vendor_id'') (get_field 0 2 cfg) \<and>
   get_field 2 2 (pci_cfg_handle_type0 sec b cfg) = cfg_or (cfg_find_int16 sec ''device_id'') (get_field 2 2 cfg) \<and>
   cfg_bar 0 (pci_cfg_handle_type0 sec False cfg) = cfg_or (cfg_find_int32 sec ''bar0'') (cfg_bar 0 cfg) \<and>
   cfg_bar 1 (pci_cfg_handle_type0 sec False cfg) = cfg_or (cfg_find_int32 sec ''bar1'') (cfg_bar 1 cfg) \<and>
   cfg_bar 5 (pci_cfg_handle_type0 sec False cfg) = cfg_or (cfg_find_int32 sec ''bar5'') (cfg_bar 5 cfg) \<and>
   cfg_bar64 0 (pci_cfg_handle_type0 sec True cfg) = cfg_or (cfg_find_int64 sec ''bar0'') (cfg_bar64 0 cfg) \<and>
   cfg_bar64 2 (pci_cfg_handle_type0 sec True cfg) = cfg_or (cfg_find_int64 sec ''bar2'') (cfg_bar64 2 cfg)"
  using assms
  by (simp add: pci_cfg_handle_type0_def Let_def cfg_command_def cfg_bar_def cfg_bar64_def
      get_set_cfg get_set_cfg_other)

section \<open>Configuration space access\<close>

text \<open>The laws of where the configuration space lives, and that the hooks leave it alone.\<close>

definition sf_ok :: "'w pci_simplefunc \<Rightarrow> 'w \<Rightarrow> bool" where
  "sf_ok sf w \<longleftrightarrow> length (sf_get_config sf w) = 0x1000 \<and>
    (\<forall>cfg. sf_get_config sf (sf_put_config sf cfg w) = cfg)"

lemma reg_bound: "0 \<le> uint (PCI_ADDR_REG addr)" "uint (PCI_ADDR_REG addr) < 0x1000"
proof -
  have "uint (addr AND 0xFFF) \<le> uint (0xFFF :: u64)"
    using word_and_le1[of addr "0xFFF"] by (simp add: word_le_def)
  then show "uint (PCI_ADDR_REG addr) < 0x1000" by (simp add: PCI_ADDR_REG_def)
qed simp

lemma pci_cfg_write_read:
  assumes "sf_ok sf w" and "sf_cfg_read sf = None" and "sf_cfg_write sf = None"
    and "length data = n" and "length buf = n" and "PCI_ADDR_TYPE addr = PCI_ADDR_TYPE0"
  shows "if uint (PCI_ADDR_REG addr) + int n \<le> PCI_CONFIG_SIZE
    then \<exists>w'. pci_simple_cfg_write sf addr data (int n) w = Inr (0, w') \<and>
      pci_simple_cfg_read sf addr buf (int n) w' = Inr (0, data, w')
    else pci_simple_cfg_write sf addr data (int n) w = Inr (-1, w)"
proof (cases "uint (PCI_ADDR_REG addr) + int n \<le> PCI_CONFIG_SIZE")
  case True
  define off where "off = nat (uint (PCI_ADDR_REG addr))"
  define cfg where "cfg = blit off data (sf_get_config sf w)"
  have off: "uint (PCI_ADDR_REG addr) = int off" "off + n \<le> 0x1000"
    using reg_bound[of addr] True unfolding off_def PCI_CONFIG_SIZE_def by linarith+
  have len: "length (sf_get_config sf w) = 0x1000" "\<And>c. sf_get_config sf (sf_put_config sf c w) = c"
    using assms(1) by (auto simp: sf_ok_def)
  have nf: "\<not> PCI_CONFIG_SIZE < uint (PCI_ADDR_REG addr) + int n" using True by simp
  have fit: "off + length data \<le> length (sf_get_config sf w)" unfolding len(1) assms(4) using off(2) .
  then have "memcpy_int off (int n) data (sf_get_config sf w) = Inr cfg"
    unfolding memcpy_int_def memcpy_def cfg_def assms(4)[symmetric] by simp
  then have w: "pci_simple_cfg_write sf addr data (int n) w = Inr (0, sf_put_config sf cfg w)"
    using nf assms(3,6) by (simp add: pci_simple_cfg_write_def Let_def call_hook_def off_def)
  have cfg: "take n (drop off cfg) = data" "n \<le> length (drop off cfg)"
    using fit slice_blit_same[OF fit, of n] assms(4) by (auto simp: cfg_def slice_def)
  have "memcpy_int 0 (int n) (drop off cfg) buf = Inr data"
    unfolding memcpy_int_def memcpy_def blit_def using cfg assms(4,5) by simp
  then have "pci_simple_cfg_read sf addr buf (int n) (sf_put_config sf cfg w) = Inr (0, data, sf_put_config sf cfg w)"
    using nf assms(2,6) len(2) by (simp add: pci_simple_cfg_read_def Let_def call_hook_def off_def)
  with w True show ?thesis by simp
next
  case False
  then show ?thesis using assms(6) by (simp add: pci_simple_cfg_write_def Let_def)
qed

definition ram_sf :: "pci_cfgspace pci_simplefunc" where
  "ram_sf = \<lparr>sf_flags = 0, sf_max_bar = 0, sf_bar_size = [], sf_get_config = (\<lambda>w. w),
     sf_put_config = (\<lambda>c w. c), sf_bar_read = None, sf_bar_write = None, sf_cfg_read = None, sf_cfg_write = None\<rparr>"

section \<open>Address decoding\<close>

definition simple_bus :: "string \<Rightarrow> u32 \<Rightarrow> (u32 \<times> 'w pci_simplefunc) list \<Rightarrow> 'w pci_bus" where
  "simple_bus name num sfs = \<lparr>bus_name = name,
     bus_funcs = map (\<lambda>(bdf, sf). (simple_func sf)\<lparr>func_bdf := bdf\<rparr>) sfs, bus_num = num\<rparr>"

definition sf_decodes :: "'w pci_simplefunc \<Rightarrow> u64 \<Rightarrow> 'w \<Rightarrow> bool" where
  "sf_decodes sf addr w \<longleftrightarrow> match_bar sf (sf_get_config sf w) addr 0 (sf_max_bar sf) \<noteq> None"

definition simple_decodes :: "(u32 \<times> 'w pci_simplefunc) list \<Rightarrow> 'w pci_func \<Rightarrow> u64 \<Rightarrow> 'w \<Rightarrow> bool" where
  "simple_decodes sfs f addr w \<longleftrightarrow> (\<exists>(bdf, sf)\<in>set sfs. f = (simple_func sf)\<lparr>func_bdf := bdf\<rparr> \<and> sf_decodes sf addr w)"

lemma simple_silent:
  "\<not> sf_decodes sf addr w \<Longrightarrow> pci_simple_mem_read sf addr out count sai lat w = Inr (-1, out, w)"
  "\<not> sf_decodes sf addr w \<Longrightarrow> pci_simple_mem_write sf addr out count sai lat w = Inr (-1, w)"
  by (simp_all add: sf_decodes_def pci_simple_mem_read_def pci_simple_mem_write_def split: option.splits)

interpretation simple: decoded_bus "simple_bus name num sfs" "simple_decodes sfs" for name num sfs
proof (unfold_locales, goal_cases)
  case (1 f addr w)
  then obtain bdf sf where "f = (simple_func sf)\<lparr>func_bdf := bdf\<rparr>" "\<not> sf_decodes sf addr w"
    by (auto simp: simple_bus_def simple_decodes_def)
  then show ?case by (simp add: simple_func_def simple_silent)
next
  case (2 f addr w)
  then obtain bdf sf where "f = (simple_func sf)\<lparr>func_bdf := bdf\<rparr>" "\<not> sf_decodes sf addr w"
    by (auto simp: simple_bus_def simple_decodes_def)
  then show ?case by (simp add: simple_func_def simple_silent)
qed

lemma match_bar_first:
  assumes "i < n" and "sf_base sf cfg (b + i) \<le> addr"
    and "addr - sf_base sf cfg (b + i) \<le> word_of_int (sf_bar_size sf ! (b + i))"
    and "\<forall>j<i. addr < sf_base sf cfg (b + j) \<or> word_of_int (sf_bar_size sf ! (b + j)) < addr - sf_base sf cfg (b + j)"
  shows "match_bar sf cfg addr b n = Some (b + i, addr - sf_base sf cfg (b + i))"
  using assms
proof (induction n arbitrary: b i)
  case (Suc n)
  show ?case
  proof (cases i)
    case 0
    then show ?thesis using Suc.prems by (simp add: Let_def not_less[symmetric])
  next
    case (Suc k)
    then have "addr < sf_base sf cfg b \<or> word_of_int (sf_bar_size sf ! b) < addr - sf_base sf cfg b"
      using Suc.prems(4) by force
    moreover have "match_bar sf cfg addr (Suc b) n = Some (Suc b + k, addr - sf_base sf cfg (Suc b + k))"
      using Suc.prems Suc by (intro Suc.IH) (auto dest: spec[of _ "Suc _"])
    ultimately show ?thesis using Suc by (auto simp: Let_def not_less)
  qed
qed simp

text \<open>
  \<open>hits sf cfg bar addr count\<close>: the access lies inside BAR \<open>bar\<close>, and no lower BAR
  includes the address (the end address of a BAR counts as included).
\<close>

definition hits :: "'w pci_simplefunc \<Rightarrow> pci_cfgspace \<Rightarrow> nat \<Rightarrow> u64 \<Rightarrow> int \<Rightarrow> bool" where
  "hits sf cfg bar addr count \<longleftrightarrow> bar < sf_max_bar sf \<and> sf_base sf cfg bar \<le> addr \<and>
     addr - sf_base sf cfg bar \<le> word_of_int (sf_bar_size sf ! bar) \<and>
     addr - sf_base sf cfg bar + word_of_int count \<le> word_of_int (sf_bar_size sf ! bar) \<and>
     (\<forall>j<bar. addr < sf_base sf cfg j \<or> word_of_int (sf_bar_size sf ! j) < addr - sf_base sf cfg j)"

lemma simple_hit:
  assumes "hits sf (sf_get_config sf w) bar addr count" and "bit (cfg_command (sf_get_config sf w)) 1"
    and "sf_bar_read sf = Some rd"
  shows "pci_simple_mem_read sf addr buf count sai lat w = rd bar (addr - sf_base sf (sf_get_config sf w) bar) buf count w"
    and "sf_bar_write sf = Some wr \<Longrightarrow>
      pci_simple_mem_write sf addr buf count sai lat w = wr bar (addr - sf_base sf (sf_get_config sf w) bar) buf count w"
  using assms match_bar_first[of bar "sf_max_bar sf" sf "sf_get_config sf w" 0 addr]
  by (simp_all add: hits_def pci_simple_mem_read_def pci_simple_mem_write_def PCI_COMMAND_MSE_def not_less[symmetric])

text \<open>A small device for the witnesses: one BAR of 16 bytes at 0x1000, which counts its
  accesses in the last byte of its configuration space.\<close>

definition toy_sf :: "pci_cfgspace pci_simplefunc" where
  "toy_sf = ram_sf\<lparr>sf_max_bar := 1, sf_bar_size := [16],
     sf_bar_read := Some (\<lambda>bar off buf n w. Inr (7, buf, w)),
     sf_bar_write := Some (\<lambda>bar off buf n w. Inr (7, w[0xFFF := 1]))\<rparr>"

lemma toy_sf_simps:
  "sf_get_config toy_sf w = w" "sf_max_bar toy_sf = 1" "sf_bar_size toy_sf = [16]" "sf_flags toy_sf = 0"
  "sf_bar_read toy_sf = Some (\<lambda>bar off buf n w. Inr (7, buf, w))"
  "sf_bar_write toy_sf = Some (\<lambda>bar off buf n w. Inr (7, w[0xFFF := 1]))"
  by (simp_all add: toy_sf_def ram_sf_def)

definition toy_cfg :: pci_cfgspace where
  "toy_cfg = put_field 16 4 (0x1000 :: u32) (put_field 4 2 (2 :: u16) (replicate 0x1000 0))"

lemma toy_fields: "cfg_bar 0 toy_cfg = 0x1000" "cfg_command toy_cfg = 2"
  by (simp_all add: cfg_bar_def cfg_command_def toy_cfg_def get_put_field get_put_field_other)

lemma toy_base: "sf_base toy_sf toy_cfg 0 = 0x1000"
  by (simp add: sf_base_def toy_sf_simps toy_fields tst_def PCI_BAR_ADDRESS_MASK_def)

text \<open>An access to an address that no simple function of the bus decodes passes by all
  of them in every cycle: the bus answers -1, and neither the buffer nor any device
  changes.\<close>

lemma simple_bus_unclaimed:
  assumes "\<forall>f\<in>set (bus_funcs (simple_bus name num sfs)). \<not> simple_decodes sfs f addr w"
  shows "pci_bus_mem_read (simple_bus name num sfs) addr buf count sai max_lat w = Inr (-1, buf, w) \<and>
    pci_bus_mem_write (simple_bus name num sfs) addr buf count sai max_lat w = Inr (-1, w)"
  using simple.unclaimed[OF assms] by blast

text \<open>Two BARs of a function that lie directly one after the other: an access at the
  start of the second one is refused, because the end address of the first BAR counts as a
  hit of the first and then fails its bounds check.\<close>

lemma simple_adjacent_bars:
  assumes "0 < sf_bar_size sf ! 0" and "sf_bar_size sf ! 0 < 2 ^ 31" and "0 < count" and "count < 2 ^ 31"
    and "0 < sf_max_bar sf" and "sf_base sf (sf_get_config sf w) 0 < 2 ^ 32"
  shows "pci_simple_mem_read sf (sf_base sf (sf_get_config sf w) 0 + word_of_int (sf_bar_size sf ! 0)) buf count sai lat w =
    Inr (-1, buf, w)"
proof -
  let ?b = "sf_base sf (sf_get_config sf w) 0" and ?s = "word_of_int (sf_bar_size sf ! 0) :: u64"
  have s: "uint ?s = sf_bar_size sf ! 0" "uint (word_of_int count :: u64) = count"
    using assms by (simp_all add: uint_word_of_int)
  have b: "uint ?b < 2 ^ 32" using assms(6) by (simp add: word_less_def)
  have le: "?b \<le> ?b + ?s"
    using s b assms by (simp add: word_le_def uint_word_ariths)
  have gt: "?s < ?s + word_of_int count"
    using s assms by (simp add: word_less_def uint_word_ariths)
  have "match_bar sf (sf_get_config sf w) (?b + ?s) 0 (sf_max_bar sf) = Some (0, ?s)"
    using match_bar_first[of 0 "sf_max_bar sf" sf "sf_get_config sf w" 0 "?b + ?s"] le assms(5) by simp
  with gt show ?thesis by (simp add: pci_simple_mem_read_def)
qed

end
