(* ===== verification/Sks.thy ===== *)
theory Sks
  imports HashUnit
begin

text \<open>
  The secure key store (\<open>include/ocs/sks.h\<close>, \<open>periph/ocs/sks/sks.c\<close>) and the AES unit it
  is linked to (\<open>periph/ocs/aes/aes.c\<close>), which is a stub in the code. The store keeps 22
  keys in one array of bytes; a command moves a key from the data register or from a unit
  into a slot, or from a slot into a unit. Commands act on the store and on the hash unit,
  which \<open>ocs_spawn\<close> links to it; the AES unit never changes. What the log calls print is
  not modelled, but the four bytes that some of them read from the caller's buffer are,
  since the buffer may be shorter.
\<close>

section \<open>AES unit\<close>

definition AES_SIZE :: int where "AES_SIZE = 0x1000"

record ocs_aes =
  aes_gpdma :: gpdma_state

definition aes_read :: "ocs_aes \<Rightarrow> int \<Rightarrow> bytes \<Rightarrow> int \<Rightarrow> (int \<times> bytes) res" where
  "aes_read a addr buf count =
    (if addr < 0 \<or> AES_SIZE \<le> addr then Inr (0, buf)
     else rbind (if addr = 0x05c then st32 2 buf else Inr buf) (\<lambda>buf.
       rbind (ld32 buf) (\<lambda>logged. Inr (1, buf))))"

definition aes_write :: "ocs_aes \<Rightarrow> int \<Rightarrow> bytes \<Rightarrow> int \<Rightarrow> (int \<times> ocs_aes) res" where
  "aes_write a addr buf count =
    (if addr < 0 \<or> AES_SIZE \<le> addr then Inr (0, a)
     else rbind (ld32 buf) (\<lambda>logged. Inr (1, a)))"

definition aes_load_key :: "ocs_aes \<Rightarrow> bytes \<Rightarrow> nat \<Rightarrow> ocs_aes" where
  "aes_load_key a data count = a"

text \<open>The return value, and the bytes copied to the caller: none.\<close>

definition aes_get_result :: "nat \<Rightarrow> int \<times> bytes" where
  "aes_get_result count = (0, [])"

definition aes_init :: ocs_aes where
  "aes_init = \<lparr>aes_gpdma = gpdma_init \<lparr>src_addr = 0, src_size = 0, dst_addr = 0, dst_size = 0,
     control = 0, status = 0\<rparr>\<rparr>"

section \<open>Key store state\<close>

definition SKS_REG_SLOT :: u32 where "SKS_REG_SLOT = 0x400"
definition SKS_REG_COMMAND :: u32 where "SKS_REG_COMMAND = 0x404"
definition SKS_REG_STATUS :: u32 where "SKS_REG_STATUS = 0x408"
definition SKS_REG_DATA :: "nat \<Rightarrow> u32" where "SKS_REG_DATA o' = 0x40C + of_nat o'"
definition SKS_REG_ATR1 :: "nat \<Rightarrow> u32" where "SKS_REG_ATR1 i = 0x42C + 4 * of_nat i"

definition SKS_STS_BUSY :: u32 where "SKS_STS_BUSY = BIT 0"
definition SKS_STS_ERRR :: u32 where "SKS_STS_ERRR = BIT 1"

definition SKS_CMD_ALWAYS_SET :: u32 where "SKS_CMD_ALWAYS_SET = BIT 31"
definition SKS_CMD_PRODUCE :: u32 where "SKS_CMD_PRODUCE = BIT 18"
definition SKS_CMD_SOURCE_MASK :: u32 where "SKS_CMD_SOURCE_MASK = 0x30000"
definition SKS_CMD_SOURCE_CPU :: u32 where "SKS_CMD_SOURCE_CPU = 0x10000"
definition SKS_CMD_SOURCE_AES :: u32 where "SKS_CMD_SOURCE_AES = 0x20000"
definition SKS_CMD_SOURCE_HASH :: u32 where "SKS_CMD_SOURCE_HASH = 0x30000"
definition SKS_CMD_TARGET_MASK :: u32 where "SKS_CMD_TARGET_MASK = 0x300000"
definition SKS_CMD_TARGET_AES :: u32 where "SKS_CMD_TARGET_AES = 0x100000"
definition SKS_CMD_TARGET_HASH :: u32 where "SKS_CMD_TARGET_HASH = 0x200000"
definition SKS_ATR1_KEY_VALID :: u32 where "SKS_ATR1_KEY_VALID = BIT 0"

lemmas sks_regs = SKS_REG_SLOT_def SKS_REG_COMMAND_def SKS_REG_STATUS_def SKS_REG_DATA_def SKS_REG_ATR1_def

text \<open>\<open>key_data\<close> points into \<open>sks_keystore\<close>; here it is the offset in the array.\<close>

record sks_key =
  key_atr1 :: u32
  key_data :: nat

record sks_inst =
  sks_keystore :: bytes
  sks_keys :: "sks_key list"
  sks_slot :: u32
  sks_command :: u32
  sks_status :: u32
  sks_databuf :: bytes

section \<open>Operations\<close>

text \<open>
  The two halves of \<open>sks_do_operation\<close> after the slot check; \<open>None\<close> is \<open>goto err\<close>. The
  entry of the slot is only read where a key is moved, and slot 22, which the check lets
  through, has no entry.
\<close>

definition sks_key_of :: "sks_inst \<Rightarrow> sks_key res" where
  "sks_key_of sks = (let s = unat (sks_slot sks) in
     if s < length (sks_keys sks) then Inr (sks_keys sks ! s) else Inl OutOfBounds)"

definition sks_set_valid :: "sks_inst \<Rightarrow> sks_inst" where
  "sks_set_valid sks = (let s = unat (sks_slot sks); k = sks_keys sks ! s in
     sks\<lparr>sks_keys := (sks_keys sks)[s := k\<lparr>key_atr1 := key_atr1 k OR SKS_ATR1_KEY_VALID\<rparr>]\<rparr>)"

definition sks_produce :: "nat \<Rightarrow> sks_inst \<Rightarrow> ocs_hash \<Rightarrow> sks_inst option res" where
  "sks_produce keysize sks hash =
    (let source = sks_command sks AND SKS_CMD_SOURCE_MASK in
     if source = SKS_CMD_SOURCE_CPU then
       rbind (sks_key_of sks) (\<lambda>k.
       rbind (memcpy (key_data k) keysize (sks_databuf sks) (sks_keystore sks)) (\<lambda>ks.
         Inr (Some (sks_set_valid (sks\<lparr>sks_keystore := ks,
           sks_databuf := replicate (length (sks_databuf sks)) 0\<rparr>)))))
     else if source = SKS_CMD_SOURCE_AES then
       rbind (sks_key_of sks) (\<lambda>k.
         let (s, data) = aes_get_result keysize in
         if s = 0 then Inr None
         else rbind (memcpy (key_data k) keysize data (sks_keystore sks)) (\<lambda>ks.
           Inr (Some (sks_set_valid (sks\<lparr>sks_keystore := ks\<rparr>)))))
     else if source = SKS_CMD_SOURCE_HASH then
       rbind (sks_key_of sks) (\<lambda>k.
         let (s, data) = hash_get_result hash keysize in
         if s = 0 then Inr None
         else rbind (memcpy (key_data k) keysize data (sks_keystore sks)) (\<lambda>ks.
           Inr (Some (sks_set_valid (sks\<lparr>sks_keystore := ks\<rparr>)))))
     else Inr None)"

definition sks_consume :: "nat \<Rightarrow> sks_inst \<Rightarrow> ocs_hash \<Rightarrow> ocs_hash res" where
  "sks_consume keysize sks hash =
    (let target = sks_command sks AND SKS_CMD_TARGET_MASK in
     if target = SKS_CMD_TARGET_HASH then
       rbind (sks_key_of sks) (\<lambda>k. Inr (hash_load_key hash (slice (key_data k) keysize (sks_keystore sks)) keysize))
     else if target = SKS_CMD_TARGET_AES then rbind (sks_key_of sks) (\<lambda>k. Inr hash)
     else Inr hash)"

definition sks_done :: "sks_inst \<Rightarrow> sks_inst" where
  "sks_done sks = sks\<lparr>sks_status := sks_status sks AND NOT SKS_STS_BUSY\<rparr>"

definition sks_err :: "sks_inst \<Rightarrow> sks_inst" where
  "sks_err sks = sks\<lparr>sks_status := (sks_status sks AND NOT SKS_STS_BUSY) OR SKS_STS_ERRR\<rparr>"

definition sks_do_operation :: "sks_inst \<Rightarrow> ocs_hash \<Rightarrow> (sks_inst \<times> ocs_hash) res" where
  "sks_do_operation sks hash =
    (if ntst (sks_command sks) SKS_CMD_ALWAYS_SET then Inr (sks, hash)
     else
       let sks = sks\<lparr>sks_command := sks_command sks AND NOT SKS_CMD_ALWAYS_SET\<rparr>;
           sks = sks\<lparr>sks_status := sks_status sks OR SKS_STS_BUSY\<rparr>
       in if sks_slot sks > 22 then Inr (sks_err sks, hash)
       else
         let keysize = (if sks_slot sks \<ge> 11 then 32 else 16) in
         if tst (sks_command sks) SKS_CMD_PRODUCE then
           rbind (sks_produce keysize sks hash) (\<lambda>r.
             case r of None \<Rightarrow> Inr (sks_err sks, hash) | Some sks \<Rightarrow> Inr (sks_done sks, hash))
         else rbind (sks_consume keysize sks hash) (\<lambda>hash. Inr (sks_done sks, hash)))"

definition sks_read :: "sks_inst \<Rightarrow> u32 \<Rightarrow> bytes \<Rightarrow> int \<Rightarrow> (int \<times> bytes) res" where
  "sks_read sks addr buf count =
    (if count \<noteq> 4 \<or> addr AND 3 \<noteq> 0 then Inr (1, buf)
     else rbind
       (if addr = SKS_REG_SLOT then st32 (sks_slot sks) buf
        else if addr = SKS_REG_COMMAND then st32 (sks_command sks) buf
        else if addr = SKS_REG_STATUS then st32 (sks_status sks) buf
        else if SKS_REG_DATA 0 \<le> addr \<and> addr < SKS_REG_DATA 32 then st32 0 buf
        else if SKS_REG_ATR1 0 \<le> addr \<and> addr < SKS_REG_ATR1 22 then
          st32 (key_atr1 (sks_keys sks ! unat ((addr - SKS_REG_ATR1 0) div 4))) buf
        else Inr buf)
       (\<lambda>buf. Inr (1, buf)))"

text \<open>
  The if-chain on the register that follows the data area's copy. Its last branch, which
  the data area takes too, logs the word at the start of the buffer.
\<close>

definition sks_write_reg :: "u32 \<Rightarrow> bytes \<Rightarrow> sks_inst \<Rightarrow> sks_inst res" where
  "sks_write_reg addr buf sks =
    (if addr = SKS_REG_SLOT then rbind (ld32 buf) (\<lambda>v. Inr (sks\<lparr>sks_slot := v\<rparr>))
     else if addr = SKS_REG_COMMAND then rbind (ld32 buf) (\<lambda>v. Inr (sks\<lparr>sks_command := v\<rparr>))
     else if addr = SKS_REG_STATUS then
       rbind (ld32 buf) (\<lambda>v. Inr (sks\<lparr>sks_status := sks_status sks AND NOT v\<rparr>))
     else if SKS_REG_ATR1 0 \<le> addr \<and> addr < SKS_REG_ATR1 22 then
       rbind (ld32 buf) (\<lambda>v. let i = unat ((addr - SKS_REG_ATR1 0) div 4) in
         Inr (sks\<lparr>sks_keys := (sks_keys sks)[i := (sks_keys sks ! i)\<lparr>key_atr1 := v\<rparr>]\<rparr>))
     else rbind (ld32 buf) (\<lambda>logged. Inr sks))"

definition sks_write :: "sks_inst \<Rightarrow> ocs_hash \<Rightarrow> u32 \<Rightarrow> bytes \<Rightarrow> int \<Rightarrow> (int \<times> sks_inst \<times> ocs_hash) res" where
  "sks_write sks hash addr buf count =
    (let go = (\<lambda>sks. rbind (sks_write_reg addr buf sks) (\<lambda>sks.
       rbind (sks_do_operation sks hash) (\<lambda>(sks, hash). Inr (1, sks, hash))))
     in if SKS_REG_DATA 0 \<le> addr \<and> addr < SKS_REG_DATA 32 then
          let i = uint (addr - SKS_REG_DATA 0) in
          if count < 0 \<or> i + count > 32 then Inr (1, sks, hash)
          else rbind (memcpy (nat i) (nat count) buf (sks_databuf sks)) (\<lambda>d. go (sks\<lparr>sks_databuf := d\<rparr>))
        else if count \<noteq> 4 \<or> addr AND 3 \<noteq> 0 then Inr (1, sks, hash)
        else go sks)"

definition sks_zero :: sks_inst where
  "sks_zero = \<lparr>sks_keystore = replicate 528 0, sks_keys = replicate 22 \<lparr>key_atr1 = 0, key_data = 0\<rparr>,
     sks_slot = 0, sks_command = 0, sks_status = 0, sks_databuf = replicate 32 0\<rparr>"

text \<open>On the zeroed instance of \<open>ocs_spawn\<close>: 11 slots of 16 bytes, then 11 of 32.\<close>

definition sks_init :: "sks_inst \<Rightarrow> sks_inst" where
  "sks_init sks =
    (let keys = map (\<lambda>i. \<lparr>key_atr1 = 0, key_data = 16 * i\<rparr>) [0..<11] @
                map (\<lambda>i. \<lparr>key_atr1 = 0, key_data = 16 * 11 + 32 * i\<rparr>) [0..<11];
         k21 = keys ! 21
     in sks\<lparr>sks_keystore := replicate (length (sks_keystore sks)) 0,
            sks_keys := keys[21 := k21\<lparr>key_atr1 := key_atr1 k21 OR SKS_ATR1_KEY_VALID\<rparr>]\<rparr>)"

section \<open>The layout of the store\<close>

definition slot_off :: "nat \<Rightarrow> nat" where
  "slot_off i = (if i < 11 then 16 * i else 176 + 32 * (i - 11))"

definition slot_size :: "nat \<Rightarrow> nat" where
  "slot_size i = (if i < 11 then 16 else 32)"

definition sks_wf :: "sks_inst \<Rightarrow> bool" where
  "sks_wf sks \<longleftrightarrow> length (sks_keystore sks) = 528 \<and> length (sks_databuf sks) = 32 \<and>
     map key_data (sks_keys sks) = map slot_off [0..<22]"

definition slot_key :: "sks_inst \<Rightarrow> nat \<Rightarrow> bytes" where
  "slot_key sks i = slice (slot_off i) (slot_size i) (sks_keystore sks)"

lemma slot_bounds: "i < 22 \<Longrightarrow> slot_off i + slot_size i \<le> 528"
  by (auto simp: slot_off_def slot_size_def)

lemma slot_disjoint:
  "i \<noteq> j \<Longrightarrow> slot_off j + slot_size j \<le> slot_off i \<or> slot_off i + slot_size i \<le> slot_off j"
  by (auto simp: slot_off_def slot_size_def)

lemma sks_wf_keys:
  assumes "sks_wf sks"
  shows "length (sks_keys sks) = 22" and "i < 22 \<Longrightarrow> key_data (sks_keys sks ! i) = slot_off i"
proof -
  from assms have m: "map key_data (sks_keys sks) = map slot_off [0..<22]" by (simp add: sks_wf_def)
  from arg_cong[OF m, of length] show l: "length (sks_keys sks) = 22" by simp
  from arg_cong[OF m, of "\<lambda>xs. xs ! i"] l
  show "i < 22 \<Longrightarrow> key_data (sks_keys sks ! i) = slot_off i" by simp
qed

section \<open>Moving keys\<close>

lemma sks_masks:
  "SKS_CMD_SOURCE_MASK = push_bit 16 (mask 2)" "SKS_CMD_TARGET_MASK = push_bit 20 (mask 2)"
  by (simp_all add: SKS_CMD_SOURCE_MASK_def SKS_CMD_TARGET_MASK_def mask_eq_exp_minus_1 push_bit_eq_mult)

lemma go_cleared:
  "(c AND NOT SKS_CMD_ALWAYS_SET) AND SKS_CMD_SOURCE_MASK = c AND SKS_CMD_SOURCE_MASK"
  "(c AND NOT SKS_CMD_ALWAYS_SET) AND SKS_CMD_TARGET_MASK = c AND SKS_CMD_TARGET_MASK"
  "bit (c AND NOT SKS_CMD_ALWAYS_SET) 18 = bit c 18"
  unfolding sks_masks SKS_CMD_ALWAYS_SET_def by (auto intro!: bit_word_eqI simp: bit_simps)

lemma keysize_slot_size: "(if (11 :: u32) \<le> s then 32 else 16) = slot_size (unat s)"
  by (simp add: slot_size_def word_le_nat_alt)

text \<open>The operation with its GO bit set, on a slot that exists.\<close>

lemma sks_do_operation_go:
  assumes "bit (sks_command sks) 31" and "unat (sks_slot sks) < 22"
    and t1: "t1 = sks\<lparr>sks_command := sks_command sks AND NOT SKS_CMD_ALWAYS_SET,
                 sks_status := sks_status sks OR SKS_STS_BUSY\<rparr>"
  shows "sks_do_operation sks h =
    (if bit (sks_command sks) 18
     then rbind (sks_produce (slot_size (unat (sks_slot sks))) t1 h) (\<lambda>r.
            case r of None \<Rightarrow> Inr (sks_err t1, h) | Some s \<Rightarrow> Inr (sks_done s, h))
     else rbind (sks_consume (slot_size (unat (sks_slot sks))) t1 h) (\<lambda>h. Inr (sks_done t1, h)))"
proof -
  have "\<not> sks_slot sks > 22" using assms(2) by (simp add: word_less_nat_alt)
  moreover have "\<not> ntst (sks_command sks) SKS_CMD_ALWAYS_SET"
    using assms(1) by (simp add: SKS_CMD_ALWAYS_SET_def)
  moreover have "tst (sks_command sks AND NOT SKS_CMD_ALWAYS_SET) SKS_CMD_PRODUCE = bit (sks_command sks) 18"
    by (simp add: SKS_CMD_PRODUCE_def go_cleared)
  ultimately show ?thesis
    unfolding t1 sks_do_operation_def Let_def by (simp add: keysize_slot_size del: tst_BIT)
qed

lemma map_key_data_update:
  "i < length ks \<Longrightarrow> key_data k = key_data (ks ! i) \<Longrightarrow> map key_data (ks[i := k]) = map key_data ks"
  by (rule nth_equalityI) (auto simp: nth_list_update)

lemma sks_key_of_wf: "sks_wf sks \<Longrightarrow> unat (sks_slot sks) < 22 \<Longrightarrow>
    \<exists>k. sks_key_of sks = Inr k \<and> key_data k = slot_off (unat (sks_slot sks)) \<and> k = sks_keys sks ! unat (sks_slot sks)"
  by (simp add: sks_key_of_def sks_wf_keys Let_def)

text \<open>A store set up by \<open>sks_init\<close>, about to run a command on a slot.\<close>

definition sks_ready :: "u32 \<Rightarrow> u32 \<Rightarrow> bytes \<Rightarrow> sks_inst" where
  "sks_ready slot cmd data = (sks_init sks_zero)\<lparr>sks_slot := slot, sks_command := cmd, sks_databuf := data\<rparr>"

lemma sks_ready_simps [simp]:
  "sks_slot (sks_ready slot cmd data) = slot" "sks_command (sks_ready slot cmd data) = cmd"
  "sks_databuf (sks_ready slot cmd data) = data" "sks_keystore (sks_ready slot cmd data) = replicate 528 0"
  by (simp_all add: sks_ready_def sks_init_def sks_zero_def Let_def)

lemma sks_ready_wf: "length data = 32 \<Longrightarrow> sks_wf (sks_ready slot cmd data)"
proof -
  have "map key_data (sks_keys (sks_ready slot cmd data)) = map slot_off [0..<22]"
    by (simp add: sks_ready_def sks_init_def Let_def slot_off_def upt_rec)
  then show "length data = 32 \<Longrightarrow> sks_wf (sks_ready slot cmd data)" by (simp add: sks_wf_def)
qed

lemma hash_zero_wf: "hash_wf hash_zero"
  by (simp add: hash_wf_def hash_zero_def)

text \<open>C24. A command that takes a key from the data register stores it in the selected slot,
  marks that slot valid, clears the data register and the busy bit, and changes nothing of
  any other slot: the slots of the store do not overlap, so the other keys keep their bytes,
  and the other attribute words keep their value, the selected one all its other bits.\<close>

theorem sks_produce_from_cpu:
  assumes wf: "sks_wf sks" and slot: "unat (sks_slot sks) < 22"
    and go: "bit (sks_command sks) 31" and "bit (sks_command sks) 18"
    and "sks_command sks AND SKS_CMD_SOURCE_MASK = SKS_CMD_SOURCE_CPU"
  shows "\<exists>sks'. sks_do_operation sks h = Inr (sks', h) \<and>
    slot_key sks' (unat (sks_slot sks)) = take (slot_size (unat (sks_slot sks))) (sks_databuf sks) \<and>
    (\<forall>j<22. j \<noteq> unat (sks_slot sks) \<longrightarrow> slot_key sks' j = slot_key sks j) \<and>
    key_atr1 (sks_keys sks' ! unat (sks_slot sks)) =
      key_atr1 (sks_keys sks ! unat (sks_slot sks)) OR SKS_ATR1_KEY_VALID \<and>
    (\<forall>j<22. j \<noteq> unat (sks_slot sks) \<longrightarrow> sks_keys sks' ! j = sks_keys sks ! j) \<and>
    sks_databuf sks' = replicate 32 0 \<and> \<not> bit (sks_status sks') 0 \<and> sks_wf sks'"
proof -
  let ?s = "unat (sks_slot sks)"
  define t1 where "t1 = sks\<lparr>sks_command := sks_command sks AND NOT SKS_CMD_ALWAYS_SET,
                 sks_status := sks_status sks OR SKS_STS_BUSY\<rparr>"
  define k where "k = sks_keys sks ! ?s"
  define ks where "ks = blit (slot_off ?s) (take (slot_size ?s) (sks_databuf sks)) (sks_keystore sks)"
  define s2 where "s2 = t1\<lparr>sks_keystore := ks, sks_databuf := replicate 32 0,
      sks_keys := (sks_keys sks)[?s := k\<lparr>key_atr1 := key_atr1 k OR SKS_ATR1_KEY_VALID\<rparr>]\<rparr>"
  have len: "length (sks_keystore sks) = 528" "length (sks_databuf sks) = 32" "length (sks_keys sks) = 22"
    using wf by (simp_all add: sks_wf_def sks_wf_keys)
  have sz: "slot_size ?s \<le> 32" "length (take (slot_size ?s) (sks_databuf sks)) = slot_size ?s"
    using len by (simp_all add: slot_size_def)
  have b: "slot_off ?s + slot_size ?s \<le> 528" using slot slot_bounds by blast
  have key: "sks_key_of t1 = Inr k" "key_data k = slot_off ?s"
    using slot len(3) sks_wf_keys(2)[OF wf slot] by (simp_all add: sks_key_of_def t1_def k_def Let_def)
  have "memcpy (slot_off ?s) (slot_size ?s) (sks_databuf t1) (sks_keystore t1) = Inr ks"
    using len sz b by (simp add: memcpy_Inr t1_def ks_def)
  then have p: "sks_produce (slot_size ?s) t1 h = Inr (Some s2)"
    using assms(5) len key
    by (simp add: sks_produce_def go_cleared t1_def s2_def sks_set_valid_def Let_def k_def)
  have "sks_do_operation sks h = Inr (sks_done s2, h)"
    using p assms(4) by (simp add: sks_do_operation_go[OF go slot t1_def])
  moreover have "slot_key (sks_done s2) ?s = take (slot_size ?s) (sks_databuf sks)"
    using b len sz by (simp add: slot_key_def sks_done_def s2_def ks_def)
  moreover have "slot_key (sks_done s2) j = slot_key sks j" if "j < 22" "j \<noteq> ?s" for j
    using slot_bounds[OF that(1)] slot_disjoint[of ?s j] that b len sz
    by (simp add: slot_key_def sks_done_def s2_def ks_def slice_blit_other)
  moreover have "map key_data (sks_keys (sks_done s2)) = map slot_off [0..<22]"
    using wf slot len(3) by (simp add: sks_done_def s2_def map_key_data_update k_def sks_wf_def)
  moreover have "sks_databuf (sks_done s2) = replicate 32 0" by (simp add: sks_done_def s2_def)
  moreover have "length (sks_keystore (sks_done s2)) = 528"
    using len sz b by (simp add: sks_done_def s2_def ks_def)
  moreover have "key_atr1 (sks_keys (sks_done s2) ! ?s) = key_atr1 (sks_keys sks ! ?s) OR SKS_ATR1_KEY_VALID"
      "\<forall>j<22. j \<noteq> ?s \<longrightarrow> sks_keys (sks_done s2) ! j = sks_keys sks ! j" "\<not> bit (sks_status (sks_done s2)) 0"
    using slot len(3) by (simp_all add: sks_done_def s2_def k_def SKS_STS_BUSY_def bit_simps)
  ultimately show ?thesis unfolding sks_wf_def by (intro exI[of _ "sks_done s2"]) simp
qed

theorem sks_produce_from_cpu_witness:
  "\<exists>sks'. sks_do_operation (sks_ready 3 0x80050000 (replicate 32 7)) hash_zero = Inr (sks', hash_zero) \<and>
    slot_key sks' 3 = replicate 16 7 \<and> slot_key sks' 4 = replicate 16 0 \<and> key_atr1 (sks_keys sks' ! 21) = 1"
proof -
  have b: "bit (0x80050000 :: u32) 31" "bit (0x80050000 :: u32) 18" by simp_all
  have s: "slot_key (sks_ready 3 0x80050000 (replicate 32 7)) 4 = replicate 16 0"
    by (simp add: slot_key_def slot_off_def slot_size_def slice_def)
  obtain sks' where "sks_do_operation (sks_ready 3 0x80050000 (replicate 32 7)) hash_zero = Inr (sks', hash_zero)"
      "slot_key sks' 3 = take (slot_size 3) (replicate 32 7)"
      "\<forall>j<22. j \<noteq> 3 \<longrightarrow> slot_key sks' j = slot_key (sks_ready 3 0x80050000 (replicate 32 7)) j"
      "\<forall>j<22. j \<noteq> 3 \<longrightarrow> sks_keys sks' ! j = sks_keys (sks_ready 3 0x80050000 (replicate 32 7)) ! j"
    using sks_produce_from_cpu[of "sks_ready 3 0x80050000 (replicate 32 7)" hash_zero, OF sks_ready_wf] b
    by (auto simp: SKS_CMD_SOURCE_MASK_def SKS_CMD_SOURCE_CPU_def)
  moreover have "key_atr1 (sks_keys (sks_ready 3 0x80050000 (replicate 32 7)) ! 21) = 1"
    by (simp add: sks_ready_def sks_init_def Let_def SKS_ATR1_KEY_VALID_def BIT_def nth_append)
  ultimately show ?thesis using s by (intro exI[of _ sks']) (simp add: slot_size_def)
qed

text \<open>C25. A command that gives a slot to the hash unit loads exactly the key of that slot
  into the first bytes of the unit's key register; the bytes of the register behind it
  keep what an earlier, longer key left there.\<close>

theorem sks_consume_to_hash:
  assumes wf: "sks_wf sks" and slot: "unat (sks_slot sks) < 22" and "hash_wf h"
    and go: "bit (sks_command sks) 31" and "\<not> bit (sks_command sks) 18"
    and "sks_command sks AND SKS_CMD_TARGET_MASK = SKS_CMD_TARGET_HASH"
  shows "\<exists>sks'. sks_do_operation sks h = Inr (sks', h\<lparr>hash_key :=
      slot_key sks (unat (sks_slot sks)) @ drop (slot_size (unat (sks_slot sks))) (hash_key h)\<rparr>) \<and>
    (\<forall>j. slot_key sks' j = slot_key sks j) \<and> \<not> bit (sks_status sks') 0"
proof -
  let ?s = "unat (sks_slot sks)"
  define t1 where "t1 = sks\<lparr>sks_command := sks_command sks AND NOT SKS_CMD_ALWAYS_SET,
                 sks_status := sks_status sks OR SKS_STS_BUSY\<rparr>"
  have wf1: "sks_wf t1" "sks_slot t1 = sks_slot sks" using wf by (simp_all add: sks_wf_def t1_def)
  then obtain k where k: "sks_key_of t1 = Inr k" "key_data k = slot_off ?s"
    using sks_key_of_wf[of t1] slot by auto
  have l: "length (slot_key sks ?s) = slot_size ?s"
    using slot_bounds[OF slot] wf by (simp add: slot_key_def sks_wf_def)
  have "length (hash_key h) = 64" "slot_size ?s \<le> 64"
    using assms(3) by (simp_all add: hash_wf_def slot_size_def)
  then have "hash_load_key h (slot_key sks ?s) (slot_size ?s) =
      h\<lparr>hash_key := slot_key sks ?s @ drop (slot_size ?s) (hash_key h)\<rparr>"
    using l by (simp add: hash_load_key_def blit_def Let_def)
  moreover have "sks_consume (slot_size ?s) t1 h = Inr (hash_load_key h (slot_key sks ?s) (slot_size ?s))"
    using assms(6) k by (simp add: sks_consume_def t1_def go_cleared slot_key_def Let_def)
  ultimately have "sks_do_operation sks h = Inr (sks_done t1,
      h\<lparr>hash_key := slot_key sks ?s @ drop (slot_size ?s) (hash_key h)\<rparr>)"
    using assms(5) by (simp add: sks_do_operation_go[OF go slot t1_def])
  then show ?thesis
    by (intro exI[of _ "sks_done t1"]) (simp add: slot_key_def sks_done_def t1_def SKS_STS_BUSY_def bit_simps)
qed

theorem sks_consume_to_hash_witness:
  "\<exists>sks'. sks_do_operation (sks_ready 21 0x80200000 (replicate 32 7)) hash_zero =
     Inr (sks', hash_zero\<lparr>hash_key := slot_key (sks_ready 21 0x80200000 (replicate 32 7)) 21 @ replicate 32 0\<rparr>)"
proof -
  have b: "bit (0x80200000 :: u32) 31" "\<not> bit (0x80200000 :: u32) 18" by simp_all
  show ?thesis
    using sks_consume_to_hash[of "sks_ready 21 0x80200000 (replicate 32 7)" hash_zero,
        OF sks_ready_wf _ hash_zero_wf] b
    by (auto simp: SKS_CMD_TARGET_MASK_def SKS_CMD_TARGET_HASH_def slot_size_def) (simp add: hash_zero_def)
qed

text \<open>The slot check admits slot 22 of the 22 slots 0 to 21: a command that moves a key
  into it leaves the array of slots.\<close>

lemma sks_slot_22_out_of_bounds:
  assumes "sks_wf sks" and "sks_slot sks = 22" and "bit (sks_command sks) 31" and "bit (sks_command sks) 18"
    and "sks_command sks AND SKS_CMD_SOURCE_MASK = SKS_CMD_SOURCE_CPU"
  shows "sks_do_operation sks h = Inl OutOfBounds"
  using assms
  by (simp add: sks_do_operation_def sks_produce_def sks_key_of_def Let_def go_cleared sks_wf_keys
      SKS_CMD_PRODUCE_def) (simp add: SKS_CMD_ALWAYS_SET_def)

section \<open>Secrecy of the keys\<close>

text \<open>An access of the CPU to the store, and what the CPU sees of it.\<close>

datatype sks_access = SksRead u32 bytes int | SksWrite u32 bytes int

definition sks_step :: "sks_access \<Rightarrow> sks_inst \<times> ocs_hash \<Rightarrow> (bytes \<times> sks_inst \<times> ocs_hash) res" where
  "sks_step a st = (case a of
     SksRead addr buf count \<Rightarrow> rbind (sks_read (fst st) addr buf count) (\<lambda>(s, out). Inr (out, st))
   | SksWrite addr buf count \<Rightarrow> rbind (sks_write (fst st) (snd st) addr buf count) (\<lambda>(s, st). Inr ([], st)))"

fun sks_run :: "sks_access list \<Rightarrow> sks_inst \<times> ocs_hash \<Rightarrow> bytes list res" where
  "sks_run [] st = Inr []"
| "sks_run (a # as) st = rbind (sks_step a st) (\<lambda>(out, st). rbind (sks_run as st) (\<lambda>outs. Inr (out # outs)))"

text \<open>Everything but the keys: the store with its key bytes and its data register blanked.\<close>

definition sks_public :: "sks_inst \<Rightarrow> sks_inst" where
  "sks_public sks = sks\<lparr>sks_keystore := [], sks_databuf := []\<rparr>"

definition sks_agree :: "sks_inst \<times> ocs_hash \<Rightarrow> sks_inst \<times> ocs_hash \<Rightarrow> bool" where
  "sks_agree st st' \<longleftrightarrow> sks_wf (fst st) \<and> sks_wf (fst st') \<and> sks_public (fst st) = sks_public (fst st') \<and>
     hash_wf (snd st) \<and> hash_wf (snd st')"

text \<open>Outcomes that agree: the same fault, or the same output and states that agree.\<close>

definition agree_res :: "('a \<times> sks_inst \<times> ocs_hash) res \<Rightarrow> ('a \<times> sks_inst \<times> ocs_hash) res \<Rightarrow> bool" where
  "agree_res r r' = (case (r, r') of
     (Inl e, Inl e') \<Rightarrow> e = e'
   | (Inr (x, st), Inr (x', st')) \<Rightarrow> x = x' \<and> sks_agree st st'
   | _ \<Rightarrow> False)"

lemma agree_res_simps [simp]:
  "agree_res (Inr (x, st)) (Inr (x', st')) \<longleftrightarrow> x = x' \<and> sks_agree st st'"
  "agree_res (Inl e) (Inl e')\<longleftrightarrow> e = e'"
  by (simp_all add: agree_res_def)

lemma agree_rbind:
  assumes "agree_res r r'" and "\<And>x st st'. sks_agree st st' \<Longrightarrow> agree_res (f (x, st)) (f (x, st'))"
  shows "agree_res (rbind r f) (rbind r' f)"
proof (cases r)
  case (Inl e)
  with assms(1) have "r' = Inl e" by (cases r') (auto simp: agree_res_def)
  with Inl show ?thesis by simp
next
  case (Inr y)
  moreover obtain x st where "y = (x, st)" by (cases y)
  moreover with assms(1) Inr obtain st' where "r' = Inr (x, st')" "sks_agree st st'"
    by (cases r') (auto simp: agree_res_def)
  ultimately show ?thesis using assms(2) by simp
qed

lemma sks_public_eq:
  "sks_public s = sks_public s' \<longleftrightarrow> sks_keys s = sks_keys s' \<and> sks_slot s = sks_slot s' \<and>
     sks_command s = sks_command s' \<and> sks_status s = sks_status s'"
  by (cases s; cases s') (simp add: sks_public_def)

lemma sks_wf_update:
  "sks_wf s \<Longrightarrow> length k = 528 \<Longrightarrow> length d = 32 \<Longrightarrow> sks_wf (s\<lparr>sks_keystore := k, sks_databuf := d\<rparr>)"
  by (simp add: sks_wf_def)

lemma sks_set_valid_wf: "sks_wf s \<Longrightarrow> unat (sks_slot s) < 22 \<Longrightarrow> sks_wf (sks_set_valid s)"
  by (simp add: sks_wf_def sks_set_valid_def Let_def map_key_data_update sks_wf_keys(1)[unfolded sks_wf_def])

lemma sks_set_valid_public:
  "sks_public s = sks_public s' \<Longrightarrow> sks_public (sks_set_valid s) = sks_public (sks_set_valid s')"
  by (simp add: sks_public_eq sks_set_valid_def Let_def)

lemma sks_status_agree:
  "sks_agree (s, h) (s', h') \<Longrightarrow> sks_agree (sks_done s, h) (sks_done s', h')"
  "sks_agree (s, h) (s', h') \<Longrightarrow> sks_agree (sks_err s, h) (sks_err s', h')"
  by (auto simp: sks_agree_def sks_done_def sks_err_def sks_wf_def sks_public_eq)

lemma hash_load_key_wf:
  assumes "hash_wf h" and "length k = n" and "n \<le> 64"
  shows "hash_wf (hash_load_key h k n)"
  using assms by (simp add: hash_wf_def hash_load_key_def Let_def)

text \<open>Storing \<open>n\<close> bytes of key in the slot: two stores that agree still do.\<close>

lemma sks_store_agree:
  assumes a: "sks_agree (s, h) (s', h')" and slot: "unat (sks_slot s) < 22"
    and "length x = slot_size (unat (sks_slot s))" "length x' = slot_size (unat (sks_slot s))"
    and d: "length d = 32" "length d' = 32"
  shows "sks_agree
    (sks_set_valid (s\<lparr>sks_keystore := blit (slot_off (unat (sks_slot s))) x (sks_keystore s), sks_databuf := d\<rparr>), h)
    (sks_set_valid (s'\<lparr>sks_keystore := blit (slot_off (unat (sks_slot s))) x' (sks_keystore s'), sks_databuf := d'\<rparr>), h')"
proof -
  have p: "sks_public s = sks_public s'" "sks_wf s" "sks_wf s'" "hash_wf h" "hash_wf h'"
    using a by (simp_all add: sks_agree_def)
  then have slot': "sks_slot s' = sks_slot s" by (simp add: sks_public_eq)
  define v where "v = s\<lparr>sks_keystore := blit (slot_off (unat (sks_slot s))) x (sks_keystore s), sks_databuf := d\<rparr>"
  define v' where "v' = s'\<lparr>sks_keystore := blit (slot_off (unat (sks_slot s))) x' (sks_keystore s'), sks_databuf := d'\<rparr>"
  have "sks_wf v" "sks_wf v'"
    unfolding v_def v'_def
    by (rule sks_wf_update, use p(2,3) assms(3-6) slot_bounds[OF slot] in \<open>simp_all add: sks_wf_def\<close>)+
  moreover have "sks_slot v = sks_slot s" "sks_slot v' = sks_slot s" by (simp_all add: v_def v'_def slot')
  ultimately have "sks_wf (sks_set_valid v)" "sks_wf (sks_set_valid v')"
    using slot by (simp_all add: sks_set_valid_wf)
  moreover have "sks_public v = sks_public v'" using p(1) by (simp add: sks_public_eq v_def v'_def)
  from sks_set_valid_public[OF this] have "sks_public (sks_set_valid v) = sks_public (sks_set_valid v')" .
  ultimately have "sks_agree (sks_set_valid v, h) (sks_set_valid v', h')"
    using p(4,5) by (simp add: sks_agree_def)
  then show ?thesis by (simp only: v_def v'_def)
qed

lemma sks_produce_agree:
  assumes a: "sks_agree (s, h) (s', h')" and slot: "unat (sks_slot s) < 22"
  shows "(\<exists>u u'. sks_produce (slot_size (unat (sks_slot s))) s h = Inr (Some u) \<and>
      sks_produce (slot_size (unat (sks_slot s))) s' h' = Inr (Some u') \<and> sks_agree (u, h) (u', h')) \<or>
    sks_produce (slot_size (unat (sks_slot s))) s h = Inr None \<and>
      sks_produce (slot_size (unat (sks_slot s))) s' h' = Inr None"
proof -
  let ?n = "slot_size (unat (sks_slot s))" and ?off = "slot_off (unat (sks_slot s))"
  have p: "sks_slot s' = sks_slot s" "sks_command s' = sks_command s" "sks_wf s" "sks_wf s'" "hash_wf h" "hash_wf h'"
    using a by (simp_all add: sks_agree_def sks_public_eq)
  have len: "length (sks_keystore s) = 528" "length (sks_keystore s') = 528"
      "length (sks_databuf s) = 32" "length (sks_databuf s') = 32"
      "length (hash_state h) = 32" "length (hash_state h') = 32"
    using p by (simp_all add: sks_wf_def hash_wf_def)
  have n: "?n \<le> 32" "?off + ?n \<le> 528" using slot_bounds[OF slot] by (simp_all add: slot_size_def)
  obtain k k' where k: "sks_key_of s = Inr k" "key_data k = ?off" "sks_key_of s' = Inr k'" "key_data k' = ?off"
    using sks_key_of_wf[OF p(3) slot] sks_key_of_wf[OF p(4)] slot p(1) by auto
  have upd: "s\<lparr>sks_keystore := x\<rparr> = s\<lparr>sks_keystore := x, sks_databuf := sks_databuf s\<rparr>" for s :: sks_inst and x
    by simp
  have st: "sks_agree (sks_set_valid (s\<lparr>sks_keystore := blit ?off x (sks_keystore s), sks_databuf := d\<rparr>), h)
      (sks_set_valid (s'\<lparr>sks_keystore := blit ?off x' (sks_keystore s'), sks_databuf := d'\<rparr>), h')"
    if "length x = ?n" "length x' = ?n" "length d = 32" "length d' = 32" for x x' d d'
    using sks_store_agree[OF a slot that] .
  show ?thesis
    using k len n st[of "take ?n (sks_databuf s)" "take ?n (sks_databuf s')" "replicate 32 0" "replicate 32 0"]
      st[of "take ?n (hash_state h)" "take ?n (hash_state h')" "sks_databuf s" "sks_databuf s'"]
    by (simp add: sks_produce_def p(2) Let_def memcpy_Inr aes_get_result_def hash_get_result_def)
qed

lemma sks_consume_agree:
  assumes a: "sks_agree (s, h) (s', h')" and slot: "unat (sks_slot s) < 22"
  shows "\<exists>u u'. sks_consume (slot_size (unat (sks_slot s))) s h = Inr u \<and>
      sks_consume (slot_size (unat (sks_slot s))) s' h' = Inr u' \<and> sks_agree (s, u) (s', u')"
proof -
  let ?n = "slot_size (unat (sks_slot s))" and ?off = "slot_off (unat (sks_slot s))"
  have p: "sks_slot s' = sks_slot s" "sks_command s' = sks_command s" "sks_wf s" "sks_wf s'" "hash_wf h" "hash_wf h'"
    using a by (simp_all add: sks_agree_def sks_public_eq)
  have n: "?n \<le> 64" "?off + ?n \<le> 528" using slot_bounds[OF slot] by (simp_all add: slot_size_def)
  obtain k k' where k: "sks_key_of s = Inr k" "key_data k = ?off" "sks_key_of s' = Inr k'" "key_data k' = ?off"
    using sks_key_of_wf[OF p(3) slot] sks_key_of_wf[OF p(4)] slot p(1) by auto
  have "length (slice ?off ?n (sks_keystore s)) = ?n" "length (slice ?off ?n (sks_keystore s')) = ?n"
    using n p(3,4) by (simp_all add: sks_wf_def)
  then have "hash_wf (hash_load_key h (slice ?off ?n (sks_keystore s)) ?n)"
    "hash_wf (hash_load_key h' (slice ?off ?n (sks_keystore s')) ?n)"
    using p(5,6) n(1) by (auto intro: hash_load_key_wf)
  then show ?thesis
    using k a by (auto simp: sks_consume_def p(2) Let_def sks_agree_def)
qed

text \<open>The operation, with its result paired with a dummy output.\<close>

lemma sks_do_operation_agree:
  assumes a: "sks_agree (s, h) (s', h')"
  shows "agree_res (rbind (sks_do_operation s h) (\<lambda>st. Inr (x, st))) (rbind (sks_do_operation s' h') (\<lambda>st. Inr (x, st)))"
proof -
  have p: "sks_slot s' = sks_slot s" "sks_command s' = sks_command s" "sks_keys s' = sks_keys s"
      "sks_status s' = sks_status s" "sks_wf s"
    using a by (simp_all add: sks_agree_def sks_public_eq)
  define u where "u = s\<lparr>sks_command := sks_command s AND NOT SKS_CMD_ALWAYS_SET,
                 sks_status := sks_status s OR SKS_STS_BUSY\<rparr>"
  define u' where "u' = s'\<lparr>sks_command := sks_command s' AND NOT SKS_CMD_ALWAYS_SET,
                 sks_status := sks_status s' OR SKS_STS_BUSY\<rparr>"
  have au: "sks_agree (u, h) (u', h')"
    using a by (auto simp: sks_agree_def sks_wf_def sks_public_eq u_def u'_def)
  have us: "sks_slot u = sks_slot s" by (simp add: u_def)
  have "unat (sks_slot s) < 22 \<or> sks_slot s = 22 \<or> sks_slot s > 22"
    using less_linear[of "unat (sks_slot s)" 22] by (simp add: word_less_nat_alt word_unat_eq_iff)
  then consider "\<not> bit (sks_command s) 31" | "bit (sks_command s) 31" "unat (sks_slot s) < 22"
    | "bit (sks_command s) 31" "sks_slot s = 22" | "bit (sks_command s) 31" "sks_slot s > 22"
    by blast
  then show ?thesis
  proof cases
    case 1
    then show ?thesis using a p by (simp add: sks_do_operation_def SKS_CMD_ALWAYS_SET_def)
  next
    case 2
    note go = sks_do_operation_go[OF 2 u_def, of h] sks_do_operation_go[of s' u' h', unfolded p(1,2), OF 2 u'_def[unfolded p(2)]]
    show ?thesis
      using go sks_produce_agree[OF au] sks_consume_agree[OF au] 2(2) au
      by (auto simp: us sks_status_agree)
  next
    case 3
    then show ?thesis
      using p a au sks_wf_keys(1)[OF p(5)] sks_status_agree[OF au]
      unfolding sks_do_operation_def sks_produce_def sks_consume_def sks_key_of_def Let_def u_def u'_def
      by simp
  next
    case 4
    then show ?thesis
      using p sks_status_agree(2)[OF au] unfolding u_def u'_def
      by (simp add: sks_do_operation_def SKS_CMD_ALWAYS_SET_def Let_def)
  qed
qed

lemma sks_write_reg_agree:
  assumes "sks_agree (s, h) (s', h')"
  shows "(\<exists>u u'. sks_write_reg addr buf s = Inr u \<and> sks_write_reg addr buf s' = Inr u' \<and> sks_agree (u, h) (u', h')) \<or>
    (\<exists>e. sks_write_reg addr buf s = Inl e \<and> sks_write_reg addr buf s' = Inl e)"
proof -
  have p: "sks_keys s' = sks_keys s" "sks_status s' = sks_status s" "sks_wf s"
    using assms by (simp_all add: sks_agree_def sks_public_eq)
  have atr: "unat ((addr - SKS_REG_ATR1 0) div 4) < 22" if "SKS_REG_ATR1 0 \<le> addr" "addr < SKS_REG_ATR1 22"
    using that by (simp add: sks_regs unat_div unat_sub word_le_nat_alt word_less_nat_alt)
  have "map key_data ((sks_keys s)[i := (sks_keys s ! i)\<lparr>key_atr1 := v\<rparr>]) = map slot_off [0..<22]" if "i < 22" for i v
    using p(3) that sks_wf_keys(1)[OF p(3)] by (simp add: map_key_data_update sks_wf_def)
  then show ?thesis
    using assms p atr
    by (cases "ld32 buf") (auto simp: sks_write_reg_def Let_def sks_agree_def sks_wf_def sks_public_eq)
qed

lemma sks_go_agree:
  assumes a: "sks_agree (s, h) (s', h')"
  shows "agree_res
    (rbind (sks_write_reg addr buf s) (\<lambda>s. rbind (sks_do_operation s h) (\<lambda>(s, h). Inr (x, s, h))))
    (rbind (sks_write_reg addr buf s') (\<lambda>s. rbind (sks_do_operation s h') (\<lambda>(s, h). Inr (x, s, h))))"
proof -
  have pair: "(\<lambda>(s :: sks_inst, h :: ocs_hash). Inr (x, s, h)) = (\<lambda>st. Inr (x, st))" by auto
  show ?thesis
    using sks_write_reg_agree[OF a, of addr buf] sks_do_operation_agree unfolding pair by fastforce
qed

lemma sks_step_agree:
  assumes a: "sks_agree st st'"
  shows "agree_res (sks_step x st) (sks_step x st')"
proof (cases x)
  case (SksRead addr buf count)
  obtain s h s' h' where st: "st = (s, h)" "st' = (s', h')" by (cases st; cases st')
  then have "sks_read s' addr buf count = sks_read s addr buf count"
    using a by (simp add: sks_read_def sks_agree_def sks_public_eq)
  then show ?thesis
    using a by (cases "sks_read s addr buf count") (auto simp: sks_step_def SksRead st)
next
  case (SksWrite addr buf count)
  obtain s h s' h' where st: "st = (s, h)" "st' = (s', h')" by (cases st; cases st')
  note a' = a[unfolded st]
  have len: "length (sks_databuf s) = 32" "length (sks_databuf s') = 32"
    using a' by (simp_all add: sks_agree_def sks_wf_def)
  have d: "sks_agree (s\<lparr>sks_databuf := d\<rparr>, h) (s'\<lparr>sks_databuf := d'\<rparr>, h')"
    if "length d = 32" "length d' = 32" for d d'
    using a' that by (simp add: sks_agree_def sks_wf_def sks_public_eq)
  have "agree_res (sks_write s h addr buf count) (sks_write s' h' addr buf count)"
  proof (cases "SKS_REG_DATA 0 \<le> addr \<and> addr < SKS_REG_DATA 32 \<and> 0 \<le> count \<and>
      uint (addr - SKS_REG_DATA 0) + count \<le> 32")
    case True
    then have "int (unat (addr - SKS_REG_DATA 0)) + count \<le> 32" "0 \<le> count" by simp_all
    then have "unat (addr - SKS_REG_DATA 0) + nat count \<le> 32" by linarith
    then show ?thesis
      using True len by (simp add: sks_write_def Let_def memcpy_def sks_go_agree d)
  next
    case False
    then show ?thesis
      using sks_go_agree[OF a', of addr buf 1] a' by (auto simp: sks_write_def Let_def)
  qed
  then have "agree_res (rbind (sks_write s h addr buf count) (\<lambda>(r, st). Inr ([] :: bytes, st)))
      (rbind (sks_write s' h' addr buf count) (\<lambda>(r, st). Inr ([], st)))"
    by (rule agree_rbind) simp
  then show ?thesis by (simp add: sks_step_def SksWrite st)
qed

text \<open>C23. The keys cannot be read back: whatever a CPU writes to and reads from the registers
  of the key store, what it sees, faults included, does not depend on the key bytes in the
  store, in its data register or in the hash unit.\<close>

theorem sks_keys_secret:
  assumes "sks_wf s" and "sks_wf s'" and "sks_public s = sks_public s'" and "hash_wf h" and "hash_wf h'"
  shows "sks_run accs (s, h) = sks_run accs (s', h')"
proof -
  have "sks_run accs st = sks_run accs st'" if "sks_agree st st'" for st st'
    using that
  proof (induction accs arbitrary: st st')
    case (Cons x accs)
    from sks_step_agree[OF Cons.prems, of x] show ?case
      by (cases "sks_step x st"; cases "sks_step x st'") (auto simp: agree_res_def dest: Cons.IH)
  qed simp
  then show ?thesis using assms by (simp add: sks_agree_def)
qed

theorem sks_keys_secret_witness:
  "sks_run [SksRead 0x40C (replicate 4 0) 4, SksRead 0x408 (replicate 4 0) 4]
     ((sks_ready 3 0 (replicate 32 0))\<lparr>sks_keystore := replicate 528 0xAA\<rparr>, hash_zero) =
   sks_run [SksRead 0x40C (replicate 4 0) 4, SksRead 0x408 (replicate 4 0) 4] (sks_ready 3 0 (replicate 32 5), hash_zero)"
proof (rule sks_keys_secret)
  show "sks_wf ((sks_ready 3 0 (replicate 32 0))\<lparr>sks_keystore := replicate 528 0xAA\<rparr>)"
    using sks_ready_wf[of "replicate 32 0" 3 0] by (simp add: sks_wf_def)
  show "sks_public ((sks_ready 3 0 (replicate 32 0))\<lparr>sks_keystore := replicate 528 0xAA\<rparr>) =
      sks_public (sks_ready 3 0 (replicate 32 5))"
    by (simp add: sks_public_eq) (simp add: sks_ready_def)
qed (simp_all add: sks_ready_wf hash_zero_wf)

end
