(* ===== verification/Ocs.thy ===== *)
theory Ocs
  imports PciConfig Sks
begin

text \<open>
  The offload and crypto subsystem (\<open>include/ocs/dev.h\<close>, \<open>periph/ocs/dev.c\<close>): the PCI
  function that decodes the AES unit, the hash unit and the key store in its 64 KiB BAR,
  and connects the units' DMA engines to the bus the function sits on. The bus callbacks
  of the engine may come back to this device, so the device is a field of the program
  state \<open>'w\<close>.
\<close>

section \<open>State\<close>

record ocs_inst =
  ocs_bdf :: u32
  ocs_config :: pci_cfgspace
  ocs_sks :: sks_inst
  ocs_hash_unit :: ocs_hash
  ocs_aes_unit :: ocs_aes
  ocs_sai :: u32

text \<open>
  Where the device and the global \<open>gpdma_buffer\<close> live, the bus of the function, and the
  stack frame the hash unit's rounds work in.
\<close>

record 'w ocs_host =
  ocs_frame :: sha_frame
  ocs_get :: "'w \<Rightarrow> ocs_inst"
  ocs_put :: "ocs_inst \<Rightarrow> 'w \<Rightarrow> 'w"
  ocs_buf_get :: "'w \<Rightarrow> bytes"
  ocs_buf_put :: "bytes \<Rightarrow> 'w \<Rightarrow> 'w"
  ocs_bus :: "'w pci_bus"

section \<open>Configuration space\<close>

definition ocs_cfg_read :: "'w ocs_host \<Rightarrow> u64 \<Rightarrow> bytes \<Rightarrow> int \<Rightarrow> 'w \<Rightarrow> (int \<times> bytes \<times> 'w) res" where
  "ocs_cfg_read host addr out count w =
    (let sa = ocs_get host w in
     if PCI_ADDR_TYPE addr \<noteq> PCI_ADDR_TYPE1 then Inr (-1, out, w)
     else if addr AND PCI_ADDR_BDF_MASK \<noteq> ucast (ocs_bdf sa) then Inr (-1, out, w)
     else let off = uint (PCI_ADDR_REG addr) in
       if off + count > PCI_CONFIG_SIZE then Inr (-1, out, w)
       else rbind (memcpy_int 0 count (drop (nat off) (ocs_config sa)) out) (\<lambda>out. Inr (0, out, w)))"

definition ocs_cfg_write :: "'w ocs_host \<Rightarrow> u64 \<Rightarrow> bytes \<Rightarrow> int \<Rightarrow> 'w \<Rightarrow> (int \<times> 'w) res" where
  "ocs_cfg_write host addr out count w =
    (let sa = ocs_get host w in
     if PCI_ADDR_TYPE addr \<noteq> PCI_ADDR_TYPE1 then Inr (-1, w)
     else if addr AND PCI_ADDR_BDF_MASK \<noteq> ucast (ocs_bdf sa) then Inr (-1, w)
     else let off = uint (PCI_ADDR_REG addr) in
       if off + count > PCI_CONFIG_SIZE then Inr (-1, w)
       else rbind (memcpy_int (nat off) count out (ocs_config sa)) (\<lambda>cfg.
         Inr (0, ocs_put host (sa\<lparr>ocs_config := cfg\<rparr>) w)))"

section \<open>DMA\<close>

text \<open>
  The two bus callbacks that \<open>ocs_spawn\<close> installs in the engines. Both read memory: the
  write callback fills the engine's buffer instead of draining it.
\<close>

definition ocs_dma_read :: "'w ocs_host \<Rightarrow> u32 \<Rightarrow> bytes \<Rightarrow> nat \<Rightarrow> 'w \<Rightarrow> (bytes \<times> 'w) res" where
  "ocs_dma_read host addr buf count w =
    rbind (pci_bus_mem_read (ocs_bus host) (ucast addr) buf (int count) (sint (ocs_sai (ocs_get host w))) 15 w)
      (\<lambda>(s, buf, w). Inr (buf, w))"

definition ocs_dma_write :: "'w ocs_host \<Rightarrow> u32 \<Rightarrow> bytes \<Rightarrow> nat \<Rightarrow> 'w \<Rightarrow> (bytes \<times> 'w) res" where
  "ocs_dma_write host addr buf count w =
    rbind (pci_bus_mem_read (ocs_bus host) (ucast addr) buf (int count) (sint (ocs_sai (ocs_get host w))) 15 w)
      (\<lambda>(s, buf, w). Inr (buf, w))"

definition ocs_hash_host :: "'w ocs_host \<Rightarrow> 'w hash_host" where
  "ocs_hash_host host = \<lparr>
     hh_frame = ocs_frame host,
     hh_get = (\<lambda>w. ocs_hash_unit (ocs_get host w)),
     hh_put = (\<lambda>h w. ocs_put host ((ocs_get host w)\<lparr>ocs_hash_unit := h\<rparr>) w),
     hh_buf_get = ocs_buf_get host,
     hh_buf_put = ocs_buf_put host,
     hh_bus_read = ocs_dma_read host,
     hh_bus_write = ocs_dma_write host\<rparr>"

section \<open>Memory space\<close>

text \<open>
  The BAR check both handlers share: the offset in the BAR as the \<open>uint32_t\<close> it is stored
  in, or \<open>None\<close> where they return \<open>-1\<close>.
\<close>

definition ocs_decode :: "pci_cfgspace \<Rightarrow> u64 \<Rightarrow> int \<Rightarrow> u32 option" where
  "ocs_decode cfg addr count =
    (let base = cfg_bar 0 cfg AND PCI_BAR_ADDRESS_MASK in
     if addr < ucast base then None
     else let off = ucast (addr - ucast base) :: u32 in
       if off \<ge> 0x10000 then None
       else if off + word_of_int count > 0x10000 then None
       else if ntst (cfg_command cfg) PCI_COMMAND_MSE then None
       else Some off)"

definition ocs_result :: "'w ocs_host \<Rightarrow> int \<Rightarrow> 'w \<Rightarrow> int" where
  "ocs_result host s w = (if s = 0 then 0 else sint (ocs_sai (ocs_get host w)))"

text \<open>The unit is selected by bits 12 to 15 of the address, not of the offset in the BAR.\<close>

definition ocs_mem_write :: "'w ocs_host \<Rightarrow> u64 \<Rightarrow> bytes \<Rightarrow> int \<Rightarrow> int \<Rightarrow> int \<Rightarrow> 'w \<Rightarrow> (int \<times> 'w) res" where
  "ocs_mem_write host addr buf count sai lat w =
    (let i = ocs_get host w in
     case ocs_decode (ocs_config i) addr count of
       None \<Rightarrow> Inr (-1, w)
     | Some off \<Rightarrow>
         let unit = addr AND 0xF000; addr = addr AND 0x0FFF in
         if unit = 0x8000 then
           rbind (aes_write (ocs_aes_unit i) (uint addr) buf count) (\<lambda>(s, aes).
             let w = ocs_put host (i\<lparr>ocs_aes_unit := aes\<rparr>) w
             in Inr (ocs_result host s w, w))
         else if unit = 0xB000 then
           rbind (hash_write (ocs_hash_host host) (uint addr) buf count w) (\<lambda>(s, w).
             Inr (ocs_result host s w, w))
         else if unit = 0xF000 then
           rbind (sks_write (ocs_sks i) (ocs_hash_unit i) (ucast addr) buf count) (\<lambda>(s, sks, hash).
             let w = ocs_put host (i\<lparr>ocs_sks := sks, ocs_hash_unit := hash\<rparr>) w
             in Inr (ocs_result host s w, w))
         else Inr (0, w))"

definition ocs_mem_read :: "'w ocs_host \<Rightarrow> u64 \<Rightarrow> bytes \<Rightarrow> int \<Rightarrow> int \<Rightarrow> int \<Rightarrow> 'w \<Rightarrow> (int \<times> bytes \<times> 'w) res" where
  "ocs_mem_read host addr buf count sai lat w =
    (let i = ocs_get host w in
     case ocs_decode (ocs_config i) addr count of
       None \<Rightarrow> Inr (-1, buf, w)
     | Some off \<Rightarrow>
         let unit = addr AND 0xF000; addr = addr AND 0x0FFF in
         if unit = 0x8000 then
           rbind (aes_read (ocs_aes_unit i) (uint addr) buf count) (\<lambda>(s, buf). Inr (ocs_result host s w, buf, w))
         else if unit = 0xB000 then
           rbind (hash_read (ocs_hash_unit i) (uint addr) buf count) (\<lambda>(s, h, buf).
             let w = ocs_put host (i\<lparr>ocs_hash_unit := h\<rparr>) w in Inr (ocs_result host s w, buf, w))
         else if unit = 0xF000 then
           rbind (sks_read (ocs_sks i) (ucast addr) buf count) (\<lambda>(s, buf). Inr (ocs_result host s w, buf, w))
         else Inr (0, buf, w))"

definition ocs_func :: "'w ocs_host \<Rightarrow> 'w pci_func" where
  "ocs_func host = \<lparr>func_bdf = 0, cfg_read = ocs_cfg_read host, cfg_write = ocs_cfg_write host,
     mem_read = ocs_mem_read host, mem_write = ocs_mem_write host\<rparr>"

section \<open>Start\<close>

text \<open>
  The order of \<open>ocs_spawn\<close>. The units are initialised after both registrations; the bus of
  the host is the one the function is registered on.
\<close>

definition ocs_spawn :: "'w ocs_host \<Rightarrow> cfg_section \<Rightarrow> 'w pci_bus list \<Rightarrow> unit device_instance list \<Rightarrow> 'w \<Rightarrow>
    ('w pci_bus list \<times> unit device_instance list \<times> 'w) res" where
  "ocs_spawn host sec buses devs w =
    (case cfg_find_string sec ''bus'' of
       None \<Rightarrow> Inl ExitFailure
     | Some name \<Rightarrow>
       (case pci_bus_find name buses of
          None \<Rightarrow> Inl ExitFailure
        | Some bus \<Rightarrow>
            let cfg = pci_cfg_handle_type0 sec False (replicate 0x1000 0) in
            rbind (cfg_require (cfg_find_int32 sec ''device_no'') 31) (\<lambda>dev_no.
            rbind (cfg_require (cfg_find_int32 sec ''func_no'') 7) (\<lambda>func_no.
            rbind (cfg_require (cfg_find_int32 sec ''bus_no'') 255) (\<lambda>bus_no.
            rbind (cfg_require (cfg_find_int32 sec ''sai'') 255) (\<lambda>sai.
              let bdf = PCI_PACK_BDF bus_no dev_no func_no in
              rbind (pci_func_register ((ocs_func host)\<lparr>func_bdf := bdf\<rparr>) bus) (\<lambda>bus.
              rbind (device_register \<lparr>device_name = section_name sec, device_impl = ()\<rparr> devs) (\<lambda>devs.
                Inr (replace_bus bus buses, devs,
                  ocs_put host \<lparr>ocs_bdf = bdf, ocs_config = cfg, ocs_sks = sks_init sks_zero,
                    ocs_hash_unit = hash_init, ocs_aes_unit = aes_init, ocs_sai = sai\<rparr> w)))))))))"

section \<open>The device as a host of the engine\<close>

text \<open>The device and the buffer are fields of the program state, independent of each other.\<close>

definition ocs_laws :: "'w ocs_host \<Rightarrow> bool" where
  "ocs_laws host \<longleftrightarrow> (\<forall>w i j b c.
     ocs_get host (ocs_put host i w) = i \<and> ocs_put host j (ocs_put host i w) = ocs_put host j w \<and>
     ocs_put host (ocs_get host w) w = w \<and>
     ocs_buf_get host (ocs_buf_put host b w) = b \<and> ocs_buf_put host c (ocs_buf_put host b w) = ocs_buf_put host c w \<and>
     ocs_buf_put host (ocs_buf_get host w) w = w \<and>
     ocs_get host (ocs_buf_put host b w) = ocs_get host w \<and>
     ocs_buf_get host (ocs_put host i w) = ocs_buf_get host w \<and>
     ocs_put host i (ocs_buf_put host b w) = ocs_buf_put host b (ocs_put host i w))"

lemma ocs_laws_simps:
  assumes "ocs_laws host"
  shows "ocs_get host (ocs_put host i w) = i" "ocs_put host j (ocs_put host i w) = ocs_put host j w"
    "ocs_put host (ocs_get host w) w = w" "ocs_buf_get host (ocs_buf_put host b w) = b"
    "ocs_buf_put host c (ocs_buf_put host b w) = ocs_buf_put host c w"
    "ocs_buf_put host (ocs_buf_get host w) w = w" "ocs_get host (ocs_buf_put host b w) = ocs_get host w"
    "ocs_buf_get host (ocs_put host i w) = ocs_buf_get host w"
    "ocs_put host i (ocs_buf_put host b w) = ocs_buf_put host b (ocs_put host i w)"
  using assms by (simp_all add: ocs_laws_def)

text \<open>Reads of the bus by the engine give the contents of a memory and change nothing.\<close>

definition ocs_serves :: "'w ocs_host \<Rightarrow> (u32 \<Rightarrow> u8) \<Rightarrow> bool" where
  "ocs_serves host mem \<longleftrightarrow> (\<forall>a b n w. length b = 64 \<longrightarrow> n \<le> 64 \<longrightarrow>
     ocs_dma_read host a b n w = Inr (mem_range mem a n @ drop n b, w))"

definition ocs_dma_ok :: "'w ocs_host \<Rightarrow> (u32 \<Rightarrow> u8) \<Rightarrow> 'w \<Rightarrow> bool" where
  "ocs_dma_ok host mem w \<longleftrightarrow> ocs_laws host \<and> ocs_serves host mem \<and>
     hash_wf (ocs_hash_unit (ocs_get host w)) \<and> length (ocs_buf_get host w) = 64"

text \<open>The same with a stack frame in which no round of the hash unit faults.\<close>

definition ocs_dma_runs :: "'w ocs_host \<Rightarrow> (u32 \<Rightarrow> u8) \<Rightarrow> 'w \<Rightarrow> bool" where
  "ocs_dma_runs host mem w \<longleftrightarrow> frame_room (ocs_frame host) \<and> ocs_dma_ok host mem w"

definition ocs_sink :: "'w ocs_host \<Rightarrow> bytes \<Rightarrow> 'w \<Rightarrow> 'w" where
  "ocs_sink host bs w = ocs_put host ((ocs_get host w)\<lparr>ocs_hash_unit :=
     dma_take (ocs_hash_unit (ocs_get host w)) bs\<rparr>) w"

lemma hash_dma_write_wf: "hash_wf h \<Longrightarrow> hash_wf (dma_take h bs)"
  by (rule same_setup_wf[OF same_setup_dma_write])

lemma hash_wf_gpdma [simp]: "hash_wf (h\<lparr>hash_gpdma := st\<rparr>) = hash_wf h"
  by (simp add: hash_wf_def)

lemma ocs_sink_write:
  assumes "frame_room (ocs_frame host)" and "n \<le> length b"
  shows "int_write (hash_dma_ops (ocs_hash_host host)) b n w = Inr (ocs_sink host (take n b) w)"
  using assms(2) round_ends_room[OF hash_dma_write_ends assms(1), of "ocs_hash_unit (ocs_get host w)" "take n b"]
  by (simp add: hash_dma_ops_def ocs_hash_host_def ocs_sink_def)

interpretation ocs_dma: dma_host "hash_dma_ops (ocs_hash_host host)" mem "ocs_sink host" "ocs_dma_runs host mem"
  for host mem
proof (unfold_locales, goal_cases)
  case (7 w bs)
  have "hash_gpdma (dma_take (ocs_hash_unit (ocs_get host w)) bs) = hash_gpdma (ocs_hash_unit (ocs_get host w))"
    using 7 same_setup_dma_write by (simp add: ocs_dma_runs_def ocs_dma_ok_def same_setup_def)
  then show ?case
    using 7 by (simp add: ocs_dma_runs_def ocs_dma_ok_def hash_dma_ops_def ocs_hash_host_def ocs_sink_def ocs_laws_simps)
qed (simp_all add: ocs_dma_runs_def ocs_dma_ok_def ocs_sink_write, simp_all add: hash_dma_ops_def ocs_hash_host_def
      ocs_sink_def ocs_laws_simps ocs_serves_def hash_dma_write_append hash_dma_write_wf dma_take.simps[of _ "[]"])

section \<open>Register accesses through the BAR\<close>

text \<open>The device answers at a 64 KiB aligned base with memory space enabled.\<close>

definition ocs_at :: "u32 \<Rightarrow> pci_cfgspace \<Rightarrow> bool" where
  "ocs_at base cfg \<longleftrightarrow> cfg_bar 0 cfg = base \<and> base AND 0xFFFF = 0 \<and> bit (cfg_command cfg) 1"

lemma aligned_bits:
  assumes "(base :: u32) AND 0xFFFF = 0" and "n < 16"
  shows "\<not> bit base n"
proof -
  have m: "(0xFFFF :: u32) = mask 16" by (simp add: mask_eq_exp_minus_1)
  have "bit (base AND mask 16) n = bit base n" using assms(2) by (simp add: bit_simps)
  then show ?thesis using assms(1) unfolding m by simp
qed

lemma low_bits:
  assumes "(off :: u32) AND 0xFFFF = off" and "bit off n"
  shows "n < 16"
proof -
  have m: "(0xFFFF :: u32) = mask 16" by (simp add: mask_eq_exp_minus_1)
  have "bit (off AND mask 16) n" using assms unfolding m by simp
  then show ?thesis by (simp add: bit_simps)
qed

text \<open>The address of an offset, split into what the two handlers look at.\<close>

lemma ocs_addr:
  assumes "(base :: u32) AND 0xFFFF = 0" and "(off :: u32) AND 0xFFFF = off"
  shows "(ucast base + ucast off :: u64) AND 0xF000 = ucast (off AND 0xF000)"
    and "(ucast base + ucast off :: u64) AND 0x0FFF = ucast (off AND 0x0FFF)"
    and "ucast base \<le> (ucast base + ucast off :: u64)"
proof -
  have m: "(0xF000 :: u64) = push_bit 12 (mask 4)" "(0xF000 :: u32) = push_bit 12 (mask 4)"
      "(0x0FFF :: u64) = mask 12" "(0x0FFF :: u32) = mask 12"
    by (simp_all add: mask_eq_exp_minus_1 push_bit_eq_mult)
  have plus: "(ucast base + ucast off :: u64) = ucast base OR ucast off"
    using aligned_bits[OF assms(1)] low_bits[OF assms(2)]
    by (intro disjunctive_add) (auto simp: bit_simps)
  show "(ucast base + ucast off :: u64) AND 0xF000 = ucast (off AND 0xF000)"
    "(ucast base + ucast off :: u64) AND 0x0FFF = ucast (off AND 0x0FFF)"
    unfolding plus m using aligned_bits[OF assms(1)]
    by (auto intro!: bit_word_eqI simp: bit_simps dest: low_bits[OF assms(2)])
  have "unat base < 2 ^ 32" "unat off < 2 ^ 32" by (rule order_less_le_trans[OF unsigned_less], simp)+
  then have "unat (ucast base :: u64) + unat (ucast off :: u64) < 2 ^ 64"
    by (simp add: unsigned_ucast_eq take_bit_nat_eq_self)
  then show "ucast base \<le> (ucast base + ucast off :: u64)"
    by (simp add: word_le_nat_alt unat_word_ariths(1))
qed

lemma ocs_decode_at:
  assumes "ocs_at base cfg" and "off AND 0xFFFF = off" and "off \<le> 0xFFFC"
  shows "ocs_decode cfg (ucast base + ucast off) 4 = Some off"
proof -
  note a = assms(1)[unfolded ocs_at_def]
  have "base AND PCI_BAR_ADDRESS_MASK = base"
  proof (rule bit_word_eqI)
    have m: "PCI_BAR_ADDRESS_MASK = push_bit 4 (mask 28)"
      by (simp add: PCI_BAR_ADDRESS_MASK_def mask_eq_exp_minus_1 push_bit_eq_mult)
    show "bit (base AND PCI_BAR_ADDRESS_MASK) n = bit base n" if "n < LENGTH(32)" for n
      using that aligned_bits[of base n] a unfolding m by (cases "n < 4") (auto simp: bit_simps)
  qed
  moreover have "\<not> (ucast base + ucast off :: u64) < ucast base"
    using ocs_addr(3)[of base off] a assms(2) by (simp add: not_less)
  moreover have "(ucast (ucast off :: u64) :: u32) = off" by (rule bit_word_eqI) (auto simp: bit_simps)
  moreover have "off < 0x10000" "off + 4 \<le> 0x10000"
    using assms(3) by (simp_all add: word_less_nat_alt word_le_nat_alt unat_word_ariths(1))
  ultimately show ?thesis
    using a by (simp add: ocs_decode_def Let_def PCI_COMMAND_MSE_def not_le not_less)
qed

text \<open>A 32 bit write to a register of the hash unit.\<close>

lemma ocs_write_hash:
  assumes "ocs_at base (ocs_config (ocs_get host w))" and "(r :: u32) AND 0xFFF = r" and "r \<le> 0xFFC"
  shows "ocs_mem_write host (ucast base + ucast (0xB000 OR r)) buf 4 sai lat w =
    rbind (hash_write (ocs_hash_host host) (uint r) buf 4 w) (\<lambda>(s, w). Inr (ocs_result host s w, w))"
proof -
  have m: "(0xF000 :: u32) = push_bit 12 (mask 4)" "(0xFFFF :: u32) = mask 16" "(0xFFF :: u32) = mask 12"
    "(0xB000 :: u32) = BIT 15 OR push_bit 12 (mask 2)"
    by (simp_all add: mask_eq_exp_minus_1 push_bit_eq_mult BIT_def)
  have low: "bit r n \<Longrightarrow> n < 12" for n
    using arg_cong[OF assms(2), of "\<lambda>x. bit x n"] unfolding m by (simp add: bit_simps)
  have low16: "bit r n \<Longrightarrow> n < 16" and low12: "bit r n \<Longrightarrow> \<not> 12 \<le> n" for n using low[of n] by auto
  have f: "(0xB000 OR r) AND 0xFFFF = 0xB000 OR r" "(0xB000 OR r) AND 0xF000 = 0xB000" "(0xB000 OR r) AND 0xFFF = r"
    unfolding m by (auto intro!: bit_word_eqI simp: bit_simps less_diff_conv2 dest: low low16 low12)
  have disj: "0xB000 OR r = 0xB000 + r"
    unfolding m by (rule disjunctive_add[symmetric]) (auto simp: bit_simps dest: low)
  have "0xB000 OR r \<le> 0xFFFC"
    using assms(3) unfolding disj by (simp add: word_le_nat_alt unat_word_ariths(1))
  from ocs_decode_at[OF assms(1) f(1) this]
  have d: "ocs_decode (ocs_config (ocs_get host w)) (ucast base + ucast (0xB000 OR r)) 4 = Some (0xB000 OR r)" .
  have "base AND 0xFFFF = 0" using assms(1) by (simp add: ocs_at_def)
  note a = ocs_addr(1,2)[OF this f(1)]
  show ?thesis
    unfolding ocs_mem_write_def Let_def d option.case a f(2,3) by (simp add: uint_up_ucast is_up)
qed

section \<open>Hashing a range of memory\<close>

text \<open>A driver: 32 bit writes to registers of the hash unit, one after the other.\<close>

fun ocs_program :: "'w ocs_host \<Rightarrow> u32 \<Rightarrow> (u32 \<times> u32) list \<Rightarrow> 'w \<Rightarrow> 'w res" where
  "ocs_program host base [] w = Inr w"
| "ocs_program host base ((r, v) # ws) w =
    rbind (ocs_mem_write host (ucast base + ucast (0xB000 OR r)) (le_bytes 4 v) 4 0 0 w)
      (\<lambda>(s, w). ocs_program host base ws w)"

declare ocs_program.simps [simp del]

text \<open>Select SHA-256, start, DMA of \<open>n\<close> bytes from \<open>src\<close> into the unit, flush.\<close>

definition hash_memory :: "u32 \<Rightarrow> u32 \<Rightarrow> (u32 \<times> u32) list" where
  "hash_memory src n = [(0x000, 0x20000), (0x008, 1), (0x400, src), (0x404, 0), (0x408, n), (0x40C, 0),
     (0x410, BIT 31), (0x008, 2)]"

text \<open>The program state with another hash unit, and what a register write makes of it.\<close>

abbreviation ocs_with :: "'w ocs_host \<Rightarrow> ocs_hash \<Rightarrow> 'w \<Rightarrow> 'w" where
  "ocs_with host h w \<equiv> hh_put (ocs_hash_host host) h w"

lemma ocs_with_simps:
  assumes "ocs_laws host"
  shows "ocs_hash_unit (ocs_get host (ocs_with host h w)) = h"
    "ocs_with host h' (ocs_with host h w) = ocs_with host h' w"
    "ocs_config (ocs_get host (ocs_with host h w)) = ocs_config (ocs_get host w)"
    "ocs_buf_get host (ocs_with host h w) = ocs_buf_get host w"
    "hh_get (ocs_hash_host host) w = ocs_hash_unit (ocs_get host w)"
    "hh_frame (ocs_hash_host host) = ocs_frame host"
  using assms by (simp_all add: ocs_hash_host_def ocs_laws_simps)

lemma ocs_program_step:
  assumes "ocs_at base (ocs_config (ocs_get host w))" and "r AND 0xFFF = r" and "r \<le> 0xFFC"
    and "hash_write (ocs_hash_host host) (uint r) (le_bytes 4 v) 4 w = Inr (s, w')"
  shows "ocs_program host base ((r, v) # ws) w = ocs_program host base ws w'"
  using ocs_write_hash[OF assms(1-3)] assms(4) by (simp add: ocs_program.simps)

text \<open>The registers of the unit itself, and those of its engine while the GO bit is clear.\<close>

lemma hash_write_mode: "hash_write hh 0 (le_bytes 4 v) 4 w =
    Inr (1, hh_put hh (hash_round_init ((hh_get hh w)\<lparr>hash_mode := v, hash_stateptr := 0\<rparr>)) w)"
  by (simp add: hash_write_def hash_regs Let_def)

lemma hash_write_cmd: "frame_room (hh_frame hh) \<Longrightarrow>
    hash_write hh 8 (le_bytes 4 v) 4 w = Inr (1, hh_put hh (do_command (hh_get hh w) v) w)"
  using round_ends_room[OF hash_do_command_ends[of "hh_frame hh" "hh_get hh w" v]]
  by (simp add: hash_write_def hash_regs Let_def)

lemma hash_write_gpdma:
  assumes "r \<in> {0x400, 0x404, 0x408, 0x40C}" and "\<not> bit (control (hash_gpdma (hh_get hh w))) 31"
    and "\<And>h. hh_get hh (hh_put hh h w) = h"
  shows "hash_write hh r (le_bytes 4 v) 4 w = Inr (1, hh_put hh ((hh_get hh w)\<lparr>hash_gpdma :=
    (let st = hash_gpdma (hh_get hh w) in
     if r = 0x400 then st\<lparr>src_addr := v\<rparr> else if r = 0x404 then st\<lparr>dst_addr := v\<rparr>
     else if r = 0x408 then st\<lparr>src_size := v\<rparr> else st\<lparr>dst_size := v\<rparr>)\<rparr>) w)"
  using assms
  by (auto simp: hash_write_def hash_regs gpdma_write_def gpdma_regs Let_def hash_dma_ops_def
      gpdma_run_transaction_idle)

lemma hash_write_go:
  "hash_write hh 0x410 (le_bytes 4 v) 4 w = rbind (gpdma_run_transaction (hash_dma_ops hh)
    (hh_put hh ((hh_get hh w)\<lparr>hash_gpdma := (hash_gpdma (hh_get hh w))\<lparr>control := v\<rparr>\<rparr>) w)) (\<lambda>w. Inr (1, w))"
  by (cases "gpdma_run_transaction (hash_dma_ops hh)
      (hh_put hh ((hh_get hh w)\<lparr>hash_gpdma := (hash_gpdma (hh_get hh w))\<lparr>control := v\<rparr>\<rparr>) w)")
    (simp_all add: hash_write_def hash_regs gpdma_write_def gpdma_regs Let_def hash_dma_ops_def)

text \<open>The transfer: a unit whose engine has its GO bit set takes in the range.\<close>

lemma hash_memory_transfer:
  assumes ok: "ocs_dma_runs host mem (ocs_with host h w)" and st: "hash_gpdma h = st"
    and "bit (control st) 31" and "src_addr st \<noteq> 0" and "dst_addr st = 0" and "dst_size st = 0"
  shows "\<exists>b. gpdma_run_transaction (hash_dma_ops (ocs_hash_host host)) (ocs_with host h w) =
    Inr (ocs_buf_put host b (ocs_with host (dma_take (h\<lparr>hash_gpdma := st\<lparr>control := control st AND NOT (BIT 31)\<rparr>\<rparr>)
      (mem_range mem (src_addr st) (unat (src_size st)))) w))"
proof -
  have laws: "ocs_laws host" using ok by (simp add: ocs_dma_runs_def ocs_dma_ok_def)
  let ?ops = "hash_dma_ops (ocs_hash_host host)"
  have "dma_get ?ops (ocs_with host h w) = st"
    using ocs_with_simps[OF laws] st by (simp add: hash_dma_ops_def)
  from ocs_dma.transaction_sink[OF ok this assms(3-5)] assms(6)
  obtain b where "gpdma_run_transaction ?ops (ocs_with host h w) =
      Inr (buf_put ?ops b (ocs_sink host (mem_range mem (src_addr st) (unat (src_size st)))
        (dma_put ?ops (st\<lparr>control := control st AND NOT (BIT 31)\<rparr>) (ocs_with host h w))))"
    by auto
  then show ?thesis
    by (auto simp: hash_dma_ops_def ocs_sink_def ocs_hash_host_def ocs_laws_simps[OF laws] intro!: exI[of _ b])
qed

text \<open>A register write from any state whose device has the same configuration space.\<close>

lemma hash_memory_step:
  assumes "ocs_at base cfg" and "ocs_config (ocs_get host w) = cfg"
    and "r \<in> {0, 8, 0x400, 0x404, 0x408, 0x40C, 0x410}"
    and "hash_write (ocs_hash_host host) (uint r) (le_bytes 4 v) 4 w = Inr (s, w')"
  shows "ocs_program host base ((r, v) # ws) w = ocs_program host base ws w'"
proof -
  have r: "r AND 0xFFF = r" "r \<le> 0xFFC" using assms(3) by auto
  show ?thesis by (rule ocs_program_step[OF _ r assms(4)]) (simp add: assms(1,2))
qed

lemma hash_write_gpdma_with:
  assumes "ocs_laws host" and "r \<in> {0x400, 0x404, 0x408, 0x40C}" and "\<not> bit (control st) 31"
  shows "hash_write (ocs_hash_host host) r (le_bytes 4 v) 4 (ocs_with host (h\<lparr>hash_gpdma := st\<rparr>) w) =
    Inr (1, ocs_with host (h\<lparr>hash_gpdma := (if r = 0x400 then st\<lparr>src_addr := v\<rparr>
      else if r = 0x404 then st\<lparr>dst_addr := v\<rparr> else if r = 0x408 then st\<lparr>src_size := v\<rparr>
      else st\<lparr>dst_size := v\<rparr>)\<rparr>) w)"
  using hash_write_gpdma[OF assms(2), of "ocs_hash_host host" "ocs_with host (h\<lparr>hash_gpdma := st\<rparr>) w" v]
    assms(3) ocs_with_simps[OF assms(1)]
  by (simp add: Let_def)

text \<open>The writes before the GO bit leave the unit initialised and the engine set up.\<close>

lemma hash_memory_setup:
  assumes laws: "ocs_laws host" and room: "frame_room (ocs_frame host)" and at: "ocs_at base (ocs_config (ocs_get host w))"
    and hm: "hm = (ocs_hash_unit (ocs_get host w))\<lparr>hash_mode := 0x20000, hash_stateptr := 0\<rparr>"
    and idle: "\<not> bit (control (hash_gpdma (hash_round_init hm))) 31"
  shows "ocs_program host base (hash_memory src n) w = ocs_program host base [(0x410, BIT 31), (0x008, 2)]
    (ocs_with host ((hash_round_init hm)\<lparr>hash_gpdma := (hash_gpdma (hash_round_init hm))
      \<lparr>src_addr := src, dst_addr := 0, src_size := n, dst_size := 0\<rparr>\<rparr>) w)"
proof -
  note ow = ocs_with_simps[OF laws]
  let ?h = "hash_round_init hm"
  define g where "g = hash_gpdma ?h"
  have start: "do_command ?h 1 = ?h"
    using hash_start[of hm] by (simp add: hm HASH_CMD_START_DATA_def HASH_MODE_HMAC_def)
  have same: "?h\<lparr>hash_gpdma := g\<rparr> = ?h" by (simp add: g_def)
  note step = hash_memory_step[OF at]
  have "ocs_program host base (hash_memory src n) w =
      ocs_program host base (drop 2 (hash_memory src n)) (ocs_with host (?h\<lparr>hash_gpdma := g\<rparr>) w)"
    unfolding hash_memory_def same
    by (subst step, simp_all add: hash_write_mode ow hm[symmetric])
      (subst step, simp_all add: hash_write_cmd ow start room)
  also have "\<dots> = ocs_program host base (drop 6 (hash_memory src n)) (ocs_with host (?h\<lparr>hash_gpdma :=
      g\<lparr>src_addr := src, dst_addr := 0, src_size := n, dst_size := 0\<rparr>\<rparr>) w)"
    unfolding hash_memory_def using idle[folded g_def]
    by simp ((subst step, simp_all add: hash_write_gpdma_with[OF laws] ow)+)
  finally show ?thesis by (simp add: hash_memory_def g_def)
qed


text \<open>A device at \<open>0x10000\<close> on a bus with a memory that answers every read.\<close>

definition ram_func :: "(u32 \<Rightarrow> u8) \<Rightarrow> 'w pci_func" where
  "ram_func mem = \<lparr>func_bdf = 0, cfg_read = (\<lambda>addr buf n w. Inr (-1, buf, w)), cfg_write = (\<lambda>addr buf n w. Inr (-1, w)),
     mem_read = (\<lambda>addr buf n sai lat w. Inr (0, mem_range mem (ucast addr) (nat n) @ drop (nat n) buf, w)),
     mem_write = (\<lambda>addr buf n sai lat w. Inr (-1, w))\<rparr>"

definition ram_host :: "(u32 \<Rightarrow> u8) \<Rightarrow> (ocs_inst \<times> bytes) ocs_host" where
  "ram_host mem = \<lparr>ocs_frame = low_frame, ocs_get = fst, ocs_put = (\<lambda>i w. (i, snd w)), ocs_buf_get = snd, ocs_buf_put = (\<lambda>b w. (fst w, b)),
     ocs_bus = \<lparr>bus_name = ''prim'', bus_funcs = [ram_func mem], bus_num = 0\<rparr>\<rparr>"

definition ram_ocs :: ocs_inst where
  "ram_ocs = \<lparr>ocs_bdf = 0, ocs_config = put_field 16 4 (0x10000 :: u32) (put_field 4 2 (2 :: u16) (replicate 0x1000 0)),
     ocs_sks = sks_zero, ocs_hash_unit = hash_zero, ocs_aes_unit = aes_init, ocs_sai = 1\<rparr>"

lemma ram_serves: "ocs_serves (ram_host mem) mem"
proof -
  have n: "nat 15 = Suc 14" by simp
  have u: "(ucast (ucast a :: u64) :: u32) = a" for a :: u32 by (rule bit_word_eqI) (auto simp: bit_simps)
  have "pci_bus_mem_read (ocs_bus (ram_host mem)) (ucast a) b (int k) sai 15 w =
      Inr (0, mem_range mem a k @ drop k b, w)" for a b k sai w
    unfolding pci_bus_mem_read_def n mem_read_lats.simps by (simp add: ram_host_def ram_func_def u)
  then show ?thesis by (simp add: ocs_serves_def ocs_dma_read_def)
qed


end
