(* ===== verification/OcsState.thy ===== *)
theory OcsState
  imports Ocs
begin

text \<open>
  What every access keeps of the offload and crypto subsystem (\<open>periph/ocs/\<close>), and where an
  access can fail at all. The arrays of the units keep their sizes, the read pointer of the
  digest stays inside it, and between two accesses no unit has a command pending.
\<close>

lemma uint_fits: "\<not> int k < uint x + int n \<Longrightarrow> unat x + n \<le> k"
  unfolding uint_nat by linarith

section \<open>The engine in a host that keeps an invariant\<close>

text \<open>
  The engine's registers have no GO bit set, \<open>ok\<close> is kept by the callbacks, and a fault
  comes from a callback: then a transaction, started by any write of the registers, ends
  with \<open>ok\<close> again or with that fault.
\<close>

definition dma_idle :: "gpdma_state \<Rightarrow> bool" where
  "dma_idle st \<longleftrightarrow> \<not> bit (control st) 31"

locale dma_keeps =
  fixes ops :: "'w dma_ops"
    and ok :: "'w \<Rightarrow> bool"
    and bad :: "fault \<Rightarrow> bool"
  assumes buf_length: "ok w \<Longrightarrow> length (buf_get ops w) = 64"
    and bus_read_ok: "ok w \<Longrightarrow> length b = 64 \<Longrightarrow> n \<le> 64 \<Longrightarrow>
      res_holds bad (\<lambda>(b', w'). length b' = 64 \<and> ok w') (bus_read ops a b n w)"
    and bus_write_ok: "ok w \<Longrightarrow> length b = 64 \<Longrightarrow> n \<le> 64 \<Longrightarrow>
      res_holds bad (\<lambda>(b', w'). length b' = 64 \<and> ok w') (bus_write ops a b n w)"
    and int_read_ok: "ok w \<Longrightarrow> length b = 64 \<Longrightarrow> n \<le> 64 \<Longrightarrow>
      res_holds bad (\<lambda>(b', w'). length b' = 64 \<and> ok w') (int_read ops b n w)"
    and int_write_ok: "ok w \<Longrightarrow> length b = 64 \<Longrightarrow> n \<le> 64 \<Longrightarrow> res_holds bad ok (int_write ops b n w)"
    and buf_put_ok: "ok w \<Longrightarrow> length b = 64 \<Longrightarrow> ok (buf_put ops b w)"
    and dma_put_ok: "ok w \<Longrightarrow> dma_idle st \<Longrightarrow> ok (dma_put ops st w)"
    and dma_get_put: "ok w \<Longrightarrow> dma_get ops (dma_put ops st w) = st"
    and dma_put_put: "ok w \<Longrightarrow> dma_put ops st' (dma_put ops st w) = dma_put ops st' w"
begin

lemma turn_ok:
  assumes "ok w" and "n \<le> 64"
  shows "res_holds bad ok (gpdma_turn ops pos n w)"
proof -
  have drain: "res_holds bad ok (if dst_addr (dma_get ops w') \<noteq> 0
      then rbind (bus_write ops (dst_addr (dma_get ops w') + pos) (buf_get ops w') n w') (\<lambda>(b, w). Inr (buf_put ops b w))
      else int_write ops (buf_get ops w') n w')" if "ok w'" for w'
    using res_holds_mono[OF bus_write_ok[OF that buf_length[OF that] assms(2)]]
      int_write_ok[OF that buf_length[OF that] assms(2)]
    by (simp add: case_prod_beta buf_put_ok)
  have fill: "res_holds bad (\<lambda>(b', w'). length b' = 64 \<and> ok w')
      (if src_addr (dma_get ops w) \<noteq> 0
       then bus_read ops (src_addr (dma_get ops w) + pos) (buf_get ops w) n w else int_read ops (buf_get ops w) n w)"
    using bus_read_ok int_read_ok assms buf_length by simp
  show ?thesis
    unfolding gpdma_turn_def res_holds_rbind
    by (rule res_holds_mono[OF fill]) (auto simp: Let_def simp del: res_holds_rbind intro!: drain buf_put_ok)
qed

lemma loop_ok: "ok w \<Longrightarrow> res_holds bad ok (gpdma_loop ops pos count w)"
proof (induction "unat count" arbitrary: pos count w rule: less_induct)
  case less
  show ?case
  proof (cases "count = 0")
    case True
    then show ?thesis using less.prems by (simp add: gpdma_loop.simps)
  next
    case False
    define n where "n = (if 64 < count then 64 else count)"
    have n: "0 < n" "n \<le> count" "n \<le> 64" using False by (auto simp: n_def word_neq_0_conv not_less)
    then have "unat n \<le> 64" by (simp add: word_le_nat_alt)
    from turn_ok[OF less.prems this, of pos]
    have "res_holds bad (\<lambda>w. res_holds bad ok (gpdma_loop ops (pos + n) (count - n) w)) (gpdma_turn ops pos (unat n) w)"
      by (rule res_holds_mono) (auto intro: less.hyps[OF unat_sub_less[OF n(1,2)]])
    then show ?thesis using False by (simp add: gpdma_loop.simps[of ops pos count] Let_def n_def)
  qed
qed

lemma transaction_ok:
  assumes "ok w"
  shows "res_holds bad ok (gpdma_run_transaction ops (dma_put ops st w))"
proof (cases "bit (control st) 31")
  case True
  have "dma_idle (st\<lparr>control := control st AND NOT (BIT 31)\<rparr>)" by (simp add: dma_idle_def bit_simps)
  from loop_ok[OF dma_put_ok[OF assms this]] show ?thesis
    using True assms by (simp add: gpdma_run_transaction_def dma_get_put dma_put_put Let_def)
next
  case False
  then show ?thesis
    using assms by (simp add: gpdma_run_transaction_idle dma_get_put dma_put_ok dma_idle_def)
qed

lemma gpdma_write_ok:
  assumes "ok w" and "count = int (length buf)"
  shows "res_holds bad (\<lambda>(s, w). ok w) (gpdma_write ops addr buf count w)"
  using assms by (simp add: gpdma_write_def Let_def transaction_ok case_prod_beta)

text \<open>A write that leaves the GO bit clear runs nothing, so it never faults.\<close>

lemma gpdma_write_quiet:
  assumes "ok w" and "count = int (length buf)" and "dma_idle (dma_get ops w)"
    and "\<not> (addr = GPDMA_REG_CONTROL \<and> 4 \<le> length buf \<and> bit (le_word (take 4 buf) :: u32) 31)"
  shows "\<exists>s w'. gpdma_write ops addr buf count w = Inr (s, w') \<and> ok w'"
  using assms
  by (auto simp: gpdma_write_def Let_def ld32_def gpdma_run_transaction_idle dma_get_put dma_idle_def
      intro!: dma_put_ok)

end

section \<open>The hash unit\<close>

definition unit_ok :: "ocs_hash \<Rightarrow> bool" where
  "unit_ok h \<longleftrightarrow> hash_wf h \<and> 0 \<le> hash_stateptr h \<and> hash_stateptr h \<le> 32 \<and> dma_idle (hash_gpdma h)"

lemma unit_ok_same: "same_setup h h' \<Longrightarrow> unit_ok h \<Longrightarrow> unit_ok h'"
  by (auto simp: unit_ok_def same_setup_def hash_wf_def)

lemma unit_ok_wf [dest]: "unit_ok h \<Longrightarrow> hash_wf h"
  by (simp add: unit_ok_def)

lemma unit_ok_update [simp]:
  "unit_ok (h\<lparr>hash_mode := v\<rparr>) = unit_ok h"
  "unit_ok (h\<lparr>hash_count := c\<rparr>) = unit_ok h"
  "unit_ok (h\<lparr>hash_status1 := v\<rparr>) = unit_ok h"
  "unit_ok (h\<lparr>hash_status2 := v\<rparr>) = unit_ok h"
  by (simp_all add: unit_ok_def hash_wf_def)

lemma unit_ok_arrays:
  assumes "unit_ok h"
  shows "length b = 64 \<Longrightarrow> unit_ok (h\<lparr>hash_buffer := b\<rparr>)"
    and "length b = 64 \<Longrightarrow> unit_ok (h\<lparr>hash_hmac_temp := b\<rparr>)"
    and "length b = 64 \<Longrightarrow> unit_ok (h\<lparr>hash_key := b\<rparr>)"
    and "0 \<le> p \<Longrightarrow> p \<le> 32 \<Longrightarrow> unit_ok (h\<lparr>hash_stateptr := p\<rparr>)"
    and "length d = 32 \<Longrightarrow> 0 \<le> p \<Longrightarrow> p \<le> 32 \<Longrightarrow> unit_ok (h\<lparr>hash_state := d, hash_stateptr := p\<rparr>)"
    and "dma_idle st \<Longrightarrow> unit_ok (h\<lparr>hash_gpdma := st\<rparr>)"
  using assms by (simp_all add: unit_ok_def hash_wf_def)

lemma unit_ok_lengths:
  assumes "unit_ok h"
  shows "length (hash_key h) = 64" "length (hash_buffer h) = 64" "length (hash_state h) = 32"
    "length (hash_hmac_temp h) = 64"
  using assms by (simp_all add: unit_ok_def hash_wf_def)

lemma unit_ok_process: "unit_ok h \<Longrightarrow> unit_ok (round_process h)"
  by (rule unit_ok_same[OF same_setup_process])

lemma unit_ok_init: "unit_ok h \<Longrightarrow> unit_ok (hash_round_init h)"
  by (simp add: unit_ok_def hash_round_init_def Let_def hash_wf_def sha256_init_bytes_def)

lemma unit_ok_pad: "unit_ok h \<Longrightarrow> unit_ok (pad_unit h)"
  by (rule unit_ok_same[OF same_setup_pad]) auto

lemma length_hash_xor_key [simp]: "length (hash_xor_key p h) = 64"
  by (simp add: hash_xor_key_def)

lemma unit_ok_hmac_outer: "unit_ok h \<Longrightarrow> unit_ok (hmac_outer h)"
  unfolding hmac_outer_def Let_def unit_ok_update
  by (intro unit_ok_arrays(1,2) unit_ok_process unit_ok_init)
    (simp_all add: unit_ok_arrays unit_ok_process unit_ok_init unit_ok_lengths)

lemma hash_round_finish_eq:
  "round_finish h False =
    (let g = pad_unit h;
         g' = (if tst (hash_mode g) HASH_MODE_HMAC
               then (pad_unit (hmac_outer g))\<lparr>hash_status1 := hash_status1 (pad_unit (hmac_outer g)) OR 4\<rparr> else g)
     in g'\<lparr>hash_status1 := hash_status1 g' OR 4\<rparr>)"
  by (simp add: round_finish.simps[of h False] hash_round_finish_plain hmac_outer_def Let_def)

lemma unit_ok_command: "unit_ok h \<Longrightarrow> unit_ok (do_command h v)"
  by (simp add: do_command_def Let_def hmac_round1_def hash_round_finish_eq unit_ok_process
      unit_ok_arrays unit_ok_pad unit_ok_hmac_outer)

lemma unit_ok_dma_write: "unit_ok h \<Longrightarrow> unit_ok (dma_take h bs)"
  by (rule unit_ok_same[OF same_setup_dma_write]) auto

text \<open>A round faults where its stack frame has no room, so this is the only fault of the unit's operations.\<close>

definition no_room :: "sha_frame \<Rightarrow> fault \<Rightarrow> bool" where
  "no_room fr e \<longleftrightarrow> e = OutOfBounds \<and> \<not> frame_room fr"

lemma round_ends_holds: "round_ends fr m x \<Longrightarrow> P x \<Longrightarrow> res_holds (no_room fr) P m"
  by (auto simp: round_ends_def no_room_def)

lemma hash_dma_write_short:
  assumes "unat (hash_count h AND 63) + length bs < 64"
  shows "hash_dma_write fr h bs = Inr (dma_take h bs)"
proof (cases "bs = []")
  case False
  have "unat ((hash_count h + of_nat (length bs)) AND 63) = unat (hash_count h AND 63) + length bs"
    using assms by (simp add: position_add)
  then have "(hash_count h + of_nat (length bs)) AND 63 \<noteq> 0" using False by auto
  then show ?thesis
    using assms False
    by (simp add: hash_dma_write.simps[of fr h bs] dma_take.simps[of h bs] hash_dma_write.simps[of _ _ "[]"]
        dma_take.simps[of _ "[]"] Let_def)
qed (simp add: hash_dma_write.simps dma_take.simps)

text \<open>The writes to the unit that hash a block: data that fills the buffer, the flush command,
  and the start command of an HMAC.\<close>

definition hash_rounds :: "ocs_hash \<Rightarrow> int \<Rightarrow> bytes \<Rightarrow> bool" where
  "hash_rounds h addr buf \<longleftrightarrow>
     addr = HASH_REG_DATA \<and> 64 \<le> unat (hash_count h AND 63) + length buf \<or>
     addr = HASH_REG_CMD \<and> 4 \<le> length buf \<and>
       (le_word (take 4 buf) = HASH_CMD_FLUSH_DATA \<or>
        le_word (take 4 buf) = HASH_CMD_START_DATA \<and> tst (hash_mode h) HASH_MODE_HMAC)"

lemma hash_dma_write_holds:
  assumes "unit_ok h"
  shows "res_holds (\<lambda>e. no_room fr e \<and> 64 \<le> unat (hash_count h AND 63) + length bs) unit_ok (hash_dma_write fr h bs)"
proof (cases "unat (hash_count h AND 63) + length bs < 64")
  case True
  then show ?thesis by (simp add: hash_dma_write_short unit_ok_dma_write assms)
next
  case False
  show ?thesis
    by (rule res_holds_mono[OF round_ends_holds[OF hash_dma_write_ends, where P = unit_ok]])
      (use False unit_ok_dma_write[OF assms] in auto)
qed

lemma hash_do_command_holds:
  assumes "unit_ok h"
  shows "res_holds (\<lambda>e. no_room fr e \<and> (v = HASH_CMD_FLUSH_DATA \<or> v = HASH_CMD_START_DATA \<and> tst (hash_mode h) HASH_MODE_HMAC))
    unit_ok (hash_do_command fr h v)"
proof (cases "v = HASH_CMD_FLUSH_DATA \<or> v = HASH_CMD_START_DATA \<and> tst (hash_mode h) HASH_MODE_HMAC")
  case True
  show ?thesis
    by (rule res_holds_mono[OF round_ends_holds[OF hash_do_command_ends, where P = unit_ok]])
      (use True unit_ok_command[OF assms] in auto)
next
  case False
  then show ?thesis using assms by (simp add: hash_do_command_def)
qed

text \<open>Reads of the unit: never a fault.\<close>

lemma gpdma_read_holds:
  "count \<le> int (length buf) \<Longrightarrow> res_holds (\<lambda>e. False) (\<lambda>(s, out). length out = length buf) (gpdma_read st addr buf count)"
  by (simp add: gpdma_read_def)

lemma hash_read_holds:
  assumes "unit_ok h" and "count \<le> int (length buf)"
  shows "res_holds (\<lambda>e. False) (\<lambda>(s, h', out). unit_ok h' \<and> length out = length buf) (hash_read h addr buf count)"
proof -
  have "0 \<le> hash_stateptr h" using assms(1) by (simp add: unit_ok_def)
  then show ?thesis
    using assms unit_ok_lengths(3)[OF assms(1)] res_holds_mono[OF gpdma_read_holds[OF assms(2)]]
    by (auto simp: hash_read_def unit_ok_arrays case_prod_beta)
qed

section \<open>The key store\<close>

definition store_ok :: "sks_inst \<Rightarrow> bool" where
  "store_ok sks \<longleftrightarrow> sks_wf sks \<and> \<not> bit (sks_command sks) 31 \<and> \<not> bit (sks_status sks) 0"

lemma sks_set_valid_simps [simp]:
  "sks_command (sks_set_valid s) = sks_command s" "sks_status (sks_set_valid s) = sks_status s"
  by (simp_all add: sks_set_valid_def Let_def)

lemma sks_produce_holds:
  assumes wf: "sks_wf s" and slot: "unat (sks_slot s) < 22" and h: "hash_wf h"
  shows "res_holds (\<lambda>e. False) (\<lambda>r. \<forall>u. r = Some u \<longrightarrow> sks_wf u \<and> sks_command u = sks_command s)
    (sks_produce (slot_size (unat (sks_slot s))) s h)"
proof -
  let ?n = "slot_size (unat (sks_slot s))" and ?off = "slot_off (unat (sks_slot s))"
  have len: "length (sks_keystore s) = 528" "length (sks_databuf s) = 32" "length (hash_state h) = 32"
    using wf h by (simp_all add: sks_wf_def hash_wf_def)
  have n: "?n \<le> 32" "?off + ?n \<le> 528" using slot_bounds[OF slot] by (simp_all add: slot_size_def)
  obtain k where k: "sks_key_of s = Inr k" "key_data k = ?off" using sks_key_of_wf[OF wf slot] by auto
  have store: "sks_wf (sks_set_valid (s\<lparr>sks_keystore := blit ?off x (sks_keystore s), sks_databuf := d\<rparr>))"
    if "length x = ?n" "length d = 32" for x d
    using n len that slot by (intro sks_set_valid_wf sks_wf_update wf) simp_all
  have upd: "s\<lparr>sks_keystore := x\<rparr> = s\<lparr>sks_keystore := x, sks_databuf := sks_databuf s\<rparr>" for x by simp
  show ?thesis
    using k n len store[of "take ?n (sks_databuf s)" "replicate 32 0"] store[of "take ?n (hash_state h)" "sks_databuf s"]
    by (simp add: sks_produce_def Let_def aes_get_result_def hash_get_result_def)
qed

lemma hash_load_key_ok: "unit_ok h \<Longrightarrow> length k = n \<Longrightarrow> n \<le> 64 \<Longrightarrow> unit_ok (hash_load_key h k n)"
  by (simp add: hash_load_key_def Let_def unit_ok_arrays unit_ok_lengths)

lemma sks_consume_holds:
  assumes wf: "sks_wf s" and slot: "unat (sks_slot s) < 22" and h: "unit_ok h"
  shows "res_holds (\<lambda>e. False) unit_ok (sks_consume (slot_size (unat (sks_slot s))) s h)"
proof -
  have "slot_size (unat (sks_slot s)) \<le> 64" "slot_off (unat (sks_slot s)) + slot_size (unat (sks_slot s)) \<le> 528"
    using slot_bounds[OF slot] by (simp_all add: slot_size_def)
  then show ?thesis
    using sks_key_of_wf[OF wf slot] wf h by (auto simp: sks_consume_def Let_def sks_wf_def hash_load_key_ok)
qed

text \<open>Only slot 22 faults, and only with the GO bit set; an operation is over when it returns.\<close>

lemma sks_do_operation_holds:
  assumes wf: "sks_wf s" and h: "unit_ok h" and busy: "\<not> bit (sks_status s) 0"
  shows "res_holds (\<lambda>e. sks_slot s = 22 \<and> bit (sks_command s) 31) (\<lambda>(s, h). store_ok s \<and> unit_ok h)
    (sks_do_operation s h)"
proof -
  define t where "t = s\<lparr>sks_command := sks_command s AND NOT SKS_CMD_ALWAYS_SET,
                 sks_status := sks_status s OR SKS_STS_BUSY\<rparr>"
  have t: "sks_wf t" "sks_slot t = sks_slot s" "\<not> bit (sks_command t) 31"
    using wf by (simp_all add: t_def sks_wf_def SKS_CMD_ALWAYS_SET_def bit_simps)
  have fin: "store_ok (sks_done u)" "store_ok (sks_err u)" if "sks_wf u" "\<not> bit (sks_command u) 31" for u
    using that by (simp_all add: store_ok_def sks_wf_def sks_done_def sks_err_def SKS_STS_BUSY_def SKS_STS_ERRR_def bit_simps)
  have "unat (sks_slot s) < 22 \<or> sks_slot s = 22 \<or> sks_slot s > 22"
    using less_linear[of "unat (sks_slot s)" 22] by (simp add: word_less_nat_alt word_unat_eq_iff)
  then consider "\<not> bit (sks_command s) 31" | "bit (sks_command s) 31" "unat (sks_slot s) < 22"
    | "bit (sks_command s) 31" "sks_slot s = 22" | "bit (sks_command s) 31" "sks_slot s > 22"
    by blast
  then show ?thesis
  proof cases
    case 1
    then show ?thesis using wf h busy by (simp add: sks_do_operation_def SKS_CMD_ALWAYS_SET_def store_ok_def)
  next
    case 2
    have "unat (sks_slot t) < 22" using 2(2) t(2) by simp
    note p = sks_produce_holds[OF t(1) this unit_ok_wf[OF h]] and c = sks_consume_holds[OF t(1) this h]
    show ?thesis
      unfolding sks_do_operation_go[OF 2 t_def]
      using res_holds_mono[OF p] res_holds_mono[OF c] t h fin
      by (simp split: option.splits)
  next
    case 3
    moreover have "\<not> ntst (sks_command s) SKS_CMD_ALWAYS_SET" using 3 by (simp add: SKS_CMD_ALWAYS_SET_def)
    ultimately show ?thesis
      using t(1,3) h fin sks_wf_keys(1)[OF wf]
      unfolding sks_do_operation_def sks_produce_def sks_consume_def sks_key_of_def Let_def t_def
      by simp
  next
    case 4
    then show ?thesis
      using fin(2)[OF t(1,3)] h unfolding t_def
      by (simp add: sks_do_operation_def SKS_CMD_ALWAYS_SET_def Let_def)
  qed
qed

lemma sks_write_reg_holds:
  assumes ok: "store_ok s" and "4 \<le> length buf"
  shows "res_holds (\<lambda>e. False) (\<lambda>u. sks_wf u \<and> \<not> bit (sks_status u) 0 \<and>
      (sks_slot u = 22 \<and> bit (sks_command u) 31 \<longrightarrow>
       sks_slot s = 22 \<and> addr = SKS_REG_COMMAND \<and> bit (le_word (take 4 buf) :: u32) 31)) (sks_write_reg addr buf s)"
proof -
  have wf: "sks_wf s" using ok by (simp add: store_ok_def)
  have atr: "unat ((addr - SKS_REG_ATR1 0) div 4) < 22" if "SKS_REG_ATR1 0 \<le> addr" "addr < SKS_REG_ATR1 22"
    using that by (simp add: sks_regs unat_div unat_sub word_le_nat_alt word_less_nat_alt)
  have "map key_data ((sks_keys s)[i := (sks_keys s ! i)\<lparr>key_atr1 := v\<rparr>]) = map slot_off [0..<22]" if "i < 22" for i v
    using wf that sks_wf_keys(1)[OF wf] by (simp add: map_key_data_update sks_wf_def)
  then show ?thesis
    using assms atr by (simp add: sks_write_reg_def Let_def store_ok_def sks_wf_def bit_simps)
qed

lemma sks_write_holds:
  assumes ok: "store_ok s" and h: "unit_ok h" and "count = int (length buf)"
  shows "res_holds
    (\<lambda>e. sks_slot s = 22 \<and> addr = SKS_REG_COMMAND \<and> 4 \<le> length buf \<and> bit (le_word (take 4 buf) :: u32) 31 \<or>
      SKS_REG_DATA 0 \<le> addr \<and> addr < SKS_REG_DATA 32 \<and> length buf < 4)
    (\<lambda>(r, s, h). store_ok s \<and> unit_ok h) (sks_write s h addr buf count)"
proof -
  define F where "F \<longleftrightarrow> sks_slot s = 22 \<and> addr = SKS_REG_COMMAND \<and> 4 \<le> length buf \<and> bit (le_word (take 4 buf) :: u32) 31 \<or>
      SKS_REG_DATA 0 \<le> addr \<and> addr < SKS_REG_DATA 32 \<and> length buf < 4"
  have op: "res_holds (\<lambda>e. F) (\<lambda>(r :: int, s, h). store_ok s \<and> unit_ok h)
      (rbind (sks_do_operation u h) (\<lambda>(s, h). Inr (1, s, h)))"
    if "sks_wf u" "\<not> bit (sks_status u) 0" "sks_slot u = 22 \<and> bit (sks_command u) 31 \<longrightarrow> F" for u
    using res_holds_mono[OF sks_do_operation_holds[OF that(1) h that(2)], where E' = "\<lambda>e. F"] that(3)
    by (simp add: case_prod_beta)
  have data: "res_holds (\<lambda>e. F) (\<lambda>(r :: int, s, h). store_ok s \<and> unit_ok h)
      (rbind (sks_do_operation (s\<lparr>sks_databuf := d\<rparr>) h) (\<lambda>(s, h). Inr (1, s, h)))" if "length d = 32" for d
    using ok that by (intro op) (simp_all add: store_ok_def sks_wf_def)
  have reg: "res_holds (\<lambda>e. F) (\<lambda>(r :: int, s, h). store_ok s \<and> unit_ok h)
      (rbind (sks_write_reg addr buf s) (\<lambda>u. rbind (sks_do_operation u h) (\<lambda>(s, h). Inr (1, s, h))))"
    if "length buf = 4"
    unfolding res_holds_rbind[of _ _ "sks_write_reg addr buf s"]
  proof (rule res_holds_mono[OF sks_write_reg_holds[OF ok, of buf addr]], goal_cases)
    case (3 u)
    then show ?case using that by (intro op) (auto simp: F_def)
  qed (simp_all add: that)
  have l: "length (sks_databuf s) = 32" using ok by (simp add: store_ok_def sks_wf_def)
  have copy: "memcpy (unat x) (length buf) buf (sks_databuf s) = Inr (blit (unat x) buf (sks_databuf s)) \<and>
      length (blit (unat x) buf (sks_databuf s)) = 32" if "\<not> 32 < uint x + int (length buf)" for x :: u32
    using uint_fits[of 32 x "length buf"] that l by (simp add: memcpy_Inr)
  show ?thesis
  proof (cases "SKS_REG_DATA 0 \<le> addr \<and> addr < SKS_REG_DATA 32")
    case True
    define x where "x = addr - SKS_REG_DATA 0"
    have w: "sks_write s h addr buf count = (if 32 < uint x + int (length buf) then Inr (1, s, h)
        else rbind (memcpy (unat x) (length buf) buf (sks_databuf s)) (\<lambda>d.
          rbind (sks_write_reg addr buf (s\<lparr>sks_databuf := d\<rparr>)) (\<lambda>s.
          rbind (sks_do_operation s h) (\<lambda>(s, h). Inr (1, s, h)))))"
      unfolding sks_write_def Let_def assms(3) x_def if_P[OF True]
      by (simp only: of_nat_less_0_iff simp_thms nat_int unat_eq_nat_uint)
    have area: "sks_write_reg addr buf u = rbind (ld32 buf) (\<lambda>v. Inr u)" for u
      using True by (auto simp: sks_write_reg_def sks_regs)
    show ?thesis
    proof (cases "4 \<le> length buf")
      case True
      show ?thesis
        using copy[of x] ok h True unfolding F_def[symmetric] w area
        by (cases "32 < uint x + int (length buf)") (simp_all add: ld32_def data del: res_holds_rbind)
    next
      case short: False
      show ?thesis
        using copy[of x] ok h True short unfolding w area
        by (cases "32 < uint x + int (length buf)") (simp_all add: ld32_def)
    qed
  next
    case False
    have "sks_write s h addr buf count = (if length buf \<noteq> 4 \<or> addr AND 3 \<noteq> 0 then Inr (1, s, h)
        else rbind (sks_write_reg addr buf s) (\<lambda>s. rbind (sks_do_operation s h) (\<lambda>(s, h). Inr (1, s, h))))"
      unfolding sks_write_def Let_def assms(3) if_not_P[OF False] by simp
    then show ?thesis
      using reg ok h unfolding F_def[symmetric] by (simp del: res_holds_rbind)
  qed
qed

lemma sks_read_holds:
  assumes "count \<le> int (length buf)"
  shows "res_holds (\<lambda>e. False) (\<lambda>(s, out). length out = length buf) (sks_read sks addr buf count)"
  using assms by (simp add: sks_read_def)

section \<open>The device\<close>

definition ocs_ok :: "'w ocs_host \<Rightarrow> 'w \<Rightarrow> bool" where
  "ocs_ok host w \<longleftrightarrow> unit_ok (ocs_hash_unit (ocs_get host w)) \<and> store_ok (ocs_sks (ocs_get host w)) \<and>
     length (ocs_config (ocs_get host w)) = 0x1000 \<and> length (ocs_buf_get host w) = 64"

text \<open>
  The functions of the bus, when the engine reads through them, give back a buffer of the
  size they were given and keep the device well formed, as the device itself does.
\<close>

definition ocs_bus_keeps :: "'w ocs_host \<Rightarrow> bool" where
  "ocs_bus_keeps host \<longleftrightarrow> (\<forall>func \<in> set (bus_funcs (ocs_bus host)). \<forall>addr b count sai lat w.
     ocs_ok host w \<longrightarrow> length b = 64 \<longrightarrow> 0 \<le> count \<longrightarrow> count \<le> 64 \<longrightarrow>
     res_holds (\<lambda>e. True) (\<lambda>(s, b', w'). length b' = 64 \<and> ocs_ok host w') (mem_read func addr b count sai lat w))"

text \<open>A fault that a function of the bus raises when the engine reads, and a fault of a
  transfer: one of these, or one of a round of the hash unit.\<close>

definition ocs_bus_faults :: "'w ocs_host \<Rightarrow> fault \<Rightarrow> bool" where
  "ocs_bus_faults host e \<longleftrightarrow> (\<exists>addr b n w. ocs_ok host w \<and> length b = 64 \<and> n \<le> 64 \<and>
     ocs_dma_read host addr b n w = Inl e)"

definition ocs_dma_faults :: "'w ocs_host \<Rightarrow> fault \<Rightarrow> bool" where
  "ocs_dma_faults host e \<longleftrightarrow> ocs_bus_faults host e \<or> no_room (ocs_frame host) e"

lemma bus_read_keeps:
  assumes "\<And>func addr b sai lat w. func \<in> set funcs \<Longrightarrow> P w \<Longrightarrow> length b = 64 \<Longrightarrow>
      res_holds (\<lambda>e. True) (\<lambda>(s, b', w'). length b' = 64 \<and> P w') (mem_read func addr b count sai lat w)"
    and "P w" and "length b = 64"
  shows "res_holds (\<lambda>e. True) (\<lambda>(s, b', w'). length b' = 64 \<and> P w') (mem_read_lats k funcs addr b count sai lat w)"
proof -
  have funcs: "res_holds (\<lambda>e. True) (\<lambda>(s, b', w'). length b' = 64 \<and> P w') (mem_read_funcs fs addr b count sai lat w)"
    if "set fs \<subseteq> set funcs" "P w" "length b = 64" for fs b lat w
    using that
  proof (induction fs arbitrary: b w)
    case (Cons f fs)
    have "res_holds (\<lambda>e. True) (\<lambda>(s, b', w'). length b' = 64 \<and> P w') (mem_read f addr b count sai lat w)"
      using Cons.prems by (intro assms(1)) auto
    then show ?case
      by simp
        (rule res_holds_mono, assumption, use Cons in auto)
  qed simp
  show ?thesis
    using assms(2,3)
  proof (induction k arbitrary: b lat w)
    case (Suc k)
    from funcs[OF subset_refl Suc.prems, of lat] show ?case
      by simp (rule res_holds_mono, assumption, use Suc.IH in auto)
  qed simp
qed

definition ocs_inv :: "'w ocs_host \<Rightarrow> 'w \<Rightarrow> bool" where
  "ocs_inv host w \<longleftrightarrow> ocs_laws host \<and> ocs_bus_keeps host \<and> ocs_ok host w"

lemma ocs_dma_read_keeps:
  assumes "ocs_inv host w" and "length b = 64" and "n \<le> 64"
  shows "res_holds (ocs_bus_faults host) (\<lambda>(b', w'). length b' = 64 \<and> ocs_inv host w') (ocs_dma_read host a b n w)"
proof -
  have "res_holds (\<lambda>e. True) (\<lambda>(s, b', w'). length b' = 64 \<and> ocs_ok host w')
      (pci_bus_mem_read (ocs_bus host) (ucast a) b (int n) sai 15 w)" for sai
    unfolding pci_bus_mem_read_def
    using assms by (intro bus_read_keeps) (auto simp: ocs_inv_def ocs_bus_keeps_def)
  from this[of "sint (ocs_sai (ocs_get host w))"]
  have "res_holds (\<lambda>e. True) (\<lambda>(b', w'). length b' = 64 \<and> ocs_ok host w') (ocs_dma_read host a b n w)"
    unfolding ocs_dma_read_def res_holds_rbind by (rule res_holds_mono) auto
  then show ?thesis
    using assms by (cases "ocs_dma_read host a b n w") (auto simp: ocs_inv_def ocs_bus_faults_def)
qed

lemma ocs_dma_write_is_read: "ocs_dma_write host = ocs_dma_read host"
  by (intro ext) (simp add: ocs_dma_write_def ocs_dma_read_def)

lemma ocs_inv_hash: "ocs_inv host w \<Longrightarrow> unit_ok h \<Longrightarrow> ocs_inv host (hh_put (ocs_hash_host host) h w)"
  by (simp add: ocs_inv_def ocs_ok_def ocs_hash_host_def ocs_laws_simps)

lemma ocs_inv_unit: "ocs_inv host w \<Longrightarrow> unit_ok (ocs_hash_unit (ocs_get host w))"
  by (simp add: ocs_inv_def ocs_ok_def)

interpretation ocs_engine: dma_keeps "hash_dma_ops (ocs_hash_host host)" "ocs_inv host" "ocs_dma_faults host"
  for host
proof (unfold_locales, goal_cases)
  case (2 w b n a)
  from res_holds_mono[OF ocs_dma_read_keeps[OF this]] show ?case
    by (simp add: hash_dma_ops_def ocs_hash_host_def ocs_dma_faults_def case_prod_unfold)
next
  case (3 w b n a)
  from res_holds_mono[OF ocs_dma_read_keeps[OF this]] show ?case
    by (simp add: hash_dma_ops_def ocs_hash_host_def ocs_dma_write_is_read ocs_dma_faults_def case_prod_unfold)
next
  case (5 w b n)
  have "res_holds (ocs_dma_faults host) (\<lambda>h. ocs_inv host (hh_put (ocs_hash_host host) h w))
      (hash_dma_write (ocs_frame host) (ocs_hash_unit (ocs_get host w)) (take n b))"
    using res_holds_mono[OF hash_dma_write_holds[OF ocs_inv_unit[OF 5(1)]]] ocs_inv_hash[OF 5(1)]
    by (simp add: ocs_dma_faults_def)
  then show ?case using 5(2,3) by (simp add: hash_dma_ops_def ocs_hash_host_def)
qed (auto simp: hash_dma_ops_def ocs_hash_host_def ocs_inv_def ocs_ok_def ocs_laws_simps unit_ok_arrays)

section \<open>Accesses\<close>

text \<open>Register accesses of the hash unit: only a hashed block and the start of a transfer can fault.\<close>

definition sets_go :: "bytes \<Rightarrow> bool" where
  "sets_go buf \<longleftrightarrow> 4 \<le> length buf \<and> bit (le_word (take 4 buf) :: u32) 31"

definition hash_stuck :: "'w ocs_host \<Rightarrow> 'w \<Rightarrow> int \<Rightarrow> bytes \<Rightarrow> fault \<Rightarrow> bool" where
  "hash_stuck host w addr buf e \<longleftrightarrow>
     addr = GPDMA_REG_CONTROL \<and> sets_go buf \<and> ocs_dma_faults host e \<or>
     hash_rounds (ocs_hash_unit (ocs_get host w)) addr buf \<and> no_room (ocs_frame host) e"

lemma hash_write_holds:
  assumes inv: "ocs_inv host w" and count: "count = int (length buf)"
  shows "res_holds (hash_stuck host w addr buf) (\<lambda>(s, w). ocs_inv host w)
    (hash_write (ocs_hash_host host) addr buf count w)"
proof -
  let ?h = "hh_get (ocs_hash_host host) w" and ?ops = "hash_dma_ops (ocs_hash_host host)"
  have u: "unit_ok ?h" using ocs_inv_unit[OF inv] by (simp add: ocs_hash_host_def)
  have hh: "hh_frame (ocs_hash_host host) = ocs_frame host" "ocs_hash_unit (ocs_get host w) = ?h"
    by (simp_all add: ocs_hash_host_def)
  have ptr: "0 \<le> hash_stateptr ?h" using u by (simp add: unit_ok_def)
  have idle: "dma_idle (dma_get ?ops w)" using u by (simp add: unit_ok_def hash_dma_ops_def)
  have put: "ocs_inv host (hh_put (ocs_hash_host host) h w)" if "unit_ok h" for h
    using ocs_inv_hash[OF inv that] .
  have dma: "res_holds (hash_stuck host w addr buf) (\<lambda>(s, w). ocs_inv host w) (gpdma_write ?ops addr buf count w)"
  proof (cases "addr = GPDMA_REG_CONTROL \<and> sets_go buf")
    case True
    with res_holds_mono[OF ocs_engine.gpdma_write_ok[OF inv count]] show ?thesis by (auto simp: hash_stuck_def)
  next
    case False
    then show ?thesis
      using ocs_engine.gpdma_write_quiet[OF inv count idle, of addr] by (auto simp: sets_go_def)
  qed
  then have go: "res_holds (hash_stuck host w addr buf) (\<lambda>x. ocs_inv host (snd x)) (gpdma_write ?ops addr buf 4 w)"
    if "length buf = 4"
    using that count by (simp add: case_prod_unfold)
  have data: "res_holds (hash_stuck host w HASH_REG_DATA buf) (\<lambda>h. ocs_inv host (hh_put (ocs_hash_host host) h w))
      (hash_dma_write (ocs_frame host) ?h buf)"
    by (rule res_holds_mono[OF hash_dma_write_holds[OF u]]) (auto simp: hash_stuck_def hash_rounds_def hh put)
  have cmd: "res_holds (hash_stuck host w HASH_REG_CMD buf) (\<lambda>h. ocs_inv host (hh_put (ocs_hash_host host) h w))
      (hash_do_command (ocs_frame host) ?h (le_word buf))" if "length buf = 4"
    by (rule res_holds_mono[OF hash_do_command_holds[OF u]])
      (use that in \<open>auto simp: hash_stuck_def hash_rounds_def hh put\<close>)
  show ?thesis
    using inv count ptr u unit_ok_lengths(3)[OF u] data cmd go
    by (simp add: hash_write_def Let_def hh put unit_ok_init unit_ok_arrays case_prod_unfold)
qed

text \<open>
  An access carries its buffer. Every read and write of the AES unit, and a write to the
  data register of the key store, loads four bytes of it for the log, whatever the size of
  the access; a key command is started by the GO bit of a write to the command register of
  the key store, a transfer by that of the engine's control register.
\<close>

datatype ocs_access = OcsCfgRead u64 bytes | OcsCfgWrite u64 bytes
  | OcsMemRead u64 bytes int int | OcsMemWrite u64 bytes int int

definition ocs_step :: "'w ocs_host \<Rightarrow> ocs_access \<Rightarrow> 'w \<Rightarrow> (bytes \<times> 'w) res" where
  "ocs_step host a w = (case a of
     OcsCfgRead addr out \<Rightarrow>
       rbind (ocs_cfg_read host addr out (int (length out)) w) (\<lambda>(s, out, w). Inr (out, w))
   | OcsCfgWrite addr buf \<Rightarrow>
       rbind (ocs_cfg_write host addr buf (int (length buf)) w) (\<lambda>(s, w). Inr (buf, w))
   | OcsMemRead addr out sai lat \<Rightarrow>
       rbind (ocs_mem_read host addr out (int (length out)) sai lat w) (\<lambda>(s, out, w). Inr (out, w))
   | OcsMemWrite addr buf sai lat \<Rightarrow>
       rbind (ocs_mem_write host addr buf (int (length buf)) sai lat w) (\<lambda>(s, w). Inr (buf, w)))"

fun ocs_access_buf :: "ocs_access \<Rightarrow> bytes" where
  "ocs_access_buf (OcsCfgRead addr buf) = buf"
| "ocs_access_buf (OcsCfgWrite addr buf) = buf"
| "ocs_access_buf (OcsMemRead addr buf sai lat) = buf"
| "ocs_access_buf (OcsMemWrite addr buf sai lat) = buf"

fun ocs_stuck :: "'w ocs_host \<Rightarrow> ocs_access \<Rightarrow> 'w \<Rightarrow> fault \<Rightarrow> bool" where
  "ocs_stuck host (OcsMemRead addr buf sai lat) w e \<longleftrightarrow> addr AND 0xF000 = 0x8000 \<and> length buf < 4"
| "ocs_stuck host (OcsMemWrite addr buf sai lat) w e \<longleftrightarrow>
     addr AND 0xF000 = 0x8000 \<and> length buf < 4 \<or>
     addr AND 0xF000 = 0xF000 \<and> 0x40C \<le> addr AND 0xFFF \<and> addr AND 0xFFF < 0x42C \<and> length buf < 4 \<or>
     addr AND 0xF000 = 0xF000 \<and> addr AND 0xFFF = 0x404 \<and> sets_go buf \<and> sks_slot (ocs_sks (ocs_get host w)) = 22 \<or>
     addr AND 0xF000 = 0xB000 \<and> hash_stuck host w (uint (addr AND 0xFFF)) buf e"
| "ocs_stuck host a w e \<longleftrightarrow> False"

inductive ocs_reach :: "'w ocs_host \<Rightarrow> 'w \<Rightarrow> 'w \<Rightarrow> bool" for host and w0 where
  start: "ocs_reach host w0 w0"
| access: "ocs_reach host w0 w \<Longrightarrow> ocs_step host a w = Inr (out, w') \<Longrightarrow> ocs_reach host w0 w'"

lemma ocs_inv_put:
  assumes "ocs_inv host w" and "i = ocs_get host w"
  shows "length c = 0x1000 \<Longrightarrow> ocs_inv host (ocs_put host (i\<lparr>ocs_config := c\<rparr>) w)"
    and "ocs_inv host (ocs_put host (i\<lparr>ocs_aes_unit := a\<rparr>) w)"
    and "unit_ok h \<Longrightarrow> ocs_inv host (ocs_put host (i\<lparr>ocs_hash_unit := h\<rparr>) w)"
    and "store_ok s \<Longrightarrow> unit_ok h \<Longrightarrow> ocs_inv host (ocs_put host (i\<lparr>ocs_sks := s, ocs_hash_unit := h\<rparr>) w)"
  using assms by (simp_all add: ocs_inv_def ocs_ok_def ocs_laws_simps)

lemma ocs_cfg_holds:
  assumes inv: "ocs_inv host w" and count: "count = int (length buf)"
  shows "res_holds (\<lambda>e. False) (\<lambda>(s, out, w). length out = length buf \<and> ocs_inv host w) (ocs_cfg_read host addr buf count w)"
    and "res_holds (\<lambda>e. False) (\<lambda>(s, w). ocs_inv host w) (ocs_cfg_write host addr buf count w)"
proof -
  have c: "length (ocs_config (ocs_get host w)) = 0x1000" using inv by (simp add: ocs_inv_def ocs_ok_def)
  note put = ocs_inv_put(1)[OF inv refl] and fit = uint_fits[of "0x1000" "PCI_ADDR_REG addr" "length buf"]
  have r: "res_holds (\<lambda>e. False) (\<lambda>(s, out, w). length out = length buf \<and> ocs_inv host w) (ocs_cfg_read host addr buf count w) \<and>
      res_holds (\<lambda>e. False) (\<lambda>(s, w). ocs_inv host w) (ocs_cfg_write host addr buf count w)"
  proof (cases "0x1000 < uint (PCI_ADDR_REG addr) + int (length buf)")
    case True
    then show ?thesis using inv by (simp add: ocs_cfg_read_def ocs_cfg_write_def Let_def PCI_CONFIG_SIZE_def count)
  next
    case False
    with fit have f: "unat (PCI_ADDR_REG addr) + length buf \<le> 0x1000" by simp
    then have "memcpy_int 0 (int (length buf)) (drop (unat (PCI_ADDR_REG addr)) (ocs_config (ocs_get host w))) buf =
        Inr (take (length buf) (drop (unat (PCI_ADDR_REG addr)) (ocs_config (ocs_get host w))))"
      using c by (simp add: memcpy_int_def memcpy_def blit_def)
    then show ?thesis
      using inv c put False f by (simp add: ocs_cfg_read_def ocs_cfg_write_def Let_def PCI_CONFIG_SIZE_def count)
  qed
  show "res_holds (\<lambda>e. False) (\<lambda>(s, out, w). length out = length buf \<and> ocs_inv host w) (ocs_cfg_read host addr buf count w)"
    "res_holds (\<lambda>e. False) (\<lambda>(s, w). ocs_inv host w) (ocs_cfg_write host addr buf count w)"
    using r by blast+
qed

text \<open>Reads through the BAR, also by an engine that reads less than its buffer holds.\<close>

lemma ocs_mem_read_holds:
  assumes inv: "ocs_inv host w" and count: "count \<le> int (length buf)"
  shows "res_holds (\<lambda>e. addr AND 0xF000 = 0x8000 \<and> length buf < 4)
    (\<lambda>(s, out, w). length out = length buf \<and> ocs_inv host w) (ocs_mem_read host addr buf count sai lat w)"
proof -
  let ?i = "ocs_get host w"
  have aes: "res_holds (\<lambda>e. length buf < 4) (\<lambda>(s, out). length out = length buf)
      (aes_read (ocs_aes_unit ?i) (uint a) buf count)" for a :: u64
    by (cases "4 \<le> length buf") (simp_all add: aes_read_def st32_def memcpy_def ld32_def)
  show ?thesis
    using inv res_holds_mono[OF hash_read_holds[OF ocs_inv_unit[OF inv] count]] ocs_inv_put(3)[OF inv refl]
      res_holds_mono[OF aes] res_holds_mono[OF sks_read_holds[OF count]]
    by (simp add: ocs_mem_read_def Let_def case_prod_unfold split: option.splits)
qed

lemma unat_ucast_u64: "unat (ucast (x :: u32) :: u64) = unat x"
proof -
  have "uint (ucast x :: u64) = uint x" by (simp add: uint_up_ucast is_up)
  then show ?thesis by (simp only: unat_eq_nat_uint)
qed

lemma ocs_mem_write_holds:
  assumes inv: "ocs_inv host w" and count: "count = int (length buf)"
  shows "res_holds (ocs_stuck host (OcsMemWrite addr buf sai lat) w) (\<lambda>(s, w). ocs_inv host w)
    (ocs_mem_write host addr buf count sai lat w)"
proof -
  let ?i = "ocs_get host w"
  have ok: "store_ok (ocs_sks ?i)" "unit_ok (ocs_hash_unit ?i)" using inv by (simp_all add: ocs_inv_def ocs_ok_def)
  have low: "(ucast (ucast (addr AND 0xFFF) :: u32) :: u64) = addr AND 0xFFF"
  proof -
    have m: "(0xFFF :: u64) = mask 12" by (simp add: mask_eq_exp_minus_1)
    show ?thesis unfolding m by (auto intro!: bit_word_eqI simp: bit_simps)
  qed
  then have un: "unat (ucast (addr AND 0xFFF) :: u32) = unat (addr AND 0xFFF)"
    using unat_ucast_u64[of "ucast (addr AND 0xFFF)"] by simp
  have c: "(ucast (addr AND 0xFFF) :: u32) = SKS_REG_COMMAND \<longleftrightarrow> addr AND 0xFFF = 0x404"
    using un by (simp add: SKS_REG_COMMAND_def word_unat_eq_iff)
  have d: "SKS_REG_DATA 0 \<le> ucast (addr AND 0xFFF) \<longleftrightarrow> 0x40C \<le> addr AND 0xFFF"
      "ucast (addr AND 0xFFF) < SKS_REG_DATA 32 \<longleftrightarrow> addr AND 0xFFF < 0x42C"
    using un by (simp_all add: SKS_REG_DATA_def word_le_nat_alt word_less_nat_alt)
  have aes: "res_holds (\<lambda>e. length buf < 4) (\<lambda>x. True) (aes_write (ocs_aes_unit ?i) (uint a) buf count)" for a :: u64
    by (simp add: aes_write_def ld32_def)
  have hash: "res_holds (hash_stuck host w (uint a) buf) (\<lambda>x. ocs_inv host (snd x))
      (hash_write (ocs_hash_host host) (uint a) buf count w)" for a :: u64
    using hash_write_holds[OF inv count, of "uint a"] by (simp add: case_prod_unfold)
  have sks: "res_holds (ocs_stuck host (OcsMemWrite addr buf sai lat) w)
      (\<lambda>x. ocs_inv host (ocs_put host (?i\<lparr>ocs_sks := fst (snd x), ocs_hash_unit := snd (snd x)\<rparr>) w))
      (sks_write (ocs_sks ?i) (ocs_hash_unit ?i) (ucast (addr AND 0xFFF)) buf count)" if "addr AND 0xF000 = 0xF000"
    by (rule res_holds_mono[OF sks_write_holds[OF ok count]])
      (use that ocs_inv_put(4)[OF inv refl] in \<open>auto simp: c d sets_go_def\<close>)
  show ?thesis
    using inv res_holds_mono[OF hash] ocs_inv_put(2)[OF inv refl] sks res_holds_mono[OF aes]
    by (simp add: ocs_mem_write_def Let_def case_prod_unfold split: option.splits)
qed

lemma ocs_step_holds:
  assumes "ocs_inv host w"
  shows "res_holds (ocs_stuck host a w) (\<lambda>(out, w'). length out = length (ocs_access_buf a) \<and> ocs_inv host w')
    (ocs_step host a w)"
proof (cases a)
  case (OcsCfgRead addr buf)
  then show ?thesis
    using res_holds_mono[OF ocs_cfg_holds(1)[OF assms refl, of buf addr]]
    by (simp add: ocs_step_def case_prod_unfold)
next
  case (OcsCfgWrite addr buf)
  then show ?thesis
    using res_holds_mono[OF ocs_cfg_holds(2)[OF assms refl, of addr buf]]
    by (simp add: ocs_step_def case_prod_unfold)
next
  case (OcsMemRead addr buf sai lat)
  then show ?thesis
    using res_holds_mono[OF ocs_mem_read_holds[OF assms, of "int (length buf)" buf addr sai lat]]
    by (simp add: ocs_step_def case_prod_unfold)
next
  case (OcsMemWrite addr buf sai lat)
  then show ?thesis
    using res_holds_mono[OF ocs_mem_write_holds[OF assms refl, of addr buf sai lat]]
    by (simp add: ocs_step_def case_prod_unfold)
qed

lemma ocs_reach_inv: "ocs_reach host w0 w \<Longrightarrow> ocs_inv host w0 \<Longrightarrow> ocs_inv host w"
proof (induction rule: ocs_reach.induct)
  case (access w a out w')
  then show ?case using ocs_step_holds[of host w a] by simp
qed

text \<open>The state that \<open>ocs_spawn\<close> leaves.\<close>

lemma length_set_cfg: "off + n \<le> length cfg \<Longrightarrow> length (set_cfg off n found cfg) = length cfg"
  by (simp add: set_cfg_def split: option.splits)

lemma length_handle_type0: "length cfg = 0x1000 \<Longrightarrow> length (pci_cfg_handle_type0 sec b cfg) = 0x1000"
  by (simp add: pci_cfg_handle_type0_def Let_def length_set_cfg)

lemma sks_init_ok: "store_ok (sks_init sks_zero)"
  using sks_ready_wf[of "replicate 32 0" 0 0] by (simp add: sks_ready_def store_ok_def sks_init_def sks_zero_def Let_def sks_wf_def)

lemma hash_init_ok: "unit_ok hash_init"
  by (simp add: unit_ok_def hash_init_def hash_zero_def gpdma_init_def dma_idle_def hash_wf_def)

lemma ocs_spawn_ok:
  assumes "ocs_laws host" and "length (ocs_buf_get host w) = 64"
    and "ocs_spawn host sec buses devs w = Inr (buses', devs', w0)"
  shows "ocs_ok host w0"
  using assms
  by (auto simp: ocs_spawn_def Let_def rbind_Inr_iff ocs_ok_def ocs_laws_simps length_handle_type0 sks_init_ok
      hash_init_ok split: option.splits)

text \<open>C6. The device never corrupts itself. From the state its start function leaves, after
  any sequence of configuration and register accesses of any size, from the bus or from a
  transfer of its own engine, the arrays of its units have their sizes, the key slots their
  places, the digest's read pointer is in range and no command is pending in any unit. An
  access to such a state gives back the buffer it was given, and \<open>ocs_stuck\<close> lists the only
  accesses in which the code can fault: an access to the AES unit, or a write to the data
  register of the key store, with a buffer of less than the four bytes that are logged; a
  key command with slot 22 selected; the start of a transfer that a function of the bus
  faults on; and, where the stack frame of the round function has no room for the words
  written behind \<open>state32\<close>, the writes that hash a block (data that fills the buffer, the
  flush command, the start command of an HMAC, the start of a transfer).\<close>

theorem ocs_accesses_safe:
  assumes "ocs_laws host" and "ocs_bus_keeps host" and "length (ocs_buf_get host w) = 64"
    and "ocs_spawn host sec buses devs w = Inr (buses', devs', w0)" and "ocs_reach host w0 w1"
  shows "ocs_ok host w1 \<and>
    (case ocs_step host a w1 of
       Inl e \<Rightarrow> ocs_stuck host a w1 e
     | Inr (out, w2) \<Rightarrow> length out = length (ocs_access_buf a) \<and> ocs_ok host w2)"
proof -
  have "ocs_inv host w0" using assms ocs_spawn_ok[OF assms(1,3,4)] by (simp add: ocs_inv_def)
  from ocs_reach_inv[OF assms(5) this] have "ocs_inv host w1" .
  with ocs_step_holds[OF this, of a] show ?thesis
    by (cases "ocs_step host a w1") (auto simp: ocs_inv_def)
qed

text \<open>A bus with a memory and the device itself, so that its engine can read its registers.\<close>

definition self_host :: "'w pci_func list \<Rightarrow> 'w ocs_host \<Rightarrow> 'w ocs_host" where
  "self_host funcs host = host\<lparr>ocs_bus := \<lparr>bus_name = ''prim'', bus_funcs = funcs, bus_num = 0\<rparr>\<rparr>"

lemma self_host_simps [simp]:
  "ocs_laws (self_host funcs host) = ocs_laws host" "ocs_ok (self_host funcs host) = ocs_ok host"
  "bus_funcs (ocs_bus (self_host funcs host)) = funcs"
  "ocs_buf_get (self_host funcs host) = ocs_buf_get host" "ocs_get (self_host funcs host) = ocs_get host"
  by (auto simp: self_host_def ocs_laws_def ocs_ok_def fun_eq_iff)

lemma ocs_self_keeps:
  assumes "ocs_laws host"
  shows "ocs_bus_keeps (self_host [ocs_func (self_host [] host), ram_func mem] host)"
proof -
  have inv: "ocs_inv (self_host [] host) w" if "ocs_ok host w" for w
    using that assms by (simp add: ocs_inv_def ocs_bus_keeps_def)
  have self: "res_holds (\<lambda>e. True) (\<lambda>(s, b', w'). length b' = 64 \<and> ocs_ok host w')
      (ocs_mem_read (self_host [] host) addr b count sai lat w)"
    if "ocs_ok host w" "length b = 64" "count \<le> 64" for addr b count sai lat w
    by (rule res_holds_mono[OF ocs_mem_read_holds[OF inv[OF that(1)]]]) (use that in \<open>auto simp: ocs_inv_def\<close>)
  show ?thesis
    using self by (auto simp: ocs_bus_keeps_def ocs_func_def ram_func_def)
qed

text \<open>Selecting slot 22 is one access; the key command that follows is one of those listed.\<close>

definition safe_host :: "(ocs_inst \<times> bytes) ocs_host" where
  "safe_host = self_host [ocs_func (self_host [] (ram_host (\<lambda>a. 0))), ram_func (\<lambda>a. 0)] (ram_host (\<lambda>a. 0))"

definition ocs_section :: cfg_section where
  "ocs_section = \<lparr>section_type = ''device'', section_name = ''ocs'', section_entries =
     \<lparr>entry_name = ''bus'', entry_value = CfgString ''prim''\<rparr> #
     map (\<lambda>(n, v). \<lparr>entry_name = n, entry_value = CfgInt64 v\<rparr>)
       [(''device_no'', 1), (''func_no'', 0), (''bus_no'', 0), (''sai'', 1), (''command'', 2), (''bar0'', 0x10000)]\<rparr>"

definition ocs_started :: ocs_inst where
  "ocs_started = \<lparr>ocs_bdf = PCI_PACK_BDF 0 1 0, ocs_config = pci_cfg_handle_type0 ocs_section False (replicate 0x1000 0),
     ocs_sks = sks_init sks_zero, ocs_hash_unit = hash_init, ocs_aes_unit = aes_init, ocs_sai = 1\<rparr>"

lemma ocs_section_spawns:
  "\<exists>buses' devs'. ocs_spawn safe_host ocs_section [\<lparr>bus_name = ''prim'', bus_funcs = [], bus_num = 0\<rparr>] []
    (ram_ocs, replicate 64 0) = Inr (buses', devs', (ocs_started, replicate 64 0))"
  by (simp add: ocs_spawn_def ocs_section_def ocs_started_def cfg_finders cfg_require_def pci_func_register_def
      pci_func_find_def device_register_def safe_host_def self_host_def ram_host_def Let_def)

theorem ocs_accesses_safe_witness:
  "ocs_ok safe_host (ocs_started, replicate 64 0) \<and>
   (case ocs_step safe_host (OcsMemWrite 0x1F404 (le_bytes 4 (0x80050000 :: u32)) 0 0) (ocs_started, replicate 64 0) of
      Inl e \<Rightarrow> sks_slot (ocs_sks ocs_started) = 22 | Inr (out, w2) \<Rightarrow> length out = 4 \<and> ocs_ok safe_host w2)"
proof -
  have l: "ocs_laws safe_host" "ocs_bus_keeps safe_host"
    unfolding safe_host_def by (simp, simp add: ocs_laws_def ram_host_def)
      (rule ocs_self_keeps, simp add: ocs_laws_def ram_host_def)
  obtain buses' devs' where "ocs_spawn safe_host ocs_section [\<lparr>bus_name = ''prim'', bus_funcs = [], bus_num = 0\<rparr>] []
      (ram_ocs, replicate 64 0) = Inr (buses', devs', (ocs_started, replicate 64 0))"
    using ocs_section_spawns by blast
  from ocs_accesses_safe[OF l _ this ocs_reach.start, of "OcsMemWrite 0x1F404 (le_bytes 4 (0x80050000 :: u32)) 0 0"]
  show ?thesis
    by (auto simp: safe_host_def ram_host_def split: sum.splits)
qed

end
