(* ===== verification/Sideband.thy ===== *)
theory Sideband
  imports CfgFile
begin

text \<open>
  \<open>periph/sideband/sbdev.c\<close> and the devices that are only reached over the sideband:
  \<open>periph/fuse/fusectl.c\<close>, \<open>periph/dfxagg/dev.c\<close> and \<open>periph/exi/dev.c\<close>. A sideband device
  is the record of its endpoint and its two callbacks over the program state \<open>'w\<close>; the
  devices themselves are functions on their own record, and \<open>sb_device\<close> installs them
  where the program keeps the record.

  The value of a read is stored through \<open>*(uint32_t *) buffer\<close> only after \<open>count\<close> was
  compared, so the buffer has the size of the store; log calls are not modelled.
\<close>

section \<open>The sideband bus\<close>

record 'w sideband_dev =
  endpoint :: u8
  sb_write_cb :: "int \<Rightarrow> int \<Rightarrow> int \<Rightarrow> bytes \<Rightarrow> int \<Rightarrow> int \<Rightarrow> 'w \<Rightarrow> (int \<times> 'w) res"
  sb_read_cb :: "int \<Rightarrow> int \<Rightarrow> int \<Rightarrow> bytes \<Rightarrow> int \<Rightarrow> int \<Rightarrow> 'w \<Rightarrow> (int \<times> bytes \<times> 'w) res"

text \<open>\<open>sbdev_list\<close>; there is no check for a duplicate endpoint.\<close>

definition sb_register :: "'w sideband_dev \<Rightarrow> 'w sideband_dev list \<Rightarrow> 'w sideband_dev list" where
  "sb_register periph sbdev_list = periph # sbdev_list"

fun sb_read :: "'w sideband_dev list \<Rightarrow> int \<Rightarrow> int \<Rightarrow> int \<Rightarrow> int \<Rightarrow> bytes \<Rightarrow> int \<Rightarrow> int \<Rightarrow> 'w \<Rightarrow> (int \<times> bytes \<times> 'w) res" where
  "sb_read [] endp op bar address buffer count sai w = Inr (-2, buffer, w)"
| "sb_read (dev # next) endp op bar address buffer count sai w =
    (if uint (endpoint dev) = endp then sb_read_cb dev bar op address buffer count sai w
     else sb_read next endp op bar address buffer count sai w)"

fun sb_write :: "'w sideband_dev list \<Rightarrow> int \<Rightarrow> int \<Rightarrow> int \<Rightarrow> int \<Rightarrow> bytes \<Rightarrow> int \<Rightarrow> int \<Rightarrow> 'w \<Rightarrow> (int \<times> 'w) res" where
  "sb_write [] endp op bar address buffer count sai w = Inr (-2, w)"
| "sb_write (dev # next) endp op bar address buffer count sai w =
    (if uint (endpoint dev) = endp then sb_write_cb dev bar op address buffer count sai w
     else sb_write next endp op bar address buffer count sai w)"

text \<open>A device with record \<open>'d\<close>, given its two handlers and where the record lives.\<close>

definition sb_device :: "u8 \<Rightarrow> ('w \<Rightarrow> 'd) \<Rightarrow> ('d \<Rightarrow> 'w \<Rightarrow> 'w) \<Rightarrow>
    ('d \<Rightarrow> int \<Rightarrow> int \<Rightarrow> int \<Rightarrow> bytes \<Rightarrow> int \<Rightarrow> int \<Rightarrow> (int \<times> 'd) res) \<Rightarrow>
    ('d \<Rightarrow> int \<Rightarrow> int \<Rightarrow> int \<Rightarrow> bytes \<Rightarrow> int \<Rightarrow> int \<Rightarrow> (int \<times> bytes) res) \<Rightarrow> 'w sideband_dev" where
  "sb_device ep get put wr rd = \<lparr>endpoint = ep,
     sb_write_cb = (\<lambda>bar op off buf n sai w. rbind (wr (get w) bar op off buf n sai) (\<lambda>(s, d). Inr (s, put d w))),
     sb_read_cb = (\<lambda>bar op off buf n sai w. rbind (rd (get w) bar op off buf n sai) (\<lambda>(s, buf). Inr (s, buf, w)))\<rparr>"

text \<open>The part of the three spawn functions that reads the endpoint and the SAI.\<close>

definition sb_config :: "cfg_section \<Rightarrow> (u8 \<times> int) res" where
  "sb_config sec =
    (case cfg_find_int32 sec ''endpoint'' of
       None \<Rightarrow> Inl ExitFailure
     | Some ep \<Rightarrow> (case cfg_find_int32 sec ''sai'' of
         None \<Rightarrow> Inl ExitFailure
       | Some sai \<Rightarrow> Inr (ucast ep, sint sai)))"

section \<open>Fuse controller\<close>

record fusectl_inst =
  fuse_sai :: int
  fuse_control :: u32
  intel_global_ctrl :: u32
  intel_kar :: u32
  intel_address :: u32
  intel_size :: u32
  intel_fsm_ctrl :: u32
  intel_hd_counter :: u32
  intel_debug_status :: u32
  unknown_1020 :: u32
  unknown_1024 :: u32

definition fusectl_process :: "fusectl_inst \<Rightarrow> fusectl_inst" where
  "fusectl_process i =
    (let i = (if tst (fuse_control i) (BIT 17)
              then i\<lparr>fuse_control := (fuse_control i AND NOT (BIT 17 OR 0x90)) OR 0x90\<rparr> else i);
         i = (if tst (fuse_control i) (BIT 18) then i\<lparr>fuse_control := 0x90\<rparr> else i);
         i = (if tst (intel_debug_status i) (BIT 31) then i\<lparr>intel_debug_status := 0\<rparr> else i);
         i = (if tst (intel_fsm_ctrl i) (BIT 23)
              then i\<lparr>intel_fsm_ctrl := intel_fsm_ctrl i AND NOT (BIT 23),
                     intel_debug_status := intel_debug_status i OR BIT 1\<rparr> else i)
     in if tst (intel_fsm_ctrl i) (BIT 24)
        then i\<lparr>intel_fsm_ctrl := intel_fsm_ctrl i AND NOT (BIT 24)\<rparr> else i)"

definition fusectl_read :: "fusectl_inst \<Rightarrow> int \<Rightarrow> int \<Rightarrow> int \<Rightarrow> bytes \<Rightarrow> int \<Rightarrow> int \<Rightarrow> (int \<times> bytes) res" where
  "fusectl_read i bar op offset buffer count sai =
    (let ret = (\<lambda>v. rbind (st32 v buffer) (\<lambda>b. Inr (fuse_sai i, b))) in
     if op \<noteq> 6 then Inr (-2, buffer)
     else if bar = 4 then
       (if count = 4 \<and> offset = 0x0000 then ret (fuse_control i)
        else if count = 4 \<and> offset = 0x0004 then ret (intel_global_ctrl i)
        else if count = 4 \<and> offset = 0x0008 then ret (intel_kar i)
        else if count = 4 \<and> offset = 0x000C then ret (intel_address i)
        else if count = 4 \<and> offset = 0x0010 then ret (intel_size i)
        else if count = 4 \<and> offset = 0x0014 then ret (intel_fsm_ctrl i)
        else if count = 4 \<and> offset = 0x001C then ret (intel_hd_counter i)
        else if count = 4 \<and> offset = 0x80 then ret (intel_debug_status i)
        else if count = 4 \<and> offset = 0x1020 then ret (unknown_1020 i)
        else if count = 4 \<and> offset = 0x1024 then ret (unknown_1024 i)
        else Inr (-2, buffer))
     else if bar = 1 then
       (if count = 4 \<and> 0x400 \<le> offset \<and> offset \<le> 0x7FF \<and> offset mod 4 = 0 then ret (unknown_1024 i)
        else if count = 4 \<and> 0 \<le> offset \<and> offset \<le> 0x3FF \<and> offset mod 4 = 0 then ret (unknown_1024 i)
        else Inr (-2, buffer))
     else Inr (-2, buffer))"

definition fusectl_write :: "fusectl_inst \<Rightarrow> int \<Rightarrow> int \<Rightarrow> int \<Rightarrow> bytes \<Rightarrow> int \<Rightarrow> int \<Rightarrow> (int \<times> fusectl_inst) res" where
  "fusectl_write i bar op offset buffer count sai =
    (let set = (\<lambda>upd. rbind (ld32 buffer) (\<lambda>v. let i = fusectl_process (upd v) in Inr (fuse_sai i, i))) in
     if op \<noteq> 7 then Inr (-2, i)
     else if bar = 4 then
       (if count = 4 \<and> offset = 0x0000 then set (\<lambda>v. i\<lparr>fuse_control := v\<rparr>)
        else if count = 4 \<and> offset = 0x0004 then set (\<lambda>v. i\<lparr>intel_global_ctrl := v\<rparr>)
        else if count = 4 \<and> offset = 0x0008 then set (\<lambda>v. i\<lparr>intel_kar := v\<rparr>)
        else if count = 4 \<and> offset = 0x000C then set (\<lambda>v. i\<lparr>intel_address := v\<rparr>)
        else if count = 4 \<and> offset = 0x0010 then set (\<lambda>v. i\<lparr>intel_size := v\<rparr>)
        else if count = 4 \<and> offset = 0x0014 then set (\<lambda>v. i\<lparr>intel_fsm_ctrl := v\<rparr>)
        else if count = 4 \<and> offset = 0x001C then set (\<lambda>v. i\<lparr>intel_hd_counter := v\<rparr>)
        else if count = 4 \<and> offset = 0x80 then set (\<lambda>v. i\<lparr>intel_debug_status := v\<rparr>)
        else if count = 4 \<and> offset = 0x1020 then set (\<lambda>v. i\<lparr>unknown_1020 := v\<rparr>)
        else if count = 4 \<and> offset = 0x1024 then set (\<lambda>v. i\<lparr>unknown_1024 := v\<rparr>)
        else Inr (-2, i))
     else Inr (-2, i))"

definition fusectl_zero :: "int \<Rightarrow> fusectl_inst" where
  "fusectl_zero sai = \<lparr>fuse_sai = sai, fuse_control = 0, intel_global_ctrl = 0, intel_kar = 0,
     intel_address = 0, intel_size = 0, intel_fsm_ctrl = 0, intel_hd_counter = 0,
     intel_debug_status = 0, unknown_1020 = 0, unknown_1024 = 0\<rparr>"

definition fusectl_spawn :: "cfg_section \<Rightarrow> ('w \<Rightarrow> fusectl_inst) \<Rightarrow> (fusectl_inst \<Rightarrow> 'w \<Rightarrow> 'w) \<Rightarrow>
    'w sideband_dev list \<Rightarrow> 'w \<Rightarrow> ('w sideband_dev list \<times> 'w) res" where
  "fusectl_spawn sec get put sbdevs w =
    rbind (sb_config sec) (\<lambda>(ep, sai).
      Inr (sb_register (sb_device ep get put fusectl_write fusectl_read) sbdevs, put (fusectl_zero sai) w))"

section \<open>DFX aggregator\<close>

definition CONSENT_LOCK_PRIVACY_OPT :: u32 where "CONSENT_LOCK_PRIVACY_OPT = BIT 30"
definition CONSENT_PRIVACY_OPT :: u32 where "CONSENT_PRIVACY_OPT = BIT 0"

record dfxagg_inst =
  dfx_sai :: int
  consent :: u32
  personality :: u32
  dfx_status :: u64
  puid :: u64

text \<open>The body of \<open>dfxagg_process\<close> is empty.\<close>

definition dfxagg_read :: "dfxagg_inst \<Rightarrow> int \<Rightarrow> int \<Rightarrow> int \<Rightarrow> bytes \<Rightarrow> int \<Rightarrow> int \<Rightarrow> (int \<times> bytes) res" where
  "dfxagg_read i bar op offset buffer count sai =
    (if op \<noteq> 6 then Inr (-2, buffer)
     else if bar \<noteq> 0 then Inr (-2, buffer)
     else rbind
       (if count = 4 \<and> offset = 0x0000 then st32 (personality i) buffer
        else if count = 4 \<and> offset = 0x0004 then st32 (consent i) buffer
        else if count = 8 \<and> offset = 0x0008 then st64 (dfx_status i) buffer
        else if count = 8 \<and> offset = 0x0018 then st64 (puid i) buffer
        else Inr buffer)
       (\<lambda>b. Inr (dfx_sai i, b)))"

definition dfxagg_write :: "dfxagg_inst \<Rightarrow> int \<Rightarrow> int \<Rightarrow> int \<Rightarrow> bytes \<Rightarrow> int \<Rightarrow> int \<Rightarrow> (int \<times> dfxagg_inst) res" where
  "dfxagg_write i bar op offset buffer count sai =
    (if op \<noteq> 7 then Inr (-2, i)
     else if bar \<noteq> 0 then Inr (-2, i)
     else rbind
       (if count = 4 \<and> offset = 0x0000 then
          if tst (consent i) CONSENT_PRIVACY_OPT
          then rbind (ld32 buffer) (\<lambda>v. Inr (i\<lparr>personality := v\<rparr>)) else Inr i
        else if count = 4 \<and> offset = 0x0004 then
          if ntst (consent i) CONSENT_LOCK_PRIVACY_OPT
          then rbind (ld32 buffer) (\<lambda>v. Inr (i\<lparr>consent := v\<rparr>)) else Inr i
        else Inr i)
       (\<lambda>i. Inr (dfx_sai i, i)))"

definition dfxagg_spawn :: "cfg_section \<Rightarrow> ('w \<Rightarrow> dfxagg_inst) \<Rightarrow> (dfxagg_inst \<Rightarrow> 'w \<Rightarrow> 'w) \<Rightarrow>
    'w sideband_dev list \<Rightarrow> 'w \<Rightarrow> ('w sideband_dev list \<times> 'w) res" where
  "dfxagg_spawn sec get put sbdevs w =
    rbind (sb_config sec) (\<lambda>(ep, sai).
      Inr (sb_register (sb_device ep get put dfxagg_write dfxagg_read) sbdevs,
        put \<lparr>dfx_sai = sai, consent = 0, personality = 0, dfx_status = 0,
              puid = cfg_or (cfg_find_int64 sec ''puid'') 0\<rparr> w))"

section \<open>ExI\<close>

record exi_inst =
  exi_sai :: int
  emecc :: u32
  ectrl :: u32

definition exi_read :: "exi_inst \<Rightarrow> int \<Rightarrow> int \<Rightarrow> int \<Rightarrow> bytes \<Rightarrow> int \<Rightarrow> int \<Rightarrow> (int \<times> bytes) res" where
  "exi_read i bar op offset buffer count sai =
    (if op \<noteq> 6 then Inr (-2, buffer)
     else if bar \<noteq> 0 then Inr (-2, buffer)
     else rbind
       (if count = 4 \<and> offset = 0x0000 then st32 (emecc i) buffer
        else if count = 4 \<and> offset = 0x0004 then st32 (ectrl i) buffer
        else Inr buffer)
       (\<lambda>b. Inr (exi_sai i, b)))"

definition exi_write :: "exi_inst \<Rightarrow> int \<Rightarrow> int \<Rightarrow> int \<Rightarrow> bytes \<Rightarrow> int \<Rightarrow> int \<Rightarrow> (int \<times> exi_inst) res" where
  "exi_write i bar op offset buffer count sai =
    (if op \<noteq> 7 then Inr (-2, i)
     else if bar \<noteq> 0 then Inr (-2, i)
     else rbind
       (if count = 4 \<and> offset = 0x0000 then rbind (ld32 buffer) (\<lambda>v. Inr (i\<lparr>emecc := v\<rparr>))
        else if count = 4 \<and> offset = 0x0004 then rbind (ld32 buffer) (\<lambda>v. Inr (i\<lparr>ectrl := v\<rparr>))
        else Inr i)
       (\<lambda>i. Inr (exi_sai i, i)))"

definition exi_spawn :: "cfg_section \<Rightarrow> ('w \<Rightarrow> exi_inst) \<Rightarrow> (exi_inst \<Rightarrow> 'w \<Rightarrow> 'w) \<Rightarrow>
    'w sideband_dev list \<Rightarrow> 'w \<Rightarrow> ('w sideband_dev list \<times> 'w) res" where
  "exi_spawn sec get put sbdevs w =
    rbind (sb_config sec) (\<lambda>(ep, sai).
      Inr (sb_register (sb_device ep get put exi_write exi_read) sbdevs,
        put \<lparr>exi_sai = sai, emecc = 0, ectrl = cfg_or (cfg_find_int32 sec ''ectrl'') 0\<rparr> w))"

section \<open>Routing\<close>

text \<open>The device of an endpoint: the one that was registered last.\<close>

definition sb_find :: "'w sideband_dev list \<Rightarrow> int \<Rightarrow> 'w sideband_dev option" where
  "sb_find devs endp = find (\<lambda>d. uint (endpoint d) = endp) devs"

lemma sb_read_find:
  "sb_read devs endp op bar a buf n sai w =
    (case sb_find devs endp of None \<Rightarrow> Inr (-2, buf, w) | Some d \<Rightarrow> sb_read_cb d bar op a buf n sai w)"
  "sb_write devs endp op bar a buf n sai w =
    (case sb_find devs endp of None \<Rightarrow> Inr (-2, w) | Some d \<Rightarrow> sb_write_cb d bar op a buf n sai w)"
  by (induction devs) (simp_all add: sb_find_def)

section \<open>Invariants of the devices under any sequence of accesses\<close>

text \<open>One access to a device; the buffer and the count are those of the initiator.\<close>

inductive sb_access :: "('d \<Rightarrow> int \<Rightarrow> int \<Rightarrow> int \<Rightarrow> bytes \<Rightarrow> int \<Rightarrow> int \<Rightarrow> (int \<times> 'd) res) \<Rightarrow> 'd \<Rightarrow> 'd \<Rightarrow> bool"
  for wr :: "'d \<Rightarrow> int \<Rightarrow> int \<Rightarrow> int \<Rightarrow> bytes \<Rightarrow> int \<Rightarrow> int \<Rightarrow> (int \<times> 'd) res" where
  "wr i bar op offset buffer count sai = Inr (s, i') \<Longrightarrow> sb_access wr i i'"

inductive sb_reach :: "('d \<Rightarrow> int \<Rightarrow> int \<Rightarrow> int \<Rightarrow> bytes \<Rightarrow> int \<Rightarrow> int \<Rightarrow> (int \<times> 'd) res) \<Rightarrow> 'd \<Rightarrow> 'd \<Rightarrow> bool"
  for wr :: "'d \<Rightarrow> int \<Rightarrow> int \<Rightarrow> int \<Rightarrow> bytes \<Rightarrow> int \<Rightarrow> int \<Rightarrow> (int \<times> 'd) res" where
  stay: "sb_reach wr i i"
| step: "sb_reach wr i j \<Longrightarrow> sb_access wr j k \<Longrightarrow> sb_reach wr i k"

inductive_cases sb_accessE: "sb_access wr i i'"

text \<open>C21. Once the privacy option of the DFX aggregator is locked (consent bit 30), no
  sequence of sideband writes, whatever their opcode, BAR, offset, size and initiator,
  changes the consent register again; and if it was locked with the option (bit 0) off, the
  personality register is frozen too.\<close>

theorem dfxagg_consent_locked:
  assumes "sb_reach dfxagg_write i j" and "bit (consent i) 30"
  shows "consent j = consent i \<and> (\<not> bit (consent i) 0 \<longrightarrow> personality j = personality i)"
  using assms
proof (induction rule: sb_reach.induct)
  case (step i j k)
  then have c: "consent j = consent i" by simp
  obtain bar op offset buffer count sai s where "dfxagg_write j bar op offset buffer count sai = Inr (s, k)"
    using step.hyps(2) by (rule sb_accessE)
  with step.IH step.prems c show ?case
    by (auto simp: dfxagg_write_def rbind_Inr_iff CONSENT_PRIVACY_OPT_def CONSENT_LOCK_PRIVACY_OPT_def
        split: if_splits)
qed simp

theorem dfxagg_consent_locked_witness:
  "consent \<lparr>dfx_sai = 1, consent = 0x40000000, personality = 0, dfx_status = 0, puid = 0\<rparr> = 0x40000000 \<and>
   (\<exists>j. sb_reach dfxagg_write \<lparr>dfx_sai = 1, consent = 0x40000000, personality = 0, dfx_status = 0, puid = 0\<rparr> j \<and>
      consent j = 0x40000000)"
proof -
  let ?i = "\<lparr>dfx_sai = 1, consent = 0x40000000, personality = 0, dfx_status = 0, puid = 0\<rparr>"
  have r: "sb_reach dfxagg_write ?i ?i" by (rule sb_reach.stay)
  have eq: "(0x40000000 :: u32) = BIT 30" by (simp add: BIT_def)
  have "bit (consent ?i) 30" unfolding dfxagg_inst.simps eq by (simp add: bit_simps)
  from dfxagg_consent_locked[OF r this] r show ?thesis by auto
qed

text \<open>What \<open>fusectl_process\<close> leaves: the command bits are always consumed.\<close>

definition fuse_quiet :: "fusectl_inst \<Rightarrow> bool" where
  "fuse_quiet i \<longleftrightarrow> \<not> bit (fuse_control i) 17 \<and> \<not> bit (fuse_control i) 18 \<and>
     \<not> bit (intel_fsm_ctrl i) 23 \<and> \<not> bit (intel_fsm_ctrl i) 24 \<and> \<not> bit (intel_debug_status i) 31"

lemma bit_0x90: "bit (0x90 :: u32) n \<longleftrightarrow> n = 4 \<or> n = 7"
proof -
  have eq: "(0x90 :: u32) = BIT 4 OR BIT 7" by (simp add: BIT_def)
  show ?thesis unfolding eq by (auto simp: bit_simps)
qed

lemma fuse_sai_process [simp]: "fuse_sai (fusectl_process i) = fuse_sai i"
  by (simp add: fusectl_process_def Let_def)

lemma fusectl_process_quiet: "fuse_quiet (fusectl_process i)"
  by (auto simp: fuse_quiet_def fusectl_process_def Let_def bit_simps bit_0x90)

text \<open>C33. From its spawn on, after any sequence of sideband writes, the fuse controller has
  no command pending: the two command bits of the control register, the start and reset
  bits of the FSM register and the busy bit of the debug status are clear, so every command
  completes within the write that starts it.\<close>

theorem fusectl_always_quiet:
  assumes "sb_reach fusectl_write (fusectl_zero sai) j"
  shows "fuse_quiet j"
  using assms
proof (induction "fusectl_zero sai" j rule: sb_reach.induct)
  case stay
  show ?case by (simp add: fuse_quiet_def fusectl_zero_def)
next
  case (step j k)
  obtain bar op offset buffer count sai s where "fusectl_write j bar op offset buffer count sai = Inr (s, k)"
    using step.hyps(3) by (rule sb_accessE)
  with step.hyps(2) show ?case
    by (auto simp: fusectl_write_def rbind_Inr_iff Let_def fusectl_process_quiet split: if_splits)
qed

theorem fusectl_always_quiet_witness:
  "fuse_quiet (fusectl_process ((fusectl_zero 1)\<lparr>fuse_control := 0x20000\<rparr>))"
proof (rule fusectl_always_quiet)
  have "sb_access fusectl_write (fusectl_zero 1) (fusectl_process ((fusectl_zero 1)\<lparr>fuse_control := 0x20000\<rparr>))"
    by (rule sb_access.intros[of _ _ 4 7 0 "le_bytes 4 (0x20000 :: u32)" 4 0 "1"])
      (simp add: fusectl_write_def fusectl_zero_def Let_def)
  with sb_reach.stay[of fusectl_write "fusectl_zero 1"]
  show "sb_reach fusectl_write (fusectl_zero 1) (fusectl_process ((fusectl_zero 1)\<lparr>fuse_control := 0x20000\<rparr>))"
    by (rule sb_reach.step)
qed

end
