(* ===== verification/RegFile.thy ===== *)
theory RegFile
  imports Prelude
begin

text \<open>
  The contract of a block of plain registers: a read returns what was last written to the
  same register, and writing one register leaves the others alone. Several devices keep
  such blocks behind an address decoder; each of them interprets this locale with its own
  read and write handlers.
\<close>

text \<open>The registers a sequence of writes leaves, as a map.\<close>

fun write_all :: "('a \<Rightarrow> u32 \<Rightarrow> 's \<Rightarrow> 's) \<Rightarrow> ('a \<times> u32) list \<Rightarrow> 's \<Rightarrow> 's" where
  "write_all wr [] s = s"
| "write_all wr ((a, v) # ws) s = write_all wr ws (wr a v s)"

definition last_write :: "('a \<times> u32) list \<Rightarrow> 'a \<rightharpoonup> u32" where
  "last_write ws = map_of (rev ws)"

lemma last_write_Cons: "last_write ((a, v) # ws) b =
  (case last_write ws b of Some x \<Rightarrow> Some x | None \<Rightarrow> if b = a then Some v else None)"
  by (simp add: last_write_def map_add_def split: option.splits)

locale reg_file =
  fixes rd :: "'a \<Rightarrow> 's \<Rightarrow> u32"
    and wr :: "'a \<Rightarrow> u32 \<Rightarrow> 's \<Rightarrow> 's"
    and regs :: "'a set"
    and ok :: "'s \<Rightarrow> bool"
  assumes read_write: "ok s \<Longrightarrow> a \<in> regs \<Longrightarrow> b \<in> regs \<Longrightarrow> rd a (wr b v s) = (if a = b then v else rd a s)"
    and write_ok: "ok s \<Longrightarrow> a \<in> regs \<Longrightarrow> ok (wr a v s)"
begin

lemma write_all_ok: "ok s \<Longrightarrow> fst ` set ws \<subseteq> regs \<Longrightarrow> ok (write_all wr ws s)"
  by (induction ws arbitrary: s) (auto simp: write_ok)

text \<open>After any sequence of writes a register holds the last value written to it.\<close>

lemma read_write_all:
  "ok s \<Longrightarrow> fst ` set ws \<subseteq> regs \<Longrightarrow> a \<in> regs \<Longrightarrow>
   rd a (write_all wr ws s) = (case last_write ws a of Some v \<Rightarrow> v | None \<Rightarrow> rd a s)"
proof (induction ws arbitrary: s)
  case Nil
  then show ?case by (simp add: last_write_def)
next
  case (Cons w ws)
  obtain b v where w: "w = (b, v)" by (cases w)
  with Cons show ?case by (auto simp: last_write_Cons read_write write_ok split: option.splits)
qed

lemma write_same_value: "ok s \<Longrightarrow> a \<in> regs \<Longrightarrow> b \<in> regs \<Longrightarrow> rd a (wr b (rd b s) s) = rd a s"
  by (simp add: read_write)

end

end
