(* ===== verification/Att.thy ===== *)
theory Att
  imports PciConfig Sideband RegFile
begin

text \<open>
  The address translation table of the gasket (\<open>include/gasket/att\<close>,
  \<open>periph/gasket/att\<close>): a PCI function with two register BARs of 128 windows each. An
  access outside the BARs is translated by an enabled primary window and forwarded to the
  device's own PCI bus, or else by an enabled sideband window to a sideband endpoint. The
  bus and the sideband devices live over the program state \<open>'w\<close> that also holds the
  registers of this device.
\<close>

section \<open>Registers\<close>

definition ATT_SBADDR_ENDPT :: "u32 \<Rightarrow> int" where "ATT_SBADDR_ENDPT a = uint (a AND 0xFF)"
definition ATT_SBADDR_RDOP :: "u32 \<Rightarrow> int" where "ATT_SBADDR_RDOP a = uint (drop_bit 8 a AND 0xF)"
definition ATT_SBADDR_WROP :: "u32 \<Rightarrow> int" where "ATT_SBADDR_WROP a = uint (drop_bit 16 a AND 0xF)"
definition ATT_SBADDR_BAR :: "u32 \<Rightarrow> int" where "ATT_SBADDR_BAR a = uint (drop_bit 24 a AND 0x7)"

record att_window =
  INT_BA :: u32
  INT_SIZE :: u32
  EXT_BA_LO :: u32
  EXT_BA_HI :: u32
  CONTROL :: u32

record att_sb_window =
  window_base :: u32
  window_size :: u32
  window_flags :: u32
  reg_C :: u32
  reg_10 :: u32
  reg_14 :: u32
  sb_address :: u32
  reg_1C :: u32

text \<open>The two arrays of 128 windows, and the configuration space of the function.\<close>

record att_inst =
  WIN :: "att_window list"
  SB_WIN :: "att_sb_window list"
  att_config :: pci_cfgspace

text \<open>
  Where the device lives, and what it is connected to: its PCI bus and the sideband.
\<close>

record 'w att_host =
  att_get :: "'w \<Rightarrow> att_inst"
  att_put :: "att_inst \<Rightarrow> 'w \<Rightarrow> 'w"
  att_prim_bus :: "'w pci_bus"
  att_sbdevs :: "'w sideband_dev list"

section \<open>Window search\<close>

text \<open>
  The searches compare an \<open>int\<close> address with \<open>uint32_t\<close> registers, so as unsigned numbers;
  the end address of a window is included and the sum may wrap.
\<close>

definition in_win :: "u32 \<Rightarrow> att_window \<Rightarrow> bool" where
  "in_win address win \<longleftrightarrow> \<not> ntst (CONTROL win) (BIT 0) \<and> \<not> address < INT_BA win \<and>
     \<not> address > INT_BA win + INT_SIZE win"

fun att_find_win_in :: "att_window list \<Rightarrow> u32 \<Rightarrow> att_window option" where
  "att_find_win_in [] address = None"
| "att_find_win_in (win # next) address = (if in_win address win then Some win else att_find_win_in next address)"

definition att_find_win :: "att_inst \<Rightarrow> u32 \<Rightarrow> att_window option" where
  "att_find_win att address = att_find_win_in (WIN att) address"

definition in_sb_win :: "u32 \<Rightarrow> att_sb_window \<Rightarrow> bool" where
  "in_sb_win address win \<longleftrightarrow> \<not> ntst (window_flags win) (BIT 0) \<and> \<not> address < window_base win \<and>
     \<not> address > window_base win + window_size win"

fun att_find_sb_win_in :: "att_sb_window list \<Rightarrow> u32 \<Rightarrow> att_sb_window option" where
  "att_find_sb_win_in [] address = None"
| "att_find_sb_win_in (win # next) address =
    (if in_sb_win address win then Some win else att_find_sb_win_in next address)"

definition att_find_sb_win :: "att_inst \<Rightarrow> u32 \<Rightarrow> att_sb_window option" where
  "att_find_sb_win att address = att_find_sb_win_in (SB_WIN att) address"

section \<open>Forwarding\<close>

definition att_ext :: "att_window \<Rightarrow> u32 \<Rightarrow> u64" where
  "att_ext win addr =
    (let ext = push_bit 32 (ucast (EXT_BA_HI win)) AND 0xFFFFFFFF00000000;
         ext = ext OR ucast (EXT_BA_LO win)
     in ext + ucast ((addr - INT_BA win) AND 0xFFFFFFFF))"

definition att_prim_read :: "'w att_host \<Rightarrow> u32 \<Rightarrow> bytes \<Rightarrow> int \<Rightarrow> int \<Rightarrow> 'w \<Rightarrow> (int \<times> bytes \<times> 'w) res" where
  "att_prim_read host addr buffer count sai w =
    (case att_find_win (att_get host w) addr of
       None \<Rightarrow> Inr (-1, buffer, w)
     | Some win \<Rightarrow> pci_bus_mem_read (att_prim_bus host) (att_ext win addr) buffer count sai 14 w)"

definition att_prim_write :: "'w att_host \<Rightarrow> u32 \<Rightarrow> bytes \<Rightarrow> int \<Rightarrow> int \<Rightarrow> 'w \<Rightarrow> (int \<times> 'w) res" where
  "att_prim_write host addr buffer count sai w =
    (case att_find_win (att_get host w) addr of
       None \<Rightarrow> Inr (-1, w)
     | Some win \<Rightarrow> pci_bus_mem_write (att_prim_bus host) (att_ext win addr) buffer count sai 14 w)"

definition att_sb_read :: "'w att_host \<Rightarrow> u32 \<Rightarrow> bytes \<Rightarrow> int \<Rightarrow> int \<Rightarrow> 'w \<Rightarrow> (int \<times> bytes \<times> 'w) res" where
  "att_sb_read host addr buffer count sai w =
    (case att_find_sb_win (att_get host w) addr of
       None \<Rightarrow> Inr (-1, buffer, w)
     | Some win \<Rightarrow> sb_read (att_sbdevs host) (ATT_SBADDR_ENDPT (sb_address win)) (ATT_SBADDR_RDOP (sb_address win))
         (ATT_SBADDR_BAR (sb_address win)) (sint (addr - window_base win)) buffer count sai w)"

definition att_sb_write :: "'w att_host \<Rightarrow> u32 \<Rightarrow> bytes \<Rightarrow> int \<Rightarrow> int \<Rightarrow> 'w \<Rightarrow> (int \<times> 'w) res" where
  "att_sb_write host addr buffer count sai w =
    (case att_find_sb_win (att_get host w) addr of
       None \<Rightarrow> Inr (-1, w)
     | Some win \<Rightarrow> sb_write (att_sbdevs host) (ATT_SBADDR_ENDPT (sb_address win)) (ATT_SBADDR_WROP (sb_address win))
         (ATT_SBADDR_BAR (sb_address win)) (sint (addr - window_base win)) buffer count sai w)"

section \<open>Register access\<close>

text \<open>\<open>addr\<close> is the offset in the BAR, below 0x1000, so the index is below 128.\<close>

definition att_prim_regs_read :: "att_inst \<Rightarrow> nat \<Rightarrow> bytes \<Rightarrow> int \<Rightarrow> (int \<times> bytes) res" where
  "att_prim_regs_read att addr buffer count =
    (let win = WIN att ! (addr div 32); ret = (\<lambda>v. rbind (st32 v buffer) (\<lambda>b. Inr (0, b))) in
     if addr mod 4 \<noteq> 0 then Inr (1, buffer)
     else if addr mod 32 = 0x00 then ret (INT_BA win)
     else if addr mod 32 = 0x04 then ret (INT_SIZE win)
     else if addr mod 32 = 0x08 then ret (EXT_BA_LO win)
     else if addr mod 32 = 0x0C then ret (EXT_BA_HI win)
     else if addr mod 32 = 0x10 then ret (CONTROL win)
     else Inr (-1, buffer))"

definition att_prim_regs_write :: "att_inst \<Rightarrow> nat \<Rightarrow> bytes \<Rightarrow> int \<Rightarrow> (int \<times> att_inst) res" where
  "att_prim_regs_write att addr buffer count =
    (let i = addr div 32; win = WIN att ! i;
         set = (\<lambda>upd. rbind (ld32 buffer) (\<lambda>v. Inr (1, att\<lparr>WIN := (WIN att)[i := upd v]\<rparr>))) in
     if addr mod 4 \<noteq> 0 then Inr (1, att)
     else if addr mod 32 = 0x00 then set (\<lambda>v. win\<lparr>INT_BA := v\<rparr>)
     else if addr mod 32 = 0x04 then set (\<lambda>v. win\<lparr>INT_SIZE := v\<rparr>)
     else if addr mod 32 = 0x08 then set (\<lambda>v. win\<lparr>EXT_BA_LO := v\<rparr>)
     else if addr mod 32 = 0x0C then set (\<lambda>v. win\<lparr>EXT_BA_HI := v\<rparr>)
     else if addr mod 32 = 0x10 then set (\<lambda>v. win\<lparr>CONTROL := v\<rparr>)
     else Inr (-1, att))"

definition att_sb_regs_read :: "att_inst \<Rightarrow> nat \<Rightarrow> bytes \<Rightarrow> int \<Rightarrow> (int \<times> bytes) res" where
  "att_sb_regs_read att addr buffer count =
    (let win = SB_WIN att ! (addr div 32); ret = (\<lambda>v. rbind (st32 v buffer) (\<lambda>b. Inr (1, b))) in
     if addr mod 4 \<noteq> 0 then Inr (1, buffer)
     else if addr mod 32 = 0x00 then ret (window_base win)
     else if addr mod 32 = 0x04 then ret (window_size win)
     else if addr mod 32 = 0x08 then ret (window_flags win)
     else if addr mod 32 = 0x0C then ret (reg_C win)
     else if addr mod 32 = 0x10 then ret (reg_10 win)
     else if addr mod 32 = 0x14 then ret (reg_14 win)
     else if addr mod 32 = 0x18 then ret (sb_address win)
     else if addr mod 32 = 0x1C then ret (reg_1C win)
     else Inr (1, buffer))"

definition att_sb_regs_write :: "att_inst \<Rightarrow> nat \<Rightarrow> bytes \<Rightarrow> int \<Rightarrow> (int \<times> att_inst) res" where
  "att_sb_regs_write att addr buffer count =
    (let i = addr div 32; win = SB_WIN att ! i;
         set = (\<lambda>upd. rbind (ld32 buffer) (\<lambda>v. Inr (1, att\<lparr>SB_WIN := (SB_WIN att)[i := upd v]\<rparr>))) in
     if addr mod 4 \<noteq> 0 then Inr (1, att)
     else if addr mod 32 = 0x00 then set (\<lambda>v. win\<lparr>window_base := v\<rparr>)
     else if addr mod 32 = 0x04 then set (\<lambda>v. win\<lparr>window_size := v\<rparr>)
     else if addr mod 32 = 0x08 then set (\<lambda>v. win\<lparr>window_flags := v\<rparr>)
     else if addr mod 32 = 0x0C then set (\<lambda>v. win\<lparr>reg_C := v\<rparr>)
     else if addr mod 32 = 0x10 then set (\<lambda>v. win\<lparr>reg_10 := v\<rparr>)
     else if addr mod 32 = 0x14 then set (\<lambda>v. win\<lparr>reg_14 := v\<rparr>)
     else if addr mod 32 = 0x18 then set (\<lambda>v. win\<lparr>sb_address := v\<rparr>)
     else if addr mod 32 = 0x1C then set (\<lambda>v. win\<lparr>reg_1C := v\<rparr>)
     else Inr (1, att))"

section \<open>The PCI function\<close>

definition att_cfg_read :: "'w att_host \<Rightarrow> u64 \<Rightarrow> bytes \<Rightarrow> int \<Rightarrow> 'w \<Rightarrow> (int \<times> bytes \<times> 'w) res" where
  "att_cfg_read host addr out count w =
    (if PCI_ADDR_TYPE addr = PCI_ADDR_TYPE1 then pci_bus_config_read (att_prim_bus host) addr out count w
     else let off = uint (PCI_ADDR_REG addr) in
       if off + count > PCI_CONFIG_SIZE then Inr (-1, out, w)
       else rbind (memcpy_int 0 count (drop (nat off) (att_config (att_get host w))) out)
         (\<lambda>out. Inr (0, out, w)))"

definition att_cfg_write :: "'w att_host \<Rightarrow> u64 \<Rightarrow> bytes \<Rightarrow> int \<Rightarrow> 'w \<Rightarrow> (int \<times> 'w) res" where
  "att_cfg_write host addr out count w =
    (if PCI_ADDR_TYPE addr = PCI_ADDR_TYPE1 then pci_bus_config_write (att_prim_bus host) addr out count w
     else let off = uint (PCI_ADDR_REG addr) in
       if off + count > PCI_CONFIG_SIZE then Inr (-1, w)
       else rbind (memcpy_int (nat off) count out (att_config (att_get host w)))
         (\<lambda>cfg. Inr (0, att_put host ((att_get host w)\<lparr>att_config := cfg\<rparr>) w)))"

text \<open>The loop over the two BARs: \<open>Some\<close> BAR and offset, or \<open>None\<close> when \<open>bar == 2\<close>.\<close>

definition att_match_bar :: "pci_cfgspace \<Rightarrow> u64 \<Rightarrow> (nat \<times> u64) option" where
  "att_match_bar cfg addr =
    (let hit = (\<lambda>bar. let base = ucast (cfg_bar bar cfg AND PCI_BAR_ADDRESS_MASK)
          in if addr < base then None else if addr - base < 0x1000 then Some (bar, addr - base) else None)
     in case hit 0 of Some r \<Rightarrow> Some r | None \<Rightarrow> hit 1)"

definition att_mem_write :: "'w att_host \<Rightarrow> u64 \<Rightarrow> bytes \<Rightarrow> int \<Rightarrow> int \<Rightarrow> int \<Rightarrow> 'w \<Rightarrow> (int \<times> 'w) res" where
  "att_mem_write host addr buf count sai lat w =
    (let i = att_get host w in
     case att_match_bar (att_config i) addr of
       None \<Rightarrow> rbind (att_prim_write host (ucast addr) buf count sai w) (\<lambda>(s, w).
         if s \<ge> 0 then Inr (s, w) else att_sb_write host (ucast addr) buf count sai w)
     | Some (bar, off) \<Rightarrow>
         if off + word_of_int count > 0x1000 then Inr (-1, w)
         else if ntst (cfg_command (att_config i)) PCI_COMMAND_MSE then Inr (-1, w)
         else rbind (if bar = 0 then att_prim_regs_write i (unat off) buf count
                     else att_sb_regs_write i (unat off) buf count)
           (\<lambda>(s, i). Inr (s, att_put host i w)))"

definition att_mem_read :: "'w att_host \<Rightarrow> u64 \<Rightarrow> bytes \<Rightarrow> int \<Rightarrow> int \<Rightarrow> int \<Rightarrow> 'w \<Rightarrow> (int \<times> bytes \<times> 'w) res" where
  "att_mem_read host addr buf count sai lat w =
    (let i = att_get host w in
     case att_match_bar (att_config i) addr of
       None \<Rightarrow> rbind (att_prim_read host (ucast addr) buf count sai w) (\<lambda>(s, buf, w).
         if s \<ge> 0 then Inr (s, buf, w) else att_sb_read host (ucast addr) buf count sai w)
     | Some (bar, off) \<Rightarrow>
         if off + word_of_int count > 0x1000 then Inr (-1, buf, w)
         else if ntst (cfg_command (att_config i)) PCI_COMMAND_MSE then Inr (-1, buf, w)
         else rbind (if bar = 0 then att_prim_regs_read i (unat off) buf count
                     else att_sb_regs_read i (unat off) buf count)
           (\<lambda>(s, buf). Inr (s, buf, w)))"

definition att_func :: "'w att_host \<Rightarrow> 'w pci_func" where
  "att_func host = \<lparr>func_bdf = 0, cfg_read = att_cfg_read host, cfg_write = att_cfg_write host,
     mem_read = att_mem_read host, mem_write = att_mem_write host\<rparr>"

section \<open>Configuration of the windows\<close>

text \<open>\<open>snprintf( vn, 40, "att_win_%i_..", j )\<close> for small \<open>j\<close>.\<close>

definition att_win_key :: "nat \<Rightarrow> string \<Rightarrow> string" where
  "att_win_key j suffix = ''att_win_'' @ dec_digits j @ ''_'' @ suffix"

text \<open>
  The loop of \<open>att_spawn\<close>. The local \<open>ext\<close> is not initialised, and \<open>cfg_find_int64\<close> leaves
  it alone when there is no entry: a window without an external address gets the value
  that \<open>ext\<close> had, which is the one of the window before it, or stack garbage.
\<close>

fun att_config_windows :: "cfg_section \<Rightarrow> nat \<Rightarrow> u64 \<Rightarrow> att_window list \<Rightarrow> att_window list" where
  "att_config_windows sec j ext [] = []"
| "att_config_windows sec j ext (win # wins) =
    (let ext = cfg_or (cfg_find_int64 sec (att_win_key j ''ext_ba'')) ext;
         win = win\<lparr>INT_BA := cfg_or (cfg_find_int32 sec (att_win_key j ''int_ba'')) (INT_BA win),
                   INT_SIZE := cfg_or (cfg_find_int32 sec (att_win_key j ''size'')) (INT_SIZE win),
                   EXT_BA_HI := ucast (drop_bit 32 ext), EXT_BA_LO := ucast ext,
                   CONTROL := cfg_or (cfg_find_int32 sec (att_win_key j ''control'')) (CONTROL win)\<rparr>
     in win # att_config_windows sec (Suc j) ext wins)"

definition zero_window :: att_window where
  "zero_window = \<lparr>INT_BA = 0, INT_SIZE = 0, EXT_BA_LO = 0, EXT_BA_HI = 0, CONTROL = 0\<rparr>"

definition zero_sb_window :: att_sb_window where
  "zero_sb_window = \<lparr>window_base = 0, window_size = 0, window_flags = 0, reg_C = 0, reg_10 = 0,
     reg_14 = 0, sb_address = 0, reg_1C = 0\<rparr>"

text \<open>
  The order of \<open>att_spawn\<close>: the function is registered on the bus its section names, then
  the device's own bus is registered, then the windows are filled, then the device is
  registered. The bus of the host is that bus as the accesses find it, with the functions that are
  registered on it after this. \<open>garbage\<close> is what \<open>ext\<close> held.
\<close>

definition att_spawn :: "u64 \<Rightarrow> 'w att_host \<Rightarrow> cfg_section \<Rightarrow> 'w pci_bus list \<Rightarrow> unit device_instance list \<Rightarrow> 'w \<Rightarrow>
    ('w pci_bus list \<times> unit device_instance list \<times> 'w) res" where
  "att_spawn garbage host sec buses devs w =
    (let cfg = pci_cfg_handle_type0 sec False (replicate 0x1000 0) in
     rbind (pci_cfg_handle_device (att_func host) sec buses) (\<lambda>buses.
       case cfg_find_string sec ''att_bus'' of
         None \<Rightarrow> Inl ExitFailure
       | Some name \<Rightarrow>
           rbind (pci_bus_register \<lparr>bus_name = name, bus_funcs = [], bus_num = 0\<rparr> buses) (\<lambda>buses.
             let i = \<lparr>WIN = att_config_windows sec 0 garbage (replicate 128 zero_window),
                      SB_WIN = replicate 128 zero_sb_window, att_config = cfg\<rparr>
             in rbind (device_register \<lparr>device_name = section_name sec, device_impl = ()\<rparr> devs)
                  (\<lambda>devs. Inr (buses, devs, att_put host i w)))))"

section \<open>The register BARs are register files\<close>

definition att_offsets :: "nat set" where
  "att_offsets = {a. a < 0x1000 \<and> a mod 4 = 0}"

text \<open>What a 32 bit access through the handlers reads and leaves.\<close>

definition read_reg :: "(int \<times> bytes) res \<Rightarrow> u32" where
  "read_reg m = (case m of Inr (s, b) \<Rightarrow> le_word b | Inl _ \<Rightarrow> 0)"

definition write_reg :: "(int \<times> 's) res \<Rightarrow> 's \<Rightarrow> 's" where
  "write_reg m s = (case m of Inr (_, s') \<Rightarrow> s' | Inl _ \<Rightarrow> s)"

definition att_sb_rd :: "nat \<Rightarrow> att_inst \<Rightarrow> u32" where
  "att_sb_rd a att = read_reg (att_sb_regs_read att a (replicate 4 0) 4)"

definition att_sb_wr :: "nat \<Rightarrow> u32 \<Rightarrow> att_inst \<Rightarrow> att_inst" where
  "att_sb_wr a v att = write_reg (att_sb_regs_write att a (le_bytes 4 v) 4) att"

definition att_prim_rd :: "nat \<Rightarrow> att_inst \<Rightarrow> u32" where
  "att_prim_rd a att = read_reg (att_prim_regs_read att a (replicate 4 0) 4)"

definition att_prim_wr :: "nat \<Rightarrow> u32 \<Rightarrow> att_inst \<Rightarrow> att_inst" where
  "att_prim_wr a v att = write_reg (att_prim_regs_write att a (le_bytes 4 v) 4) att"

text \<open>The offsets of the implemented primary registers: five of the eight of a window.\<close>

definition att_prim_offsets :: "nat set" where
  "att_prim_offsets = {a. a < 0x1000 \<and> a mod 4 = 0 \<and> a mod 32 \<le> 0x10}"

lemma window_index: "(a :: nat) < 0x1000 \<Longrightarrow> a div 32 < 128"
  by (simp add: less_mult_imp_div_less)

lemma mod_32_cases:
  fixes a :: nat
  assumes "a mod 4 = 0"
  shows "a mod 32 = 0 \<or> a mod 32 = 4 \<or> a mod 32 = 8 \<or> a mod 32 = 12 \<or>
    a mod 32 = 16 \<or> a mod 32 = 20 \<or> a mod 32 = 24 \<or> a mod 32 = 28"
proof -
  have "a mod 32 mod 4 = 0" using assms by (simp add: mod_mod_cancel)
  moreover have "a mod 32 < 32" by simp
  ultimately show ?thesis by presburger
qed

lemma same_reg: "(a :: nat) = b \<longleftrightarrow> a div 32 = b div 32 \<and> a mod 32 = b mod 32"
  by (metis div_mult_mod_eq)

lemma le_word_4 [simp]: "le_word (le_bytes 4 (v :: u32)) = v"
  by (simp add: le_word_le_bytes)

lemma read_reg_st [simp]:
  "read_reg (Inr (s, le_bytes 4 v)) = v"
  by (simp add: read_reg_def)

text \<open>The register at an offset within a window.\<close>

definition sb_field :: "nat \<Rightarrow> att_sb_window \<Rightarrow> u32" where
  "sb_field r win = (if r = 0 then window_base win else if r = 4 then window_size win
     else if r = 8 then window_flags win else if r = 12 then reg_C win else if r = 16 then reg_10 win
     else if r = 20 then reg_14 win else if r = 24 then sb_address win else reg_1C win)"

definition sb_set :: "nat \<Rightarrow> u32 \<Rightarrow> att_sb_window \<Rightarrow> att_sb_window" where
  "sb_set r v win = (if r = 0 then win\<lparr>window_base := v\<rparr> else if r = 4 then win\<lparr>window_size := v\<rparr>
     else if r = 8 then win\<lparr>window_flags := v\<rparr> else if r = 12 then win\<lparr>reg_C := v\<rparr>
     else if r = 16 then win\<lparr>reg_10 := v\<rparr> else if r = 20 then win\<lparr>reg_14 := v\<rparr>
     else if r = 24 then win\<lparr>sb_address := v\<rparr> else win\<lparr>reg_1C := v\<rparr>)"

definition prim_field :: "nat \<Rightarrow> att_window \<Rightarrow> u32" where
  "prim_field r win = (if r = 0 then INT_BA win else if r = 4 then INT_SIZE win
     else if r = 8 then EXT_BA_LO win else if r = 12 then EXT_BA_HI win else CONTROL win)"

definition prim_set :: "nat \<Rightarrow> u32 \<Rightarrow> att_window \<Rightarrow> att_window" where
  "prim_set r v win = (if r = 0 then win\<lparr>INT_BA := v\<rparr> else if r = 4 then win\<lparr>INT_SIZE := v\<rparr>
     else if r = 8 then win\<lparr>EXT_BA_LO := v\<rparr> else if r = 12 then win\<lparr>EXT_BA_HI := v\<rparr>
     else win\<lparr>CONTROL := v\<rparr>)"

lemma sb_access:
  assumes "a mod 4 = 0"
  shows "att_sb_rd a att = sb_field (a mod 32) (SB_WIN att ! (a div 32))"
    and "att_sb_wr a v att = att\<lparr>SB_WIN := (SB_WIN att)[a div 32 := sb_set (a mod 32) v (SB_WIN att ! (a div 32))]\<rparr>"
  using mod_32_cases[OF assms] assms
  by (auto simp: att_sb_rd_def att_sb_wr_def att_sb_regs_read_def att_sb_regs_write_def sb_field_def sb_set_def
      write_reg_def Let_def)

lemma prim_access:
  assumes "a mod 4 = 0" and "a mod 32 \<le> 0x10"
  shows "att_prim_rd a att = prim_field (a mod 32) (WIN att ! (a div 32))"
    and "att_prim_wr a v att = att\<lparr>WIN := (WIN att)[a div 32 := prim_set (a mod 32) v (WIN att ! (a div 32))]\<rparr>"
  using mod_32_cases[OF assms(1)] assms
  by (auto simp: att_prim_rd_def att_prim_wr_def att_prim_regs_read_def att_prim_regs_write_def prim_field_def
      prim_set_def write_reg_def Let_def)

lemma sb_field_set: "r mod 4 = 0 \<Longrightarrow> r' mod 4 = 0 \<Longrightarrow> r < 32 \<Longrightarrow> r' < 32 \<Longrightarrow>
  sb_field r (sb_set r' v win) = (if r = r' then v else sb_field r win)"
  using mod_32_cases[of r] mod_32_cases[of r'] by (simp add: sb_set_def) (auto simp: sb_field_def)

lemma prim_field_set: "r mod 4 = 0 \<Longrightarrow> r' mod 4 = 0 \<Longrightarrow> r \<le> 16 \<Longrightarrow> r' \<le> 16 \<Longrightarrow>
  prim_field r (prim_set r' v win) = (if r = r' then v else prim_field r win)"
  using mod_32_cases[of r] mod_32_cases[of r'] by (simp add: prim_set_def) (auto simp: prim_field_def)

lemma mod_32_4: "(a :: nat) mod 4 = 0 \<Longrightarrow> a mod 32 mod 4 = 0"
  by (simp add: mod_mod_cancel)

interpretation sb_regs: reg_file att_sb_rd att_sb_wr att_offsets "\<lambda>att. length (SB_WIN att) = 128"
proof (unfold_locales, goal_cases)
  case (1 att a b v)
  then have ab: "a div 32 < 128" "b div 32 < 128" "a mod 4 = 0" "b mod 4 = 0" "length (SB_WIN att) = 128"
    by (auto simp: att_offsets_def window_index)
  then have "sb_field (a mod 32) (sb_set (b mod 32) v win) = (if a mod 32 = b mod 32 then v else sb_field (a mod 32) win)" for win
    by (intro sb_field_set) (simp_all add: mod_32_4)
  then show ?case
    using sb_field_set[of "b mod 32" "b mod 32"] mod_32_4[OF ab(4)]
    unfolding same_reg[of a b] by (simp add: sb_access ab nth_list_update)
next
  case (2 att a v)
  then show ?case by (simp add: sb_access att_offsets_def)
qed

interpretation prim_regs: reg_file att_prim_rd att_prim_wr att_prim_offsets "\<lambda>att. length (WIN att) = 128"
proof (unfold_locales, goal_cases)
  case (1 att a b v)
  then have ab: "a div 32 < 128" "b div 32 < 128" "a mod 4 = 0" "b mod 4 = 0" "a mod 32 \<le> 16" "b mod 32 \<le> 16"
      "length (WIN att) = 128"
    by (auto simp: att_prim_offsets_def window_index)
  then have "prim_field (a mod 32) (prim_set (b mod 32) v win) = (if a mod 32 = b mod 32 then v else prim_field (a mod 32) win)" for win
    by (intro prim_field_set) (simp_all add: mod_32_4)
  then show ?case
    using prim_field_set[of "b mod 32" "b mod 32"] mod_32_4[OF ab(4)] ab(6)
    unfolding same_reg[of a b] by (simp add: prim_access ab nth_list_update)
next
  case (2 att a v)
  then show ?case by (simp add: prim_access att_prim_offsets_def)
qed

text \<open>C31. The sideband windows behind BAR 1 are plain registers: after any sequence of 32 bit
  writes to aligned offsets of the BAR, a read of any aligned offset returns the value of
  the last write to it, or what was there before.\<close>

theorem att_sb_regs_last_write:
  assumes "length (SB_WIN att) = 128" and "fst ` set ws \<subseteq> att_offsets" and "a \<in> att_offsets"
  shows "att_sb_rd a (write_all att_sb_wr ws att) = (case last_write ws a of Some v \<Rightarrow> v | None \<Rightarrow> att_sb_rd a att)"
  using sb_regs.read_write_all[OF assms] .

definition att_zero :: att_inst where
  "att_zero = \<lparr>WIN = replicate 128 zero_window, SB_WIN = replicate 128 zero_sb_window,
     att_config = replicate 0x1000 0\<rparr>"

theorem att_sb_regs_last_write_witness:
  "att_sb_rd 0x38 (write_all att_sb_wr [(0x38, 5), (0x3C, 6), (0x38, 7)] att_zero) = 7"
  using att_sb_regs_last_write[of att_zero "[(0x38, 5), (0x3C, 6), (0x38, 7)]" "0x38"]
  by (simp add: att_zero_def att_offsets_def last_write_def)

section \<open>Translation\<close>

lemma find_win_in:
  "att_find_win_in wins a = Some win \<Longrightarrow> win \<in> set wins \<and> in_win a win"
  by (induction wins) (auto split: if_splits)

lemma in_win_offset:
  assumes "in_win a win"
  shows "INT_BA win \<le> a" and "a - INT_BA win \<le> INT_SIZE win"
proof -
  show le: "INT_BA win \<le> a" using assms(1) by (simp add: in_win_def not_less)
  have "a \<le> INT_BA win + INT_SIZE win" using assms(1) by (simp add: in_win_def not_less)
  then have "uint a \<le> uint (INT_BA win) + uint (INT_SIZE win)"
    using uint_add_le[of "INT_BA win" "INT_SIZE win"] unfolding word_le_def by linarith
  moreover have "uint (a - INT_BA win) = uint a - uint (INT_BA win)"
    using le by (simp add: uint_sub_lem word_le_def)
  ultimately show "a - INT_BA win \<le> INT_SIZE win" by (simp add: word_le_def)
qed

text \<open>The external base of a window as one 64 bit number.\<close>

definition ext_base :: "att_window \<Rightarrow> u64" where
  "ext_base win = push_bit 32 (ucast (EXT_BA_HI win)) + ucast (EXT_BA_LO win)"

lemma att_ext_base: "att_ext win a = ext_base win + ucast (a - INT_BA win)"
proof -
  have m: "(0xFFFFFFFF00000000 :: u64) = push_bit 32 (mask 32)" "(0xFFFFFFFF :: u32) = mask 32"
    by (simp_all add: mask_eq_exp_minus_1 push_bit_eq_mult)
  have "push_bit 32 (ucast (EXT_BA_HI win)) + ucast (EXT_BA_LO win) =
      push_bit 32 (ucast (EXT_BA_HI win)) OR (ucast (EXT_BA_LO win) :: u64)"
    by (rule disjunctive_add_eq_or, rule bit_word_eqI) (auto simp: bit_simps dest: bit_imp_le_length)
  moreover have "push_bit 32 (ucast (EXT_BA_HI win)) AND push_bit 32 (mask 32) = (push_bit 32 (ucast (EXT_BA_HI win)) :: u64)"
    by (rule bit_word_eqI) (auto simp: bit_simps)
  moreover have "(a - INT_BA win) AND mask 32 = a - INT_BA win"
    by (rule bit_word_eqI) (auto simp: bit_simps)
  ultimately show ?thesis
    unfolding att_ext_def ext_base_def m Let_def by simp
qed

text \<open>C30. An access that misses both register BARs goes through the first enabled primary
  window that contains its address: it becomes one memory cycle on the gasket's own bus at
  the 64 bit external base plus the offset in the window, which is at most the size of the
  window, with the same data and SAI and 14 clocks; the answer of the bus is the answer of
  the device, unless it is negative, in which case the sideband windows are tried.\<close>

theorem att_read_translates:
  assumes "att_match_bar (att_config (att_get host w)) addr = None"
    and "att_find_win (att_get host w) (ucast addr) = Some win"
  shows "win \<in> set (WIN (att_get host w)) \<and> bit (CONTROL win) 0 \<and>
    ucast addr - INT_BA win \<le> INT_SIZE win \<and>
    att_mem_read host addr buf count sai lat w =
      rbind (pci_bus_mem_read (att_prim_bus host) (ext_base win + ucast (ucast addr - INT_BA win)) buf count sai 14 w)
        (\<lambda>(s, buf, w). if s \<ge> 0 then Inr (s, buf, w) else att_sb_read host (ucast addr) buf count sai w) \<and>
    att_mem_write host addr buf count sai lat w =
      rbind (pci_bus_mem_write (att_prim_bus host) (ext_base win + ucast (ucast addr - INT_BA win)) buf count sai 14 w)
        (\<lambda>(s, w). if s \<ge> 0 then Inr (s, w) else att_sb_write host (ucast addr) buf count sai w)"
  using assms find_win_in[of "WIN (att_get host w)" "ucast addr" win]
    in_win_offset(2)[of "ucast addr" win]
  by (auto simp: att_find_win_def in_win_def att_mem_read_def att_mem_write_def att_prim_read_def
      att_prim_write_def att_ext_base Let_def)

definition one_window :: att_inst where
  "one_window = att_zero\<lparr>WIN := \<lparr>INT_BA = 0x2000, INT_SIZE = 0x100, EXT_BA_LO = 0x40, EXT_BA_HI = 1,
     CONTROL = 1\<rparr> # replicate 127 zero_window\<rparr>"

definition plain_host :: "att_inst att_host" where
  "plain_host = \<lparr>att_get = (\<lambda>w. w), att_put = (\<lambda>i w. i),
     att_prim_bus = \<lparr>bus_name = ''b'', bus_funcs = [], bus_num = 0\<rparr>, att_sbdevs = []\<rparr>"

lemma one_window_bars: "cfg_bar n (att_config one_window) = 0" if "n < 6"
proof -
  have "slice (16 + 4 * n) 4 (replicate 0x1000 0) = (replicate 4 0 :: bytes)"
    using that by (simp add: slice_def)
  then show ?thesis by (simp add: cfg_bar_def get_field_def one_window_def att_zero_def numeral_eq_Suc)
qed

theorem att_read_translates_witness:
  "att_mem_read plain_host 0x2080 [0] 1 0 0 one_window = Inr (-1, [0], one_window)"
proof -
  let ?win = "\<lparr>INT_BA = 0x2000, INT_SIZE = 0x100, EXT_BA_LO = 0x40, EXT_BA_HI = 1, CONTROL = 1\<rparr>"
  have w: "att_find_win (att_get plain_host one_window) (ucast (0x2080 :: u64)) = Some ?win"
    by (simp add: plain_host_def att_find_win_def one_window_def in_win_def)
  have b: "att_match_bar (att_config (att_get plain_host one_window)) 0x2080 = None"
    by (simp add: plain_host_def att_match_bar_def one_window_bars Let_def)
  have sb: "att_find_sb_win one_window 0x2080 = None"
  proof -
    have "att_find_sb_win_in (replicate n zero_sb_window) a = None" for n a
      by (induction n) (simp_all add: in_sb_win_def zero_sb_window_def)
    then show ?thesis by (simp add: att_find_sb_win_def one_window_def att_zero_def)
  qed
  have lats: "mem_read_lats n [] addr out count sai lat w = Inr (-1, out, w)" for n addr out count sai lat and w :: att_inst
    by (induction n arbitrary: lat) simp_all
  show ?thesis
    using att_read_translates[OF b w, of "[0]" 1 0 0]
    by (simp add: plain_host_def pci_bus_mem_read_def lats att_sb_read_def sb)
qed

text \<open>The first byte behind an enabled window, at base plus size, is still translated:
  the end address of a window is compared with "greater than", so adjacent windows overlap
  by one address, which the lower-numbered window takes.\<close>

lemma att_window_end_included:
  assumes "WIN att = win # wins" and "bit (CONTROL win) 0" and "INT_BA win \<le> INT_BA win + INT_SIZE win"
  shows "att_find_win att (INT_BA win + INT_SIZE win) = Some win"
  using assms by (simp add: att_find_win_def in_win_def not_less)

text \<open>A window of the configuration that has no external address entry takes over the
  external address of the window before it, although nothing in the file says so: the
  variable of the spawn loop is not reset.\<close>

lemma att_window_inherits_ext:
  assumes "Suc j < length wins" and "cfg_find_int64 sec (att_win_key (k + Suc j) ''ext_ba'') = None"
  shows "EXT_BA_LO (att_config_windows sec k ext wins ! Suc j) = EXT_BA_LO (att_config_windows sec k ext wins ! j) \<and>
    EXT_BA_HI (att_config_windows sec k ext wins ! Suc j) = EXT_BA_HI (att_config_windows sec k ext wins ! j)"
  using assms
proof (induction j arbitrary: k ext wins)
  case 0
  then obtain a b ws where "wins = a # b # ws" by (cases wins; cases "tl wins") auto
  with 0 show ?case by (simp add: Let_def)
next
  case (Suc j)
  then obtain a ws where "wins = a # ws" by (cases wins) auto
  with Suc show ?case by (simp add: Let_def)
qed

end
