(* ===== verification/NumFmt.thy ===== *)
theory NumFmt
  imports Prelude
begin

text \<open>
  \<open>util/numfmt.c\<close>: numbers as text. The C functions fill a local buffer from its end; here
  what is in the buffer is the string built so far, and its capacity is checked. The result
  is the C string left in \<open>str\<close>. \<open>intmax_t\<close> has 64 bits and \<open>int\<close> 32.
\<close>

section \<open>The code\<close>

definition NF_ZEROPAD :: u32 where "NF_ZEROPAD = BIT 0"
definition NF_SGNPLUS :: u32 where "NF_SGNPLUS = BIT 1"

definition numfmt_digits :: string where
  "numfmt_digits = ''0123456789ABCDEF''"

text \<open>The \<open>do .. while ( num != 0 )\<close> loop; \<open>base\<close> was asserted to be at least 2.\<close>

function put_digits :: "nat \<Rightarrow> nat \<Rightarrow> string \<Rightarrow> string" where
  "put_digits base num buf =
    (let buf = (numfmt_digits ! (num mod base)) # buf; num = num div base
     in if num = 0 \<or> base < 2 then buf else put_digits base num buf)"
  by pat_completeness auto
termination
  by (relation "measure (\<lambda>(base, num, buf). num)") (auto simp: div_eq_0_iff not_less)

declare put_digits.simps [simp del]

text \<open>
  From the padding on the two functions are the same: \<open>s\<close> is the number with its sign,
  \<open>capacity\<close> is \<open>sizeof buf\<close>. If the text does not fit, its front is cut off; a \<open>str_len\<close>
  of 0 or 1 leaves the objects.
\<close>

definition numfmt_finish :: "u32 \<Rightarrow> int \<Rightarrow> nat \<Rightarrow> string \<Rightarrow> nat \<Rightarrow> string res" where
  "numfmt_finish flags width capacity s str_len =
    (if length s > capacity then Inl OutOfBounds
     else
       let room = nat (width - int (length s));
           pad = (if tst flags NF_ZEROPAD then CHR ''0'' else CHR '' '');
           tail = replicate room pad @ s;
           width = length tail;
           width' = (if width \<ge> str_len - 1 then str_len - 2 else width)
       in if str_len < 2 then Inl OutOfBounds
          else Inr (drop (length tail - width') tail))"

text \<open>A negative \<open>width\<close> is a huge \<open>size_t\<close> in the assertion. \<open>-INTMAX_MIN\<close> overflows.\<close>

definition numfmt_signed :: "int \<Rightarrow> u32 \<Rightarrow> int \<Rightarrow> nat \<Rightarrow> nat \<Rightarrow> string res" where
  "numfmt_signed num flags width base str_len =
    (if \<not> (2 \<le> base \<and> base \<le> 16) then Inl AssertFailed
     else if width < 0 \<or> 65 \<le> width then Inl AssertFailed
     else if num = - (2 ^ 63) then Inl BadUsage
     else
       let digits = put_digits base (nat \<bar>num\<bar>) [];
           s = (if num < 0 then CHR ''-'' # digits
                else if tst flags NF_SGNPLUS then CHR ''+'' # digits else digits)
       in numfmt_finish flags width 65 s str_len)"

definition numfmt_unsigned :: "u64 \<Rightarrow> u32 \<Rightarrow> int \<Rightarrow> nat \<Rightarrow> nat \<Rightarrow> string res" where
  "numfmt_unsigned num flags width base str_len =
    (if \<not> (2 \<le> base \<and> base \<le> 16) then Inl AssertFailed
     else if width < 0 \<or> 33 \<le> width then Inl AssertFailed
     else
       let digits = put_digits base (unat num) [];
           s = (if tst flags NF_SGNPLUS then CHR ''+'' # digits else digits)
       in numfmt_finish flags width 33 s str_len)"

section \<open>Digits\<close>

text \<open>The value of a digit, and of a numeral, read from its most significant digit.\<close>

definition digit_value :: "char \<Rightarrow> nat" where
  "digit_value c = (if c \<in> set ''0123456789'' then of_char c - 48 else of_char c - 55)"

definition numeral_value :: "nat \<Rightarrow> string \<Rightarrow> nat" where
  "numeral_value base s = foldl (\<lambda>v c. v * base + digit_value c) 0 s"

text \<open>The digits as a list without the accumulator.\<close>

definition digits_of :: "nat \<Rightarrow> nat \<Rightarrow> string" where
  "digits_of base num = put_digits base num []"

lemma put_digits_append: "put_digits base num buf = digits_of base num @ buf"
proof (induction num arbitrary: buf rule: less_induct)
  case (less num)
  show ?case
  proof (cases "num div base = 0 \<or> base < 2")
    case True
    then show ?thesis by (auto simp: digits_of_def put_digits.simps Let_def)
  next
    case False
    then have "num div base < num" by (auto simp: div_eq_0_iff not_less)
    note IH = less.IH[OF this]
    show ?thesis
      using False IH[of "numfmt_digits ! (num mod base) # buf"] IH[of "[numfmt_digits ! (num mod base)]"]
      by (simp add: digits_of_def[of base num] put_digits.simps[of base num] Let_def)
  qed
qed

lemma digits_of_rec:
  "2 \<le> base \<Longrightarrow> digits_of base num =
    (if num < base then [numfmt_digits ! num]
     else digits_of base (num div base) @ [numfmt_digits ! (num mod base)])"
  using put_digits_append[of base "num div base" "[numfmt_digits ! (num mod base)]"]
  by (simp add: digits_of_def put_digits.simps[of base num] Let_def div_eq_0_iff)

lemma digit_value_nth: "d < 16 \<Longrightarrow> digit_value (numfmt_digits ! d) = d"
proof -
  have "list_all (\<lambda>d. digit_value (numfmt_digits ! d) = d) [0..<16]" by code_simp
  then show "d < 16 \<Longrightarrow> digit_value (numfmt_digits ! d) = d" by (simp add: list_all_iff)
qed

lemma numeral_value_digits:
  assumes "2 \<le> base" and "base \<le> 16"
  shows "numeral_value base (digits_of base num) = num"
proof (induction num rule: less_induct)
  case (less num)
  show ?case
  proof (cases "num < base")
    case True
    then show ?thesis
      using assms by (simp add: digits_of_rec numeral_value_def digit_value_nth)
  next
    case False
    then have "num div base < num" using assms by simp
    moreover have "num mod base < 16" using assms mod_less_divisor[of base num] by linarith
    ultimately show ?thesis
      using less[of "num div base"] False assms
      by (simp add: digits_of_rec[of base num] numeral_value_def digit_value_nth)
  qed
qed

text \<open>There is no leading zero, so a numeral determines its digits.\<close>

lemma digits_of_leading:
  assumes "2 \<le> base" and "base \<le> 16" and "0 < num"
  shows "digits_of base num \<noteq> [] \<and> hd (digits_of base num) \<noteq> CHR ''0''"
  using assms(3)
proof (induction num rule: less_induct)
  case (less num)
  show ?case
  proof (cases "num < base")
    case True
    have "numfmt_digits ! num \<noteq> CHR ''0''"
    proof
      assume "numfmt_digits ! num = CHR ''0''"
      then have "digit_value (numfmt_digits ! num) = 0" by (simp add: digit_value_def)
      with digit_value_nth[of num] True assms less.prems show False by simp
    qed
    then show ?thesis using True assms(1) by (simp add: digits_of_rec)
  next
    case False
    have "num div base < num" "0 < num div base" using False assms by (simp_all add: div_greater_zero_iff)
    from less.IH[OF this] False show ?thesis
      using assms(1) by (auto simp: digits_of_rec[of base num])
  qed
qed

text \<open>\<open>k\<close> digits are enough for numbers below \<open>base ^ k\<close>.\<close>

lemma length_digits_of:
  assumes "2 \<le> base"
  shows "num < base ^ Suc k \<Longrightarrow> length (digits_of base num) \<le> Suc k"
proof (induction k arbitrary: num)
  case 0
  then show ?case using assms by (simp add: digits_of_rec)
next
  case (Suc k)
  show ?case
  proof (cases "num < base")
    case False
    have "num div base < base ^ Suc k"
      using Suc.prems assms by (simp add: less_mult_imp_div_less mult.commute)
    from Suc.IH[OF this] False show ?thesis using assms by (simp add: digits_of_rec[of base num])
  qed (use assms in \<open>simp add: digits_of_rec\<close>)
qed

section \<open>What the functions print\<close>

definition pad_char :: "u32 \<Rightarrow> char" where
  "pad_char flags = (if tst flags NF_ZEROPAD then CHR ''0'' else CHR '' '')"

definition sign_of :: "int \<Rightarrow> u32 \<Rightarrow> string" where
  "sign_of num flags = (if num < 0 then ''-'' else if tst flags NF_SGNPLUS then ''+'' else [])"

lemma length_sign_of: "length (sign_of num flags) \<le> 1"
  by (simp add: sign_of_def)

text \<open>A canonical numeral: the only one without leading zeros for its value.\<close>

definition is_numeral :: "nat \<Rightarrow> nat \<Rightarrow> string \<Rightarrow> bool" where
  "is_numeral base v s \<longleftrightarrow> numeral_value base s = v \<and> s \<noteq> [] \<and> (0 < v \<longrightarrow> hd s \<noteq> CHR ''0'') \<and> (v = 0 \<longrightarrow> s = ''0'')"

lemma numeral_value_0: "numeral_value base ''0'' = 0"
  by (simp add: numeral_value_def digit_value_def)

lemma is_numeral_digits: "2 \<le> base \<Longrightarrow> base \<le> 16 \<Longrightarrow> is_numeral base v (digits_of base v)"
  using digits_of_leading[of base v]
  by (cases "v = 0") (auto simp: is_numeral_def numeral_value_digits digits_of_rec[of base 0] numfmt_digits_def
      numeral_value_0)

lemma numfmt_finish_fits:
  assumes "length s \<le> capacity" and "max (nat width) (length s) < str_len - 1"
  shows "numfmt_finish flags width capacity s str_len =
    Inr (replicate (nat width - length s) (pad_char flags) @ s)"
proof -
  have "nat (width - int (length s)) = nat width - length s" by simp
  with assms show ?thesis
    by (auto simp: numfmt_finish_def pad_char_def Let_def)
qed

lemma length_digits_63:
  assumes "3 \<le> base" and "v < 2 ^ 63"
  shows "length (digits_of base v) \<le> 40"
proof -
  have "(2 :: nat) ^ 63 \<le> 3 ^ 40" by simp
  also have "\<dots> \<le> base ^ 40" using assms(1) by (rule power_mono) simp
  finally have "v < base ^ Suc 39" using assms(2) by simp
  from length_digits_of[OF _ this] assms(1) show ?thesis by simp
qed

lemma length_digits_64:
  assumes "8 \<le> base" and "v < 2 ^ 64"
  shows "length (digits_of base v) \<le> 22"
proof -
  have "(2 :: nat) ^ 64 \<le> 8 ^ 22" by simp
  also have "\<dots> \<le> base ^ 22" using assms(1) by (rule power_mono) simp
  finally have "v < base ^ Suc 21" using assms(2) by simp
  from length_digits_of[OF _ this] assms(1) show ?thesis by simp
qed

lemma numfmt_signed_text:
  assumes "- (2 ^ 63) < num" and "num < 2 ^ 63" and "0 \<le> width" and "width < 64" and "3 \<le> base" and "base \<le> 16"
  shows "numfmt_signed num flags width base 65 =
    Inr (replicate (nat width - length (sign_of num flags @ digits_of base (nat \<bar>num\<bar>))) (pad_char flags) @
      sign_of num flags @ digits_of base (nat \<bar>num\<bar>))"
proof -
  let ?ds = "digits_of base (nat \<bar>num\<bar>)"
  have l: "length ?ds \<le> 40" using assms by (intro length_digits_63) simp_all
  then have "length (sign_of num flags @ ?ds) \<le> 41" using length_sign_of[of num flags] by simp
  moreover have "numfmt_signed num flags width base 65 = numfmt_finish flags width 65 (sign_of num flags @ ?ds) 65"
    using assms by (simp add: numfmt_signed_def sign_of_def digits_of_def Let_def)
  ultimately show ?thesis using assms(3,4) by (subst numfmt_finish_fits[symmetric]) simp_all
qed

text \<open>C39. In every base from 3 to 16, a signed number is printed as its sign and its canonical
  numeral, and padded in front to a width below 64. With zero padding the zeros stand before
  the sign. (In base 2 a sign and 63 digits do not fit the buffer.)\<close>

theorem numfmt_signed_prints:
  assumes "- (2 ^ 63) < num" and "num < 2 ^ 63" and "0 \<le> width" and "width < 64" and "3 \<le> base" and "base \<le> 16"
  shows "\<exists>ds. is_numeral base (nat \<bar>num\<bar>) ds \<and> numfmt_signed num flags width base 65 =
    Inr (replicate (nat width - length (sign_of num flags @ ds)) (pad_char flags) @ sign_of num flags @ ds)"
  using numfmt_signed_text[OF assms] is_numeral_digits[of base "nat \<bar>num\<bar>"] assms(5,6) by auto

theorem numfmt_signed_prints_witness:
  "\<exists>ds. is_numeral 10 5 ds \<and> numfmt_signed (-5) NF_ZEROPAD 4 10 65 = Inr (replicate (3 - length ds) CHR ''0'' @ ''-'' @ ds)"
proof -
  obtain ds where "is_numeral 10 5 ds" "numfmt_signed (-5) NF_ZEROPAD 4 10 65 =
      Inr (replicate (nat 4 - length (sign_of (-5) NF_ZEROPAD @ ds)) (pad_char NF_ZEROPAD) @ sign_of (-5) NF_ZEROPAD @ ds)"
    using numfmt_signed_prints[of "-5" 4 10 NF_ZEROPAD] by auto
  then show ?thesis
    by (intro exI[of _ ds]) (simp add: sign_of_def pad_char_def NF_ZEROPAD_def bit_simps)
qed

text \<open>An unsigned 64 bit number in base 8, 10 or 16 always fits the 33 byte buffer of
  \<open>numfmt_unsigned\<close>, and is printed as its canonical numeral, padded in front to the width.\<close>

lemma numfmt_unsigned_prints:
  assumes "0 \<le> width" and "width < 33" and "8 \<le> base" and "base \<le> 16"
  shows "\<exists>ds. is_numeral base (unat num) ds \<and> numfmt_unsigned num flags width base 65 =
    Inr (replicate (nat width - length (sign_of 0 flags @ ds)) (pad_char flags) @ sign_of 0 flags @ ds)"
proof -
  let ?ds = "digits_of base (unat num)"
  have "unat num < 2 ^ 64" by (rule order_less_le_trans[OF unsigned_less]) simp
  then have l: "length ?ds \<le> 22" using assms by (intro length_digits_64) simp_all
  then have "length (sign_of 0 flags @ ?ds) \<le> 23" using length_sign_of[of 0 flags] by simp
  moreover have "numfmt_unsigned num flags width base 65 = numfmt_finish flags width 33 (sign_of 0 flags @ ?ds) 65"
    using assms by (simp add: numfmt_unsigned_def sign_of_def digits_of_def Let_def)
  ultimately have "numfmt_unsigned num flags width base 65 =
      Inr (replicate (nat width - length (sign_of 0 flags @ ?ds)) (pad_char flags) @ sign_of 0 flags @ ?ds)"
    using assms(1,2) by (subst numfmt_finish_fits[symmetric]) simp_all
  then show ?thesis using is_numeral_digits[of base] assms(3,4) by (intro exI[of _ ?ds]) simp
qed

end
