(* ===== verification/Printf.thy ===== *)
theory Printf
  imports NumFmt
begin

text \<open>
  \<open>util/printf.c\<close> and \<open>util/log.c\<close>: formatted output. \<open>mel_vpprintf\<close> is a state machine over
  the characters of the format whose cases fall through from one state to the next; the
  output goes to a function \<open>putch\<close> on the state \<open>'w\<close> of the caller. The precision is parsed
  but never used, so it has no field here.
\<close>

section \<open>Arguments\<close>

text \<open>
  The stack slots of the 32 bit variable argument list: a 32 bit word, or the address of a
  string. A 64 bit argument takes two words. Using a word as the address of a string, or the
  other way round, is outside the model and a fault, as is reading past the last argument.
\<close>

datatype va_slot = VaWord u32 | VaStr string

type_synonym va_list = "va_slot list"

definition va_word :: "va_list \<Rightarrow> (u32 \<times> va_list) res" where
  "va_word l = (case l of VaWord v # l \<Rightarrow> Inr (v, l) | _ \<Rightarrow> Inl BadUsage)"

definition va_long :: "va_list \<Rightarrow> (u64 \<times> va_list) res" where
  "va_long l = (case l of VaWord lo # VaWord hi # l \<Rightarrow> Inr (ucast lo OR push_bit 32 (ucast hi), l) | _ \<Rightarrow> Inl BadUsage)"

definition va_str :: "va_list \<Rightarrow> (string \<times> va_list) res" where
  "va_str l = (case l of VaStr s # l \<Rightarrow> Inr (s, l) | _ \<Rightarrow> Inl BadUsage)"

section \<open>The state machine\<close>

datatype pf_state = PF_PRINT | PF_FSPEC | PF_WIDTH | PF_AWIDT | PF_LMOD | PF_PRESC | PF_TYPE

datatype pf_size = PF_DEFT | PF_SHORT | PF_CHAR | PF_LONG | PF_LONGLONG | PF_SIZE | PF_PTRDIFF | PF_INTMAX

record pf =
  pf_state :: pf_state
  nflags :: u32
  width :: int
  size :: pf_size
  pcount :: nat

text \<open>\<open>putch ( arg, c, count++ )\<close>\<close>

definition put1 :: "(char \<Rightarrow> nat \<Rightarrow> 'w \<Rightarrow> 'w res) \<Rightarrow> char \<Rightarrow> pf \<Rightarrow> 'w \<Rightarrow> (pf \<times> 'w) res" where
  "put1 putch c p w = rbind (putch c (pcount p) w) (\<lambda>w. Inr (p\<lparr>pcount := Suc (pcount p)\<rparr>, w))"

fun put_str :: "(char \<Rightarrow> nat \<Rightarrow> 'w \<Rightarrow> 'w res) \<Rightarrow> string \<Rightarrow> pf \<Rightarrow> 'w \<Rightarrow> (pf \<times> 'w) res" where
  "put_str putch [] p w = Inr (p, w)"
| "put_str putch (c # cs) p w = rbind (put1 putch c p w) (\<lambda>(p, w). put_str putch cs p w)"

text \<open>The two switches on the size: the value of an \<open>intmax_t\<close> and of an \<open>uintmax_t\<close>.\<close>

definition pf_sival :: "pf_size \<Rightarrow> va_list \<Rightarrow> (int \<times> va_list) res" where
  "pf_sival sz l = (case sz of
     PF_CHAR \<Rightarrow> rbind (va_word l) (\<lambda>(v, l). Inr (sint (ucast v :: u8), l))
   | PF_SHORT \<Rightarrow> rbind (va_word l) (\<lambda>(v, l). Inr (sint (ucast v :: u16), l))
   | PF_DEFT \<Rightarrow> rbind (va_word l) (\<lambda>(v, l). Inr (sint v, l))
   | PF_LONG \<Rightarrow> rbind (va_word l) (\<lambda>(v, l). Inr (sint v, l))
   | PF_LONGLONG \<Rightarrow> rbind (va_long l) (\<lambda>(v, l). Inr (sint v, l))
   | PF_INTMAX \<Rightarrow> rbind (va_long l) (\<lambda>(v, l). Inr (sint v, l))
   | PF_SIZE \<Rightarrow> rbind (va_word l) (\<lambda>(v, l). Inr (uint v, l))
   | PF_PTRDIFF \<Rightarrow> rbind (va_word l) (\<lambda>(v, l). Inr (sint v, l)))"

definition pf_uival :: "pf_size \<Rightarrow> va_list \<Rightarrow> (u64 \<times> va_list) res" where
  "pf_uival sz l = (case sz of
     PF_CHAR \<Rightarrow> rbind (va_word l) (\<lambda>(v, l). Inr (ucast (ucast v :: u8), l))
   | PF_SHORT \<Rightarrow> rbind (va_word l) (\<lambda>(v, l). Inr (ucast (ucast v :: u16), l))
   | PF_DEFT \<Rightarrow> rbind (va_word l) (\<lambda>(v, l). Inr (ucast v, l))
   | PF_LONG \<Rightarrow> rbind (va_word l) (\<lambda>(v, l). Inr (ucast v, l))
   | PF_LONGLONG \<Rightarrow> va_long l
   | PF_INTMAX \<Rightarrow> va_long l
   | PF_SIZE \<Rightarrow> rbind (va_word l) (\<lambda>(v, l). Inr (ucast v, l))
   | PF_PTRDIFF \<Rightarrow> rbind (va_word l) (\<lambda>(v, l). Inr (scast v, l)))"

text \<open>The case labels, each falling through to the one before it here.\<close>

definition pf_type :: "(char \<Rightarrow> nat \<Rightarrow> 'w \<Rightarrow> 'w res) \<Rightarrow> char \<Rightarrow> pf \<Rightarrow> va_list \<Rightarrow> 'w \<Rightarrow> (pf \<times> va_list \<times> 'w) res" where
  "pf_type putch fch p l w =
    (let print = (\<lambda>sval l. rbind (put_str putch sval p w) (\<lambda>(p, w). Inr (p\<lparr>pf_state := PF_PRINT\<rparr>, l, w))) in
     if fch = CHR ''i'' \<or> fch = CHR ''d'' then
       rbind (pf_sival (size p) l) (\<lambda>(sival, l).
       rbind (numfmt_signed sival (nflags p) (width p) 10 65) (\<lambda>sval. print sval l))
     else if fch \<in> set ''oxuXp'' then
       rbind (if fch = CHR ''p'' then rbind (va_word l) (\<lambda>(v, l). Inr (ucast v, l)) else pf_uival (size p) l)
         (\<lambda>(uival, l).
       let base = (if fch = CHR ''u'' then 10 else if fch = CHR ''o'' then 8 else 16) in
       rbind (numfmt_unsigned uival (nflags p) (width p) base 65) (\<lambda>sval. print sval l))
     else if fch = CHR ''c'' then
       if size p \<noteq> PF_DEFT then Inl AssertFailed
       else rbind (va_word l) (\<lambda>(v, l).
         rbind (put1 putch (char_of (unat (ucast v :: u8))) p w) (\<lambda>(p, w). Inr (p\<lparr>pf_state := PF_PRINT\<rparr>, l, w)))
     else if fch = CHR ''s'' then
       if size p \<noteq> PF_DEFT then Inl AssertFailed
       else rbind (va_str l) (\<lambda>(sval, l). print sval l)
     else if fch = CHR ''%'' then
       rbind (put1 putch CHR ''%'' p w) (\<lambda>(p, w). Inr (p\<lparr>pf_state := PF_PRINT\<rparr>, l, w))
     else Inl AssertFailed)"

definition pf_lmod :: "(char \<Rightarrow> nat \<Rightarrow> 'w \<Rightarrow> 'w res) \<Rightarrow> char \<Rightarrow> pf \<Rightarrow> va_list \<Rightarrow> 'w \<Rightarrow> (pf \<times> va_list \<times> 'w) res" where
  "pf_lmod putch fch p l w =
    (if fch = CHR ''h'' \<and> size p \<noteq> PF_SHORT then Inr (p\<lparr>pf_state := PF_LMOD, size := PF_SHORT\<rparr>, l, w)
     else if fch = CHR ''h'' then Inr (p\<lparr>pf_state := PF_TYPE, size := PF_CHAR\<rparr>, l, w)
     else if fch = CHR ''l'' \<and> size p \<noteq> PF_LONG then Inr (p\<lparr>pf_state := PF_LMOD, size := PF_LONG\<rparr>, l, w)
     else if fch = CHR ''l'' then Inr (p\<lparr>pf_state := PF_TYPE, size := PF_LONGLONG\<rparr>, l, w)
     else if fch = CHR ''j'' then Inr (p\<lparr>pf_state := PF_TYPE, size := PF_INTMAX\<rparr>, l, w)
     else if fch = CHR ''z'' then Inr (p\<lparr>pf_state := PF_TYPE, size := PF_SIZE\<rparr>, l, w)
     else if fch = CHR ''t'' then Inr (p\<lparr>pf_state := PF_TYPE, size := PF_PTRDIFF\<rparr>, l, w)
     else if fch = CHR ''L'' then Inl AssertFailed
     else pf_type putch fch (p\<lparr>pf_state := PF_TYPE\<rparr>) l w)"

definition pf_awidt :: "(char \<Rightarrow> nat \<Rightarrow> 'w \<Rightarrow> 'w res) \<Rightarrow> char \<Rightarrow> pf \<Rightarrow> va_list \<Rightarrow> 'w \<Rightarrow> (pf \<times> va_list \<times> 'w) res" where
  "pf_awidt putch fch p l w =
    (if fch = CHR ''.'' then Inr (p\<lparr>pf_state := PF_PRESC\<rparr>, l, w)
     else pf_lmod putch fch (p\<lparr>pf_state := PF_LMOD\<rparr>) l w)"

definition pf_width :: "(char \<Rightarrow> nat \<Rightarrow> 'w \<Rightarrow> 'w res) \<Rightarrow> char \<Rightarrow> pf \<Rightarrow> va_list \<Rightarrow> 'w \<Rightarrow> (pf \<times> va_list \<times> 'w) res" where
  "pf_width putch fch p l w =
    (if fch \<in> set ''0123456789'' then
       (let n = width p * 10 + int (of_char fch) in
        if n \<ge> 2 ^ 31 then Inl BadUsage else Inr (p\<lparr>pf_state := PF_WIDTH, width := n - 48\<rparr>, l, w))
     else if fch = CHR ''*'' then
       rbind (va_word l) (\<lambda>(v, l). Inr (p\<lparr>pf_state := PF_AWIDT, width := sint v\<rparr>, l, w))
     else pf_awidt putch fch (p\<lparr>pf_state := PF_AWIDT\<rparr>) l w)"

definition pf_fspec :: "(char \<Rightarrow> nat \<Rightarrow> 'w \<Rightarrow> 'w res) \<Rightarrow> char \<Rightarrow> pf \<Rightarrow> va_list \<Rightarrow> 'w \<Rightarrow> (pf \<times> va_list \<times> 'w) res" where
  "pf_fspec putch fch p l w =
    (if fch = CHR ''-'' then Inr (p, l, w)
     else if fch = CHR ''+'' then Inr (p\<lparr>nflags := nflags p OR NF_SGNPLUS\<rparr>, l, w)
     else if fch = CHR '' '' \<or> fch = CHR ''#'' then Inr (p, l, w)
     else if fch = CHR ''0'' then Inr (p\<lparr>nflags := nflags p OR NF_ZEROPAD\<rparr>, l, w)
     else pf_width putch fch (p\<lparr>pf_state := PF_WIDTH\<rparr>) l w)"

definition pf_presc :: "char \<Rightarrow> pf \<Rightarrow> va_list \<Rightarrow> 'w \<Rightarrow> (pf \<times> va_list \<times> 'w) res" where
  "pf_presc fch p l w =
    (if fch \<in> set ''0123456789'' then Inr (p, l, w)
     else if fch = CHR ''*'' then rbind (va_word l) (\<lambda>(v, l). Inr (p\<lparr>pf_state := PF_LMOD\<rparr>, l, w))
     else Inl AssertFailed)"

definition pf_print :: "(char \<Rightarrow> nat \<Rightarrow> 'w \<Rightarrow> 'w res) \<Rightarrow> char \<Rightarrow> pf \<Rightarrow> va_list \<Rightarrow> 'w \<Rightarrow> (pf \<times> va_list \<times> 'w) res" where
  "pf_print putch fch p l w =
    (if fch = CHR ''%'' then Inr (p\<lparr>pf_state := PF_FSPEC, width := 0, nflags := 0, size := PF_DEFT\<rparr>, l, w)
     else rbind (put1 putch fch p w) (\<lambda>(p, w). Inr (p, l, w)))"

definition pf_step :: "(char \<Rightarrow> nat \<Rightarrow> 'w \<Rightarrow> 'w res) \<Rightarrow> char \<Rightarrow> pf \<Rightarrow> va_list \<Rightarrow> 'w \<Rightarrow> (pf \<times> va_list \<times> 'w) res" where
  "pf_step putch fch p l w = (case pf_state p of
     PF_PRINT \<Rightarrow> pf_print putch fch p l w
   | PF_FSPEC \<Rightarrow> pf_fspec putch fch p l w
   | PF_WIDTH \<Rightarrow> pf_width putch fch p l w
   | PF_AWIDT \<Rightarrow> pf_awidt putch fch p l w
   | PF_LMOD \<Rightarrow> pf_lmod putch fch p l w
   | PF_TYPE \<Rightarrow> pf_type putch fch p l w
   | PF_PRESC \<Rightarrow> pf_presc fch p l w)"

text \<open>The loop over the format; the format is a C string, its NUL is the end of the list.\<close>

fun pf_loop :: "(char \<Rightarrow> nat \<Rightarrow> 'w \<Rightarrow> 'w res) \<Rightarrow> string \<Rightarrow> pf \<Rightarrow> va_list \<Rightarrow> 'w \<Rightarrow> (pf \<times> va_list \<times> 'w) res" where
  "pf_loop putch [] p l w = Inr (p, l, w)"
| "pf_loop putch (fch # format) p l w = rbind (pf_step putch fch p l w) (\<lambda>(p, l, w). pf_loop putch format p l w)"

definition pf_init :: pf where
  "pf_init = \<lparr>pf_state = PF_PRINT, nflags = 0, width = 0, size = PF_DEFT, pcount = 0\<rparr>"

definition mel_vpprintf :: "(char \<Rightarrow> nat \<Rightarrow> 'w \<Rightarrow> 'w res) \<Rightarrow> string \<Rightarrow> va_list \<Rightarrow> 'w \<Rightarrow> (nat \<times> 'w) res" where
  "mel_vpprintf putch format l w = rbind (pf_loop putch format pf_init l w) (\<lambda>(p, l, w). Inr (pcount p, w))"

section \<open>Strings of limited size\<close>

text \<open>\<open>size - 1\<close> is a \<open>size_t\<close>: with a size of 0 there is no limit.\<close>

definition snprintf_putch :: "nat \<Rightarrow> char \<Rightarrow> nat \<Rightarrow> string \<Rightarrow> string res" where
  "snprintf_putch len c count str =
    (if len \<noteq> 0 \<and> count \<ge> len - 1 then Inr str
     else if count < length str then Inr (str[count := c]) else Inl OutOfBounds)"

definition mel_vsnprintf :: "string \<Rightarrow> nat \<Rightarrow> string \<Rightarrow> va_list \<Rightarrow> (nat \<times> string) res" where
  "mel_vsnprintf str sz format l =
    rbind (mel_vpprintf (snprintf_putch sz) format l str) (\<lambda>(result, str).
      let result = (if sz \<noteq> 0 \<and> result > sz - 1 then sz - 1 else result)
      in if result < length str then Inr (result, str[result := CHR 0x00]) else Inl OutOfBounds)"

definition mel_vsprintf :: "string \<Rightarrow> string \<Rightarrow> va_list \<Rightarrow> (nat \<times> string) res" where
  "mel_vsprintf str format l = Inl AssertFailed"

definition mel_sprintf :: "string \<Rightarrow> string \<Rightarrow> va_list \<Rightarrow> (nat \<times> string) res" where
  "mel_sprintf str format l = mel_vsprintf str format l"

definition mel_snprintf :: "string \<Rightarrow> nat \<Rightarrow> string \<Rightarrow> va_list \<Rightarrow> (nat \<times> string) res" where
  "mel_snprintf str sz format l = mel_vsnprintf str sz format l"

text \<open>Standard error is the string written to it.\<close>

definition printf_putch :: "char \<Rightarrow> nat \<Rightarrow> string \<Rightarrow> string res" where
  "printf_putch c count err = Inr (err @ [c])"

definition mel_vprintf :: "string \<Rightarrow> va_list \<Rightarrow> string \<Rightarrow> (nat \<times> string) res" where
  "mel_vprintf format l err = mel_vpprintf printf_putch format l err"

definition mel_printf :: "string \<Rightarrow> va_list \<Rightarrow> string \<Rightarrow> (nat \<times> string) res" where
  "mel_printf format l err = mel_vprintf format l err"

text \<open>The C string in a buffer.\<close>

definition c_string :: "string \<Rightarrow> string" where
  "c_string str = takeWhile (\<lambda>c. c \<noteq> CHR 0x00) str"

section \<open>Logging\<close>

record log_world =
  log_buffer :: string
  log_level :: int
  stderr_text :: string

definition level_names :: "string list" where
  "level_names = [''TRACE'', ''DEBUG'', ''INFO '', ''WARN '', ''ERROR'', ''FATAL'', ''METRC'']"

text \<open>The format of the prefix ends in a newline.\<close>

definition vlog :: "int \<Rightarrow> string \<Rightarrow> string \<Rightarrow> va_list \<Rightarrow> log_world \<Rightarrow> log_world res" where
  "vlog level module format l w =
    (if level \<ge> log_level w then
       rbind (mel_vsnprintf (log_buffer w) 1024 format l) (\<lambda>(n, str).
         let w = w\<lparr>log_buffer := str\<rparr> in
         if level < 0 \<or> 7 \<le> level then Inl OutOfBounds
         else rbind (mel_printf (''[%s] %s: %s'' @ [CHR 0x0A])
                [VaStr (level_names ! nat level), VaStr module, VaStr (c_string (log_buffer w))] (stderr_text w))
              (\<lambda>(n, err). Inr (w\<lparr>stderr_text := err\<rparr>)))
     else Inr w)"

definition log_msg :: "int \<Rightarrow> string \<Rightarrow> string \<Rightarrow> va_list \<Rightarrow> log_world \<Rightarrow> log_world res" where
  "log_msg level module format l w = vlog level module format l w"

text \<open>\<open>exit(EXIT_FAILURE)\<close> after the message.\<close>

definition fatal :: "string \<Rightarrow> string \<Rightarrow> va_list \<Rightarrow> log_world \<Rightarrow> log_world res" where
  "fatal module format l w = rbind (vlog 5 module format l w) (\<lambda>w. Inl ExitFailure)"

definition logassert :: "bool \<Rightarrow> string \<Rightarrow> string \<Rightarrow> va_list \<Rightarrow> log_world \<Rightarrow> log_world res" where
  "logassert cond module format l w =
    (if cond then Inr w else rbind (vlog 5 module format l w) (\<lambda>w. Inl ExitFailure))"

section \<open>Two outputs of the same text\<close>

text \<open>
  What \<open>mel_vpprintf\<close> relies on: a \<open>putch\<close> may be replaced by another that keeps a relation
  between the two states when both are given the same character and count.
\<close>

locale putch_sim =
  fixes putch1 :: "char \<Rightarrow> nat \<Rightarrow> 'v \<Rightarrow> 'v res" and putch2 :: "char \<Rightarrow> nat \<Rightarrow> 'w \<Rightarrow> 'w res"
    and R :: "nat \<Rightarrow> 'v \<Rightarrow> 'w \<Rightarrow> bool"
  assumes sim: "R n v w \<Longrightarrow> \<exists>v' w'. putch1 c n v = Inr v' \<and> putch2 c n w = Inr w' \<and> R (Suc n) v' w'"
begin

definition same :: "(pf \<times> 'b \<times> 'v) res \<Rightarrow> (pf \<times> 'b \<times> 'w) res \<Rightarrow> bool" where
  "same r1 r2 \<longleftrightarrow> (\<exists>e. r1 = Inl e \<and> r2 = Inl e) \<or>
     (\<exists>p l v w. r1 = Inr (p, l, v) \<and> r2 = Inr (p, l, w) \<and> R (pcount p) v w)"

lemma same_Inr [simp]: "same (Inr (p, l, v)) (Inr (p, l, w)) \<longleftrightarrow> R (pcount p) v w"
  by (simp add: same_def)

lemma same_Inl [simp]: "same (Inl e) (Inl e)"
  by (simp add: same_def)

lemma put1_sim:
  "R (pcount p) v w \<Longrightarrow> \<exists>p' v' w'. put1 putch1 c p v = Inr (p', v') \<and> put1 putch2 c p w = Inr (p', w') \<and>
    R (pcount p') v' w' \<and> p' = p\<lparr>pcount := Suc (pcount p)\<rparr>"
  using sim[of "pcount p" v w c] by (auto simp: put1_def)

lemma put_str_sim:
  "R (pcount p) v w \<Longrightarrow> \<exists>p' v' w'. put_str putch1 s p v = Inr (p', v') \<and> put_str putch2 s p w = Inr (p', w') \<and>
    R (pcount p') v' w'"
proof (induction s arbitrary: p v w)
  case (Cons c s)
  then show ?case using put1_sim[OF Cons.prems, of c] by auto
qed simp

lemma pf_type_sim: "R (pcount p) v w \<Longrightarrow> same (pf_type putch1 fch p l v) (pf_type putch2 fch p l w)"
proof -
  assume r: "R (pcount p) v w"
  have str: "same (rbind (put_str putch1 s p v) (\<lambda>(p, v). Inr (p\<lparr>pf_state := PF_PRINT\<rparr>, l, v)))
      (rbind (put_str putch2 s p w) (\<lambda>(p, w). Inr (p\<lparr>pf_state := PF_PRINT\<rparr>, l, w)))" for s l
    using put_str_sim[OF r, of s] by auto
  have chr: "same (rbind (put1 putch1 c p v) (\<lambda>(p, v). Inr (p\<lparr>pf_state := PF_PRINT\<rparr>, l, v)))
      (rbind (put1 putch2 c p w) (\<lambda>(p, w). Inr (p\<lparr>pf_state := PF_PRINT\<rparr>, l, w)))" for c l
    using put1_sim[OF r, of c] by auto
  have bind: "(\<And>x. same (f x) (g x)) \<Longrightarrow> same (rbind m f) (rbind m g)" for m :: "'c res" and f g
    by (cases m) simp_all
  show ?thesis
    unfolding pf_type_def Let_def by (auto intro!: bind str chr split: prod.split)
qed

lemma pf_step_sim: "R (pcount p) v w \<Longrightarrow> same (pf_step putch1 fch p l v) (pf_step putch2 fch p l w)"
proof -
  assume r: "R (pcount p) v w"
  have ty: "same (pf_type putch1 fch q l v) (pf_type putch2 fch q l w)" if "pcount q = pcount p" for q
    using r that by (intro pf_type_sim) simp
  have lm: "same (pf_lmod putch1 fch q l v) (pf_lmod putch2 fch q l w)" if "pcount q = pcount p" for q
    using r that ty by (auto simp: pf_lmod_def)
  have aw: "same (pf_awidt putch1 fch q l v) (pf_awidt putch2 fch q l w)" if "pcount q = pcount p" for q
    using r that lm by (auto simp: pf_awidt_def)
  have wi: "same (pf_width putch1 fch q l v) (pf_width putch2 fch q l w)" if "pcount q = pcount p" for q
    using r that aw by (cases "va_word l") (auto simp: pf_width_def)
  have fs: "same (pf_fspec putch1 fch q l v) (pf_fspec putch2 fch q l w)" if "pcount q = pcount p" for q
    using r that wi by (auto simp: pf_fspec_def)
  have pr: "same (pf_presc fch p l v) (pf_presc fch p l w)"
    using r by (cases "va_word l") (auto simp: pf_presc_def)
  have pp: "same (pf_print putch1 fch p l v) (pf_print putch2 fch p l w)"
    using r put1_sim[OF r, of fch] by (auto simp: pf_print_def)
  show ?thesis
    using ty lm aw wi fs pr pp by (cases "pf_state p") (simp_all add: pf_step_def)
qed

lemma pf_loop_sim: "R (pcount p) v w \<Longrightarrow> same (pf_loop putch1 format p l v) (pf_loop putch2 format p l w)"
proof (induction format arbitrary: p l v w)
  case (Cons fch format)
  from pf_step_sim[OF Cons.prems, of fch l] show ?case
    by (auto simp: same_def[of "pf_step putch1 fch p l v"] intro: Cons.IH)
qed auto

lemma vpprintf_sim:
  assumes "R 0 v w"
  shows "(\<exists>e. mel_vpprintf putch1 format l v = Inl e \<and> mel_vpprintf putch2 format l w = Inl e) \<or>
    (\<exists>n v' w'. mel_vpprintf putch1 format l v = Inr (n, v') \<and> mel_vpprintf putch2 format l w = Inr (n, w') \<and> R n v' w')"
  using pf_loop_sim[of pf_init v w format l] assms
  by (auto simp: mel_vpprintf_def same_def pf_init_def)

end

section \<open>What the formatted output is\<close>

text \<open>The text of a format: a \<open>putch\<close> that only collects.\<close>

definition collect :: "char \<Rightarrow> nat \<Rightarrow> string \<Rightarrow> string res" where
  "collect c n out = Inr (out @ [c])"

definition printf_text :: "string \<Rightarrow> va_list \<Rightarrow> string res" where
  "printf_text format l = rbind (mel_vpprintf collect format l []) (\<lambda>(n, out). Inr out)"

text \<open>The buffer of \<open>mel_vsnprintf\<close> after the text \<open>out\<close>: as much as fits before the last byte.\<close>

definition holds :: "nat \<Rightarrow> string \<Rightarrow> nat \<Rightarrow> string \<Rightarrow> string \<Rightarrow> bool" where
  "holds sz str0 n out str \<longleftrightarrow> 0 < sz \<and> sz \<le> length str0 \<and> n = length out \<and> str = blit 0 (take (sz - 1) out) str0"

lemma holds_put:
  assumes h: "holds sz str0 n out str"
  shows "snprintf_putch sz c n str = Inr (blit 0 (take (sz - 1) (out @ [c])) str0)"
proof (cases "n < sz - 1")
  case True
  have s: "str = blit 0 out str0" "n = length out" "n < length str0" "length str = length str0"
    using h True by (auto simp: holds_def)
  have "(blit 0 out str0)[length out := c] = blit 0 (out @ [c]) str0"
    using s(2,3) by (simp add: blit_def list_update_append) (metis Cons_nth_drop_Suc list_update_code(2))
  then show ?thesis
    using True s by (auto simp: snprintf_putch_def)
qed (use h in \<open>simp add: snprintf_putch_def holds_def\<close>)

interpretation snprintf: putch_sim collect "snprintf_putch sz" "holds sz str0" for sz str0
proof
  fix n out str c
  assume h: "holds sz str0 n out str"
  then have "holds sz str0 (Suc n) (out @ [c]) (blit 0 (take (sz - 1) (out @ [c])) str0)"
    by (simp add: holds_def)
  then show "\<exists>v' w'. collect c n out = Inr v' \<and> snprintf_putch sz c n str = Inr w' \<and> holds sz str0 (Suc n) v' w'"
    using holds_put[OF h] by (simp add: collect_def)
qed

text \<open>The printing to the console is the same text.\<close>

interpretation console: putch_sim collect printf_putch "\<lambda>n out err. err = err0 @ out" for err0
  by unfold_locales (simp add: collect_def printf_putch_def)

lemma vsnprintf_text:
  assumes "0 < sz" and "sz \<le> length str"
  shows "mel_vsnprintf str sz format l = rbind (printf_text format l) (\<lambda>out.
    Inr (min (length out) (sz - 1), take (sz - 1) out @ CHR 0x00 # drop (Suc (min (length out) (sz - 1))) str))"
proof -
  have "holds sz str 0 [] str" using assms by (simp add: holds_def)
  from snprintf.vpprintf_sim[OF this, of format l] show ?thesis
  proof (elim disjE exE conjE)
    fix n out str'
    assume r: "mel_vpprintf collect format l [] = Inr (n, out)" "mel_vpprintf (snprintf_putch sz) format l str = Inr (n, str')"
      and h: "holds sz str n out str'"
    let ?k = "min (length out) (sz - 1)"
    have t: "length (take (sz - 1) out) = ?k" by simp
    have "?k < length str" using assms by simp
    then have "str'[?k := CHR 0x00] = take (sz - 1) out @ CHR 0x00 # drop (Suc ?k) str"
      using h t by (simp add: holds_def blit_def list_update_append upd_conv_take_nth_drop)
    moreover have "length str' = length str" using h \<open>?k < length str\<close> by (simp add: holds_def)
    ultimately show ?thesis
      using r h assms by (auto simp: mel_vsnprintf_def printf_text_def holds_def Let_def min_def)
  qed (auto simp: mel_vsnprintf_def printf_text_def)
qed

text \<open>C37. Printing into a buffer writes inside the given size only, whatever the format and the
  arguments, and leaves the longest prefix of the text that fits, ended by a NUL; a fault is
  a fault of the formatting itself.\<close>

theorem mel_vsnprintf_truncates:
  assumes "0 < sz" and "sz \<le> length str"
  shows "mel_vsnprintf str sz format l = rbind (printf_text format l) (\<lambda>out.
    Inr (min (length out) (sz - 1), take (sz - 1) out @ CHR 0x00 # drop (Suc (min (length out) (sz - 1))) str))"
  using assms by (rule vsnprintf_text)

theorem mel_vsnprintf_truncates_witness:
  "mel_vsnprintf (replicate 8 CHR ''x'') 4 ''abcdef'' [] = Inr (3, ''abc'' @ CHR 0x00 # replicate 4 CHR ''x'')"
proof -
  have "printf_text ''abcdef'' [] = Inr ''abcdef''" by code_simp
  then show ?thesis using mel_vsnprintf_truncates[of 4 "replicate 8 CHR ''x''" "''abcdef''" "[]"] by simp
qed

section \<open>Pieces of a format\<close>

lemma put_str_collect: "put_str collect s p out = Inr (p\<lparr>pcount := pcount p + length s\<rparr>, out @ s)"
  by (induction s arbitrary: p out) (simp_all add: put1_def collect_def)

lemma pf_loop_text:
  "CHR ''%'' \<notin> set s \<Longrightarrow> pf_state p = PF_PRINT \<Longrightarrow>
   pf_loop collect (s @ format) p l out = pf_loop collect format (p\<lparr>pcount := pcount p + length s\<rparr>) l (out @ s)"
  by (induction s arbitrary: p out) (auto simp: pf_step_def pf_print_def put1_def collect_def)

lemma pf_loop_string:
  "pf_state p = PF_PRINT \<Longrightarrow> pf_loop collect (''%s'' @ format) p (VaStr s # l) out =
   pf_loop collect format (p\<lparr>width := 0, nflags := 0, size := PF_DEFT,
     pcount := pcount p + length s, pf_state := PF_PRINT\<rparr>) l (out @ s)"
  by (simp add: pf_step_def pf_print_def pf_fspec_def pf_width_def pf_awidt_def pf_lmod_def pf_type_def
      va_str_def put_str_collect Let_def)

text \<open>\<open>%08x\<close>: eight hexadecimal digits.\<close>

definition hex8 :: "u32 \<Rightarrow> string" where
  "hex8 v = replicate (8 - length (digits_of 16 (unat v))) CHR ''0'' @ digits_of 16 (unat v)"

lemma length_hex8 [simp]: "length (hex8 v) = 8"
proof -
  have "unat v < 16 ^ Suc 7" by (rule order_less_le_trans[OF unsigned_less]) simp
  then have "length (digits_of 16 (unat v)) \<le> Suc 7" by (intro length_digits_of) simp_all
  then show ?thesis by (simp add: hex8_def)
qed

lemma numeral_value_zeros: "numeral_value base (replicate n CHR ''0'' @ s) = numeral_value base s"
proof (induction n)
  case (Suc n)
  have "numeral_value base (CHR ''0'' # t) = numeral_value base t" for t
    by (simp add: numeral_value_def digit_value_def)
  with Suc show ?case by simp
qed simp

lemma numeral_value_hex8: "numeral_value 16 (hex8 v) = unat v"
  by (simp add: hex8_def numeral_value_zeros numeral_value_digits)

lemma hex8_inject: "hex8 v = hex8 w \<longleftrightarrow> v = w"
  by (metis numeral_value_hex8 unsigned_word_eqI)

lemma numfmt_hex8: "numfmt_unsigned (ucast v) NF_ZEROPAD 8 16 65 = Inr (hex8 v)"
proof -
  have l: "length (digits_of 16 (unat v)) \<le> 8"
    using arg_cong[OF hex8_def, of length v] by simp
  have u: "unat (ucast v :: u64) = unat v" by (simp add: unsigned_ucast_eq take_bit_nat_eq_self
        order_less_le_trans[OF unsigned_less])
  have "\<not> tst NF_ZEROPAD NF_SGNPLUS" by (simp add: NF_ZEROPAD_def NF_SGNPLUS_def bit_simps)
  then have "numfmt_unsigned (ucast v) NF_ZEROPAD 8 16 65 = numfmt_finish NF_ZEROPAD 8 33 (digits_of 16 (unat v)) 65"
    by (simp add: numfmt_unsigned_def u digits_of_def Let_def)
  also have "\<dots> = Inr (hex8 v)"
    using l by (subst numfmt_finish_fits) (simp_all add: hex8_def pad_char_def NF_ZEROPAD_def bit_simps)
  finally show ?thesis .
qed

lemma pf_loop_hex8:
  "pf_state p = PF_PRINT \<Longrightarrow> pf_loop collect (''%08x'' @ format) p (VaWord v # l) out =
   pf_loop collect format (p\<lparr>size := PF_DEFT, nflags := NF_ZEROPAD, width := 8,
     pcount := pcount p + 8, pf_state := PF_PRINT\<rparr>) l (out @ hex8 v)"
  by (simp add: pf_step_def pf_print_def pf_fspec_def pf_width_def pf_awidt_def pf_lmod_def pf_type_def
      pf_uival_def va_word_def put_str_collect numfmt_hex8 Let_def)

text \<open>\<open>%i\<close>: the sign and the decimal digits.\<close>

definition dec32 :: "u32 \<Rightarrow> string" where
  "dec32 v = sign_of (sint v) 0 @ digits_of 10 (nat \<bar>sint v\<bar>)"

lemma numfmt_dec32: "numfmt_signed (sint v) 0 0 10 65 = Inr (dec32 (v :: u32))"
proof -
  have "- (2 ^ 31) \<le> sint v" "sint v < 2 ^ 31" using sint_ge[of v] sint_lt[of v] by simp_all
  then show ?thesis by (subst numfmt_signed_text) (simp_all add: dec32_def)
qed

lemma pf_loop_int:
  "pf_state p = PF_PRINT \<Longrightarrow> pf_loop collect (''%i'' @ format) p (VaWord v # l) out =
   pf_loop collect format (p\<lparr>width := 0, nflags := 0, size := PF_DEFT,
     pcount := pcount p + length (dec32 v), pf_state := PF_PRINT\<rparr>) l (out @ dec32 v)"
  by (simp add: pf_step_def pf_print_def pf_fspec_def pf_width_def pf_awidt_def pf_lmod_def pf_type_def
      pf_sival_def va_word_def put_str_collect numfmt_dec32 Let_def)

lemma set_put_digits: "2 \<le> base \<Longrightarrow> base \<le> 16 \<Longrightarrow> set (put_digits base num buf) \<subseteq> set numfmt_digits \<union> set buf"
proof (induction base num buf rule: put_digits.induct)
  case (1 base num buf)
  have "num mod base < base" "length numfmt_digits = 16" using 1(2) by (simp_all add: numfmt_digits_def)
  then have "num mod base < length numfmt_digits" using 1(3) by linarith
  then have "set (numfmt_digits ! (num mod base) # buf) \<subseteq> set numfmt_digits \<union> set buf" by simp
  with 1 show ?case by (subst put_digits.simps) (auto simp: Let_def)
qed

lemma hex8_no_nul: "CHR 0x00 \<notin> set (hex8 v)"
  using set_put_digits[of 16 "unat v" "[]"] by (auto simp: hex8_def digits_of_def numfmt_digits_def)

lemma digits_no_nul: "CHR 0x00 \<notin> set (digits_of 10 n)"
  using set_put_digits[of 10 n "[]"] by (auto simp: digits_of_def numfmt_digits_def)

lemma dec32_no_nul: "CHR 0x00 \<notin> set (dec32 v)"
  using digits_no_nul by (simp add: dec32_def sign_of_def)

lemma printf_text_loop: "printf_text format l = rbind (pf_loop collect format pf_init l []) (\<lambda>(p, l, out). Inr out)"
  by (cases "pf_loop collect format pf_init l []") (auto simp: printf_text_def mel_vpprintf_def)

lemma pf_init_print [simp]: "pf_state pf_init = PF_PRINT"
  by (simp add: pf_init_def)

text \<open>Formats with one directive at the end.\<close>

lemma text_hex8: "CHR ''%'' \<notin> set s \<Longrightarrow> printf_text (s @ ''%08x'') [VaWord v] = Inr (s @ hex8 v)"
  using pf_loop_text[of s pf_init "''%08x''" "[VaWord v]" "[]"] pf_loop_hex8[of _ "[]"] by (simp add: printf_text_loop)

lemma text_dec32: "CHR ''%'' \<notin> set s \<Longrightarrow> printf_text (s @ ''%i'') [VaWord v] = Inr (s @ dec32 v)"
  using pf_loop_text[of s pf_init "''%i''" "[VaWord v]" "[]"] pf_loop_int[of _ "[]"] by (simp add: printf_text_loop)

lemma text_string: "CHR ''%'' \<notin> set s \<Longrightarrow> printf_text (s @ ''%s'') [VaStr a] = Inr (s @ a)"
  using pf_loop_text[of s pf_init "''%s''" "[VaStr a]" "[]"] pf_loop_string[of _ "[]"] by (simp add: printf_text_loop)

text \<open>On the console the text appears as it is.\<close>

lemma mel_printf_text:
  "printf_text format l = Inr out \<Longrightarrow> \<exists>n. mel_printf format l err = Inr (n, err @ out)"
  using console.vpprintf_sim[where format = format and l = l and v = "[]" and w = err]
  by (auto simp: mel_printf_def mel_vprintf_def printf_text_def rbind_Inr_iff)

section \<open>Log lines\<close>

definition log_line :: "int \<Rightarrow> string \<Rightarrow> string \<Rightarrow> string" where
  "log_line level module msg = ''['' @ level_names ! nat level @ ''] '' @ module @ '': '' @ msg @ [CHR 0x0A]"

lemma log_prefix_text:
  "printf_text (''[%s] %s: %s'' @ [CHR 0x0A]) [VaStr a, VaStr b, VaStr c] = Inr (''['' @ a @ ''] '' @ b @ '': '' @ c @ [CHR 0x0A])"
proof -
  have f: "''[%s] %s: %s'' @ [CHR 0x0A] = ''['' @ ''%s'' @ ''] '' @ ''%s'' @ '': '' @ ''%s'' @ [CHR 0x0A] @ []"
    by simp
  show ?thesis
    unfolding f printf_text_loop
    by (subst pf_loop_text, simp, simp, subst pf_loop_string, simp)
      (subst pf_loop_text, simp, simp, subst pf_loop_string, simp,
       subst pf_loop_text, simp, simp, subst pf_loop_string, simp, subst pf_loop_text, simp_all)
qed

lemma log_msg_text:
  assumes "length (log_buffer w) = 1024" and "0 \<le> level" and "level < 7"
    and "printf_text format l = Inr out" and "CHR 0x00 \<notin> set out"
  shows "log_msg level module format l w =
    (if log_level w \<le> level then Inr (w\<lparr>log_buffer := take 1023 out @ CHR 0x00 # drop (Suc (min (length out) 1023)) (log_buffer w),
       stderr_text := stderr_text w @ log_line level module (take 1023 out)\<rparr>) else Inr w)"
proof -
  let ?b = "take 1023 out @ CHR 0x00 # drop (Suc (min (length out) 1023)) (log_buffer w)"
  have "CHR 0x00 \<notin> set (take 1023 out)" using assms(5) set_take_subset[of 1023 out] by auto
  then have c: "c_string ?b = take 1023 out" unfolding c_string_def by (subst takeWhile_append2) auto
  have "mel_vsnprintf (log_buffer w) 1024 format l = Inr (min (length out) 1023, ?b)"
    using vsnprintf_text[of 1024 "log_buffer w" format l] assms(1,4) by simp
  moreover obtain n where "mel_printf (''[%s] %s: %s'' @ [CHR 0x0A]) [VaStr (level_names ! nat level), VaStr module,
      VaStr (take 1023 out)] (stderr_text w) = Inr (n, stderr_text w @ log_line level module (take 1023 out))"
    using mel_printf_text[OF log_prefix_text[of "level_names ! nat level" module "take 1023 out"], of "stderr_text w"]
    unfolding log_line_def by blast
  ultimately show ?thesis
    using assms(2,3) by (simp add: log_msg_def vlog_def c)
qed

text \<open>C38. A message whose level reaches the log level adds exactly one line to the standard
  error output: the name of the level, the module, and the text of the message, cut at 1023
  characters; a message below the level changes nothing.\<close>

theorem log_msg_line:
  assumes "length (log_buffer w) = 1024" and "0 \<le> level" and "level < 7"
    and "printf_text format l = Inr out" and "CHR 0x00 \<notin> set out"
  shows "log_msg level module format l w =
    (if log_level w \<le> level then Inr (w\<lparr>log_buffer := take 1023 out @ CHR 0x00 # drop (Suc (min (length out) 1023)) (log_buffer w),
       stderr_text := stderr_text w @ log_line level module (take 1023 out)\<rparr>) else Inr w)"
  using assms by (rule log_msg_text)

theorem log_msg_line_witness:
  "\<exists>w. log_msg 3 ''ocs'' ''bad offset'' [] \<lparr>log_buffer = replicate 1024 CHR ''x'', log_level = 2, stderr_text = ''''\<rparr> = Inr w \<and>
     stderr_text w = ''[WARN ] ocs: bad offset'' @ [CHR 0x0A]"
proof -
  have "printf_text ''bad offset'' [] = Inr ''bad offset''" by code_simp
  then show ?thesis
    using log_msg_line[of "\<lparr>log_buffer = replicate 1024 CHR ''x'', log_level = 2, stderr_text = ''''\<rparr>" 3
        "''bad offset''" "[]" "''bad offset''" "''ocs''"]
    by (simp add: log_line_def level_names_def)
qed

text \<open>A message that is logged, or dropped because of its level: the line it adds.\<close>

definition log_ok :: "log_world \<Rightarrow> bool" where
  "log_ok w \<longleftrightarrow> length (log_buffer w) = 1024"

definition logged :: "log_world \<Rightarrow> string \<Rightarrow> log_world \<Rightarrow> bool" where
  "logged w out w' \<longleftrightarrow> log_ok w' \<and> log_level w' = log_level w \<and> stderr_text w' = stderr_text w @ out"

definition line_at :: "int \<Rightarrow> int \<Rightarrow> string \<Rightarrow> string \<Rightarrow> string" where
  "line_at lo level module text = (if lo \<le> level then log_line level module (take 1023 text) else [])"

lemma log_msg_logged:
  assumes "log_ok w" and "0 \<le> level" and "level < 7" and "printf_text format l = Inr out" and "CHR 0x00 \<notin> set out"
  shows "\<exists>w'. log_msg level module format l w = Inr w' \<and> logged w (line_at (log_level w) level module out) w'"
  using log_msg_text[OF assms(1)[unfolded log_ok_def] assms(2-5), of module] assms(1)
  by (auto simp: logged_def log_ok_def line_at_def)

lemma logged_refl: "log_ok w \<Longrightarrow> logged w [] w"
  by (simp add: logged_def)

lemma logged_trans: "logged w a w1 \<Longrightarrow> logged w1 b w2 \<Longrightarrow> logged w (a @ b) w2"
  by (simp add: logged_def)

end
