(* ===== verification/Heci.thy ===== *)
theory Heci
  imports Printf PciConfig RegFile
begin

text \<open>
  \<open>periph/gasket/heci\<close>: the host interface of the engine, whose status registers are decoded
  into log lines when the guest writes them. The state is the instance and the log.
\<close>

section \<open>State\<close>

record heci_inst =
  heci_name :: string
  heci_sai :: u32
  cse_fs :: u32
  cse_gs1 :: u32
  cse_gs2 :: u32
  cse_gs3 :: u32
  cse_gs4 :: u32
  cse_gs5 :: u32
  cse_shdw1 :: u32
  cse_shdw2 :: u32
  cse_cuba :: u32

section \<open>The tables\<close>

definition gs1_icc_status :: "string list" where
  "gs1_icc_status =
    [''Valid OEM data, ICC programmed'', ''No valid OEM data, ICC programmed with defaults'',
     ''Valid OEM data, ICC not programmed'', ''No valid OEM data, ICC not programmed'']"

definition gs1_bup_status :: "string list" where
  "gs1_bup_status =
    [''BEGIN'', ''DISABLE_HOST_WAKE_EVENT'', ''ENABLE_CLOCK_GATING'', ''PM_ME_HANDSHAKING'', ''FLOW_DETERMINATION'',
     ''PMC_PATCHING'', ''GET_FLASH_VSCC'', ''SET_FLASH_VSCC'', ''VSCC_FAILURE'', ''EFFS_INITIALIZATION'',
     ''CHECK_ME_STRAP_DISABLED'', ''TIMEOUT_WAITING_T34'', ''CHECK_STRAP_DISABLED'', ''CHECK_BUP_OVERRIDE_STRAP'',
     ''CHECK_ME_POLICY_DISABLED'', ''PKTPM_INITIALIZATION'', ''BLOB_INITIALIZATION'', ''CM3'', ''CM0'',
     ''FLOW_ERROR'', ''CM3_CLOCK_SWITCH'', ''CM3_CLOCK_SWITCH_ERROR'', ''CM3_FLASH_PAGING'', ''CM3_ICV_RECOVERY'',
     ''CM3_LOAD_KERNEL'', ''CM0_HOST_PREP'', ''CM0_SKIP_HOST_PREP'', ''CM0_ICC_PROG'', ''CM0_T34_ERROR'',
     ''CM0_FLEX_SKU'', ''CM0_TPM_START'', ''CM0_DID_WAIT'', ''CM0_DID_ERROR'', ''CM0_DID_NOMEM'', ''CM0_UMA_ENABLE'',
     ''CM0_UMA_ENABLE_ERROR'', ''CM0_DID_ACK'', ''CM0_DID_ACK_ERROR'', ''CM0_CLOCK_SWITCH'',
     ''CM0_CLOCK_SWITCH_ERROR'', ''CM0_TEMP_DISABLE'', ''CM0_TEMP_DISABLE_ERROR'', ''CM0_TEMP_DISABLE_UMA_ERROR'',
     ''CM0_IPK_CHECK'', ''CM0_IPK_RECREATION'', ''CM0_IPK_RECREATION_ERROR'', ''CM0_UMA_VALIDATION'',
     ''CM0_UMA_VALIDATION_ERROR'', ''CM0_UMA_VALIDATION_IPK'', ''CM0_PKVENOM_START'', ''CM0_LOAD_KERNEL'',
     ''CM0_FTPM_INIT'', ''CM0_FTPM_ABORT'', ''HALT_UPON_FIPS_BUP_ERR'', ''HALT_UPON_FIPS_CRYPTO_DRV_ERR'',
     ''HALT_UPON_FIPS_TLS_ERR'', ''HALT_UPON_FIPS_DT_ERR'', ''HALT_UPON_FIPS_UNKNOWN_ERR'',
     ''CM0_MEMORY_ACCESS_RANGE_ERR'', ''CSE_RESET_LIMIT_ERR'', ''CSE_RESET_ENTER_RECOVERY'',
     ''HALT_UPON_UNKNOWN_ERROR'', ''VALIDATE_NFT'', ''READ_FIXED_DATA'', ''READ_ICC_DATA'', ''ZERO_UMA'',
     ''HALT_UPON_SKU_ERROR'', ''DERIVE_CHIPSET_KEY_ERROR'', ''HOST_ERROR'', ''69'', ''FTP_LOAD_ERROR'',
     ''MFG_CMRST'', ''MPR_VIOLATION_CMRST'', ''ICC_START_POLL_BEGIN'', ''ICC_START_POLL_END'', ''HOBIT_SET'',
     ''POLL_CPURST_DEASSERT_BEGIN'']"

definition gs1_modules :: "string list" where
  "gs1_modules =
    [''ROM/Preboot'', ''RBE'', ''Privilege Micro-Kernel'', ''BringUp'', ''Loading'', ''IDLM'', ''HOSTCOMM'',
     ''FWUpdate'', ''Maestro'', ''9'', ''10'', ''11'', ''12'', ''13'', ''14'', ''15'']"

definition fs_state :: "string list" where
  "fs_state =
    [''Reset'', ''Init'', ''Recovery'', ''Test'', ''Disabled'', ''Normal'', ''Disabled and waiting to timeout'',
     ''State transition'', ''Invalid CPU and PCH combination'', ''Invalid PCH SKU emulation'',
     ''Boot Guard failure: ACM module failure'', ''Boot Guard failure: SM module failure'',
     ''Boot Guard failure: SM Timer zeroed out, infinite wait'', ''Boot Guard enabled: PCH is plugged in'', ''14'',
     ''15'']"

definition fs_opstate :: "string list" where
  "fs_opstate =
    [''Transitioning'', ''CM0 with UMA'', ''CM0 Power Gated'', ''Unknown'', ''CM3 with no UMA'', ''CM0 with no UMA'',
     ''Bring Up'', ''FW error when CM0 with no UMA'']"

text \<open>Two tables of 16 pointers with 15 initialisers: the last is null.\<close>

definition fs_error :: "string option list" where
  "fs_error = map Some
    [''No Error'', ''Image Failure'', ''Disabled'', ''Unknown Failure'', ''PG exit Failure'', ''6'', ''7'', ''8'',
     ''9'', ''10'', ''11'', ''12'', ''13'', ''14'', ''15''] @ [None]"

definition fs_opmode :: "string option list" where
  "fs_opmode = map Some
    [''Normal'', ''Ignition'', ''Alt Disable Mode'', ''Temporary Disable mode'', ''Unsecured mode by H/W jumper'',
     ''Unsecured mode by HECI message'', ''7'', ''8'', ''9'', ''10'', ''11'', ''12'', ''13'', ''14'', ''15''] @ [None]"

section \<open>Decoding of the status registers\<close>

definition log_if :: "bool \<Rightarrow> string \<Rightarrow> string \<Rightarrow> va_list \<Rightarrow> log_world \<Rightarrow> log_world res" where
  "log_if cond module format l w = (if cond then log_msg 2 module format l w else Inr w)"

definition heci_handle_gs1_change :: "heci_inst \<Rightarrow> u32 \<Rightarrow> log_world \<Rightarrow> log_world res" where
  "heci_handle_gs1_change i newval w =
    (let diff = cse_gs1 i XOR newval; name = heci_name i in
     rbind (log_if (tst diff (push_bit 1 3)) name ''Set ICC status: %s''
       [VaStr (gs1_icc_status ! unat (drop_bit 1 newval AND 3))] w) (\<lambda>w.
     rbind (log_if (tst diff (push_bit 6 1)) name ''Set ME filesystem corrupted: %i'' [VaWord (drop_bit 6 newval AND 1)] w) (\<lambda>w.
     rbind (if tst diff (push_bit 16 0xFF) then
         let field = drop_bit 16 newval AND 0xFF; active = drop_bit 28 newval AND 0xF in
         if active = 3 \<and> unat field < length gs1_bup_status then
           log_msg 2 name ''Set module progresss: %s'' [VaStr (gs1_bup_status ! unat field)] w
         else log_msg 2 name ''Set module progresss: %i'' [VaWord field] w
       else Inr w) (\<lambda>w.
     rbind (log_if (tst diff (push_bit 24 0xF)) name ''Set GS1[27 downto 24]: %i'' [VaWord (drop_bit 24 newval AND 0xF)] w) (\<lambda>w.
     log_if (tst diff (push_bit 28 0xF)) name ''Set active module: %s'' [VaStr (gs1_modules ! unat (drop_bit 28 newval AND 0xF))] w)))))"

text \<open>
  The error code and the mode are printed with \<open>%i\<close> although they are strings: what appears is
  the address of the string literal, which \<open>lit\<close> stands for, or 0 for the null pointer.
\<close>

definition literal_word :: "(string \<Rightarrow> u32) \<Rightarrow> string option \<Rightarrow> va_slot" where
  "literal_word lit str = VaWord (case str of None \<Rightarrow> 0 | Some s \<Rightarrow> lit s)"

definition heci_handle_fs_change :: "(string \<Rightarrow> u32) \<Rightarrow> heci_inst \<Rightarrow> u32 \<Rightarrow> log_world \<Rightarrow> log_world res" where
  "heci_handle_fs_change lit i newval w =
    (let diff = cse_fs i XOR newval; name = heci_name i in
     rbind (log_if (tst diff (push_bit 0 0xF)) name ''Set current state: %s''
       [VaStr (fs_state ! unat (drop_bit 0 newval AND 0xF))] w) (\<lambda>w.
     rbind (log_if (tst diff (push_bit 4 1)) name ''Manufacturing mode enabled: %i'' [VaWord (drop_bit 4 newval AND 1)] w) (\<lambda>w.
     rbind (log_if (tst diff (push_bit 5 1)) name ''Flash partition valid: %i'' [VaWord (drop_bit 5 newval AND 1)] w) (\<lambda>w.
     rbind (log_if (tst diff (push_bit 6 7)) name ''Set operational state: %s''
       [VaStr (fs_opstate ! unat (drop_bit 6 newval AND 7))] w) (\<lambda>w.
     rbind (log_if (tst diff (push_bit 9 1)) name ''Set init complete: %i'' [VaWord (drop_bit 9 newval AND 1)] w) (\<lambda>w.
     rbind (log_if (tst diff (push_bit 10 1)) name ''Set BUP Failure: %i'' [VaWord (drop_bit 10 newval AND 1)] w) (\<lambda>w.
     rbind (log_if (tst diff (push_bit 11 1)) name ''Set bit 11: %i'' [VaWord (drop_bit 11 newval AND 1)] w) (\<lambda>w.
     rbind (log_if (tst diff (push_bit 12 0xF)) name ''Set error code: %i''
       [literal_word lit (fs_error ! unat (drop_bit 12 newval AND 0xF))] w) (\<lambda>w.
     log_if (tst diff (push_bit 16 0xF)) name ''Set operational mode: %i''
       [literal_word lit (fs_opmode ! unat (drop_bit 16 newval AND 0xF))] w)))))))))"

section \<open>Registers\<close>

text \<open>The end of each branch of a read: the value is stored, then logged.\<close>

definition heci_read_reg :: "heci_inst \<Rightarrow> u32 \<Rightarrow> int \<Rightarrow> string \<Rightarrow> bytes \<Rightarrow> log_world \<Rightarrow> (int \<times> bytes \<times> log_world) res" where
  "heci_read_reg t v level format buffer w =
    rbind (st32 v buffer) (\<lambda>b. rbind (log_msg level (heci_name t) format [VaWord v] w) (\<lambda>w. Inr (sint (heci_sai t), b, w)))"

definition heci_bar_read :: "nat \<Rightarrow> u64 \<Rightarrow> bytes \<Rightarrow> int \<Rightarrow> heci_inst \<times> log_world \<Rightarrow> (int \<times> bytes \<times> heci_inst \<times> log_world) res" where
  "heci_bar_read bar addr buffer count = (\<lambda>(t, w).
    if bar = 0 then
      rbind
       (if count \<noteq> 4 then
          rbind (log_msg 4 (heci_name t) ''Read to register %08x with bad size %i'' [VaWord (ucast addr), VaWord (word_of_int count)] w)
            (\<lambda>w. Inr (sint (heci_sai t), buffer, w))
        else if addr = 0x4 then heci_read_reg t (cse_fs t) 0 ''Read FS: %08x'' buffer w
        else if addr = 0x10 then heci_read_reg t (cse_gs1 t) 0 ''Read GS1: %08x'' buffer w
        else if addr = 0x14 then heci_read_reg t (cse_gs2 t) 0 ''Read GS2: %08x'' buffer w
        else if addr = 0x18 then heci_read_reg t (cse_gs3 t) 0 ''Read GS3: %08x'' buffer w
        else if addr = 0x1C then heci_read_reg t (cse_gs4 t) 0 ''Read GS4: %08x'' buffer w
        else if addr = 0x20 then heci_read_reg t (cse_gs5 t) 0 ''Read GS5: %08x'' buffer w
        else if addr = 0x24 then heci_read_reg t (cse_shdw1 t) 1 ''Read SHDW1: %08x'' buffer w
        else if addr = 0x28 then heci_read_reg t (cse_shdw2 t) 1 ''Read SHDW2: %08x'' buffer w
        else if addr = 0x5C then heci_read_reg t (cse_cuba t) 1 ''Read CUBA: %08x'' buffer w
        else
          rbind (log_msg 4 (heci_name t) ''Read to unimplemented register %08x size %i'' [VaWord (ucast addr), VaWord (word_of_int count)] w)
            (\<lambda>w. Inr (sint (heci_sai t), buffer, w)))
       (\<lambda>(s, b, w). Inr (s, b, t, w))
    else rbind (log_msg 4 (heci_name t) ''Read to unimplemented bar'' [] w) (\<lambda>w. Inr (-1, buffer, t, w)))"

definition heci_bar_write :: "(string \<Rightarrow> u32) \<Rightarrow> nat \<Rightarrow> u64 \<Rightarrow> bytes \<Rightarrow> int \<Rightarrow> heci_inst \<times> log_world \<Rightarrow>
    (int \<times> heci_inst \<times> log_world) res" where
  "heci_bar_write lit bar addr buffer count = (\<lambda>(t, w).
    let name = heci_name t; log_val = (\<lambda>level format v w. log_msg level name format [VaWord v] w) in
    if bar = 0 then
      rbind
       (if count \<noteq> 4 then
          rbind (log_msg 4 name ''Write to register %08x with bad size %i'' [VaWord (ucast addr), VaWord (word_of_int count)] w)
            (\<lambda>w. Inr (t, w))
        else
          rbind (ld32 buffer) (\<lambda>v.
          if addr = 0x4 then
            rbind (log_val 0 ''Write FS: %08x'' v w) (\<lambda>w. rbind (heci_handle_fs_change lit t v w) (\<lambda>w. Inr (t\<lparr>cse_fs := v\<rparr>, w)))
          else if addr = 0x10 then
            rbind (log_val 0 ''Write GS1: %08x'' v w) (\<lambda>w. rbind (heci_handle_gs1_change t v w) (\<lambda>w. Inr (t\<lparr>cse_gs1 := v\<rparr>, w)))
          else if addr = 0x14 then rbind (log_val 1 ''Write GS2: %08x'' v w) (\<lambda>w. Inr (t\<lparr>cse_gs2 := v\<rparr>, w))
          else if addr = 0x18 then rbind (log_val 1 ''Write GS3: %08x'' v w) (\<lambda>w. Inr (t\<lparr>cse_gs3 := v\<rparr>, w))
          else if addr = 0x1C then rbind (log_val 1 ''Write GS4: %08x'' v w) (\<lambda>w. Inr (t\<lparr>cse_gs4 := v\<rparr>, w))
          else if addr = 0x20 then rbind (log_val 1 ''Write GS5: %08x'' v w) (\<lambda>w. Inr (t\<lparr>cse_gs5 := v\<rparr>, w))
          else if addr = 0x24 then rbind (log_val 1 ''Write SHDW1: %08x'' v w) (\<lambda>w. Inr (t\<lparr>cse_shdw1 := v\<rparr>, w))
          else if addr = 0x28 then rbind (log_val 1 ''Write SHDW2: %08x'' v w) (\<lambda>w. Inr (t\<lparr>cse_shdw2 := v\<rparr>, w))
          else if addr = 0x5C then rbind (log_val 1 ''Write CUBA: %08x'' v w) (\<lambda>w. Inr (t\<lparr>cse_cuba := v\<rparr>, w))
          else
            rbind (log_msg 4 name ''Write to unimplemented register %08x size %i'' [VaWord (ucast addr), VaWord (word_of_int count)] w)
              (\<lambda>w. Inr (t, w))))
       (\<lambda>(t, w). Inr (sint (heci_sai t), t, w))
    else rbind (log_msg 4 name ''Write to unimplemented bar'' [] w) (\<lambda>w. Inr (-1, t, w)))"

section \<open>The function\<close>

record 'w heci_host =
  heci_get :: "'w \<Rightarrow> heci_inst \<times> log_world"
  heci_put :: "heci_inst \<times> log_world \<Rightarrow> 'w \<Rightarrow> 'w"
  heci_get_config :: "'w \<Rightarrow> pci_cfgspace"
  heci_put_config :: "pci_cfgspace \<Rightarrow> 'w \<Rightarrow> 'w"

definition heci_func :: "(string \<Rightarrow> u32) \<Rightarrow> 'w heci_host \<Rightarrow> 'w pci_simplefunc" where
  "heci_func lit host = \<lparr>sf_flags = 0, sf_max_bar = 1, sf_bar_size = [0x6000, 0, 0, 0, 0, 0],
     sf_get_config = heci_get_config host, sf_put_config = heci_put_config host,
     sf_bar_read = Some (\<lambda>bar addr buf count w. rbind (heci_bar_read bar addr buf count (heci_get host w))
       (\<lambda>(r, buf, s). Inr (r, buf, heci_put host s w))),
     sf_bar_write = Some (\<lambda>bar addr buf count w. rbind (heci_bar_write lit bar addr buf count (heci_get host w))
       (\<lambda>(r, s). Inr (r, heci_put host s w))),
     sf_cfg_read = None, sf_cfg_write = None\<rparr>"

definition heci_config :: "heci_inst \<Rightarrow> cfg_section \<Rightarrow> heci_inst" where
  "heci_config i sec = i\<lparr>heci_sai := cfg_or (cfg_find_int32 sec ''sai'') (heci_sai i)\<rparr>"

definition heci_zero :: "string \<Rightarrow> heci_inst" where
  "heci_zero name = \<lparr>heci_name = name, heci_sai = 0, cse_fs = 0, cse_gs1 = 0, cse_gs2 = 0, cse_gs3 = 0, cse_gs4 = 0,
     cse_gs5 = 0, cse_shdw1 = 0, cse_shdw2 = 0, cse_cuba = 0\<rparr>"

definition heci_spawn :: "(string \<Rightarrow> u32) \<Rightarrow> 'w heci_host \<Rightarrow> cfg_section \<Rightarrow> 'w pci_bus list \<Rightarrow> unit device_instance list \<Rightarrow> 'w \<Rightarrow>
    ('w pci_bus list \<times> unit device_instance list \<times> 'w) res" where
  "heci_spawn lit host sec buses devs w =
    (let i = heci_config (heci_zero (section_name sec)) sec;
         w = heci_put_config host (replicate 0x1000 0) (heci_put host (i, snd (heci_get host w)) w)
     in rbind (pci_simple_init (heci_func lit host) (Some sec) buses w) (\<lambda>(buses, w).
        rbind (device_register \<lparr>device_name = section_name sec, device_impl = ()\<rparr> devs) (\<lambda>devs.
          Inr (buses, devs, w))))"

section \<open>Sequences of messages\<close>

text \<open>\<open>logs f out\<close>: \<open>f\<close> succeeds and adds the text \<open>out\<close>, which depends on the log level.\<close>

definition logs :: "(log_world \<Rightarrow> log_world res) \<Rightarrow> (int \<Rightarrow> string) \<Rightarrow> bool" where
  "logs f out \<longleftrightarrow> (\<forall>w. log_ok w \<longrightarrow> (\<exists>w'. f w = Inr w' \<and> logged w (out (log_level w)) w'))"

lemma logs_bind: "logs f a \<Longrightarrow> logs g b \<Longrightarrow> logs (\<lambda>w. rbind (f w) g) (\<lambda>l. a l @ b l)"
  unfolding logs_def logged_def by fastforce

lemma logs_msg:
  assumes "0 \<le> level" and "level < 7" and "printf_text format args = Inr out" and "CHR 0x00 \<notin> set out"
  shows "logs (log_msg level module format args) (\<lambda>l. line_at l level module out)"
  unfolding logs_def using log_msg_logged[OF _ assms] by blast

lemma logs_msg_if: "(c \<Longrightarrow> logs f a) \<Longrightarrow> logs (\<lambda>w. if c then f w else Inr w) (\<lambda>l. if c then a l else [])"
  by (auto simp: logs_def logged_refl)

section \<open>What the decoding tells\<close>

text \<open>The bits of a field, and the messages about the fields that change from \<open>old\<close> to \<open>new\<close>.\<close>

definition bits :: "nat \<Rightarrow> nat \<Rightarrow> u32 \<Rightarrow> u32" where
  "bits lo n v = take_bit n (drop_bit lo v)"

definition changed :: "nat \<Rightarrow> nat \<Rightarrow> (u32 \<Rightarrow> string) \<Rightarrow> u32 \<Rightarrow> u32 \<Rightarrow> string list" where
  "changed lo n text old new = (if bits lo n old \<noteq> bits lo n new then [text new] else [])"

definition fs_texts :: "(string \<Rightarrow> u32) \<Rightarrow> u32 \<Rightarrow> u32 \<Rightarrow> string list" where
  "fs_texts lit old new = concat (map (\<lambda>(lo, n, text). changed lo n text old new)
    [(0, 4, \<lambda>v. ''Set current state: '' @ fs_state ! unat (bits 0 4 v)),
     (4, 1, \<lambda>v. ''Manufacturing mode enabled: '' @ dec32 (bits 4 1 v)),
     (5, 1, \<lambda>v. ''Flash partition valid: '' @ dec32 (bits 5 1 v)),
     (6, 3, \<lambda>v. ''Set operational state: '' @ fs_opstate ! unat (bits 6 3 v)),
     (9, 1, \<lambda>v. ''Set init complete: '' @ dec32 (bits 9 1 v)),
     (10, 1, \<lambda>v. ''Set BUP Failure: '' @ dec32 (bits 10 1 v)),
     (11, 1, \<lambda>v. ''Set bit 11: '' @ dec32 (bits 11 1 v)),
     (12, 4, \<lambda>v. ''Set error code: '' @
        dec32 (case fs_error ! unat (bits 12 4 v) of None \<Rightarrow> 0 | Some s \<Rightarrow> lit s)),
     (16, 4, \<lambda>v. ''Set operational mode: '' @
        dec32 (case fs_opmode ! unat (bits 16 4 v) of None \<Rightarrow> 0 | Some s \<Rightarrow> lit s))])"

definition gs1_progress :: "u32 \<Rightarrow> string" where
  "gs1_progress v = (let field = bits 16 8 v in
     if bits 28 4 v = 3 \<and> unat field < length gs1_bup_status then gs1_bup_status ! unat field else dec32 field)"

definition gs1_texts :: "u32 \<Rightarrow> u32 \<Rightarrow> string list" where
  "gs1_texts old new = concat (map (\<lambda>(lo, n, text). changed lo n text old new)
    [(1, 2, \<lambda>v. ''Set ICC status: '' @ gs1_icc_status ! unat (bits 1 2 v)),
     (6, 1, \<lambda>v. ''Set ME filesystem corrupted: '' @ dec32 (bits 6 1 v)),
     (16, 8, \<lambda>v. ''Set module progresss: '' @ gs1_progress v),
     (24, 4, \<lambda>v. ''Set GS1[27 downto 24]: '' @ dec32 (bits 24 4 v)),
     (28, 4, \<lambda>v. ''Set active module: '' @ gs1_modules ! unat (bits 28 4 v))])"

lemma field_masks:
  "drop_bit lo v AND 0xF = bits lo 4 v" "drop_bit lo v AND 1 = bits lo 1 v" "drop_bit lo v AND 3 = bits lo 2 v"
  "drop_bit lo v AND 7 = bits lo 3 v" "drop_bit lo v AND 0xFF = bits lo 8 v"
  by (simp_all add: bits_def take_bit_eq_mask mask_eq_exp_minus_1)

lemma tst_changed: "tst (old XOR new) (push_bit lo (mask n)) \<longleftrightarrow> bits lo n old \<noteq> bits lo n new"
proof -
  have "(old XOR new) AND push_bit lo (mask n) = push_bit lo (bits lo n old XOR bits lo n new)"
    unfolding bits_def by (rule bit_word_eqI) (auto simp: bit_simps)
  moreover have "push_bit lo (bits lo n old XOR bits lo n new) = 0 \<longleftrightarrow> bits lo n old = bits lo n new"
  proof
    assume z: "push_bit lo (bits lo n old XOR bits lo n new) = 0"
    show "bits lo n old = bits lo n new"
    proof (rule bit_word_eqI)
      fix k assume "k < LENGTH(32)"
      show "bit (bits lo n old) k = bit (bits lo n new) k"
      proof (cases "lo + k < LENGTH(32)")
        case True
        from z have "\<not> bit (push_bit lo (bits lo n old XOR bits lo n new)) (lo + k)" by simp
        with True show ?thesis by (simp add: bit_simps)
      next
        case False
        then show ?thesis using bit_imp_le_length[of old "lo + k"] bit_imp_le_length[of new "lo + k"]
          by (auto simp: bits_def bit_simps)
      qed
    qed
  qed simp
  ultimately show ?thesis by (simp add: tst_def)
qed

lemma tst_fields:
  "tst (old XOR new) (push_bit lo 0xF) \<longleftrightarrow> bits lo 4 old \<noteq> bits lo 4 new"
  "tst (old XOR new) (push_bit lo 1) \<longleftrightarrow> bits lo 1 old \<noteq> bits lo 1 new"
  "tst (old XOR new) (push_bit lo 3) \<longleftrightarrow> bits lo 2 old \<noteq> bits lo 2 new"
  "tst (old XOR new) (push_bit lo 7) \<longleftrightarrow> bits lo 3 old \<noteq> bits lo 3 new"
  "tst (old XOR new) (push_bit lo 0xFF) \<longleftrightarrow> bits lo 8 old \<noteq> bits lo 8 new"
  using tst_changed[of old new lo 4] tst_changed[of old new lo 1] tst_changed[of old new lo 2]
    tst_changed[of old new lo 3] tst_changed[of old new lo 8]
  by (simp_all add: mask_eq_exp_minus_1)

lemma bits_less: "unat (bits lo n v) < 2 ^ n"
  by (simp add: bits_def unsigned_take_bit_eq)

text \<open>A message about one field.\<close>

lemma logs_field:
  assumes "printf_text format args = Inr (text new)" and "CHR 0x00 \<notin> set (text new)"
  shows "logs (log_if (bits lo n old \<noteq> bits lo n new) module format args)
    (\<lambda>l. concat (map (line_at l 2 module) (changed lo n text old new)))"
proof -
  have "logs (\<lambda>w. if bits lo n old \<noteq> bits lo n new then log_msg 2 module format args w else Inr w)
      (\<lambda>l. if bits lo n old \<noteq> bits lo n new then line_at l 2 module (text new) else [])"
    by (intro logs_msg_if logs_msg assms) simp_all
  moreover have "(\<lambda>l. if bits lo n old \<noteq> bits lo n new then line_at l 2 module (text new) else []) =
      (\<lambda>l. concat (map (line_at l 2 module) (changed lo n text old new)))"
    by (auto simp: changed_def)
  ultimately show ?thesis by (simp add: log_if_def[abs_def])
qed

lemma text_string': "f = s @ ''%s'' \<Longrightarrow> CHR ''%'' \<notin> set s \<Longrightarrow> printf_text f [VaStr a] = Inr (s @ a)"
  using text_string by simp

lemma text_dec32': "f = s @ ''%i'' \<Longrightarrow> CHR ''%'' \<notin> set s \<Longrightarrow> printf_text f [VaWord v] = Inr (s @ dec32 v)"
  using text_dec32 by simp

lemma text_hex8': "f = s @ ''%08x'' \<Longrightarrow> CHR ''%'' \<notin> set s \<Longrightarrow> printf_text f [VaWord v] = Inr (s @ hex8 v)"
  using text_hex8 by simp

definition clean :: "string list \<Rightarrow> bool" where
  "clean ss \<longleftrightarrow> list_all (\<lambda>s. CHR 0x00 \<notin> set s) ss"

lemma clean_nth: "clean ss \<Longrightarrow> i < length ss \<Longrightarrow> CHR 0x00 \<notin> set (ss ! i)"
  by (simp add: clean_def list_all_length)

lemma clean_tables: "clean gs1_icc_status" "clean gs1_bup_status" "clean gs1_modules" "clean fs_state" "clean fs_opstate"
  unfolding clean_def gs1_icc_status_def gs1_bup_status_def gs1_modules_def fs_state_def fs_opstate_def by simp_all

lemma table_lengths: "length gs1_icc_status = 2 ^ 2" "length gs1_modules = 2 ^ 4" "length fs_state = 2 ^ 4"
  "length fs_opstate = 2 ^ 3"
  by (simp_all add: gs1_icc_status_def gs1_modules_def fs_state_def fs_opstate_def)

lemma table_texts:
  "CHR 0x00 \<notin> set (gs1_icc_status ! unat (bits lo 2 v))" "CHR 0x00 \<notin> set (gs1_modules ! unat (bits lo 4 v))"
  "CHR 0x00 \<notin> set (fs_state ! unat (bits lo 4 v))" "CHR 0x00 \<notin> set (fs_opstate ! unat (bits lo 3 v))"
  by (rule clean_nth, rule clean_tables, simp add: table_lengths bits_less del: power_numeral)+

lemma fs_logs:
  "logs (heci_handle_fs_change lit i new)
    (\<lambda>l. concat (map (line_at l 2 (heci_name i)) (fs_texts lit (cse_fs i) new)))"
  unfolding heci_handle_fs_change_def[abs_def] Let_def tst_fields field_masks literal_word_def fs_texts_def
    list.map concat.simps prod.case append_Nil2 map_append concat_append
  by (intro logs_bind logs_field text_string' text_dec32')
    (simp_all add: table_texts dec32_no_nul)

lemma gs1_logs:
  "logs (heci_handle_gs1_change i new)
    (\<lambda>l. concat (map (line_at l 2 (heci_name i)) (gs1_texts (cse_gs1 i) new)))"
proof -
  have nul: "CHR 0x00 \<notin> set (gs1_progress v)" for v
    using clean_nth[OF clean_tables(2)] dec32_no_nul by (simp add: gs1_progress_def Let_def)
  have f: "(if tst (cse_gs1 i XOR new) (push_bit 16 0xFF) then
         let field = drop_bit 16 new AND 0xFF; active = drop_bit 28 new AND 0xF in
         if active = 3 \<and> unat field < length gs1_bup_status then
           log_msg 2 (heci_name i) ''Set module progresss: %s'' [VaStr (gs1_bup_status ! unat field)] w
         else log_msg 2 (heci_name i) ''Set module progresss: %i'' [VaWord field] w
       else Inr w) =
    log_if (bits 16 8 (cse_gs1 i) \<noteq> bits 16 8 new) (heci_name i)
      (if bits 28 4 new = 3 \<and> unat (bits 16 8 new) < length gs1_bup_status then ''Set module progresss: %s''
       else ''Set module progresss: %i'')
      [if bits 28 4 new = 3 \<and> unat (bits 16 8 new) < length gs1_bup_status then VaStr (gs1_bup_status ! unat (bits 16 8 new))
       else VaWord (bits 16 8 new)] w" for w
    unfolding tst_fields field_masks by (simp add: log_if_def Let_def)
  have t: "printf_text (if bits 28 4 new = 3 \<and> unat (bits 16 8 new) < length gs1_bup_status then ''Set module progresss: %s''
       else ''Set module progresss: %i'')
      [if bits 28 4 new = 3 \<and> unat (bits 16 8 new) < length gs1_bup_status then VaStr (gs1_bup_status ! unat (bits 16 8 new))
       else VaWord (bits 16 8 new)] = Inr (''Set module progresss: '' @ gs1_progress new)"
    using text_string'[of "''Set module progresss: %s''" "''Set module progresss: ''"]
      text_dec32'[of "''Set module progresss: %i''" "''Set module progresss: ''"]
    by (auto simp: gs1_progress_def Let_def)
  show ?thesis
    unfolding heci_handle_gs1_change_def[abs_def] Let_def f[unfolded Let_def]
    unfolding tst_fields field_masks gs1_texts_def list.map concat.simps prod.case append_Nil2 map_append concat_append
    by (intro logs_bind logs_field text_string' text_dec32' t) (simp_all add: table_texts dec32_no_nul nul)
qed

section \<open>The registers\<close>

definition heci_offsets :: "u64 set" where
  "heci_offsets = {0x4, 0x10, 0x14, 0x18, 0x1C, 0x20, 0x24, 0x28, 0x5C}"

definition heci_rd :: "u64 \<Rightarrow> heci_inst \<Rightarrow> u32" where
  "heci_rd a t =
    (if a = 0x4 then cse_fs t else if a = 0x10 then cse_gs1 t else if a = 0x14 then cse_gs2 t
     else if a = 0x18 then cse_gs3 t else if a = 0x1C then cse_gs4 t else if a = 0x20 then cse_gs5 t
     else if a = 0x24 then cse_shdw1 t else if a = 0x28 then cse_shdw2 t else cse_cuba t)"

definition heci_wr :: "u64 \<Rightarrow> u32 \<Rightarrow> heci_inst \<Rightarrow> heci_inst" where
  "heci_wr a v t =
    (if a = 0x4 then t\<lparr>cse_fs := v\<rparr> else if a = 0x10 then t\<lparr>cse_gs1 := v\<rparr> else if a = 0x14 then t\<lparr>cse_gs2 := v\<rparr>
     else if a = 0x18 then t\<lparr>cse_gs3 := v\<rparr> else if a = 0x1C then t\<lparr>cse_gs4 := v\<rparr> else if a = 0x20 then t\<lparr>cse_gs5 := v\<rparr>
     else if a = 0x24 then t\<lparr>cse_shdw1 := v\<rparr> else if a = 0x28 then t\<lparr>cse_shdw2 := v\<rparr> else t\<lparr>cse_cuba := v\<rparr>)"

interpretation heci_regs: reg_file heci_rd heci_wr heci_offsets "\<lambda>t. True"
  by unfold_locales (auto simp: heci_offsets_def heci_rd_def heci_wr_def)

definition heci_reg_name :: "u64 \<Rightarrow> string" where
  "heci_reg_name a =
    (if a = 0x4 then ''FS'' else if a = 0x10 then ''GS1'' else if a = 0x14 then ''GS2'' else if a = 0x18 then ''GS3''
     else if a = 0x1C then ''GS4'' else if a = 0x20 then ''GS5'' else if a = 0x24 then ''SHDW1''
     else if a = 0x28 then ''SHDW2'' else ''CUBA'')"

text \<open>The messages about a write: the value, and for the two status registers the changed fields.\<close>

definition heci_write_text :: "(string \<Rightarrow> u32) \<Rightarrow> heci_inst \<Rightarrow> u64 \<Rightarrow> u32 \<Rightarrow> int \<Rightarrow> string" where
  "heci_write_text lit t a v l =
    line_at l (if a = 0x4 \<or> a = 0x10 then 0 else 1) (heci_name t) (''Write '' @ heci_reg_name a @ '': '' @ hex8 v) @
    concat (map (line_at l 2 (heci_name t))
      (if a = 0x4 then fs_texts lit (cse_fs t) v else if a = 0x10 then gs1_texts (cse_gs1 t) v else []))"

lemma logs_hex:
  assumes "f = s @ ''%08x''" and "CHR ''%'' \<notin> set s" and "CHR 0x00 \<notin> set s" and "0 \<le> level" and "level < 7"
  shows "logs (log_msg level module f [VaWord v]) (\<lambda>l. line_at l level module (s @ hex8 v))"
  by (rule logs_msg[OF assms(4,5) text_hex8'[OF assms(1,2)]]) (simp add: assms(3) hex8_no_nul)

lemma logs_apply: "logs f out \<Longrightarrow> log_ok w \<Longrightarrow> \<exists>w'. f w = Inr w' \<and> logged w (out (log_level w)) w'"
  by (simp add: logs_def)

lemma heci_write:
  assumes "a \<in> heci_offsets" and "log_ok w"
  shows "\<exists>w'. heci_bar_write lit 0 a (le_bytes 4 v) 4 (t, w) = Inr (sint (heci_sai t), heci_wr a v t, w') \<and>
    logged w (heci_write_text lit t a v (log_level w)) w'"
proof -
  have one: "\<exists>w'. log_msg 1 (heci_name t) f [VaWord v] w = Inr w' \<and> logged w (line_at (log_level w) 1 (heci_name t) (s @ hex8 v)) w'"
    if "f = s @ ''%08x''" "CHR ''%'' \<notin> set s" "CHR 0x00 \<notin> set s" for f s
    by (rule logs_apply[OF logs_hex[OF that] assms(2)]) simp_all
  have zero: "\<exists>w'. rbind (log_msg 0 (heci_name t) f [VaWord v] w) g = Inr w' \<and>
      logged w (line_at (log_level w) 0 (heci_name t) (s @ hex8 v) @ out (log_level w)) w'"
    if "f = s @ ''%08x''" "CHR ''%'' \<notin> set s" "CHR 0x00 \<notin> set s" "logs g out" for f s g out
    using logs_apply[OF logs_bind[OF logs_hex[OF that(1-3)] that(4)] assms(2)] by simp
  note simps = heci_bar_write_def heci_wr_def heci_write_text_def heci_reg_name_def
  from assms(1) consider "a = 0x4" | "a = 0x10" | "a = 0x14" | "a = 0x18" | "a = 0x1C" | "a = 0x20" | "a = 0x24" | "a = 0x28" | "a = 0x5C"
    by (auto simp: heci_offsets_def)
  then show ?thesis
  proof cases
    case 1
    then show ?thesis
      using zero[of "''Write FS: %08x''" "''Write FS: ''", OF _ _ _ fs_logs[of lit t v]] by (auto simp: simps rbind_Inr_iff)
  next
    case 2
    then show ?thesis
      using zero[of "''Write GS1: %08x''" "''Write GS1: ''", OF _ _ _ gs1_logs[of t v]] by (auto simp: simps rbind_Inr_iff)
  next
    case 3
    then show ?thesis using one[of "''Write GS2: %08x''" "''Write GS2: ''"] by (auto simp: simps)
  next
    case 4
    then show ?thesis using one[of "''Write GS3: %08x''" "''Write GS3: ''"] by (auto simp: simps)
  next
    case 5
    then show ?thesis using one[of "''Write GS4: %08x''" "''Write GS4: ''"] by (auto simp: simps)
  next
    case 6
    then show ?thesis using one[of "''Write GS5: %08x''" "''Write GS5: ''"] by (auto simp: simps)
  next
    case 7
    then show ?thesis using one[of "''Write SHDW1: %08x''" "''Write SHDW1: ''"] by (auto simp: simps)
  next
    case 8
    then show ?thesis using one[of "''Write SHDW2: %08x''" "''Write SHDW2: ''"] by (auto simp: simps)
  next
    case 9
    then show ?thesis using one[of "''Write CUBA: %08x''" "''Write CUBA: ''"] by (auto simp: simps)
  qed
qed

lemma heci_reg_name_clean: "CHR ''%'' \<notin> set (heci_reg_name a)" "CHR 0x00 \<notin> set (heci_reg_name a)"
  by (simp_all add: heci_reg_name_def)

lemma heci_read_cases:
  "a \<in> heci_offsets \<Longrightarrow> heci_bar_read 0 a buf 4 (t, w) =
    rbind (heci_read_reg t (heci_rd a t) (if a \<in> {0x24, 0x28, 0x5C} then 1 else 0) (''Read '' @ heci_reg_name a @ '': %08x'') buf w)
      (\<lambda>(s, b, w). Inr (s, b, t, w))"
  unfolding heci_offsets_def
  by (elim insertE emptyE) (simp_all add: heci_bar_read_def heci_rd_def heci_reg_name_def)

lemma heci_read:
  assumes "a \<in> heci_offsets" and "log_ok w" and "length buf = 4"
  shows "\<exists>w'. heci_bar_read 0 a buf 4 (t, w) = Inr (sint (heci_sai t), le_bytes 4 (heci_rd a t), t, w') \<and> log_ok w'"
proof -
  let ?level = "if a \<in> {0x24, 0x28, 0x5C} then 1 else 0 :: int" and ?s = "''Read '' @ heci_reg_name a @ '': ''"
  have "logs (log_msg ?level (heci_name t) (''Read '' @ heci_reg_name a @ '': %08x'') [VaWord (heci_rd a t)])
      (\<lambda>l. line_at l ?level (heci_name t) (?s @ hex8 (heci_rd a t)))"
    by (rule logs_hex) (simp_all add: heci_reg_name_clean)
  from logs_apply[OF this assms(2)] show ?thesis
    unfolding heci_read_cases[OF assms(1)] using assms(3) by (auto simp: heci_read_reg_def logged_def)
qed

text \<open>C12. A write of a status register stores the value and adds to the log, after the line with the
  value, one line for each field that differs from the old value and for no other, in the order of
  the fields, with the meaning of its new value, if the log level lets messages of that kind
  through.\<close>

theorem heci_status_logged:
  assumes "a \<in> heci_offsets" and "log_ok w"
  shows "\<exists>w'. heci_bar_write lit 0 a (le_bytes 4 v) 4 (t, w) = Inr (sint (heci_sai t), heci_wr a v t, w') \<and>
    stderr_text w' = stderr_text w @
      line_at (log_level w) (if a = 0x4 \<or> a = 0x10 then 0 else 1) (heci_name t) (''Write '' @ heci_reg_name a @ '': '' @ hex8 v) @
      concat (map (line_at (log_level w) 2 (heci_name t))
        (if a = 0x4 then fs_texts lit (cse_fs t) v else if a = 0x10 then gs1_texts (cse_gs1 t) v else []))"
  using heci_write[OF assms, of lit v t] unfolding logged_def heci_write_text_def by blast

theorem heci_status_logged_witness:
  "\<exists>w'. heci_bar_write (\<lambda>s. 0) 0 0x4 (le_bytes 4 (0x205 :: u32)) 4
      (heci_zero ''heci'', \<lparr>log_buffer = replicate 1024 CHR ''x'', log_level = 2, stderr_text = ''''\<rparr>) =
      Inr (0, (heci_zero ''heci'')\<lparr>cse_fs := 0x205\<rparr>, w') \<and>
    stderr_text w' = ''[INFO ] heci: Set current state: Normal'' @ [CHR 0x0A] @ ''[INFO ] heci: Set init complete: 1'' @ [CHR 0x0A]"
proof -
  have "fs_texts (\<lambda>s. 0) 0 0x205 = [''Set current state: Normal'', ''Set init complete: 1'']" by code_simp
  then show ?thesis
    using heci_status_logged[of "0x4" "\<lparr>log_buffer = replicate 1024 CHR ''x'', log_level = 2, stderr_text = ''''\<rparr>"
        "\<lambda>s. 0" "0x205" "heci_zero ''heci''"]
    by (simp add: heci_offsets_def log_ok_def heci_zero_def heci_wr_def line_at_def log_line_def level_names_def)
qed

end
