(* ===== verification/MisaRegs.thy ===== *)
theory MisaRegs
  imports PciConfig Layout "HOL-Library.Sublist"
begin

text \<open>
  \<open>include/misa/regs.h\<close>: the register file of the system agent, a packed struct of five
  packed structs. A struct is the list of its members with their sizes in bytes; the registers
  are the bytes of the struct, and a member is read and written at its offset.
\<close>

definition misa_iommu_entry :: nat where "misa_iommu_entry = 2 * word32"

definition misa_bunit_regs :: layout where
  "misa_bunit_regs =
   [(''reserved_0400'', word32), (''BCTRL'', word32), (''BWFLUSH'', word32),
    (''reserved_040C'', 27 * word32), (''BNOCACHE'', word32), (''reserved_047C'', 17 * word32),
    (''BDEBUG0'', word32), (''reserved_04C4'', 47 * word32), (''BARBCTRL'', word32),
    (''reserved_0584'', 3 * word32), (''BSTATUS'', word32), (''reserved_0594'', 155 * word32)]"

definition misa_cunit_regs :: layout where
  "misa_cunit_regs =
   [(''FWDCTL'', word32), (''FWDTRP'', word32), (''FWDTWP'', word32), (''reserved_080C'', 252 * word32),
    (''CCTRL'', word32)]"

definition misa_hunit_regs :: layout where
  "misa_hunit_regs =
   [(''HMISC0'', word32), (''reserved_0C04'', 7 * word32), (''HMBOUND'', word32), (''HEC'', word32),
    (''HMLSE'', word32), (''reserved_0C2C'', word32), (''HWFLUSH'', word32),
    (''reserved_0C34'', 35 * word32), (''CHAPCTL'', word32), (''CNT0CMD'', word32), (''CNT0DAT'', word32),
    (''CNT1CMD'', word32), (''CNT1DAT'', word32), (''CNT2CMD'', word32), (''CNT2DAT'', word32),
    (''reserved_0CDC'', 73 * word32), (''HLRURES'', word32), (''HLRUCR'', word32), (''HLRULERR'', word32),
    (''reserved_0E0C'', 5 * word32), (''HROMMB'', word32), (''reserved_0E24'', 7 * word32),
    (''HFWDBG'', word32), (''reserved_0E44'', 111 * word32)]"

definition misa_aunit_regs :: layout where
  "misa_aunit_regs =
   [(''AEC'', word32), (''ACF8'', word32), (''ACTRL'', word32), (''reserved_100C'', 45 * word32),
    (''AMISRCTL'', word32), (''ADNCMDMISR'', word32), (''ADNDATMISR'', word32), (''AUPCMDMISR'', word32),
    (''AUPDATMISR'', word32), (''reserved_10D4'', 11 * word32), (''AAVCTL'', word32),
    (''reserved_1104'', word32), (''AAVDL'', word32), (''reserved_110C'', word32), (''AAVHL0'', word32),
    (''AAVHL1'', word32), (''AAVHL2'', word32), (''reserved_111C'', word32), (''AIOMCTL'', word32),
    (''AIOMERR'', word32), (''AIOMERRD'', word32), (''reserved_112C'', 5 * word32),
    (''ACPLMTX'', 8 * word32), (''AMSIMTX'', 8 * word32), (''reserved_1180'', 160 * word32),
    (''AIOM'', 64 * misa_iommu_entry)]"

definition misa_sram_regs :: layout where
  "misa_sram_regs =
   [(''SRAM_CTL'', word32), (''reserved_1C04'', 3 * word32), (''SRAM_POWER_CTL'', word32),
    (''reserved_1C14'', word32), (''SRAM_POWER_STS'', word32), (''reserved_1C1C'', word32),
    (''SRAM_INIT_CTL'', word32), (''reserved_1C24'', word32), (''SRAM_INIT_STS'', word32),
    (''reserved_1C2C'', word32), (''SRAM_INIT_CFG'', word32), (''reserved_1C34'', 3 * word32),
    (''SRAM_INIT_LFSR_SEED'', 4 * word32)]"

definition misa_regs :: layout where
  "misa_regs = misa_bunit_regs @ misa_cunit_regs @ misa_hunit_regs @ misa_aunit_regs @ misa_sram_regs"

section \<open>Fields of the registers\<close>

definition MISA_HMBOUND_HMBOUND_MASK :: u32 where "MISA_HMBOUND_HMBOUND_MASK = 0xFFFFF000"
definition MISA_HEC_ECBASE_MASK :: u32 where "MISA_HEC_ECBASE_MASK = 0xF0000000"
definition MISA_HEC_ECEN :: u32 where "MISA_HEC_ECEN = BIT 0"
definition MISA_HROMMB_ROMBASE_MASK :: u32 where "MISA_HROMMB_ROMBASE_MASK = 0xFFFFF000"
definition MISA_ACF8_CF8EN :: u32 where "MISA_ACF8_CF8EN = BIT 31"
definition MISA_ACF8_BUS :: "u32 \<Rightarrow> u32" where "MISA_ACF8_BUS v = push_bit 16 (v AND 0xFF)"
definition MISA_ACF8_DEV :: "u32 \<Rightarrow> u32" where "MISA_ACF8_DEV v = push_bit 11 (v AND 0x1F)"
definition MISA_ACF8_FUNC :: "u32 \<Rightarrow> u32" where "MISA_ACF8_FUNC v = push_bit 8 (v AND 0x7)"
definition MISA_ACF8_REGOFF :: "u32 \<Rightarrow> u32" where "MISA_ACF8_REGOFF v = v AND 0xFC"
definition MISA_ACF8_G_BUS :: "u32 \<Rightarrow> u32" where "MISA_ACF8_G_BUS v = drop_bit 16 v AND 0xFF"
definition MISA_ACF8_G_DEV :: "u32 \<Rightarrow> u32" where "MISA_ACF8_G_DEV v = drop_bit 11 v AND 0x1F"
definition MISA_ACF8_G_FUNC :: "u32 \<Rightarrow> u32" where "MISA_ACF8_G_FUNC v = drop_bit 8 v AND 0x7"
definition MISA_ACF8_G_REGOFF :: "u32 \<Rightarrow> u32" where "MISA_ACF8_G_REGOFF v = v AND 0xFC"
definition MISA_AIOMCTL_IATEN :: u32 where "MISA_AIOMCTL_IATEN = BIT 1"
definition MISA_AIOMLIN_LINPGMAP_MASK :: u32 where "MISA_AIOMLIN_LINPGMAP_MASK = 0xFFFFF000"
definition MISA_AIOMLIN_EVLD :: u32 where "MISA_AIOMLIN_EVLD = BIT 0"

section \<open>Access\<close>

definition get_reg :: "string \<Rightarrow> bytes \<Rightarrow> u32" where
  "get_reg name regs = get_field (offset_of misa_regs name) 4 regs"

definition put_reg :: "string \<Rightarrow> u32 \<Rightarrow> bytes \<Rightarrow> bytes" where
  "put_reg name v regs = put_field (offset_of misa_regs name) 4 v regs"

text \<open>An element of an array of words, and the two words of a translation entry.\<close>

definition get_reg_at :: "string \<Rightarrow> nat \<Rightarrow> bytes \<Rightarrow> u32" where
  "get_reg_at name i regs = get_field (offset_of misa_regs name + 4 * i) 4 regs"

definition put_reg_at :: "string \<Rightarrow> nat \<Rightarrow> u32 \<Rightarrow> bytes \<Rightarrow> bytes" where
  "put_reg_at name i v regs = put_field (offset_of misa_regs name + 4 * i) 4 v regs"

definition AIOM_LIN :: "nat \<Rightarrow> bytes \<Rightarrow> u32" where
  "AIOM_LIN i regs = get_field (offset_of misa_regs ''AIOM'' + misa_iommu_entry * i) 4 regs"

definition AIOM_PHY :: "nat \<Rightarrow> bytes \<Rightarrow> u32" where
  "AIOM_PHY i regs = get_field (offset_of misa_regs ''AIOM'' + misa_iommu_entry * i + word32) 4 regs"

lemmas layout_defs = misa_regs_def misa_bunit_regs_def misa_cunit_regs_def misa_hunit_regs_def
  misa_aunit_regs_def misa_sram_regs_def misa_iommu_entry_def word32_def

lemma block_sizes:
  "layout_size misa_bunit_regs = 0x400" "layout_size misa_cunit_regs = 0x400" "layout_size misa_hunit_regs = 0x400"
  "layout_size misa_aunit_regs = 0x600" "layout_size misa_sram_regs = 0x50"
  by (simp_all add: layout_defs)

lemma misa_regs_size: "layout_size misa_regs = 0x1250"
  by (simp add: misa_regs_def layout_size_append block_sizes)

lemma offset_hunit:
  assumes "name \<notin> fst ` set misa_bunit_regs" and "name \<notin> fst ` set misa_cunit_regs" and "name \<in> fst ` set misa_hunit_regs"
  shows "offset_of misa_regs name = 0x800 + offset_of misa_hunit_regs name"
  using assms by (simp only: misa_regs_def offset_of_append block_sizes if_True if_False)

lemma offset_aunit:
  assumes "name \<notin> fst ` set misa_bunit_regs" and "name \<notin> fst ` set misa_cunit_regs" and "name \<notin> fst ` set misa_hunit_regs"
    and "name \<in> fst ` set misa_aunit_regs"
  shows "offset_of misa_regs name = 0xC00 + offset_of misa_aunit_regs name"
  using assms by (simp only: misa_regs_def offset_of_append block_sizes if_True if_False)

lemma hunit_offsets:
  "offset_of misa_regs ''HEC'' = 0x824" "offset_of misa_regs ''HMBOUND'' = 0x820" "offset_of misa_regs ''HROMMB'' = 0xA20"
  by (subst offset_hunit; simp add: layout_defs)+

lemma aunit_offsets:
  "offset_of misa_regs ''AEC'' = 0xC00" "offset_of misa_regs ''ACF8'' = 0xC04" "offset_of misa_regs ''AIOMCTL'' = 0xD20"
  "offset_of misa_regs ''ACPLMTX'' = 0xD40" "offset_of misa_regs ''AIOM'' = 0x1000"
  by (subst offset_aunit; simp add: layout_defs)+

lemmas misa_offsets = hunit_offsets aunit_offsets

section \<open>The documented addresses\<close>

text \<open>The addresses in the comments of the header; the registers start at \<open>0x400\<close>.\<close>

definition documented :: "(string \<times> nat) list" where
  "documented =
   [(''BCTRL'', 0x404), (''BWFLUSH'', 0x408), (''BNOCACHE'', 0x478), (''BDEBUG0'', 0x4C0),
    (''BARBCTRL'', 0x580), (''BSTATUS'', 0x590), (''FWDCTL'', 0x800), (''FWDTRP'', 0x804),
    (''FWDTWP'', 0x808), (''CCTRL'', 0xBFC), (''HMISC0'', 0xC00), (''HMBOUND'', 0xC20), (''HEC'', 0xC24),
    (''HMLSE'', 0xC28), (''HWFLUSH'', 0xC30), (''CHAPCTL'', 0xCC0), (''CNT0CMD'', 0xCC4),
    (''CNT0DAT'', 0xCC8), (''CNT1CMD'', 0xCCC), (''CNT1DAT'', 0xCD0), (''CNT2CMD'', 0xCD4),
    (''CNT2DAT'', 0xCD8), (''HLRURES'', 0xE00), (''HLRUCR'', 0xE04), (''HLRULERR'', 0xE08),
    (''HROMMB'', 0xE20), (''HFWDBG'', 0xE40), (''AEC'', 0x1000), (''ACF8'', 0x1004), (''ACTRL'', 0x1008),
    (''AMISRCTL'', 0x10C0), (''ADNCMDMISR'', 0x10C4), (''ADNDATMISR'', 0x10C8), (''AUPCMDMISR'', 0x10CC),
    (''AUPDATMISR'', 0x10D0), (''AAVCTL'', 0x1100), (''AAVDL'', 0x1108), (''AAVHL0'', 0x1110),
    (''AAVHL1'', 0x1114), (''AAVHL2'', 0x1118), (''AIOMCTL'', 0x1120), (''AIOMERR'', 0x1124),
    (''AIOMERRD'', 0x1128)]"

fun addresses :: "nat \<Rightarrow> layout \<Rightarrow> (string \<times> nat) list" where
  "addresses addr [] = []"
| "addresses addr ((name, n) # rest) = (name, addr) # addresses (addr + n) rest"

lemma addresses_append: "addresses addr (a @ b) = addresses addr a @ addresses (addr + layout_size a) b"
  by (induction a arbitrary: addr) (auto simp: add.assoc)

lemma subseq_Cons_code: "subseq ((a :: string, m :: nat) # xs) ((b, n) # ys) =
    (if a = b \<and> m = n then subseq xs ys else subseq ((a, m) # xs) ys)"
  by auto

text \<open>Each register with an address in its comment is at that address of the packed struct, as
  far as the bus sees it, up to the end of the translation entries. The block of SRAM registers
  follows directly, at \<open>0x1600\<close> and not at the \<open>0x1C00\<close> that the names of its members give.\<close>

lemma misa_layout_documented:
  "subseq documented (addresses 0x400 (misa_bunit_regs @ misa_cunit_regs @ misa_hunit_regs @ misa_aunit_regs)) \<and>
   addresses 0x400 misa_regs = addresses 0x400 (misa_bunit_regs @ misa_cunit_regs @ misa_hunit_regs @ misa_aunit_regs) @
     addresses 0x1600 misa_sram_regs"
proof
  show "addresses 0x400 misa_regs = addresses 0x400 (misa_bunit_regs @ misa_cunit_regs @ misa_hunit_regs @ misa_aunit_regs) @
     addresses 0x1600 misa_sram_regs"
    by (simp add: misa_regs_def addresses_append block_sizes)
  show "subseq documented (addresses 0x400 (misa_bunit_regs @ misa_cunit_regs @ misa_hunit_regs @ misa_aunit_regs))"
    unfolding documented_def layout_defs by (simp add: subseq_Cons_code del: subseq_Cons2_iff)
qed

end
