(* ===== verification/Misa.thy ===== *)
theory Misa
  imports MisaRegs
begin

text \<open>
  \<open>periph/misa\<close>: the system agent between the processor, the memory and the primary bus. The
  H unit decodes the accesses of the processor, the B unit is the memory (the memory of this
  process, when the guest runs natively), the A unit the bridge to the bus: configuration
  cycles by two mechanisms, and, as a function on the bus, the registers and the DMA accesses
  of other devices with their address translation.
\<close>

section \<open>State\<close>

record misa_inst =
  registers :: bytes
  misa_config :: pci_cfgspace
  misa_sai :: int
  misa_bdf :: u64
  bunit_user :: u32

text \<open>
  Where the instance lives, its bus, and the memory of the process: a \<open>memcpy\<close> from or to an
  address that is a number.
\<close>

record 'w misa_host =
  misa_get :: "'w \<Rightarrow> misa_inst"
  misa_put :: "misa_inst \<Rightarrow> 'w \<Rightarrow> 'w"
  misa_bus :: "'w pci_bus"
  host_load :: "u32 \<Rightarrow> nat \<Rightarrow> 'w \<Rightarrow> bytes res"
  host_store :: "u32 \<Rightarrow> bytes \<Rightarrow> 'w \<Rightarrow> 'w res"

section \<open>B unit\<close>

definition misa_bunit_upstream_write :: "'w misa_host \<Rightarrow> u32 \<Rightarrow> bytes \<Rightarrow> nat \<Rightarrow> 'w \<Rightarrow> 'w res" where
  "misa_bunit_upstream_write host addr buffer sz w =
    (if bunit_user (misa_get host w) \<noteq> 0 then
       if length buffer < sz then Inl OutOfBounds else host_store host addr (take sz buffer) w
     else Inr w)"

definition misa_bunit_upstream_read :: "'w misa_host \<Rightarrow> u32 \<Rightarrow> bytes \<Rightarrow> nat \<Rightarrow> 'w \<Rightarrow> bytes res" where
  "misa_bunit_upstream_read host addr buffer sz w =
    (if bunit_user (misa_get host w) \<noteq> 0 then
       rbind (host_load host addr sz w) (\<lambda>d. memcpy 0 sz d buffer)
     else Inr buffer)"

section \<open>A unit: access control\<close>

text \<open>The loop over the translation entries from \<open>i\<close> on, \<open>n\<close> of which are left.\<close>

fun iommu_find :: "bytes \<Rightarrow> u32 \<Rightarrow> nat \<Rightarrow> nat \<Rightarrow> u32 option" where
  "iommu_find regs addr i 0 = None"
| "iommu_find regs addr i (Suc n) =
    (if ntst (AIOM_LIN i regs) MISA_AIOMLIN_EVLD then iommu_find regs addr (Suc i) n
     else
       let linpgmap = AIOM_LIN i regs AND MISA_AIOMLIN_LINPGMAP_MASK in
       if linpgmap \<noteq> addr AND MISA_AIOMLIN_LINPGMAP_MASK then iommu_find regs addr (Suc i) n
       else Some ((addr AND NOT MISA_AIOMLIN_LINPGMAP_MASK) OR (AIOM_PHY i regs AND MISA_AIOMLIN_LINPGMAP_MASK)))"

definition misa_aunit_iommu_translate :: "misa_inst \<Rightarrow> u32 \<Rightarrow> u32" where
  "misa_aunit_iommu_translate sa addr =
    (if ntst (get_reg ''AIOMCTL'' (registers sa)) MISA_AIOMCTL_IATEN then addr
     else case iommu_find (registers sa) addr 0 64 of Some v \<Rightarrow> v | None \<Rightarrow> NOT addr)"

text \<open>A negative \<open>sai\<close> would be a negative index or shift.\<close>

definition misa_aunit_may_complete :: "misa_inst \<Rightarrow> int \<Rightarrow> u32 res" where
  "misa_aunit_may_complete sa sai =
    (if sai < 0 then Inl BadUsage
     else let scmi = nat sai div 32; scbi = nat sai mod 32 in
       if scmi \<ge> 8 then Inr 0 else Inr (get_reg_at ''ACPLMTX'' scmi (registers sa) AND BIT scbi))"

section \<open>A unit: accesses of the processor\<close>

definition in_ecam :: "misa_inst \<Rightarrow> u32 \<Rightarrow> bool" where
  "in_ecam sa addr \<longleftrightarrow> tst (get_reg ''HEC'' (registers sa)) MISA_HEC_ECEN \<and>
     addr AND MISA_HEC_ECBASE_MASK = get_reg ''HEC'' (registers sa) AND MISA_HEC_ECBASE_MASK"

definition acf8_addr :: "u32 \<Rightarrow> u32" where
  "acf8_addr v = PCI_PACK_ADDR (MISA_ACF8_G_BUS v) (MISA_ACF8_G_DEV v) (MISA_ACF8_G_FUNC v) (MISA_ACF8_G_REGOFF v)"

definition misa_aunit_upstream_write :: "'w misa_host \<Rightarrow> u32 \<Rightarrow> bytes \<Rightarrow> nat \<Rightarrow> 'w \<Rightarrow> 'w res" where
  "misa_aunit_upstream_write host addr buffer sz w =
    (let sa = misa_get host w; bus = misa_bus host; acf8 = get_reg ''ACF8'' (registers sa) in
     if in_ecam sa addr then
       rbind (pci_bus_config_write bus (ucast (addr AND NOT MISA_HEC_ECBASE_MASK)) buffer (int sz) w) (\<lambda>(s, w). Inr w)
     else if addr = 0xCF8 then
       let sz = (if sz > 4 then 4 else sz) in
       rbind (memcpy (offset_of misa_regs ''ACF8'') sz buffer (registers sa)) (\<lambda>regs.
         Inr (misa_put host (sa\<lparr>registers := regs\<rparr>) w))
     else if addr = 0xCFC then
       if ntst acf8 MISA_ACF8_CF8EN then Inr w
       else
         let sz = (if sz > 8 then 8 else sz) in
         rbind (pci_bus_config_write bus (ucast (acf8_addr acf8)) buffer (int sz) w) (\<lambda>(s, w). Inr w)
     else if addr \<le> 0xFFFF then
       rbind (pci_bus_io_write bus (ucast addr) buffer (int sz) (misa_sai sa) 16 w) (\<lambda>(s, w). Inr w)
     else rbind (pci_bus_mem_write bus (ucast addr) buffer (int sz) (misa_sai sa) 16 w) (\<lambda>(s, w). Inr w))"

text \<open>Whether a read may complete is only logged.\<close>

definition misa_aunit_upstream_read :: "'w misa_host \<Rightarrow> u32 \<Rightarrow> bytes \<Rightarrow> nat \<Rightarrow> 'w \<Rightarrow> (bytes \<times> 'w) res" where
  "misa_aunit_upstream_read host addr buffer sz w =
    (let sa = misa_get host w; bus = misa_bus host; acf8 = get_reg ''ACF8'' (registers sa) in
     if in_ecam sa addr then
       rbind (pci_bus_config_read bus (ucast (addr AND NOT MISA_HEC_ECBASE_MASK)) buffer (int sz) w) (\<lambda>(s, b, w). Inr (b, w))
     else if addr = 0xCF8 then
       let sz = (if sz > 4 then 4 else sz) in
       rbind (memcpy 0 sz (le_bytes 4 acf8) buffer) (\<lambda>b. Inr (b, w))
     else if addr = 0xCFC then
       if ntst acf8 MISA_ACF8_CF8EN then Inr (buffer, w)
       else
         let sz = (if sz > 8 then 8 else sz) in
         rbind (pci_bus_config_read bus (ucast (acf8_addr acf8)) buffer (int sz) w) (\<lambda>(s, b, w). Inr (b, w))
     else if addr \<le> 0xFFFF then
       rbind (pci_bus_io_read bus (ucast addr) buffer (int sz) (misa_sai sa) 16 w) (\<lambda>(s, b, w). Inr (b, w))
     else rbind (pci_bus_mem_read bus (ucast addr) buffer (int sz) (misa_sai sa) 16 w) (\<lambda>(s, b, w).
       rbind (if s \<le> 0 then Inr 0 else misa_aunit_may_complete (misa_get host w) s) (\<lambda>r. Inr (b, w))))"

section \<open>H unit\<close>

definition is_bunit_addr :: "misa_inst \<Rightarrow> u32 \<Rightarrow> bool" where
  "is_bunit_addr sa addr \<longleftrightarrow>
     addr AND MISA_HEC_ECBASE_MASK \<noteq> get_reg ''HEC'' (registers sa) AND MISA_HEC_ECBASE_MASK \<and>
     addr AND MISA_HMBOUND_HMBOUND_MASK < get_reg ''HMBOUND'' (registers sa) AND MISA_HMBOUND_HMBOUND_MASK \<and>
     addr AND MISA_HROMMB_ROMBASE_MASK \<ge> get_reg ''HROMMB'' (registers sa)"

definition misa_fsb_mem_write :: "'w misa_host \<Rightarrow> u32 \<Rightarrow> bytes \<Rightarrow> nat \<Rightarrow> 'w \<Rightarrow> 'w res" where
  "misa_fsb_mem_write host addr buffer sz w =
    (if is_bunit_addr (misa_get host w) addr then misa_bunit_upstream_write host addr buffer sz w
     else misa_aunit_upstream_write host addr buffer sz w)"

definition misa_fsb_mem_read :: "'w misa_host \<Rightarrow> u32 \<Rightarrow> bytes \<Rightarrow> nat \<Rightarrow> 'w \<Rightarrow> (bytes \<times> 'w) res" where
  "misa_fsb_mem_read host addr buffer sz w =
    (if is_bunit_addr (misa_get host w) addr then rbind (misa_bunit_upstream_read host addr buffer sz w) (\<lambda>b. Inr (b, w))
     else misa_aunit_upstream_read host addr buffer sz w)"

text \<open>The IO ports go to the memory unit; the mask is applied to writes only.\<close>

definition misa_fsb_io_write :: "'w misa_host \<Rightarrow> u32 \<Rightarrow> bytes \<Rightarrow> nat \<Rightarrow> 'w \<Rightarrow> 'w res" where
  "misa_fsb_io_write host addr buffer sz w = misa_bunit_upstream_write host (addr AND 0xFFFF) buffer sz w"

definition misa_fsb_io_read :: "'w misa_host \<Rightarrow> u32 \<Rightarrow> bytes \<Rightarrow> nat \<Rightarrow> 'w \<Rightarrow> (bytes \<times> 'w) res" where
  "misa_fsb_io_read host addr buffer sz w = rbind (misa_bunit_upstream_read host addr buffer sz w) (\<lambda>b. Inr (b, w))"

section \<open>A unit: the function on the bus\<close>

text \<open>The count is cut at the end of the registers; \<open>None\<close> is a miss.\<close>

definition is_mmio_hit :: "pci_cfgspace \<Rightarrow> u64 \<Rightarrow> int \<Rightarrow> int option" where
  "is_mmio_hit cfg addr count =
    (let bar = ucast (cfg_bar 0 cfg) :: u64; off = ucast (addr - bar) :: u32; n = of_nat (layout_size misa_regs) in
     if ntst (cfg_command cfg) PCI_COMMAND_MSE \<or> addr < bar \<or> off \<ge> n then None
     else if off + word_of_int count > n then Some (uint (n - off)) else Some count)"

definition is_dma_hit :: "misa_inst \<Rightarrow> int \<Rightarrow> int \<Rightarrow> bool" where
  "is_dma_hit sa sai lat \<longleftrightarrow> sai \<noteq> misa_sai sa \<and> lat \<ge> 10"

text \<open>
  \<open>&sa->registers + off\<close> is the register file at index \<open>off\<close> of an array of register files. The
  translated address is only tested, and a DMA access answers \<open>-1\<close> like a miss.
\<close>

definition bus_mem_read :: "'w misa_host \<Rightarrow> u64 \<Rightarrow> bytes \<Rightarrow> int \<Rightarrow> int \<Rightarrow> int \<Rightarrow> 'w \<Rightarrow> (int \<times> bytes \<times> 'w) res" where
  "bus_mem_read host addr out count sai lat w =
    (let sa = misa_get host w; off = ucast (addr - ucast (cfg_bar 0 (misa_config sa))) :: u32 in
     case is_mmio_hit (misa_config sa) addr count of
       Some count \<Rightarrow>
         rbind (memcpy_int 0 count (drop (unat off * layout_size misa_regs) (registers sa)) out) (\<lambda>out.
           Inr (misa_sai sa, out, w))
     | None \<Rightarrow>
         if is_dma_hit sa sai lat then
           let taddr = misa_aunit_iommu_translate sa (ucast addr) in
           if tst ((ucast taddr XOR addr) AND 1) 1 then Inr (-1, out, w)
           else rbind (misa_bunit_upstream_read host (ucast addr) out (unat (word_of_int count :: u32)) w) (\<lambda>out.
             Inr (-1, out, w))
         else Inr (-1, out, w))"

definition bus_mem_write :: "'w misa_host \<Rightarrow> u64 \<Rightarrow> bytes \<Rightarrow> int \<Rightarrow> int \<Rightarrow> int \<Rightarrow> 'w \<Rightarrow> (int \<times> 'w) res" where
  "bus_mem_write host addr out count sai lat w =
    (let sa = misa_get host w; off = ucast (addr - ucast (cfg_bar 0 (misa_config sa))) :: u32 in
     case is_mmio_hit (misa_config sa) addr count of
       Some count \<Rightarrow>
         rbind (memcpy_int (unat off * layout_size misa_regs) count out (registers sa)) (\<lambda>regs.
           Inr (0, misa_put host (sa\<lparr>registers := regs\<rparr>) w))
     | None \<Rightarrow>
         if is_dma_hit sa sai lat then
           let taddr = misa_aunit_iommu_translate sa (ucast addr) in
           if tst ((ucast taddr XOR addr) AND 1) 1 then Inr (-1, w)
           else rbind (misa_bunit_upstream_write host (ucast addr) out (unat (word_of_int count :: u32)) w) (\<lambda>w.
             Inr (-1, w))
         else Inr (-1, w))"

definition bus_cfg_read :: "'w misa_host \<Rightarrow> u64 \<Rightarrow> bytes \<Rightarrow> int \<Rightarrow> 'w \<Rightarrow> (int \<times> bytes \<times> 'w) res" where
  "bus_cfg_read host addr out count w =
    (let sa = misa_get host w in
     if PCI_ADDR_TYPE addr \<noteq> PCI_ADDR_TYPE1 then Inr (-1, out, w)
     else if addr AND PCI_ADDR_BDF_MASK \<noteq> misa_bdf sa then Inr (-1, out, w)
     else let off = uint (PCI_ADDR_REG addr) in
       if off + count > PCI_CONFIG_SIZE then Inr (-1, out, w)
       else rbind (memcpy_int 0 count (drop (nat off) (misa_config sa)) out) (\<lambda>out. Inr (0, out, w)))"

definition bus_cfg_write :: "'w misa_host \<Rightarrow> u64 \<Rightarrow> bytes \<Rightarrow> int \<Rightarrow> 'w \<Rightarrow> (int \<times> 'w) res" where
  "bus_cfg_write host addr out count w =
    (let sa = misa_get host w in
     if PCI_ADDR_TYPE addr \<noteq> PCI_ADDR_TYPE1 then Inr (-1, w)
     else if addr AND PCI_ADDR_BDF_MASK \<noteq> misa_bdf sa then Inr (-1, w)
     else let off = uint (PCI_ADDR_REG addr) in
       if off + count > PCI_CONFIG_SIZE then Inr (-1, w)
       else rbind (memcpy_int (nat off) count out (misa_config sa)) (\<lambda>cfg.
         Inr (0, misa_put host (sa\<lparr>misa_config := cfg\<rparr>) w)))"

definition misa_func :: "'w misa_host \<Rightarrow> 'w pci_func" where
  "misa_func host = \<lparr>func_bdf = 0, cfg_read = bus_cfg_read host, cfg_write = bus_cfg_write host,
     mem_read = bus_mem_read host, mem_write = bus_mem_write host\<rparr>"

section \<open>Start\<close>

definition misa_aunit_bus_init :: "cfg_section \<Rightarrow> 'w pci_bus list \<Rightarrow> ('w pci_bus \<times> 'w pci_bus list) res" where
  "misa_aunit_bus_init sec buses =
    (case cfg_find_string sec ''prim_bus'' of
       None \<Rightarrow> Inl ExitFailure
     | Some name \<Rightarrow>
         let bus = \<lparr>bus_name = name, bus_funcs = [], bus_num = 0x100\<rparr> in
         rbind (pci_bus_register bus buses) (\<lambda>buses. Inr (bus, buses)))"

definition misa_aunit_bus_target_init :: "'w misa_host \<Rightarrow> cfg_section \<Rightarrow> 'w pci_bus \<Rightarrow> misa_inst \<Rightarrow> ('w pci_bus \<times> misa_inst) res" where
  "misa_aunit_bus_target_init host sec bus sa =
    (let sa = sa\<lparr>misa_config := pci_cfg_handle_type0 sec False (misa_config sa)\<rparr> in
     rbind (cfg_require (cfg_find_int32 sec ''device_no'') 31) (\<lambda>dev_no.
     rbind (cfg_require (cfg_find_int32 sec ''func_no'') 7) (\<lambda>func_no.
     rbind (cfg_require (cfg_find_int32 sec ''bus_no'') 255) (\<lambda>bus_no.
       let bdf = PCI_PACK_BDF bus_no dev_no func_no in
       rbind (pci_func_register ((misa_func host)\<lparr>func_bdf := bdf\<rparr>) bus) (\<lambda>bus.
         Inr (bus, sa\<lparr>misa_bdf := ucast bdf\<rparr>))))))"

text \<open>The callbacks that the processor gets; it is returned with them.\<close>

record 'w mia_fsb =
  sa_mem_write :: "u32 \<Rightarrow> bytes \<Rightarrow> nat \<Rightarrow> 'w \<Rightarrow> 'w res"
  sa_mem_read :: "u32 \<Rightarrow> bytes \<Rightarrow> nat \<Rightarrow> 'w \<Rightarrow> (bytes \<times> 'w) res"
  sa_io_write :: "u32 \<Rightarrow> bytes \<Rightarrow> nat \<Rightarrow> 'w \<Rightarrow> 'w res"
  sa_io_read :: "u32 \<Rightarrow> bytes \<Rightarrow> nat \<Rightarrow> 'w \<Rightarrow> (bytes \<times> 'w) res"

definition set_reg :: "string \<Rightarrow> u32 option \<Rightarrow> bytes \<Rightarrow> bytes" where
  "set_reg name found regs = (case found of None \<Rightarrow> regs | Some v \<Rightarrow> put_reg name v regs)"

definition misa_fsb_init :: "'w misa_host \<Rightarrow> cfg_section \<Rightarrow> unit device_instance list \<Rightarrow> misa_inst \<Rightarrow>
    (unit device_instance \<times> 'w mia_fsb \<times> misa_inst) res" where
  "misa_fsb_init host sec devs sa =
    (case cfg_find_string sec ''cpu'' of
       None \<Rightarrow> Inl ExitFailure
     | Some name \<Rightarrow>
       (case device_find name devs of
          None \<Rightarrow> Inl ExitFailure
        | Some cpu \<Rightarrow>
            let fsb = \<lparr>sa_mem_write = misa_fsb_mem_write host, sa_mem_read = misa_fsb_mem_read host,
                  sa_io_write = misa_fsb_io_write host, sa_io_read = misa_fsb_io_read host\<rparr>;
                regs = registers sa;
                regs = (case cfg_find_int32 sec ''ecbase'' of
                    None \<Rightarrow> regs | Some v \<Rightarrow> put_reg ''HEC'' (v OR MISA_HEC_ECEN) regs);
                regs = put_reg ''AEC'' (get_reg ''HEC'' regs) regs;
                regs = set_reg ''HROMMB'' (cfg_find_int32 sec ''rombase'') regs;
                regs = set_reg ''HMBOUND'' (cfg_find_int32 sec ''hmbound'') regs
            in Inr (cpu, fsb, sa\<lparr>registers := regs\<rparr>)))"

definition misa_aunit_iommu_init :: "cfg_section \<Rightarrow> misa_inst \<Rightarrow> misa_inst" where
  "misa_aunit_iommu_init sec sa =
    (let regs = set_reg ''AIOMCTL'' (cfg_find_int32 sec ''aiomctl'') (registers sa);
         regs = fold (\<lambda>i regs. case cfg_find_int32 sec (''acplmtx'' @ [char_of (48 + i)]) of
             None \<Rightarrow> regs | Some v \<Rightarrow> put_reg_at ''ACPLMTX'' i v regs) [0..<8] regs
     in sa\<lparr>registers := regs\<rparr>)"

definition misa_spawn :: "'w misa_host \<Rightarrow> cfg_section \<Rightarrow> 'w pci_bus list \<Rightarrow> unit device_instance list \<Rightarrow> 'w \<Rightarrow>
    ('w pci_bus list \<times> unit device_instance list \<times> unit device_instance \<times> 'w mia_fsb \<times> 'w) res" where
  "misa_spawn host sec buses devs w =
    (let i = \<lparr>registers = replicate (layout_size misa_regs) 0, misa_config = replicate 0x1000 0, misa_sai = 0,
           misa_bdf = 0, bunit_user = cfg_or (cfg_find_int32 sec ''bunit_usermode'') 0\<rparr> in
     rbind (misa_aunit_bus_init sec buses) (\<lambda>(bus, buses).
     rbind (misa_aunit_bus_target_init host sec bus i) (\<lambda>(bus, i).
     rbind (misa_fsb_init host sec devs i) (\<lambda>(cpu, fsb, i).
       let i = misa_aunit_iommu_init sec i in
       rbind (device_register \<lparr>device_name = section_name sec, device_impl = ()\<rparr> devs) (\<lambda>devs.
         Inr (replace_bus bus buses, devs, cpu, fsb, misa_put host i w))))))"

section \<open>A miss of the translation\<close>

lemma bit0_page: "\<not> bit MISA_AIOMLIN_LINPGMAP_MASK 0"
  by (simp add: MISA_AIOMLIN_LINPGMAP_MASK_def)

lemma iommu_find_bit0: "iommu_find regs addr i n = Some v \<Longrightarrow> bit v 0 = bit addr 0"
  by (induction n arbitrary: i) (auto simp: Let_def bit_simps bit0_page split: if_splits)

definition maps_page :: "bytes \<Rightarrow> u32 \<Rightarrow> nat \<Rightarrow> bool" where
  "maps_page regs addr j \<longleftrightarrow> bit (AIOM_LIN j regs) 0 \<and>
     AIOM_LIN j regs AND MISA_AIOMLIN_LINPGMAP_MASK = addr AND MISA_AIOMLIN_LINPGMAP_MASK"

lemma iommu_find_None: "iommu_find regs addr i n = None \<longleftrightarrow> \<not> list_ex (maps_page regs addr) [i..<i + n]"
proof (induction n arbitrary: i)
  case (Suc n)
  have "[i..<i + Suc n] = i # [Suc i..<Suc i + n]" by (simp add: upt_conv_Cons del: upt_Suc)
  then show ?case
    using Suc[of "Suc i"] by (auto simp: Let_def maps_page_def MISA_AIOMLIN_EVLD_def simp del: upt_Suc)
qed simp

text \<open>C29. The test of the lowest bit, by which the bus function recognises a miss of the
  translation, is exact: it is true if and only if translation is enabled and none of the
  64 entries that are valid maps the page.\<close>

theorem iommu_miss_detected:
  "tst ((ucast (misa_aunit_iommu_translate sa (ucast addr)) XOR addr) AND (1 :: u64)) 1 \<longleftrightarrow>
     bit (get_reg ''AIOMCTL'' (registers sa)) 1 \<and> \<not> list_ex (maps_page (registers sa) (ucast addr)) [0..<64]"
proof -
  have b: "tst ((ucast t XOR addr) AND 1) (1 :: u64) \<longleftrightarrow> bit (t :: u32) 0 \<noteq> bit addr 0" for t
    using and_BIT[of "ucast t XOR addr" 0] by (simp add: tst_def BIT_def bit_simps)
  have a: "bit (ucast addr :: u32) 0 = bit addr 0" by (simp add: bit_simps)
  have n: "iommu_find (registers sa) (ucast addr) 0 64 = None \<longleftrightarrow> \<not> list_ex (maps_page (registers sa) (ucast addr)) [0..<64]"
    using iommu_find_None[of "registers sa" "ucast addr" 0 64] by simp
  show ?thesis
    unfolding b n[symmetric] misa_aunit_iommu_translate_def MISA_AIOMCTL_IATEN_def
    using iommu_find_bit0[of "registers sa" "ucast addr" 0 64]
    by (cases "iommu_find (registers sa) (ucast addr) 0 64") (auto simp: a bit_simps)
qed

section \<open>Two ways to the configuration space\<close>

text \<open>What the registers hold where.\<close>

lemma get_put_acf8:
  assumes "length (registers sa) = layout_size misa_regs"
  shows "get_reg ''ACF8'' (put_reg ''ACF8'' v (registers sa)) = v"
    and "get_reg ''HEC'' (put_reg ''ACF8'' v (registers sa)) = get_reg ''HEC'' (registers sa)"
  using assms by (simp_all add: get_reg_def put_reg_def misa_offsets misa_regs_size get_put_field get_put_field_other)

definition cf8_value :: "u32 \<Rightarrow> u32 \<Rightarrow> u32 \<Rightarrow> u32 \<Rightarrow> u32" where
  "cf8_value b d f r = MISA_ACF8_CF8EN OR MISA_ACF8_BUS b OR MISA_ACF8_DEV d OR MISA_ACF8_FUNC f OR MISA_ACF8_REGOFF r"

lemma mask_consts:
  "(0xFF :: u32) = mask 8" "(0x1F :: u32) = mask 5" "(0x7 :: u32) = mask 3" "(0xFC :: u32) = push_bit 2 (mask 6)"
  "(0xF0000000 :: u32) = push_bit 28 (mask 4)"
  by (simp_all add: mask_eq_exp_minus_1 push_bit_eq_mult)

lemma cf8_fields:
  "MISA_ACF8_G_BUS (cf8_value b d f r) = b AND mask 8" "MISA_ACF8_G_DEV (cf8_value b d f r) = d AND mask 5"
  "MISA_ACF8_G_FUNC (cf8_value b d f r) = f AND mask 3" "MISA_ACF8_G_REGOFF (cf8_value b d f r) = r AND 0xFC"
  by (rule bit_word_eqI, auto simp: cf8_value_def MISA_ACF8_G_BUS_def MISA_ACF8_G_DEV_def MISA_ACF8_G_FUNC_def
    MISA_ACF8_G_REGOFF_def MISA_ACF8_CF8EN_def MISA_ACF8_BUS_def MISA_ACF8_DEV_def MISA_ACF8_FUNC_def
    MISA_ACF8_REGOFF_def mask_consts bit_simps)+

lemma cf8_enabled: "\<not> ntst (cf8_value b d f r) MISA_ACF8_CF8EN"
  by (simp add: cf8_value_def MISA_ACF8_CF8EN_def bit_simps)

lemma acf8_addr_cf8: "acf8_addr (cf8_value b d f r) = PCI_PACK_ADDR (b AND mask 8) (d AND mask 5) (f AND mask 3) (r AND 0xFC)"
  by (simp add: acf8_addr_def cf8_fields)

lemma ecam_fields:
  "PCI_PACK_ADDR (b AND mask 8) (d AND mask 5) (f AND mask 3) (r AND 0xFC) AND MISA_HEC_ECBASE_MASK = 0"
  "PCI_PACK_ADDR (b AND mask 8) (d AND mask 5) (f AND mask 3) (r AND 0xFC) AND NOT MISA_HEC_ECBASE_MASK =
    PCI_PACK_ADDR (b AND mask 8) (d AND mask 5) (f AND mask 3) (r AND 0xFC)"
  by (rule bit_word_eqI, auto simp: PCI_PACK_ADDR_def PCI_PACK_BDF_def MISA_HEC_ECBASE_MASK_def mask_consts bit_simps)+

lemma small_fields:
  "b < 256 \<Longrightarrow> b AND mask 8 = (b :: u32)" "d < 32 \<Longrightarrow> d AND mask 5 = (d :: u32)" "f < 8 \<Longrightarrow> f AND mask 3 = (f :: u32)"
  by (simp_all add: less_mask_eq)

text \<open>An address in the window of a base.\<close>

lemma in_ecam_pack:
  assumes "a AND MISA_HEC_ECBASE_MASK = 0" and "tst (get_reg ''HEC'' (registers sa)) MISA_HEC_ECEN"
  shows "in_ecam sa ((get_reg ''HEC'' (registers sa) AND MISA_HEC_ECBASE_MASK) OR a)"
  using assms by (simp add: in_ecam_def bit.conj_disj_distrib2)

lemma ecam_offset:
  assumes "a AND NOT m = a"
  shows "((h AND m) OR a) AND NOT m = (a :: u32)"
proof (rule bit_word_eqI)
  fix n
  have "bit (a AND NOT m) n = bit a n" using assms by simp
  then show "n < LENGTH(32) \<Longrightarrow> bit (((h AND m) OR a) AND NOT m) n = bit a n" by (auto simp: bit_simps)
qed

lemma not_in_ecam:
  "get_reg ''HEC'' (registers sa) AND MISA_HEC_ECBASE_MASK \<noteq> 0 \<Longrightarrow> \<not> in_ecam sa 0xCF8 \<and> \<not> in_ecam sa 0xCFC"
  by (auto simp: in_ecam_def MISA_HEC_ECBASE_MASK_def)

text \<open>The write of the address register.\<close>

definition with_acf8 :: "u32 \<Rightarrow> misa_inst \<Rightarrow> misa_inst" where
  "with_acf8 v sa = sa\<lparr>registers := put_reg ''ACF8'' v (registers sa)\<rparr>"

lemma write_cf8:
  assumes "length (registers (misa_get host w)) = layout_size misa_regs"
    and "get_reg ''HEC'' (registers (misa_get host w)) AND MISA_HEC_ECBASE_MASK \<noteq> 0"
  shows "misa_aunit_upstream_write host 0xCF8 (le_bytes 4 v) 4 w = Inr (misa_put host (with_acf8 v (misa_get host w)) w)"
  using assms not_in_ecam[OF assms(2)]
  by (simp add: misa_aunit_upstream_write_def Let_def memcpy_def misa_offsets misa_regs_size with_acf8_def put_reg_def put_field_def)

lemma with_acf8_regs:
  assumes "length (registers sa) = layout_size misa_regs"
  shows "get_reg ''ACF8'' (registers (with_acf8 v sa)) = v"
    and "get_reg ''HEC'' (registers (with_acf8 v sa)) = get_reg ''HEC'' (registers sa)"
  using get_put_acf8[OF assms] by (simp_all add: with_acf8_def)

text \<open>C27. The two mechanisms for configuration cycles agree: writing an address to port \<open>0xCF8\<close> and
  then accessing \<open>0xCFC\<close> does what an access to the extended configuration window does at the
  place of the same bus, device, function and register, for writes and for reads.\<close>

theorem misa_config_mechanisms_agree:
  assumes "\<forall>s w. misa_get host (misa_put host s w) = s"
    and "length (registers (misa_get host w)) = layout_size misa_regs"
    and "hec = get_reg ''HEC'' (registers (misa_get host w))"
    and "tst hec MISA_HEC_ECEN" and "hec AND MISA_HEC_ECBASE_MASK \<noteq> 0"
    and "b < 256" and "d < 32" and "f < 8" and "r AND 0xFC = r" and "n \<le> 8"
    and "addr = (hec AND MISA_HEC_ECBASE_MASK) OR PCI_PACK_ADDR b d f r"
    and "w1 = misa_put host (with_acf8 (cf8_value b d f r) (misa_get host w)) w"
  shows "misa_aunit_upstream_write host 0xCF8 (le_bytes 4 (cf8_value b d f r)) 4 w = Inr w1 \<and>
    misa_aunit_upstream_write host 0xCFC buf n w1 = misa_aunit_upstream_write host addr buf n w1 \<and>
    misa_aunit_upstream_read host 0xCFC buf n w1 = misa_aunit_upstream_read host addr buf n w1"
proof -
  let ?v = "cf8_value b d f r" and ?p = "PCI_PACK_ADDR b d f r"
  let ?sa = "misa_get host w1"
  have p: "acf8_addr ?v = ?p" "?p AND MISA_HEC_ECBASE_MASK = 0" "?p AND NOT MISA_HEC_ECBASE_MASK = ?p"
    using acf8_addr_cf8[of b d f r] ecam_fields[of b d f r] by (simp_all add: small_fields assms(6-9))
  have sa: "?sa = with_acf8 ?v (misa_get host w)" using assms(1,12) by simp
  have regs: "get_reg ''ACF8'' (registers ?sa) = ?v" "get_reg ''HEC'' (registers ?sa) = hec"
    unfolding sa using with_acf8_regs[OF assms(2)] assms(3) by simp_all
  have no: "\<not> in_ecam ?sa 0xCFC" using not_in_ecam[of ?sa] regs(2) assms(5) by simp
  have yes: "in_ecam ?sa addr" using in_ecam_pack[OF p(2), of ?sa] regs(2) assms(4,11) by simp
  have off: "addr AND NOT MISA_HEC_ECBASE_MASK = ?p" unfolding assms(11) by (rule ecam_offset) (rule p(3))
  have "misa_aunit_upstream_write host 0xCF8 (le_bytes 4 ?v) 4 w = Inr w1"
    using write_cf8[OF assms(2)] assms(3,5,12) by simp
  moreover have "misa_aunit_upstream_write host 0xCFC buf n w1 = misa_aunit_upstream_write host addr buf n w1"
    using no yes cf8_enabled assms(10) by (simp add: misa_aunit_upstream_write_def Let_def regs p off)
  moreover have "misa_aunit_upstream_read host 0xCFC buf n w1 = misa_aunit_upstream_read host addr buf n w1"
    using no yes cf8_enabled assms(10) by (simp add: misa_aunit_upstream_read_def Let_def regs p off)
  ultimately show ?thesis by blast
qed

text \<open>A host with an empty bus.\<close>

definition toy_host :: "misa_inst misa_host" where
  "toy_host = \<lparr>misa_get = (\<lambda>w. w), misa_put = (\<lambda>s w. s), misa_bus = \<lparr>bus_name = ''prim'', bus_funcs = [], bus_num = 0x100\<rparr>,
     host_load = (\<lambda>addr n w. Inr (replicate n 0)), host_store = (\<lambda>addr d w. Inr w)\<rparr>"

definition toy_misa :: misa_inst where
  "toy_misa = \<lparr>registers = put_reg ''HEC'' 0xE0000001 (replicate (layout_size misa_regs) 0), misa_config = replicate 0x1000 0,
     misa_sai = 0, misa_bdf = 0, bunit_user = 1\<rparr>"

lemma toy_hec: "get_reg ''HEC'' (registers toy_misa) = 0xE0000001" "length (registers toy_misa) = layout_size misa_regs"
  by (simp_all add: toy_misa_def get_reg_def put_reg_def misa_offsets misa_regs_size get_put_field)

theorem misa_config_mechanisms_agree_witness:
  "misa_aunit_upstream_read toy_host 0xCFC [1, 2, 3, 4] 4 (with_acf8 (cf8_value 0 3 1 0x10) toy_misa) =
   misa_aunit_upstream_read toy_host (0xE0000000 OR PCI_PACK_ADDR 0 3 1 0x10) [1, 2, 3, 4] 4
     (with_acf8 (cf8_value 0 3 1 0x10) toy_misa)"
  using misa_config_mechanisms_agree[of toy_host toy_misa "0xE0000001" 0 3 1 "0x10" 4 "0xE0000000 OR PCI_PACK_ADDR 0 3 1 0x10"
      "with_acf8 (cf8_value 0 3 1 0x10) toy_misa" "[1, 2, 3, 4]"] toy_hec
  by (simp add: toy_host_def MISA_HEC_ECBASE_MASK_def MISA_HEC_ECEN_def bit_simps)

section \<open>DMA over the bus\<close>

text \<open>One turn of the bus over the system agent alone.\<close>

lemma dma_turn:
  assumes "is_mmio_hit (misa_config (misa_get host w)) addr count = None" and "sai \<noteq> misa_sai (misa_get host w)"
    and "\<not> tst ((ucast (misa_aunit_iommu_translate (misa_get host w) (ucast addr)) XOR addr) AND (1 :: u64)) 1"
    and "bunit_user (misa_get host w) \<noteq> 0" and "0 \<le> count" and "count < 2 ^ 31"
    and "host_load host (ucast addr) (nat count) w = Inr d" and "length d = nat count" and "length buf = nat count"
  shows "mem_read_funcs [misa_func host] addr buf count sai lat w = Inr (-1, if 10 \<le> lat then d else buf, w)"
proof -
  have "unat (word_of_int count :: u32) = nat count"
    using assms(5,6) by (simp add: unsigned_of_int take_bit_int_eq_self)
  then show ?thesis
    using assms by (simp add: misa_func_def bus_mem_read_def Let_def is_dma_hit_def misa_bunit_upstream_read_def memcpy_def blit_def)
qed

text \<open>C28. A DMA read by another device, on a bus where only the system agent takes it: the buffer
  gets the memory of the process, at the address as it is and not as the translation gives it,
  and yet the bus answers that nobody completed the read. The access waits for the
  subtractive decoding at the tenth turn; with fewer turns the buffer stays as it was.\<close>

theorem misa_dma_over_bus:
  assumes "bus_funcs bus = [misa_func host]"
    and "is_mmio_hit (misa_config (misa_get host w)) addr count = None" and "sai \<noteq> misa_sai (misa_get host w)"
    and "\<not> tst ((ucast (misa_aunit_iommu_translate (misa_get host w) (ucast addr)) XOR addr) AND (1 :: u64)) 1"
    and "bunit_user (misa_get host w) \<noteq> 0" and "0 \<le> count" and "count < 2 ^ 31"
    and "host_load host (ucast addr) (nat count) w = Inr d" and "length d = nat count" and "length buf = nat count"
  shows "pci_bus_mem_read bus addr buf count sai max_lat w = Inr (-1, if 10 < max_lat then d else buf, w)"
proof -
  have "mem_read_lats n [misa_func host] addr b count sai lat w =
      Inr (-1, if 0 < n \<and> 10 < lat + int n then d else b, w)" if "length b = nat count" for n lat b
    using that
  proof (induction n arbitrary: lat b)
    case (Suc n)
    show ?case
      unfolding mem_read_lats.simps dma_turn[OF assms(2-9) Suc.prems]
      using Suc.IH[of d "lat + 1"] Suc.IH[of b "lat + 1"] Suc.prems assms(9) by auto
  qed simp
  then show ?thesis using assms(10) by (simp add: pci_bus_mem_read_def assms(1))
qed

theorem misa_dma_over_bus_witness:
  "pci_bus_mem_read \<lparr>bus_name = ''prim'', bus_funcs = [misa_func toy_host], bus_num = 0x100\<rparr> 0x8000 [1, 2] 2 7 16 toy_misa =
    Inr (-1, [0, 0], toy_misa)"
proof -
  have mse: "ntst (cfg_command (replicate 0x1000 0)) PCI_COMMAND_MSE"
    by (simp add: cfg_command_def get_field_def slice_def PCI_COMMAND_MSE_def bit_le_word)
  have toy: "misa_get toy_host w = w" "host_load toy_host a n w = Inr (replicate n 0)" "misa_sai toy_misa = 0"
    "bunit_user toy_misa = 1" for w a n
    by (simp_all add: toy_host_def toy_misa_def)
  have two: "replicate 2 (0 :: u8) = [0, 0]" by (simp add: numeral_2_eq_2)
  from mse have "is_mmio_hit (misa_config toy_misa) 0x8000 2 = None"
    by (simp add: is_mmio_hit_def toy_misa_def Let_def)
  moreover have "get_reg ''AIOMCTL'' (registers toy_misa) = 0"
  proof -
    have "get_reg ''AIOMCTL'' (registers toy_misa) = get_reg ''AIOMCTL'' (replicate (layout_size misa_regs) 0)"
      by (simp add: toy_misa_def get_reg_def put_reg_def misa_offsets misa_regs_size get_put_field_other)
    also have "\<dots> = 0"
      by (rule bit_word_eqI) (auto simp: get_reg_def get_field_def bit_le_word misa_offsets misa_regs_size slice_def)
    finally show ?thesis .
  qed
  then have "misa_aunit_iommu_translate toy_misa a = a" for a
    by (simp add: misa_aunit_iommu_translate_def MISA_AIOMCTL_IATEN_def)
  ultimately show ?thesis
    using misa_dma_over_bus[of "\<lparr>bus_name = ''prim'', bus_funcs = [misa_func toy_host], bus_num = 0x100\<rparr>" toy_host toy_misa
        "0x8000" 2 7 "[0, 0]" "[1, 2]" 16] two
    by (simp add: toy tst_def)
qed

end
