(* ===== verification/P2g.thy ===== *)
theory P2g
  imports PciConfig
begin

text \<open>
  \<open>periph/gasket/prim2gasket/dev.c\<close>: the bridge between the primary and the gasket bus, a
  function of the primary bus whose callbacks run cycles on the gasket bus. The gasket bus is
  an argument, as it is when all the devices are spawned.
\<close>

section \<open>The bridge\<close>

definition p2g_cfg_read :: "'w pci_bus \<Rightarrow> u64 \<Rightarrow> bytes \<Rightarrow> int \<Rightarrow> 'w \<Rightarrow> (int \<times> bytes \<times> 'w) res" where
  "p2g_cfg_read gasket_bus addr out count w =
    type1_read ((addr AND PCI_ADDR_TYPE1_MASK) OR PCI_ADDR_TYPE1) (bus_funcs gasket_bus) out count w"

definition p2g_cfg_write :: "'w pci_bus \<Rightarrow> u64 \<Rightarrow> bytes \<Rightarrow> int \<Rightarrow> 'w \<Rightarrow> (int \<times> 'w) res" where
  "p2g_cfg_write gasket_bus addr out count w =
    type1_write ((addr AND PCI_ADDR_TYPE1_MASK) OR PCI_ADDR_TYPE1) (bus_funcs gasket_bus) out count w"

definition p2g_window :: "u64 \<Rightarrow> bool" where
  "p2g_window addr \<longleftrightarrow> addr AND 0xFF000000 = 0xF1000000"

definition p2g_mem_write :: "'w pci_bus \<Rightarrow> u64 \<Rightarrow> bytes \<Rightarrow> int \<Rightarrow> int \<Rightarrow> int \<Rightarrow> 'w \<Rightarrow> (int \<times> 'w) res" where
  "p2g_mem_write gasket_bus addr buf count sai lat w =
    (if p2g_window addr then pci_bus_config_write gasket_bus (addr AND 0x00FFFFFF) buf count w
     else pci_bus_mem_write gasket_bus addr buf count sai (16 - lat) w)"

definition p2g_mem_read :: "'w pci_bus \<Rightarrow> u64 \<Rightarrow> bytes \<Rightarrow> int \<Rightarrow> int \<Rightarrow> int \<Rightarrow> 'w \<Rightarrow> (int \<times> bytes \<times> 'w) res" where
  "p2g_mem_read gasket_bus addr buf count sai lat w =
    (if p2g_window addr then pci_bus_config_read gasket_bus (addr AND 0x00FFFFFF) buf count w
     else pci_bus_mem_read gasket_bus addr buf count sai (16 - lat) w)"

definition p2g_func :: "'w pci_bus \<Rightarrow> 'w pci_func" where
  "p2g_func gasket_bus = \<lparr>func_bdf = PCI_PACK_BDF 0 0 1, cfg_read = p2g_cfg_read gasket_bus,
     cfg_write = p2g_cfg_write gasket_bus, mem_read = p2g_mem_read gasket_bus, mem_write = p2g_mem_write gasket_bus\<rparr>"

text \<open>The start, given the gasket bus that the callbacks will use.\<close>

definition p2g_spawn :: "'w pci_bus \<Rightarrow> cfg_section \<Rightarrow> 'w pci_bus list \<Rightarrow> unit device_instance list \<Rightarrow>
    ('w pci_bus list \<times> unit device_instance list) res" where
  "p2g_spawn gasket_bus sec buses devs =
    (case cfg_find_string sec ''prim_bus'' of
       None \<Rightarrow> Inl ExitFailure
     | Some name \<Rightarrow> (case pci_bus_find name buses of
         None \<Rightarrow> Inl ExitFailure
       | Some bus \<Rightarrow> (case cfg_find_string sec ''gasket_bus'' of
           None \<Rightarrow> Inl ExitFailure
         | Some name \<Rightarrow>
             rbind (pci_bus_register \<lparr>bus_name = name, bus_funcs = [], bus_num = 0\<rparr> buses) (\<lambda>buses.
             rbind (pci_func_register (p2g_func gasket_bus) bus) (\<lambda>bus.
             rbind (device_register \<lparr>device_name = section_name sec, device_impl = ()\<rparr> devs) (\<lambda>devs.
               Inr (replace_bus bus buses, devs)))))))"

section \<open>Two buses of simple functions\<close>

definition bridged_bus :: "string \<Rightarrow> u32 \<Rightarrow> (u32 \<times> 'w pci_simplefunc) list \<Rightarrow> 'w pci_bus \<Rightarrow> 'w pci_bus" where
  "bridged_bus name num sfs gasket_bus = \<lparr>bus_name = name,
     bus_funcs = p2g_func gasket_bus # bus_funcs (simple_bus name num sfs), bus_num = num\<rparr>"

text \<open>The bridge decodes its window and what a function of the gasket bus decodes.\<close>

definition bridged_decodes :: "(u32 \<times> 'w pci_simplefunc) list \<Rightarrow> 'w pci_bus \<Rightarrow> ('w pci_func \<Rightarrow> u64 \<Rightarrow> 'w \<Rightarrow> bool) \<Rightarrow>
    'w pci_func \<Rightarrow> u64 \<Rightarrow> 'w \<Rightarrow> bool" where
  "bridged_decodes sfs gasket_bus dec f addr w \<longleftrightarrow> simple_decodes sfs f addr w \<or>
     f = p2g_func gasket_bus \<and> (p2g_window addr \<or> (\<exists>g\<in>set (bus_funcs gasket_bus). dec g addr w))"

text \<open>The decoding of a bus behind a bridge is again the decoding of a bus.\<close>

interpretation bridged: decoded_bus "bridged_bus name num sfs (simple_bus gname gnum gsfs)"
    "bridged_decodes sfs (simple_bus gname gnum gsfs) (simple_decodes gsfs)"
  for name num and sfs :: "(u32 \<times> 'w pci_simplefunc) list" and gname gnum gsfs
proof (unfold_locales, goal_cases)
  case (1 f addr w out count sai lat)
  show ?case
  proof (cases "f = p2g_func (simple_bus gname gnum gsfs)")
    case True
    then show ?thesis
      using 1(2) simple.unclaimed(1)[of gname gnum gsfs addr w]
      by (simp add: bridged_decodes_def p2g_func_def p2g_mem_read_def)
  next
    case False
    then show ?thesis
      using 1 simple.silent_read[of f name num sfs] by (simp add: bridged_decodes_def bridged_bus_def)
  qed
next
  case (2 f addr w out count sai lat)
  show ?case
  proof (cases "f = p2g_func (simple_bus gname gnum gsfs)")
    case True
    then show ?thesis
      using 2(2) simple.unclaimed(2)[of gname gnum gsfs addr w]
      by (simp add: bridged_decodes_def p2g_func_def p2g_mem_write_def)
  next
    case False
    then show ?thesis
      using 2 simple.silent_write[of f name num sfs] by (simp add: bridged_decodes_def bridged_bus_def)
  qed
qed

text \<open>What the bridge answers in the first cycle is the answer of the primary bus, if nobody else
  there decodes the address.\<close>

lemma bridge_claims_first:
  assumes "\<not> (\<exists>f\<in>set (bus_funcs (simple_bus name num sfs)). simple_decodes sfs f addr w)"
  shows "p2g_mem_read (simple_bus gname gnum gsfs) addr buf count sai 0 w = Inr (s, out, w1) \<Longrightarrow> s \<noteq> -1 \<Longrightarrow>
      mem_read_funcs (bus_funcs (bridged_bus name num sfs (simple_bus gname gnum gsfs))) addr buf count sai 0 w = Inr (s, out, w1)"
    and "p2g_mem_write (simple_bus gname gnum gsfs) addr buf count sai 0 w = Inr (s, w1) \<Longrightarrow> s \<noteq> -1 \<Longrightarrow>
      mem_write_funcs (bus_funcs (bridged_bus name num sfs (simple_bus gname gnum gsfs))) addr buf count sai 0 w = Inr (s, w1)"
proof -
  let ?g = "simple_bus gname gnum gsfs"
  have mem: "p2g_func ?g \<in> set (bus_funcs (bridged_bus name num sfs ?g))" by (simp add: bridged_bus_def)
  have other: "\<forall>f\<in>set (bus_funcs (bridged_bus name num sfs ?g)). f \<noteq> p2g_func ?g \<longrightarrow>
      \<not> bridged_decodes sfs ?g (simple_decodes gsfs) f addr w"
    using assms(1) by (auto simp: bridged_bus_def bridged_decodes_def)
  note claimed = bridged.claimed_funcs[OF mem order_refl other]
  show "p2g_mem_read ?g addr buf count sai 0 w = Inr (s, out, w1) \<Longrightarrow> s \<noteq> -1 \<Longrightarrow>
      mem_read_funcs (bus_funcs (bridged_bus name num sfs ?g)) addr buf count sai 0 w = Inr (s, out, w1)"
    by (rule claimed(1)) (simp_all add: p2g_func_def)
  show "p2g_mem_write ?g addr buf count sai 0 w = Inr (s, w1) \<Longrightarrow> s \<noteq> -1 \<Longrightarrow>
      mem_write_funcs (bus_funcs (bridged_bus name num sfs ?g)) addr buf count sai 0 w = Inr (s, w1)"
    by (rule claimed(2)) (simp_all add: p2g_func_def)
qed

lemmas bridge_claims = first_cycle(1)[OF _ bridge_claims_first(1)] first_cycle(2)[OF _ bridge_claims_first(2)]

text \<open>What a function of the gasket bus answers is the answer of the bridge.\<close>

lemma bridge_answers:
  fixes gsfs :: "(u32 \<times> 'w pci_simplefunc) list"
  assumes "(bdf, sf) \<in> set gsfs" and "lat < 16" and "\<not> p2g_window addr"
    and "hits sf (sf_get_config sf w) bar addr count" and "bit (cfg_command (sf_get_config sf w)) 1"
    and "sf_bar_read sf = Some rd"
    and "\<forall>f\<in>set (bus_funcs (simple_bus gname gnum gsfs)).
      f \<noteq> (simple_func sf)\<lparr>func_bdf := bdf\<rparr> \<longrightarrow> \<not> simple_decodes gsfs f addr w"
  shows "rd bar (addr - sf_base sf (sf_get_config sf w) bar) buf count w = Inr (s, out, w1) \<Longrightarrow> s \<noteq> -1 \<Longrightarrow>
      p2g_mem_read (simple_bus gname gnum gsfs) addr buf count sai lat w = Inr (s, out, w1)"
    and "sf_bar_write sf = Some wr \<Longrightarrow> wr bar (addr - sf_base sf (sf_get_config sf w) bar) buf count w = Inr (t, w2) \<Longrightarrow> t \<noteq> -1 \<Longrightarrow>
      p2g_mem_write (simple_bus gname gnum gsfs) addr buf count sai lat w = Inr (t, w2)"
proof -
  have mem: "(simple_func sf)\<lparr>func_bdf := bdf\<rparr> \<in> set (bus_funcs (simple_bus gname gnum gsfs))"
    using assms(1) by (force simp: simple_bus_def)
  have lat: "0 < 16 - lat" using assms(2) by simp
  note claimed = simple.claimed[OF mem assms(7) lat]
  show "rd bar (addr - sf_base sf (sf_get_config sf w) bar) buf count w = Inr (s, out, w1) \<Longrightarrow> s \<noteq> -1 \<Longrightarrow>
      p2g_mem_read (simple_bus gname gnum gsfs) addr buf count sai lat w = Inr (s, out, w1)"
    using claimed(1) simple_hit(1)[OF assms(4-6)] assms(3) by (simp add: p2g_mem_read_def simple_func_def)
  show "sf_bar_write sf = Some wr \<Longrightarrow> wr bar (addr - sf_base sf (sf_get_config sf w) bar) buf count w = Inr (t, w2) \<Longrightarrow> t \<noteq> -1 \<Longrightarrow>
      p2g_mem_write (simple_bus gname gnum gsfs) addr buf count sai lat w = Inr (t, w2)"
    using claimed(2) simple_hit(2)[OF assms(4-6)] assms(3) by (simp add: p2g_mem_write_def simple_func_def)
qed

section \<open>Accesses through the bridge\<close>

text \<open>C13. A memory access on the primary bus outside the window of the bridge reaches the function on
  the gasket bus in whose BAR it lies, with the offset in the BAR, when nobody else decodes it,
  and the answer of the BAR handler is the answer of the primary bus.\<close>

theorem bridged_bus_routes:
  fixes gsfs :: "(u32 \<times> 'w pci_simplefunc) list"
  assumes "(bdf, sf) \<in> set gsfs" and "0 < max_lat" and "\<not> p2g_window addr"
    and "hits sf (sf_get_config sf w) bar addr count" and "bit (cfg_command (sf_get_config sf w)) 1"
    and "sf_bar_read sf = Some rd" and "sf_bar_write sf = Some wr"
    and "\<forall>f\<in>set (bus_funcs (simple_bus gname gnum gsfs)).
      f \<noteq> (simple_func sf)\<lparr>func_bdf := bdf\<rparr> \<longrightarrow> \<not> simple_decodes gsfs f addr w"
    and "\<not> (\<exists>f\<in>set (bus_funcs (simple_bus name num sfs)). simple_decodes sfs f addr w)"
    and "rd bar (addr - sf_base sf (sf_get_config sf w) bar) buf count w = Inr (s, out, w1)" and "s \<noteq> -1"
    and "wr bar (addr - sf_base sf (sf_get_config sf w) bar) buf count w = Inr (t, w2)" and "t \<noteq> -1"
  shows "pci_bus_mem_read (bridged_bus name num sfs (simple_bus gname gnum gsfs)) addr buf count sai max_lat w = Inr (s, out, w1) \<and>
    pci_bus_mem_write (bridged_bus name num sfs (simple_bus gname gnum gsfs)) addr buf count sai max_lat w = Inr (t, w2)"
  using bridge_claims(1)[OF assms(2,9) bridge_answers(1)[OF assms(1) _ assms(3-6,8,10,11)] assms(11)]
    bridge_claims(2)[OF assms(2,9) bridge_answers(2)[OF assms(1) _ assms(3-6,8,7,12,13)] assms(13)]
    assms(11,13) by simp

theorem bridged_bus_routes_witness:
  "pci_bus_mem_read (bridged_bus ''prim'' 0x100 [] (simple_bus ''gasket'' 0 [(0x8000, toy_sf)])) 0x1008 [1, 2] 2 0 16 toy_cfg =
     Inr (7, [1, 2], toy_cfg) \<and>
   pci_bus_mem_write (bridged_bus ''prim'' 0x100 [] (simple_bus ''gasket'' 0 [(0x8000, toy_sf)])) 0x1008 [1, 2] 2 0 16 toy_cfg =
     Inr (7, toy_cfg[0xFFF := 1])"
  by (rule bridged_bus_routes[of "0x8000" toy_sf _ _ _ _ 0 _ "\<lambda>bar off buf n w. Inr (7, buf, w)"
        "\<lambda>bar off buf n w. Inr (7, w[0xFFF := 1])"])
    (simp_all add: hits_def toy_base toy_fields simple_bus_def toy_sf_simps p2g_window_def)

section \<open>Configuration through the window\<close>

text \<open>The address of a register of a function of the gasket bus in the window.\<close>

definition window_addr :: "u32 \<Rightarrow> u64 \<Rightarrow> u64" where
  "window_addr bdf reg = 0xF1000000 OR ucast (bdf AND PCI_BDF_DF_MASK) OR reg"

lemma window_addr_fields:
  assumes "reg AND 0xFFF = reg"
  shows "p2g_window (window_addr bdf reg)"
    and "PCI_ADDR_BUS (window_addr bdf reg AND 0xFFFFFF) = 0"
    and "ucast (window_addr bdf reg AND 0xFFFFFF) AND PCI_BDF_DF_MASK = (bdf AND PCI_BDF_DF_MASK :: u32)"
    and "PCI_ADDR_TYPE ((window_addr bdf reg AND 0xFFFFFF) AND PCI_ADDR_TYPE0_MASK) = PCI_ADDR_TYPE0"
    and "PCI_ADDR_REG ((window_addr bdf reg AND 0xFFFFFF) AND PCI_ADDR_TYPE0_MASK) = reg"
proof -
  have m: "(0xF1000000 :: u64) = BIT 24 OR push_bit 28 (mask 4)" "(0xFF000000 :: u64) = push_bit 24 (mask 8)"
    "(0xFFFFFF :: u64) = mask 24" "(0xFFF :: u64) = mask 12" "(0xFF :: u64) = mask 8" "(0x7FFF :: u64) = mask 15"
    "(0x10000000 :: u64) = BIT 28"
    by (simp_all add: BIT_def mask_eq_exp_minus_1 push_bit_eq_mult)
  have reg: "bit reg n \<Longrightarrow> n < 12" for n
    using assms[symmetric] by (metis m(4) bit_and_iff bit_mask_iff)
  note defs = window_addr_def p2g_window_def PCI_ADDR_BUS_def PCI_ADDR_TYPE_def PCI_ADDR_REG_def PCI_ADDR_TYPE0_MASK_def
    PCI_ADDR_TYPE0_def df_mask
  show "p2g_window (window_addr bdf reg)"
    unfolding defs m by (rule bit_word_eqI) (auto simp: bit_simps dest: reg)
  show "PCI_ADDR_BUS (window_addr bdf reg AND 0xFFFFFF) = 0"
    unfolding defs m by (rule bit_word_eqI) (auto simp: bit_simps dest: reg)
  show "ucast (window_addr bdf reg AND 0xFFFFFF) AND PCI_BDF_DF_MASK = (bdf AND PCI_BDF_DF_MASK :: u32)"
    unfolding defs m by (rule bit_word_eqI) (auto simp: bit_simps dest: reg)
  show "PCI_ADDR_TYPE ((window_addr bdf reg AND 0xFFFFFF) AND PCI_ADDR_TYPE0_MASK) = PCI_ADDR_TYPE0"
    unfolding defs m by (rule bit_word_eqI) (auto simp: bit_simps dest: reg)
  show "PCI_ADDR_REG ((window_addr bdf reg AND 0xFFFFFF) AND PCI_ADDR_TYPE0_MASK) = reg"
    unfolding defs m by (rule bit_word_eqI) (auto simp: bit_simps dest: reg)
qed

text \<open>A configuration cycle through the window is one of the gasket bus.\<close>

lemma window_config_read:
  assumes "reg AND 0xFFF = reg" and "bus_wf gasket" and "bus_num gasket = 0" and "f \<in> set (bus_funcs gasket)"
  shows "p2g_mem_read gasket (window_addr (func_bdf f) reg) buf count sai lat w =
      cfg_read f ((window_addr (func_bdf f) reg AND 0xFFFFFF) AND PCI_ADDR_TYPE0_MASK) buf count w"
    and "p2g_mem_write gasket (window_addr (func_bdf f) reg) buf count sai lat w =
      cfg_write f ((window_addr (func_bdf f) reg AND 0xFFFFFF) AND PCI_ADDR_TYPE0_MASK) buf count w"
proof -
  have d: "distinct (map (\<lambda>f. func_bdf f AND PCI_BDF_DF_MASK) (bus_funcs gasket))"
    using assms(2) by (simp add: bus_wf_def)
  have f: "pci_func_find (ucast ((window_addr (func_bdf f) reg AND 0xFFFFFF) AND PCI_ADDR_BDF_MASK)) gasket = Some f"
    unfolding pci_func_find_def df_of_bdf window_addr_fields(3)[OF assms(1)] by (rule find_in_some[OF d assms(4)])
  note w = window_addr_fields[OF assms(1)]
  show "p2g_mem_read gasket (window_addr (func_bdf f) reg) buf count sai lat w =
      cfg_read f ((window_addr (func_bdf f) reg AND 0xFFFFFF) AND PCI_ADDR_TYPE0_MASK) buf count w"
    by (simp add: p2g_mem_read_def pci_bus_config_read_def w(1,2) assms(3) f type0_addr)
  show "p2g_mem_write gasket (window_addr (func_bdf f) reg) buf count sai lat w =
      cfg_write f ((window_addr (func_bdf f) reg AND 0xFFFFFF) AND PCI_ADDR_TYPE0_MASK) buf count w"
    by (simp add: p2g_mem_write_def pci_bus_config_write_def w(1,2) assms(3) f type0_addr)
qed

text \<open>C14. Every register of the configuration space of a simple function on the gasket bus can be
  written and read through the window on the primary bus: a memory write to the window at the
  address made of device, function and register number is answered with 0, and a memory read
  there then gives the bytes written.\<close>

theorem window_config_roundtrip:
  assumes "bus_wf (simple_bus gname 0 gsfs)" and "(bdf, sf) \<in> set gsfs" and "reg AND 0xFFF = reg"
    and "sf_ok sf w" and "sf_cfg_read sf = None" and "sf_cfg_write sf = None"
    and "length data = n" and "length buf = n" and "uint reg + int n \<le> 0x1000" and "0 < max_lat"
    and "\<forall>w. \<not> (\<exists>f\<in>set (bus_funcs (simple_bus name num sfs)). simple_decodes sfs f (window_addr bdf reg) w)"
  shows "\<exists>w'. pci_bus_mem_write (bridged_bus name num sfs (simple_bus gname 0 gsfs)) (window_addr bdf reg) data (int n) sai max_lat w =
      Inr (0, w') \<and>
    pci_bus_mem_read (bridged_bus name num sfs (simple_bus gname 0 gsfs)) (window_addr bdf reg) buf (int n) sai max_lat w' =
      Inr (0, data, w')"
proof -
  let ?g = "simple_bus gname 0 gsfs" and ?f = "(simple_func sf)\<lparr>func_bdf := bdf\<rparr>"
  let ?a = "(window_addr bdf reg AND 0xFFFFFF) AND PCI_ADDR_TYPE0_MASK"
  have f: "?f \<in> set (bus_funcs ?g)" using assms(2) by (force simp: simple_bus_def)
  have num: "bus_num ?g = 0" by (simp add: simple_bus_def)
  note win = window_config_read[OF assms(3,1) num f]
  have "uint (PCI_ADDR_REG ?a) + int n \<le> PCI_CONFIG_SIZE"
    unfolding window_addr_fields(5)[OF assms(3)] using assms(9) by (simp add: PCI_CONFIG_SIZE_def)
  then obtain w' where w: "pci_simple_cfg_write sf ?a data (int n) w = Inr (0, w')"
    and r: "pci_simple_cfg_read sf ?a buf (int n) w' = Inr (0, data, w')"
    using pci_cfg_write_read[OF assms(4-8) window_addr_fields(4)[OF assms(3), of bdf]] by auto
  have "p2g_mem_write ?g (window_addr bdf reg) data (int n) sai 0 w = Inr (0, w')"
    using win(2)[of data "int n" sai 0 w] w by (simp add: simple_func_def)
  moreover have "p2g_mem_read ?g (window_addr bdf reg) buf (int n) sai 0 w' = Inr (0, data, w')"
    using win(1)[of buf "int n" sai 0 w'] r by (simp add: simple_func_def)
  ultimately show ?thesis
    using bridge_claims[where addr = "window_addr bdf reg" and sfs = sfs and name = name and num = num, OF assms(10)] assms(11) by auto
qed

theorem window_config_roundtrip_witness:
  "\<exists>w'. pci_bus_mem_write (bridged_bus ''prim'' 0x100 [] (simple_bus ''gasket'' 0 [(0x8000, ram_sf)]))
      (window_addr 0x8000 0x10) [1, 2, 3, 4] (int 4) 0 16 (replicate 0x1000 0) = Inr (0, w') \<and>
    pci_bus_mem_read (bridged_bus ''prim'' 0x100 [] (simple_bus ''gasket'' 0 [(0x8000, ram_sf)]))
      (window_addr 0x8000 0x10) [0, 0, 0, 0] (int 4) 0 16 w' = Inr (0, [1, 2, 3, 4], w')"
  by (rule window_config_roundtrip[where sf = ram_sf and bdf = "0x8000"])
    (simp_all add: sf_ok_def ram_sf_def simple_bus_def bus_wf_def PCI_BDF_DF_MASK_def PCI_PACK_BDF_def)

end
