(* ===== verification/Pmc.thy ===== *)
theory Pmc
  imports Printf PciConfig
begin

text \<open>
  \<open>periph/pmc/dev.c\<close>: the power management controller, a function whose registers are only
  logged when written, with two values that can be read. \<open>periph/cpu/usercpu.c\<close>: the
  processor that runs the guest natively, whose callbacks from the bus are not implemented.
\<close>

section \<open>Power management controller\<close>

record pmc_inst =
  pmc_name :: string
  pmc_sai :: u32
  pmc_d31id :: u32

definition pmc_bar_read :: "nat \<Rightarrow> u64 \<Rightarrow> bytes \<Rightarrow> int \<Rightarrow> pmc_inst \<times> log_world \<Rightarrow> (int \<times> bytes \<times> pmc_inst \<times> log_world) res" where
  "pmc_bar_read bar addr buffer count = (\<lambda>(t, w).
    if bar = 0 then
      if addr = 0x20 \<and> count = 4 then rbind (st32 (pmc_d31id t) buffer) (\<lambda>b. Inr (sint (pmc_sai t), b, t, w))
      else if addr = 0x310 \<and> count = 4 then rbind (st32 8 buffer) (\<lambda>b. Inr (sint (pmc_sai t), b, t, w))
      else
        rbind (log_msg 4 (pmc_name t) ''Read to unimplemented register %08x size %i'' [VaWord (ucast addr), VaWord (word_of_int count)] w)
          (\<lambda>w. Inr (sint (pmc_sai t), buffer, t, w))
    else if bar = 1 then
      rbind (log_msg 4 (pmc_name t) ''Read to unimplemented XRAM %08x size %i'' [VaWord (ucast addr), VaWord (word_of_int count)] w)
        (\<lambda>w. Inr (sint (pmc_sai t), buffer, t, w))
    else rbind (log_msg 4 (pmc_name t) ''Read to unimplemented bar'' [] w) (\<lambda>w. Inr (-1, buffer, t, w)))"

text \<open>The registers with a branch of their own: the level and the format of its message.\<close>

definition pmc_registers :: "(u64 \<times> int \<times> string) list" where
  "pmc_registers =
    [(0x10, 1, ''Write PMC HESTS0: %08x''), (0x14, 1, ''Write PMC HEISIE0: %08x''),
     (0x18, 1, ''Write PMC HESTS1: %08x''), (0x1C, 1, ''Write PMC HEISIE1: %08x''),
     (0x20, 4, ''Write PMC D31ID: %08x''), (0x40, 1, ''Write PMC HCSTS: %08x''),
     (0x44, 1, ''Write PMC HCSTS2: %08x''), (0x200, 1, ''Write PMC GENCTL: %08x''),
     (0x204, 1, ''Write PMC PPS: %08x''), (0x208, 1, ''Write PMC PSIENTR: %08x''),
     (0x20C, 1, ''Write PMC PSIEXIT: %08x''), (0x210, 1, ''Write PMC PSCTRL: %08x''),
     (0x218, 1, ''Write PMC IEWS: %08x''), (0x21C, 1, ''Write PMC IEWE: %08x''),
     (0x220, 1, ''Write PMC IEW2IE: %08x''), (0x250, 1, ''Write PMC SUSPMCFG: %08x''),
     (0x254, 1, ''Write PMC DSWPMCFG: %08x''), (0x260, 1, ''Write PMC RTCPMCFG: %08x''),
     (0x270, 1, ''Write PMC EPMMISC: %08x''), (0x300, 1, ''Write PMC GENPMCCOM: %08x''),
     (0x308, 1, ''Write PMC PMCINTSTS: %08x''), (0x30C, 1, ''Write PMC PMCINTEN: %08x'')]"

definition pmc_bar_write :: "nat \<Rightarrow> u64 \<Rightarrow> bytes \<Rightarrow> int \<Rightarrow> pmc_inst \<times> log_world \<Rightarrow> (int \<times> pmc_inst \<times> log_world) res" where
  "pmc_bar_write bar addr buffer count = (\<lambda>(t, w).
    if bar = 0 then
      if count \<noteq> 4 then
        rbind (log_msg 4 (pmc_name t) ''Write to register %08x with bad size %i'' [VaWord (ucast addr), VaWord (word_of_int count)] w)
          (\<lambda>w. Inr (sint (pmc_sai t), t, w))
      else
        rbind (ld32 buffer) (\<lambda>v.
        rbind
         (case map_of pmc_registers addr of
            Some (level, format) \<Rightarrow> log_msg level (pmc_name t) format [VaWord v] w
          | None \<Rightarrow>
              log_msg 4 (pmc_name t) ''Write to unimplemented register %08x size %i'' [VaWord (ucast addr), VaWord (word_of_int count)] w)
         (\<lambda>w. Inr (sint (pmc_sai t), t, w)))
    else rbind (log_msg 4 (pmc_name t) ''Write to unimplemented bar'' [] w) (\<lambda>w. Inr (-1, t, w)))"

record 'w pmc_host =
  pmc_get :: "'w \<Rightarrow> pmc_inst \<times> log_world"
  pmc_put :: "pmc_inst \<times> log_world \<Rightarrow> 'w \<Rightarrow> 'w"
  pmc_get_config :: "'w \<Rightarrow> pci_cfgspace"
  pmc_put_config :: "pci_cfgspace \<Rightarrow> 'w \<Rightarrow> 'w"

definition pmc_func :: "'w pmc_host \<Rightarrow> 'w pci_simplefunc" where
  "pmc_func host = \<lparr>sf_flags = 0, sf_max_bar = 2, sf_bar_size = [0x2000, 0x4000, 0, 0, 0, 0],
     sf_get_config = pmc_get_config host, sf_put_config = pmc_put_config host,
     sf_bar_read = Some (\<lambda>bar addr buf count w. rbind (pmc_bar_read bar addr buf count (pmc_get host w))
       (\<lambda>(r, buf, s). Inr (r, buf, pmc_put host s w))),
     sf_bar_write = Some (\<lambda>bar addr buf count w. rbind (pmc_bar_write bar addr buf count (pmc_get host w))
       (\<lambda>(r, s). Inr (r, pmc_put host s w))),
     sf_cfg_read = None, sf_cfg_write = None\<rparr>"

definition pmc_config :: "pmc_inst \<Rightarrow> cfg_section \<Rightarrow> pmc_inst" where
  "pmc_config pmc sec =
    (let pmc = pmc\<lparr>pmc_sai := cfg_or (cfg_find_int32 sec ''sai'') (pmc_sai pmc)\<rparr>
     in pmc\<lparr>pmc_d31id := cfg_or (cfg_find_int32 sec ''d31id'') (pmc_d31id pmc)\<rparr>)"

definition pmc_spawn :: "'w pmc_host \<Rightarrow> cfg_section \<Rightarrow> 'w pci_bus list \<Rightarrow> unit device_instance list \<Rightarrow> 'w \<Rightarrow>
    ('w pci_bus list \<times> unit device_instance list \<times> 'w) res" where
  "pmc_spawn host sec buses devs w =
    (let i = pmc_config \<lparr>pmc_name = section_name sec, pmc_sai = 0, pmc_d31id = 0\<rparr> sec;
         w = pmc_put_config host (replicate 0x1000 0) (pmc_put host (i, snd (pmc_get host w)) w)
     in rbind (pci_simple_init (pmc_func host) (Some sec) buses w) (\<lambda>(buses, w).
        rbind (device_register \<lparr>device_name = section_name sec, device_impl = ()\<rparr> devs) (\<lambda>devs.
          Inr (buses, devs, w))))"

section \<open>Processor\<close>

text \<open>The callbacks only log; the instance, the interface to the system agent, is \<open>'i\<close>.\<close>

definition usercpu_legacywire :: "string \<Rightarrow> log_world \<Rightarrow> log_world res" where
  "usercpu_legacywire name w = log_msg 4 name ''legacy_wire is not yet implemented'' [] w"

definition usercpu_cpuread :: "string \<Rightarrow> log_world \<Rightarrow> log_world res" where
  "usercpu_cpuread name w = log_msg 4 name ''mia_mem_read is not yet implemented'' [] w"

definition usercpu_cpuwrite :: "string \<Rightarrow> log_world \<Rightarrow> log_world res" where
  "usercpu_cpuwrite name w = log_msg 4 name ''mia_mem_read is not yet implemented'' [] w"

definition usercpu_spawn :: "'i \<Rightarrow> cfg_section \<Rightarrow> 'i device_instance list \<Rightarrow> 'i device_instance list res" where
  "usercpu_spawn fsb sec devs = device_register \<lparr>device_name = section_name sec, device_impl = fsb\<rparr> devs"

section \<open>Writes are only logged\<close>

fun pmc_writes :: "(nat \<times> u64 \<times> bytes \<times> int) list \<Rightarrow> pmc_inst \<times> log_world \<Rightarrow> (pmc_inst \<times> log_world) res" where
  "pmc_writes [] s = Inr s"
| "pmc_writes ((bar, addr, buffer, count) # ws) s =
    rbind (pmc_bar_write bar addr buffer count s) (\<lambda>(r, s). pmc_writes ws s)"

lemma pmc_write_keeps: "pmc_bar_write bar addr buffer count (t, w) = Inr (r, t', w') \<Longrightarrow> t' = t"
  by (auto simp: pmc_bar_write_def rbind_Inr_iff split: if_splits prod.splits option.splits)

lemma pmc_writes_keep: "pmc_writes ws s = Inr s' \<Longrightarrow> fst s' = fst s"
  by (induction ws s rule: pmc_writes.induct) (auto simp: rbind_Inr_iff dest: pmc_write_keeps)

text \<open>Whatever a guest writes to the controller, the id it reads is that of the configuration.\<close>

lemma pmc_id_constant:
  assumes "pmc_writes ws (pmc_config \<lparr>pmc_name = name, pmc_sai = 0, pmc_d31id = 0\<rparr> sec, w) = Inr (t, w')" and "length buf = 4"
  shows "pmc_bar_read 0 0x20 buf 4 (t, w') =
    Inr (sint (cfg_or (cfg_find_int32 sec ''sai'') 0), le_bytes 4 (cfg_or (cfg_find_int32 sec ''d31id'') 0), t, w')"
  using pmc_writes_keep[OF assms(1)] assms(2) by (auto simp: pmc_bar_read_def pmc_config_def Let_def)

end
