(* ===== verification/Spi.thy ===== *)
theory Spi
  imports PciConfig
begin

text \<open>
  The SPI flash controller: \<open>include/fastspi.h\<close>, \<open>periph/spi/spi.c\<close> and
  \<open>periph/spi/dev.c\<close>. The image file of the flash is its contents, a list of bytes; the
  system calls \<open>lseek\<close>, \<open>read\<close> and \<open>write\<close> on it have their POSIX meaning for a regular
  file with a 32 bit \<open>off_t\<close>. Accesses to the register block go through \<open>spi_read\<close> and
  \<open>spi_write\<close>; every write then runs a pending hardware or software sequence.
\<close>

section \<open>State\<close>

record spi_region =
  csme_readable :: u32
  csme_writable :: u32
  region_base :: u32
  region_limit :: u32

record spi_component =
  vscc :: u32
  par_data :: "u32 list"

record fastspi =
  spi_components :: "spi_component list"
  spi_regions :: "spi_region list"
  spi_jedec_id :: "u32 list"
  spi_faddr :: u32
  spi_hsflctl :: u32
  spi_ssfsts_ctl :: u32
  spi_buffer :: bytes
  spi_ptinx :: u32
  spi_image :: bytes
  spi_opmenu :: "u32 list"
  spi_sai :: u32
  spi_read_buffer :: bytes

section \<open>The image file\<close>

text \<open>
  \<open>lseek( fd, faddr, SEEK_SET )\<close> with a 32 bit signed offset: \<open>None\<close> is the error return.
\<close>

definition img_seek :: "u32 \<Rightarrow> nat option" where
  "img_seek faddr = (if bit faddr 31 then None else Some (unat faddr))"

definition img_read :: "nat \<Rightarrow> nat \<Rightarrow> bytes \<Rightarrow> bytes" where
  "img_read pos n img = take n (drop pos img)"

definition img_write :: "nat \<Rightarrow> bytes \<Rightarrow> bytes \<Rightarrow> bytes" where
  "img_write pos data img =
    take pos (img @ replicate (pos - length img) 0) @ data @ drop (pos + length data) img"

section \<open>Register reads\<close>

definition spi_ptread :: "fastspi \<Rightarrow> u32 res" where
  "spi_ptread spi =
    (let comp = drop_bit 14 (spi_ptinx spi) AND 2;
         hord = drop_bit 12 (spi_ptinx spi) AND 2;
         dwi = drop_bit 2 (spi_ptinx spi) AND 0x1FF
     in if hord = 2
        then if unat comp < 2 then Inr (par_data (spi_components spi ! unat comp) ! unat dwi) else Inl OutOfBounds
        else Inr 0)"

definition spi_access_bits :: "spi_region list \<Rightarrow> u32" where
  "spi_access_bits regions = fold (\<lambda>i v.
     let v = (if csme_readable (regions ! i) \<noteq> 0 then v OR BIT i else v)
     in if csme_writable (regions ! i) \<noteq> 0 then v OR BIT (i + 8) else v) [0..<8] 0"

definition freg_value :: "spi_region \<Rightarrow> u32" where
  "freg_value r = (drop_bit 12 (region_base r) AND 0x7FFF) OR (push_bit 4 (region_limit r) AND 0x7FFF0000)"

text \<open>\<open>addr\<close> is an \<open>int\<close>; the cases 0x54 .. 0x80 and 0xC4, 0xC8 are spelled out in the source.\<close>

definition freg_index :: "int \<Rightarrow> nat option" where
  "freg_index addr = (if 0x54 \<le> addr \<and> addr \<le> 0x80 \<and> addr mod 4 = 0 then Some (nat ((addr - 0x54) div 4)) else None)"

definition spi_read :: "fastspi \<Rightarrow> int \<Rightarrow> bytes \<Rightarrow> int \<Rightarrow> (int \<times> bytes) res" where
  "spi_read spi addr buffer count =
    (let ret = (\<lambda>v. rbind (st32 v buffer) (\<lambda>b. Inr (1, b))) in
     if 0x10 \<le> addr \<and> addr < 0x50 then
       (let addr = addr - 0x10 in
        if count + addr > 0x40 then Inr (1, buffer)
        else rbind (memcpy_int 0 count (drop (nat addr) (spi_buffer spi)) buffer) (\<lambda>b. Inr (1, b)))
     else if addr = 0x4 then ret (spi_hsflctl spi)
     else if addr = 0x50 then ret (spi_access_bits (spi_regions spi))
     else case freg_index addr of
       Some i \<Rightarrow> ret (freg_value (spi_regions spi ! i))
     | None \<Rightarrow>
         if addr = 0xA0 then ret (spi_ssfsts_ctl spi)
         else if addr = 0xC4 \<or> addr = 0xC8 then ret (vscc (spi_components spi ! nat ((addr - 0xC4) div 4)))
         else if addr = 0xCC then ret (spi_ptinx spi)
         else if addr = 0xD0 then rbind (spi_ptread spi) ret
         else Inr (1, buffer))"

section \<open>Sequences\<close>

definition flash_done :: "fastspi \<Rightarrow> fastspi" where
  "flash_done spi = spi\<lparr>spi_hsflctl := spi_hsflctl spi OR 1\<rparr>"

definition flash_err :: "fastspi \<Rightarrow> fastspi" where
  "flash_err spi = spi\<lparr>spi_hsflctl := spi_hsflctl spi OR 2\<rparr>"

definition spi_cycle_read :: "nat \<Rightarrow> fastspi \<Rightarrow> fastspi" where
  "spi_cycle_read fdbc spi =
    (case img_seek (spi_faddr spi) of
       None \<Rightarrow> flash_err spi
     | Some ls \<Rightarrow>
         let got = img_read ls fdbc (spi_image spi);
             spi = spi\<lparr>spi_buffer := blit 0 got (spi_buffer spi)\<rparr>
         in if length got \<noteq> fdbc then flash_err spi else flash_done spi)"

text \<open>The write cycle reads the old contents and ands them in: flash bits only go from 1 to 0.\<close>

definition spi_cycle_write :: "nat \<Rightarrow> fastspi \<Rightarrow> fastspi" where
  "spi_cycle_write fdbc spi =
    (case img_seek (spi_faddr spi) of
       None \<Rightarrow> flash_err spi
     | Some ls \<Rightarrow>
         let got = img_read ls fdbc (spi_image spi);
             spi = spi\<lparr>spi_read_buffer := blit 0 got (spi_read_buffer spi)\<rparr>
         in if length got \<noteq> fdbc then flash_err spi
            else
              let anded = map2 (AND) (take fdbc (spi_buffer spi)) (take fdbc (spi_read_buffer spi));
                  spi = spi\<lparr>spi_buffer := blit 0 anded (spi_buffer spi)\<rparr>;
                  spi = spi\<lparr>spi_image := img_write ls (take fdbc (spi_buffer spi)) (spi_image spi)\<rparr>
              in flash_done spi)"

text \<open>The JEDEC id is an array of words whose bytes are copied.\<close>

definition spi_cycle_jedec :: "nat \<Rightarrow> fastspi \<Rightarrow> fastspi" where
  "spi_cycle_jedec fdbc spi =
    flash_done (spi\<lparr>spi_buffer := blit 0 (take fdbc (concat (map (le_bytes 4) (spi_jedec_id spi)))) (spi_buffer spi)\<rparr>)"

definition spi_do_hwseq :: "fastspi \<Rightarrow> fastspi" where
  "spi_do_hwseq spi =
    (if ntst (spi_hsflctl spi) (BIT 16) then spi
     else
       let spi = spi\<lparr>spi_hsflctl := spi_hsflctl spi AND NOT (BIT 16)\<rparr>;
           fdbc = unat (drop_bit 24 (spi_hsflctl spi) AND 0x3F) + 1;
           cycle = drop_bit 17 (spi_hsflctl spi) AND 0x0F
       in if cycle = 0 then spi_cycle_read fdbc spi
          else if cycle = 2 then spi_cycle_write fdbc spi
          else if cycle = 6 then spi_cycle_jedec fdbc spi
          else flash_done spi)"

text \<open>The software sequencer only reports completion; its error label is not reached.\<close>

definition spi_do_swseq :: "fastspi \<Rightarrow> fastspi" where
  "spi_do_swseq spi =
    (if ntst (spi_ssfsts_ctl spi) (BIT 9) then spi
     else spi\<lparr>spi_ssfsts_ctl := (spi_ssfsts_ctl spi AND NOT (BIT 9)) OR 4\<rparr>)"

section \<open>Register writes\<close>

definition spi_set_freg :: "u32 \<Rightarrow> spi_region \<Rightarrow> spi_region" where
  "spi_set_freg v r = r\<lparr>region_base := push_bit 12 (v AND 0x7FFF), region_limit := drop_bit 4 (v AND 0x7FFF0000)\<rparr>"

definition spi_set_hsflctl :: "u32 \<Rightarrow> fastspi \<Rightarrow> fastspi" where
  "spi_set_hsflctl v spi =
    (if tst (spi_hsflctl spi) (BIT 16) then spi
     else
       let h = spi_hsflctl spi AND NOT (v AND 7);
           h = h AND 0x0000E1FF
       in spi\<lparr>spi_hsflctl := h OR (v AND 0xFFFF0000)\<rparr>)"

definition spi_set_ssfsts :: "u32 \<Rightarrow> fastspi \<Rightarrow> fastspi" where
  "spi_set_ssfsts v spi =
    (if tst (spi_ssfsts_ctl spi) (BIT 9) then spi
     else
       let s = spi_ssfsts_ctl spi AND NOT (v AND 0xC);
           s = s AND 0x077F7EFF
       in spi\<lparr>spi_ssfsts_ctl := s OR (v AND 0x077F7E00)\<rparr>)"

definition spi_write_reg :: "int \<Rightarrow> u32 \<Rightarrow> fastspi \<Rightarrow> fastspi" where
  "spi_write_reg addr v spi =
    (if addr = 0x4 then spi_set_hsflctl v spi
     else if addr = 0x8 then spi\<lparr>spi_faddr := v\<rparr>
     else if addr = 0xA8 \<or> addr = 0xAC then spi\<lparr>spi_opmenu := (spi_opmenu spi)[nat ((addr - 0xA8) div 4) := v]\<rparr>
     else case freg_index addr of
       Some i \<Rightarrow> spi\<lparr>spi_regions := (spi_regions spi)[i := spi_set_freg v (spi_regions spi ! i)]\<rparr>
     | None \<Rightarrow>
         if addr = 0xA0 then spi_set_ssfsts v spi
         else if addr = 0xCC then spi\<lparr>spi_ptinx := v\<rparr>
         else spi)"

definition spi_write :: "fastspi \<Rightarrow> int \<Rightarrow> bytes \<Rightarrow> int \<Rightarrow> (int \<times> fastspi) res" where
  "spi_write spi addr buffer count =
    (if 0x10 \<le> addr \<and> addr < 0x50 then
       (let addr = addr - 0x10 in
        if count + addr > 0x40 then Inr (1, spi)
        else rbind (memcpy_int (nat addr) count buffer (spi_buffer spi)) (\<lambda>b. Inr (1, spi\<lparr>spi_buffer := b\<rparr>)))
     else rbind (ld32 buffer) (\<lambda>v. Inr (1, spi_do_swseq (spi_do_hwseq (spi_write_reg addr v spi)))))"

section \<open>The PCI function\<close>

definition fastspi_bar_read :: "fastspi \<Rightarrow> nat \<Rightarrow> u64 \<Rightarrow> bytes \<Rightarrow> int \<Rightarrow> (int \<times> bytes) res" where
  "fastspi_bar_read t bar addr buffer count =
    (if bar = 0 then rbind (spi_read t (sint (ucast addr :: u32)) buffer count) (\<lambda>(_, b). Inr (sint (spi_sai t), b))
     else Inr (-1, buffer))"

definition fastspi_bar_write :: "fastspi \<Rightarrow> nat \<Rightarrow> u64 \<Rightarrow> bytes \<Rightarrow> int \<Rightarrow> (int \<times> fastspi) res" where
  "fastspi_bar_write t bar addr buffer count =
    (if bar = 0 then rbind (spi_write t (sint (ucast addr :: u32)) buffer count) (\<lambda>(_, t). Inr (sint (spi_sai t), t))
     else Inr (-1, t))"

section \<open>No sequence stays pending\<close>

definition spi_idle :: "fastspi \<Rightarrow> bool" where
  "spi_idle spi \<longleftrightarrow> \<not> bit (spi_hsflctl spi) 16 \<and> \<not> bit (spi_ssfsts_ctl spi) 9"

lemma bit_or_1 [simp]: "bit (h OR 1 :: u32) 16 = bit h 16" "bit (h OR 2 :: u32) 16 = bit h 16"
proof -
  have "\<not> bit (1 :: u32) 16" "\<not> bit (2 :: u32) 16" by simp_all
  then show "bit (h OR 1 :: u32) 16 = bit h 16" "bit (h OR 2 :: u32) 16 = bit h 16"
    by (simp_all only: bit_or_iff simp_thms)
qed

lemma flash_go [simp]:
  "bit (spi_hsflctl (flash_done spi)) 16 = bit (spi_hsflctl spi) 16"
  "bit (spi_hsflctl (flash_err spi)) 16 = bit (spi_hsflctl spi) 16"
  "spi_ssfsts_ctl (flash_done spi) = spi_ssfsts_ctl spi"
  "spi_ssfsts_ctl (flash_err spi) = spi_ssfsts_ctl spi"
  by (simp_all add: flash_done_def flash_err_def)

lemma cycles_go:
  "bit (spi_hsflctl (spi_cycle_read n spi)) 16 = bit (spi_hsflctl spi) 16"
  "bit (spi_hsflctl (spi_cycle_write n spi)) 16 = bit (spi_hsflctl spi) 16"
  "bit (spi_hsflctl (spi_cycle_jedec n spi)) 16 = bit (spi_hsflctl spi) 16"
  by (simp_all add: spi_cycle_read_def spi_cycle_write_def spi_cycle_jedec_def Let_def split: option.splits)

lemma hwseq_go: "\<not> bit (spi_hsflctl (spi_do_hwseq spi)) 16"
proof (cases "bit (spi_hsflctl spi) 16")
  case True
  have "\<not> bit (w AND NOT (BIT 16) :: u32) 16" for w by (simp add: bit_simps)
  then show ?thesis by (simp add: spi_do_hwseq_def True cycles_go Let_def)
qed (simp add: spi_do_hwseq_def)

lemma swseq_go:
  "\<not> bit (spi_ssfsts_ctl (spi_do_swseq spi)) 9"
  "spi_hsflctl (spi_do_swseq spi) = spi_hsflctl spi"
proof -
  have "\<not> bit ((w AND NOT (BIT 9)) OR 4 :: u32) 9" for w
  proof -
    have eq: "(4 :: u32) = BIT 2" by (simp add: BIT_def)
    show ?thesis unfolding eq by (simp add: bit_simps)
  qed
  then show "\<not> bit (spi_ssfsts_ctl (spi_do_swseq spi)) 9" by (simp add: spi_do_swseq_def)
qed (simp add: spi_do_swseq_def)

inductive spi_reach :: "fastspi \<Rightarrow> fastspi \<Rightarrow> bool" where
  spi_start: "spi_reach spi spi"
| spi_step: "spi_reach spi s \<Longrightarrow> spi_write s addr buffer count = Inr (r, s') \<Longrightarrow> spi_reach spi s'"

text \<open>No sequence is ever left pending: from an idle controller on, after any accesses
  to its registers, the GO bits of the hardware and of the software sequencer are clear, so
  every sequence completes within the write that starts it (and the branches that ignore a
  write because GO is set are never taken).\<close>

lemma spi_always_idle:
  assumes "spi_reach spi s" and "spi_idle spi"
  shows "spi_idle s"
  using assms
proof (induction rule: spi_reach.induct)
  case (spi_step spi s addr buffer count r s')
  then show ?case
    by (auto simp: spi_write_def spi_idle_def rbind_Inr_iff Let_def hwseq_go swseq_go split: if_splits)
qed

definition spi_fresh :: "bytes \<Rightarrow> fastspi" where
  "spi_fresh img = \<lparr>spi_components = replicate 2 \<lparr>vscc = 0, par_data = replicate 0x200 0\<rparr>,
     spi_regions = replicate 12 \<lparr>csme_readable = 0, csme_writable = 0, region_base = 0, region_limit = 0\<rparr>,
     spi_jedec_id = replicate 0x40 0, spi_faddr = 0, spi_hsflctl = 0, spi_ssfsts_ctl = 0,
     spi_buffer = replicate 0x40 0, spi_ptinx = 0, spi_image = img, spi_opmenu = [0, 0], spi_sai = 0,
     spi_read_buffer = replicate 0x40 0\<rparr>"

section \<open>Flash cycles\<close>

text \<open>The fields of the control register that a cycle uses are those of the value written.\<close>

lemma low_mask_bits: "bit (0xE1FF :: u32) n \<Longrightarrow> n < 16" "bit (0xE1FF :: u32) 0" "bit (7 :: u32) 0" "bit (7 :: u32) 1"
proof -
  have "(0xE1FF :: u32) = take_bit 16 0xE1FF" by simp
  then show "bit (0xE1FF :: u32) n \<Longrightarrow> n < 16" by (metis bit_take_bit_iff)
qed simp_all

definition started_cycle :: "u32 \<Rightarrow> u32 \<Rightarrow> u32" where
  "started_cycle v h = ((h AND NOT (v AND 7)) AND 0x0000E1FF) OR (v AND 0xFFFF0000)"

lemma started_fields:
  "bit (started_cycle v h) 16 = bit v 16"
  "bit v 0 \<Longrightarrow> \<not> bit (started_cycle v h) 0" "bit v 1 \<Longrightarrow> \<not> bit (started_cycle v h) 1"
  "drop_bit 24 (started_cycle v h AND NOT (BIT 16)) AND 0x3F = drop_bit 24 v AND 0x3F"
  "drop_bit 17 (started_cycle v h AND NOT (BIT 16)) AND 0x0F = drop_bit 17 v AND 0x0F"
proof -
  have m: "(0xFFFF0000 :: u32) = push_bit 16 (mask 16)" "(0x3F :: u32) = mask 6" "(0x0F :: u32) = mask 4"
    by (simp_all add: mask_eq_exp_minus_1 push_bit_eq_mult)
  show "bit (started_cycle v h) 16 = bit v 16"
    "bit v 0 \<Longrightarrow> \<not> bit (started_cycle v h) 0" "bit v 1 \<Longrightarrow> \<not> bit (started_cycle v h) 1"
    unfolding started_cycle_def m by (auto simp: bit_simps dest: low_mask_bits(1) simp: low_mask_bits(3,4))
  show "drop_bit 24 (started_cycle v h AND NOT (BIT 16)) AND 0x3F = drop_bit 24 v AND 0x3F"
    "drop_bit 17 (started_cycle v h AND NOT (BIT 16)) AND 0x0F = drop_bit 17 v AND 0x0F"
    unfolding started_cycle_def m by (auto intro!: bit_word_eqI simp: bit_simps dest: low_mask_bits(1))
qed

text \<open>The cycle of a start value succeeds when the block it moves lies in the image.\<close>

definition cycle_fits :: "fastspi \<Rightarrow> u32 \<Rightarrow> bool" where
  "cycle_fits spi v \<longleftrightarrow> (drop_bit 17 v AND 0x0F = 0 \<or> drop_bit 17 v AND 0x0F = 2 \<longrightarrow>
     \<not> bit (spi_faddr spi) 31 \<and>
     unat (spi_faddr spi) + (unat (drop_bit 24 v AND 0x3F) + 1) \<le> length (spi_image spi))"

lemma done_bits:
  "bit (spi_hsflctl (flash_done s)) 0" "bit (spi_hsflctl (flash_done s)) 1 = bit (spi_hsflctl s) 1"
  "bit (spi_hsflctl (flash_err s)) 0 = bit (spi_hsflctl s) 0" "bit (spi_hsflctl (flash_err s)) 1"
  "spi_image (flash_done s) = spi_image s" "spi_image (flash_err s) = spi_image s"
  by (simp_all add: flash_done_def flash_err_def bit_or_iff)

lemma length_img_read: "0 < n \<Longrightarrow> length (img_read pos n img) = n \<longleftrightarrow> pos + n \<le> length img"
  by (auto simp: img_read_def min_def)

lemma hwseq_completes:
  fixes v :: u32
  defines "n \<equiv> unat (drop_bit 24 v AND 0x3F) + 1" and "cycle \<equiv> drop_bit 17 v AND 0x0F"
  assumes "bit v 16" and "bit v 0" and "bit v 1"
    and t: "t = s\<lparr>spi_hsflctl := started_cycle v (spi_hsflctl s)\<rparr>"
  shows "bit (spi_hsflctl (spi_do_hwseq t)) 0 = cycle_fits s v"
    and "bit (spi_hsflctl (spi_do_hwseq t)) 1 = (\<not> cycle_fits s v)"
    and "spi_ssfsts_ctl (spi_do_hwseq t) = spi_ssfsts_ctl s"
    and "cycle = 2 \<and> cycle_fits s v \<or> spi_image (spi_do_hwseq t) = spi_image s"
proof -
  define h where "h = started_cycle v (spi_hsflctl s) AND NOT (BIT 16)"
  define u where "u = s\<lparr>spi_hsflctl := h\<rparr>"
  have u: "\<not> bit (spi_hsflctl u) 0" "\<not> bit (spi_hsflctl u) 1" "spi_faddr u = spi_faddr s" "spi_image u = spi_image s"
      "spi_ssfsts_ctl u = spi_ssfsts_ctl s"
    using started_fields(2,3) assms(3-5) by (simp_all add: u_def h_def bit_simps)
  have go: "spi_do_hwseq t = (if cycle = 0 then spi_cycle_read n u else if cycle = 2 then spi_cycle_write n u
      else if cycle = 6 then spi_cycle_jedec n u else flash_done u)"
    using started_fields(1,4,5)[of v "spi_hsflctl s"] assms(3)
    by (simp add: spi_do_hwseq_def t u_def h_def n_def cycle_def Let_def)
  have n: "0 < n" by (simp add: n_def)
  have fits: "cycle_fits s v \<longleftrightarrow> (cycle = 0 \<or> cycle = 2 \<longrightarrow> \<not> bit (spi_faddr s) 31 \<and>
      unat (spi_faddr s) + n \<le> length (spi_image s))"
    by (simp add: cycle_fits_def cycle_def n_def)
  note defs = spi_cycle_read_def spi_cycle_write_def spi_cycle_jedec_def img_seek_def Let_def done_bits done_bits[unfolded One_nat_def]
    length_img_read[OF n]
  show "bit (spi_hsflctl (spi_do_hwseq t)) 0 = cycle_fits s v"
    unfolding go fits using u by (simp add: defs)
  show "bit (spi_hsflctl (spi_do_hwseq t)) 1 = (\<not> cycle_fits s v)"
    unfolding go fits using u by (simp add: defs)
  show "spi_ssfsts_ctl (spi_do_hwseq t) = spi_ssfsts_ctl s"
    unfolding go using u by (simp add: defs)
  show "cycle = 2 \<and> cycle_fits s v \<or> spi_image (spi_do_hwseq t) = spi_image s"
    unfolding go fits using u by (simp add: defs)
qed

text \<open>C32. A driver never waits for ever on the flash controller. After any accesses to the
  registers of an idle controller, the write that starts a hardware cycle and clears the old
  flags, whatever its cycle type and length, has finished the cycle when it returns: no GO
  bit of either sequencer is set, exactly one of the done and error bits is, done if and only
  if the block that a read or write cycle moves lies inside the image, and only a write
  cycle that succeeds changes the image.\<close>

theorem spi_cycle_completes:
  assumes "spi_reach spi s" and "spi_idle spi" and "bit v 16" and "bit v 0" and "bit v 1"
  shows "\<exists>s'. spi_write s 4 (le_bytes 4 v) 4 = Inr (1, s') \<and> spi_idle s' \<and>
    bit (spi_hsflctl s') 0 = cycle_fits s v \<and> bit (spi_hsflctl s') 1 = (\<not> cycle_fits s v) \<and>
    (drop_bit 17 v AND 0x0F = 2 \<and> cycle_fits s v \<or> spi_image s' = spi_image s)"
proof -
  have idle: "\<not> bit (spi_hsflctl s) 16" "\<not> bit (spi_ssfsts_ctl s) 9"
    using spi_always_idle[OF assms(1,2)] by (simp_all add: spi_idle_def)
  define t where "t = s\<lparr>spi_hsflctl := started_cycle v (spi_hsflctl s)\<rparr>"
  note fin = hwseq_completes[OF assms(3-5) t_def]
  have "spi_write s 4 (le_bytes 4 v) 4 = Inr (1, spi_do_swseq (spi_do_hwseq t))"
    using idle(1) by (simp add: spi_write_def spi_write_reg_def spi_set_hsflctl_def Let_def t_def started_cycle_def)
  also have "spi_do_swseq (spi_do_hwseq t) = spi_do_hwseq t"
    using idle(2) by (simp add: spi_do_swseq_def fin(3))
  finally show ?thesis
    using fin idle(2) hwseq_go[of t] by (intro exI[of _ "spi_do_hwseq t"]) (simp add: spi_idle_def)
qed

theorem spi_cycle_completes_witness:
  "\<exists>s'. spi_write (spi_fresh [1, 2, 3, 4]) 4 (le_bytes 4 (0x03010007 :: u32)) 4 = Inr (1, s') \<and>
     bit (spi_hsflctl s') 0 \<and> \<not> bit (spi_hsflctl s') 1"
proof -
  have "spi_idle (spi_fresh [1, 2, 3, 4])" by (simp add: spi_idle_def spi_fresh_def)
  moreover have "bit (0x03010007 :: u32) 16" "bit (0x03010007 :: u32) 0" "bit (0x03010007 :: u32) 1"
    by simp_all
  moreover have "cycle_fits (spi_fresh [1, 2, 3, 4]) 0x03010007"
    by (simp add: cycle_fits_def spi_fresh_def)
  ultimately show ?thesis
    using spi_cycle_completes[OF spi_start, of "spi_fresh [1, 2, 3, 4]" "0x03010007"] by blast
qed

section \<open>Programming flash\<close>

definition spi_ok :: "fastspi \<Rightarrow> bool" where
  "spi_ok spi \<longleftrightarrow> length (spi_buffer spi) = 0x40 \<and> length (spi_read_buffer spi) = 0x40"

lemma img_read_inside: "pos + n \<le> length img \<Longrightarrow> length (img_read pos n img) = n"
  by (simp add: img_read_def)

lemma length_img_write: "pos + length data \<le> length img \<Longrightarrow> length (img_write pos data img) = length img"
  by (simp add: img_write_def)

lemma img_write_blit: "pos + length data \<le> length img \<Longrightarrow> img_write pos data img = blit pos data img"
  by (simp add: img_write_def blit_def)

text \<open>The read cycle: for a block that lies inside the image, the first \<open>n\<close> bytes of
  the data buffer become the bytes of the flash at the flash address, the rest of the buffer
  and the image stay, and the done bit is set; for a block that does not, the error bit is
  set and the image stays.\<close>

lemma spi_read_cycle:
  assumes "spi_ok spi" and "n \<le> 0x40" and "\<not> bit (spi_faddr spi) 31"
  shows "spi_image (spi_cycle_read n spi) = spi_image spi \<and>
    (if unat (spi_faddr spi) + n \<le> length (spi_image spi)
     then spi_buffer (spi_cycle_read n spi) =
            slice (unat (spi_faddr spi)) n (spi_image spi) @ drop n (spi_buffer spi) \<and>
          spi_hsflctl (spi_cycle_read n spi) = spi_hsflctl spi OR 1
     else spi_hsflctl (spi_cycle_read n spi) = spi_hsflctl spi OR 2 \<or> n = 0)"
  using assms
  by (auto simp: spi_cycle_read_def img_seek_def img_read_def Let_def flash_done_def flash_err_def
      spi_ok_def slice_def blit_def)

text \<open>C22. The write cycle is a flash programming operation: inside the image it keeps the
  size of the image and every byte outside of the block, each byte of the block becomes the
  conjunction of its old value and the byte of the data buffer, so no bit of the flash ever
  changes from 0 to 1, and the buffer then holds what the flash holds.\<close>

theorem spi_write_cycle:
  assumes "spi_ok spi" and "n \<le> 0x40" and "\<not> bit (spi_faddr spi) 31"
    and "unat (spi_faddr spi) + n \<le> length (spi_image spi)"
  shows "length (spi_image (spi_cycle_write n spi)) = length (spi_image spi) \<and>
    (\<forall>i<length (spi_image spi). spi_image (spi_cycle_write n spi) ! i =
       (if unat (spi_faddr spi) \<le> i \<and> i < unat (spi_faddr spi) + n
        then spi_image spi ! i AND spi_buffer spi ! (i - unat (spi_faddr spi)) else spi_image spi ! i)) \<and>
    take n (spi_buffer (spi_cycle_write n spi)) = slice (unat (spi_faddr spi)) n (spi_image (spi_cycle_write n spi))"
proof -
  define pos where "pos = unat (spi_faddr spi)"
  define got where "got = img_read pos n (spi_image spi)"
  define d where "d = map2 (AND) (take n (spi_buffer spi)) got"
  have len: "length (spi_buffer spi) = 0x40" "length (spi_read_buffer spi) = 0x40" "length got = n"
    "pos + n \<le> length (spi_image spi)"
    using assms by (simp_all add: spi_ok_def got_def img_read_inside pos_def)
  then have ld: "length d = n" using assms(2) by (simp add: d_def)
  have rb: "take n (blit 0 got (spi_read_buffer spi)) = got" using len by (simp add: blit_def)
  have buf: "take n (blit 0 d (spi_buffer spi)) = d" using ld by (simp add: blit_def)
  have img: "spi_image (spi_cycle_write n spi) = blit pos d (spi_image spi)"
    and bu: "spi_buffer (spi_cycle_write n spi) = blit 0 d (spi_buffer spi)"
    using assms(3) len(3,4) rb buf ld
    by (simp_all add: spi_cycle_write_def img_seek_def Let_def pos_def[symmetric] got_def[symmetric]
        d_def[symmetric] flash_done_def img_write_blit)
  have nth: "blit pos d (spi_image spi) ! i =
      (if pos \<le> i \<and> i < pos + n then spi_image spi ! i AND spi_buffer spi ! (i - pos) else spi_image spi ! i)"
    if "i < length (spi_image spi)" for i
  proof (cases "pos \<le> i \<and> i < pos + n")
    case True
    then obtain k where k: "i = pos + k" "k < n" by (metis le_Suc_ex nat_add_left_cancel_less)
    have "got ! k = spi_image spi ! (pos + k)"
      using k(2) len(4) by (simp add: got_def img_read_def)
    then have "d ! k = spi_buffer spi ! k AND spi_image spi ! (pos + k)"
      using k(2) len assms(2) by (simp add: d_def)
    then show ?thesis using k len ld by (simp add: nth_blit and.commute)
  next
    case False
    then show ?thesis using that len ld by (auto simp: nth_blit)
  qed
  show ?thesis
    unfolding img bu buf pos_def[symmetric] using len ld nth by simp
qed

theorem spi_write_cycle_witness:
  "spi_image (spi_cycle_write 1 ((spi_fresh [0xFF, 0x0F])\<lparr>spi_faddr := 1, spi_buffer := 0x3C # replicate 63 0\<rparr>)) ! 1 =
    0x0F AND 0x3C"
proof -
  have "\<not> bit (1 :: u32) 31" by simp
  then show ?thesis
    using spi_write_cycle[of "(spi_fresh [0xFF, 0x0F])\<lparr>spi_faddr := 1, spi_buffer := 0x3C # replicate 63 0\<rparr>" 1]
    by (simp add: spi_ok_def spi_fresh_def)
qed

section \<open>The flash region registers\<close>

lemma freg_round: "freg_value (spi_set_freg v r) = v AND 0x7FFF7FFF"
proof -
  have m: "(0x7FFF :: u32) = mask 15" "(0x7FFF0000 :: u32) = push_bit 16 (mask 15)"
    "(0x7FFF7FFF :: u32) = mask 15 OR push_bit 16 (mask 15)"
    by (simp_all add: mask_eq_exp_minus_1 push_bit_eq_mult)
  show ?thesis
    unfolding freg_value_def spi_set_freg_def m by (rule bit_word_eqI) (auto simp: bit_simps)
qed

text \<open>The flash region registers CSXE_FREG0 to CSXE_FREG11 are read back as they were
  written, except for the two reserved bits 15 and 31, through the stored byte addresses of
  the base and the limit; no sequence runs, and the other regions do not change.\<close>

lemma spi_freg_roundtrip:
  assumes "i < 12" and "length (spi_regions spi) = 12" and "spi_idle spi"
  shows "\<exists>spi'. spi_write spi (0x54 + 4 * int i) (le_bytes 4 (v :: u32)) 4 = Inr (1, spi') \<and>
    spi_read spi' (0x54 + 4 * int i) (replicate 4 0) 4 = Inr (1, le_bytes 4 (v AND 0x7FFF7FFF)) \<and>
    (\<forall>j<12. j \<noteq> i \<longrightarrow> spi_regions spi' ! j = spi_regions spi ! j) \<and> spi_image spi' = spi_image spi"
proof -
  have addr: "\<not> (0x10 \<le> 0x54 + 4 * int i \<and> 0x54 + 4 * int i < 0x50)"
      "0x54 + 4 * int i \<noteq> 4" "0x54 + 4 * int i \<noteq> 8" "0x54 + 4 * int i \<noteq> 0xA8" "0x54 + 4 * int i \<noteq> 0xAC"
      "0x54 + 4 * int i \<noteq> 0x50"
    using assms(1) by presburger+
  have idx: "freg_index (0x54 + 4 * int i) = Some i"
    using assms(1) by (simp add: freg_index_def)
  let ?spi = "spi\<lparr>spi_regions := (spi_regions spi)[i := spi_set_freg v (spi_regions spi ! i)]\<rparr>"
  have "spi_do_swseq (spi_do_hwseq ?spi) = ?spi"
    using assms(3) by (simp add: spi_do_hwseq_def spi_do_swseq_def spi_idle_def)
  then have w: "spi_write spi (0x54 + 4 * int i) (le_bytes 4 v) 4 = Inr (1, ?spi)"
    using addr by (simp add: spi_write_def spi_write_reg_def idx)
  have "spi_read ?spi (0x54 + 4 * int i) (replicate 4 0) 4 = Inr (1, le_bytes 4 (v AND 0x7FFF7FFF))"
    using addr assms(1,2) by (simp add: spi_read_def idx freg_round Let_def)
  with w assms show ?thesis by (intro exI[of _ ?spi]) simp
qed

text \<open>The component selector of the parameter table keeps only the values 0 and 2 of the
  two components 0 and 1 that exist: with bit 15 of the index register set, a read of the
  table leaves the array.\<close>

lemma spi_ptread_out_of_bounds:
  assumes "bit (spi_ptinx spi) 15" and "bit (spi_ptinx spi) 13"
  shows "spi_ptread spi = Inl OutOfBounds"
proof -
  have two: "(2 :: u32) = BIT 1" by (simp add: BIT_def)
  have "drop_bit 14 (spi_ptinx spi) AND 2 = 2" "drop_bit 12 (spi_ptinx spi) AND 2 = 2"
    using assms unfolding two by (simp_all add: and_BIT bit_simps)
  then show ?thesis by (simp add: spi_ptread_def Let_def)
qed

end
