(* ===== verification/SpiDev.thy ===== *)
theory SpiDev
  imports Spi
begin

text \<open>
  The configuration and the start of \<open>periph/spi/dev.c\<close>: the flash controller as a function on
  a bus. The images are files of the host.
\<close>

definition spi_openimg :: "(string \<rightharpoonup> bytes) \<Rightarrow> string \<Rightarrow> fastspi \<Rightarrow> fastspi res" where
  "spi_openimg files path spi = (case files path of None \<Rightarrow> Inl ExitFailure | Some img \<Rightarrow> Inr (spi\<lparr>spi_image := img\<rparr>))"

definition spi_region_key :: "nat \<Rightarrow> string \<Rightarrow> string" where
  "spi_region_key i suffix = ''region_'' @ dec_digits i @ suffix"

definition spi_config_region :: "cfg_section \<Rightarrow> nat \<Rightarrow> spi_region \<Rightarrow> spi_region" where
  "spi_config_region sec i r =
    r\<lparr>region_base := cfg_or (cfg_find_int32 sec (spi_region_key i ''_base'')) (region_base r),
      region_limit := cfg_or (cfg_find_int32 sec (spi_region_key i ''_limit'')) (region_limit r),
      csme_readable := cfg_or (cfg_find_int32 sec (spi_region_key i ''_csme_readable'')) (csme_readable r),
      csme_writable := cfg_or (cfg_find_int32 sec (spi_region_key i ''_csme_writable'')) (csme_writable r)\<rparr>"

text \<open>\<open>%02X\<close> of a number below 256.\<close>

definition hex2 :: "nat \<Rightarrow> string" where
  "hex2 n = [''0123456789ABCDEF'' ! (n div 16), ''0123456789ABCDEF'' ! (n mod 16)]"

definition spi_comp_key :: "nat \<Rightarrow> string \<Rightarrow> string" where
  "spi_comp_key i suffix = ''comp_'' @ dec_digits i @ suffix"

definition spi_config_component :: "cfg_section \<Rightarrow> nat \<Rightarrow> spi_component \<Rightarrow> spi_component" where
  "spi_config_component sec i c =
    c\<lparr>vscc := cfg_or (cfg_find_int32 sec (spi_comp_key i ''_vscc'')) (vscc c),
      par_data := (par_data c)[0 := cfg_or (cfg_find_int32 sec (spi_comp_key i ''_par_data_0'')) (par_data c ! 0)]\<rparr>"

definition spi_config :: "(string \<rightharpoonup> bytes) \<Rightarrow> cfg_section \<Rightarrow> fastspi \<Rightarrow> fastspi res" where
  "spi_config files sec spi =
    (case cfg_find_string sec ''rom_image'' of
       None \<Rightarrow> Inl ExitFailure
     | Some path \<Rightarrow>
         rbind (spi_openimg files path spi) (\<lambda>spi. Inr
          (spi\<lparr>spi_regions := map (\<lambda>i. spi_config_region sec i (spi_regions spi ! i)) [0..<12],
             spi_jedec_id := map (\<lambda>i. cfg_or (cfg_find_int32 sec (''jedec_'' @ hex2 i)) (spi_jedec_id spi ! i)) [0..<0x40],
             spi_components := map (\<lambda>i. spi_config_component sec i (spi_components spi ! i)) [0..<2],
             spi_sai := cfg_or (cfg_find_int32 sec ''sai'') (spi_sai spi)\<rparr>)))"

record 'w fastspi_host =
  fastspi_get :: "'w \<Rightarrow> fastspi"
  fastspi_put :: "fastspi \<Rightarrow> 'w \<Rightarrow> 'w"
  fastspi_get_config :: "'w \<Rightarrow> pci_cfgspace"
  fastspi_put_config :: "pci_cfgspace \<Rightarrow> 'w \<Rightarrow> 'w"

definition fastspi_func :: "'w fastspi_host \<Rightarrow> 'w pci_simplefunc" where
  "fastspi_func host = \<lparr>sf_flags = 0, sf_max_bar = 3, sf_bar_size = [0x1000, 0x1000000, 0x1000000, 0, 0, 0],
     sf_get_config = fastspi_get_config host, sf_put_config = fastspi_put_config host,
     sf_bar_read = Some (\<lambda>bar addr buf count w. rbind (fastspi_bar_read (fastspi_get host w) bar addr buf count)
       (\<lambda>(r, buf). Inr (r, buf, w))),
     sf_bar_write = Some (\<lambda>bar addr buf count w. rbind (fastspi_bar_write (fastspi_get host w) bar addr buf count)
       (\<lambda>(r, s). Inr (r, fastspi_put host s w))),
     sf_cfg_read = None, sf_cfg_write = None\<rparr>"

definition fastspi_spawn :: "(string \<rightharpoonup> bytes) \<Rightarrow> 'w fastspi_host \<Rightarrow> cfg_section \<Rightarrow> 'w pci_bus list \<Rightarrow> unit device_instance list \<Rightarrow>
    'w \<Rightarrow> ('w pci_bus list \<times> unit device_instance list \<times> 'w) res" where
  "fastspi_spawn files host sec buses devs w =
    rbind (spi_config files sec (spi_fresh [])) (\<lambda>i.
    let w = fastspi_put_config host (replicate 0x1000 0) (fastspi_put host i w) in
    rbind (pci_simple_init (fastspi_func host) (Some sec) buses w) (\<lambda>(buses, w).
    rbind (device_register \<lparr>device_name = section_name sec, device_impl = ()\<rparr> devs) (\<lambda>devs.
      Inr (buses, devs, w))))"

text \<open>A controller starts idle and with buffers of the right size, whatever the configuration says.\<close>

lemma spi_config_ok: "spi_config files sec (spi_fresh []) = Inr spi \<Longrightarrow> spi_idle spi \<and> spi_ok spi"
  by (auto simp: spi_config_def spi_openimg_def spi_fresh_def spi_idle_def spi_ok_def rbind_Inr_iff split: option.splits)

end
