(* ===== verification/Trace.thy ===== *)
theory Trace
  imports Printf CfgParser
begin

text \<open>
  \<open>util/trace.c\<close>: the messages that the guest writes to the trace hub are collected until a
  flag ends the packet; the payload is put together and printed, either as the text it is
  or through the format that a configuration file gives for its id. The variables of the
  file are the record \<open>trace\<close>; log lines go to \<open>logs\<close>.
\<close>

section \<open>Messages\<close>

definition MT_Dn :: int where "MT_Dn = 0"
definition MT_DnM :: int where "MT_DnM = 1"
definition MT_DnTS :: int where "MT_DnTS = 2"
definition MT_DnMTS :: int where "MT_DnMTS = 3"
definition MT_USER :: int where "MT_USER = 4"
definition MT_USER_TS :: int where "MT_USER_TS = 5"
definition MT_FLAG :: int where "MT_FLAG = 6"
definition MT_FLAG_TS :: int where "MT_FLAG_TS = 7"
definition MT_MERR :: int where "MT_MERR = 8"

text \<open>
  The union of a message is the list of its bytes that have been assigned. Reading a
  wider member than the one assigned is a use of uninitialised bytes.
\<close>

record th_msg =
  msg_type :: int
  msg_size :: int
  msg_data :: bytes

definition msg_bytes :: "nat \<Rightarrow> th_msg \<Rightarrow> bytes res" where
  "msg_bytes n msg = (if n \<le> length (msg_data msg) then Inr (take n (msg_data msg)) else Inl BadUsage)"

definition msg_d16 :: "th_msg \<Rightarrow> u16 res" where
  "msg_d16 msg = rbind (msg_bytes 2 msg) (\<lambda>d. Inr (le_word d))"

definition msg_d32 :: "th_msg \<Rightarrow> u32 res" where
  "msg_d32 msg = rbind (msg_bytes 4 msg) (\<lambda>d. Inr (le_word d))"

definition zero_msg :: th_msg where
  "zero_msg = \<lparr>msg_type = 0, msg_size = 0, msg_data = replicate 8 0\<rparr>"

section \<open>State\<close>

definition TRACEBUF_SIZE :: nat where "TRACEBUF_SIZE = 64"

record trace =
  tbuf_master :: int
  tbuf_channel :: int
  tbuf_pos :: nat
  tbuf_msgs :: "th_msg list"
  tbuf_data :: bytes
  sven_file :: "cfg_file option"
  buffer :: string
  sven_buffer :: string
  logs :: log_world

definition trace_log :: "int \<Rightarrow> string \<Rightarrow> string \<Rightarrow> va_list \<Rightarrow> trace \<Rightarrow> trace res" where
  "trace_log level module format l t = rbind (log_msg level module format l (logs t)) (\<lambda>w. Inr (t\<lparr>logs := w\<rparr>))"

definition trace_printf :: "string \<Rightarrow> va_list \<Rightarrow> trace \<Rightarrow> trace res" where
  "trace_printf format l t = rbind (mel_printf format l (stderr_text (logs t)))
     (\<lambda>(n, err). Inr (t\<lparr>logs := (logs t)\<lparr>stderr_text := err\<rparr>\<rparr>))"

section \<open>Printing lines\<close>

text \<open>The offset of the first \<open>c\<close> in the C string at the start of \<open>s\<close>.\<close>

definition strchr :: "char \<Rightarrow> string \<Rightarrow> nat option" where
  "strchr c s =
    (let k = length (takeWhile (\<lambda>x. x \<noteq> c) (c_string s))
     in if k < length (c_string s) then Some k else None)"

lemma takeWhile_nth_stop: "length (takeWhile P xs) < length xs \<Longrightarrow> \<not> P (xs ! length (takeWhile P xs))"
  by (simp add: nth_length_takeWhile)

lemma c_string_prefix: "k < length (c_string s) \<Longrightarrow> k < length s \<and> c_string s ! k = s ! k"
  using length_takeWhile_le[of "\<lambda>c. c \<noteq> CHR 0x00" s]
  by (simp add: c_string_def takeWhile_nth less_le_trans[OF _ length_takeWhile_le])

lemma strchr_Some: "strchr c s = Some k \<Longrightarrow> k < length s \<and> s ! k = c"
  using takeWhile_nth_stop[of "\<lambda>x. x \<noteq> c" "c_string s"] c_string_prefix[of k s]
  by (auto simp: strchr_def Let_def split: if_splits)

text \<open>
  \<open>print_multiline\<close> on the string at \<open>str\<close> in the buffer \<open>buf\<close>, which it changes: the newline is
  overwritten, and the next turn starts at that NUL. The copy made by \<open>strdup\<close> is not used.
\<close>

lemma count_list_update:
  "i < length xs \<Longrightarrow> xs ! i = c \<Longrightarrow> d \<noteq> c \<Longrightarrow> count_list (xs[i := d]) c < count_list xs c"
proof (induction xs arbitrary: i)
  case (Cons x xs)
  then show ?case
    by (cases i) (auto simp: count_list_0_iff)
qed simp

lemma strchr_erased:
  "strchr CHR 0x0A (drop str buf) = Some k \<Longrightarrow> count_list (buf[str + k := CHR 0x00]) CHR 0x0A < count_list buf CHR 0x0A"
  by (rule count_list_update) (auto dest!: strchr_Some)

function print_lines :: "string \<Rightarrow> string \<Rightarrow> nat \<Rightarrow> log_world \<Rightarrow> (string \<times> log_world) res" where
  "print_lines module buf str w =
    (let t = strchr CHR 0x0A (drop str buf);
         buf' = (case t of None \<Rightarrow> buf | Some k \<Rightarrow> buf[str + k := CHR 0x00])
     in rbind (if c_string (drop str buf') \<noteq> [] then log_msg 6 module ''%s'' [VaStr (c_string (drop str buf'))] w
               else Inr w) (\<lambda>w.
        case t of None \<Rightarrow> Inr (buf', w) | Some k \<Rightarrow> print_lines module buf' (str + k) w))"
  by pat_completeness auto
termination
  by (relation "measure (\<lambda>(module, buf, str, w). count_list buf CHR 0x0A)")
    (auto simp: strchr_erased dest: sym split: option.splits)

declare print_lines.simps [simp del]

definition print_multiline :: "string option \<Rightarrow> string \<Rightarrow> log_world \<Rightarrow> (string \<times> log_world) res" where
  "print_multiline module str w =
    (if CHR 0x00 \<notin> set str then Inl OutOfBounds
     else print_lines (case module of None \<Rightarrow> ''sven'' | Some m \<Rightarrow> m) str 0 w)"

section \<open>Decoding\<close>

definition sven_load :: "(pstate \<Rightarrow> u32) \<Rightarrow> nat \<Rightarrow> (string \<Rightarrow> string option) \<Rightarrow> string \<Rightarrow> pstate \<Rightarrow> trace \<Rightarrow>
    (pstate \<times> trace) res" where
  "sven_load new fuel fs path p t =
    rbind (load_config new fuel fs path p) (\<lambda>(raw, p).
    rbind (config_of raw) (\<lambda>file. Inr (p, t\<lparr>sven_file := Some file\<rparr>)))"

text \<open>\<open>data\<close> used as a \<open>va_list\<close>: the arguments are the words of the message.\<close>

fun guest_args :: "bytes \<Rightarrow> va_list" where
  "guest_args (a # b # c # d # bs) = VaWord (le_word [a, b, c, d]) # guest_args bs"
| "guest_args bs = []"

definition sven_getfmt :: "bytes \<Rightarrow> trace \<Rightarrow> trace res" where
  "sven_getfmt data t =
    rbind (ld32 data) (\<lambda>id_low.
    rbind (ld32 (drop 4 data)) (\<lambda>id_high.
    rbind (mel_snprintf (buffer t) 40 ''msg_0x%08x%08x'' [VaWord id_high, VaWord id_low]) (\<lambda>(_, b).
      let t = t\<lparr>buffer := b\<rparr>;
          msg = (case sven_file t of None \<Rightarrow> None | Some file \<Rightarrow> cfg_find_section file (c_string (buffer t)));
          fmt = (case msg of None \<Rightarrow> None | Some msg \<Rightarrow> cfg_find_string msg ''message'')
      in rbind (case fmt of
                  None \<Rightarrow> mel_vsnprintf (sven_buffer t) 640 ''%08X%08X%08X'' (guest_args data)
                | Some fmt \<Rightarrow> mel_vsnprintf (sven_buffer t) 640 fmt (guest_args (drop 8 data))) (\<lambda>(_, s).
         rbind (print_multiline None s (logs t)) (\<lambda>(s, w).
           Inr (t\<lparr>sven_buffer := s, logs := w\<rparr>))))))"

text \<open>The message data is a \<open>char\<close> buffer.\<close>

definition chars_of :: "bytes \<Rightarrow> string" where
  "chars_of data = map (\<lambda>b. char_of (unat b)) data"

definition sven_decode :: "int \<Rightarrow> int \<Rightarrow> u32 \<Rightarrow> nat \<Rightarrow> trace \<Rightarrow> trace res" where
  "sven_decode master channel header sz t =
    (let type = header AND 0xF;
         severity = drop_bit 4 header AND 0x7;
         unit = drop_bit 12 header AND 0xF;
         module = drop_bit 16 header AND 0xFF;
         subtype = drop_bit 24 header AND 0xFF;
         info = [VaWord severity, VaWord unit, VaWord module, VaWord subtype]
     in if type = 2 then
          if length (tbuf_data t) \<le> sz then Inl OutOfBounds
          else
            let t = t\<lparr>tbuf_data := (tbuf_data t)[sz := 0]\<rparr> in
            rbind (trace_log 0 ''sven'' ''debug_string sev:%02x unit:%02x module:%02x sub:%02x'' info t) (\<lambda>t.
            rbind (print_multiline None (chars_of (tbuf_data t)) (logs t)) (\<lambda>(s, w).
              Inr (t\<lparr>tbuf_data := c_bytes s, logs := w\<rparr>)))
        else if type = 3 then
          rbind (ld32 (drop 4 (tbuf_data t))) (\<lambda>hi.
          rbind (ld32 (tbuf_data t)) (\<lambda>lo.
          rbind (trace_log 0 ''sven'' ''catalog_msg  sev:%02x unit:%02x module:%02x sub:%02x %08x%08x''
            (info @ [VaWord hi, VaWord lo]) t) (\<lambda>t.
            sven_getfmt (tbuf_data t) t)))
        else Inr t)"

text \<open>
  The three copying loops of \<open>trace_decode\<close> differ in the width \<open>n\<close> of what they copy: \<open>n\<close> is
  4, then 2, then 1.
\<close>

function copy_msgs :: "nat \<Rightarrow> th_msg list \<Rightarrow> nat \<Rightarrow> nat \<Rightarrow> nat \<Rightarrow> bytes \<Rightarrow> (nat \<times> nat \<times> bytes) res" where
  "copy_msgs n msgs sz ipos dpos data =
    (if 0 < n \<and> dpos + n \<le> sz then
       if length msgs \<le> ipos then Inl OutOfBounds
       else rbind (msg_bytes n (msgs ! ipos)) (\<lambda>d.
         rbind (memcpy dpos n d data) (\<lambda>data. copy_msgs n msgs sz (Suc ipos) (dpos + n) data))
     else Inr (ipos, dpos, data))"
  by pat_completeness auto
termination
  by (relation "measure (\<lambda>(n, msgs, sz, ipos, dpos, data). sz - dpos)") auto

declare copy_msgs.simps [simp del]

definition drop_packet :: "string \<Rightarrow> trace \<Rightarrow> trace res" where
  "drop_packet why t = rbind (trace_log 4 ''mipi'' why [] t) (\<lambda>t. Inr (t\<lparr>tbuf_pos := 0\<rparr>))"

definition trace_decode :: "trace \<Rightarrow> trace res" where
  "trace_decode t =
    (if tbuf_pos t = 0 \<or> length (tbuf_msgs t) < tbuf_pos t \<or> length (tbuf_msgs t) < 2 then Inl OutOfBounds
     else
       let last = tbuf_msgs t ! (tbuf_pos t - 1); m0 = tbuf_msgs t ! 0; m1 = tbuf_msgs t ! 1
       in if msg_type last \<noteq> MT_FLAG then Inr t
       else if msg_type m0 \<noteq> MT_DnTS then drop_packet ''Trace packet did not start with DnTS'' t
       else if msg_size m0 \<noteq> 4 then drop_packet ''Trace packet did not start with 32 bit pkt'' t
       else if msg_size m1 \<noteq> 2 then drop_packet ''Trace packet size is not 16 bit'' t
       else rbind (msg_d32 last) (\<lambda>flags.
       if flags \<noteq> 0 then drop_packet ''Trace flags is not zero'' t
       else rbind (msg_d32 m0) (\<lambda>type.
         rbind (msg_d16 m1) (\<lambda>d16.
           let sz = unat d16 in
           rbind (trace_log 0 ''mipi'' ''Packet from %i:%i with type 0x%08X and size %i''
             [VaWord (of_int (tbuf_master t)), VaWord (of_int (tbuf_channel t)), VaWord type, VaWord (of_nat sz)] t) (\<lambda>t.
           rbind (copy_msgs 4 (tbuf_msgs t) sz 2 0 (tbuf_data t)) (\<lambda>(ipos, dpos, data).
           rbind (copy_msgs 2 (tbuf_msgs t) sz ipos dpos data) (\<lambda>(ipos, dpos, data).
           rbind (copy_msgs 1 (tbuf_msgs t) sz ipos dpos data) (\<lambda>(ipos, dpos, data).
             let t = t\<lparr>tbuf_data := data, tbuf_pos := 0, tbuf_master := -1\<rparr>
             in sven_decode (tbuf_master t) (tbuf_channel t) type sz t))))))))"

definition trace_msg :: "int \<Rightarrow> int \<Rightarrow> th_msg \<Rightarrow> trace \<Rightarrow> trace res" where
  "trace_msg master chan msg t =
    (if tbuf_pos t > TRACEBUF_SIZE then trace_printf ''[mipi] Trace buffer overflow, dropping packet!'' [] t
     else
       rbind (if tbuf_master t \<noteq> master \<or> tbuf_channel t \<noteq> chan then
                rbind (if tbuf_master t \<noteq> -1 then
                         trace_printf ''[mipi] Dropping trace buffer because of interleaved masters'' [] t
                       else Inr t) (\<lambda>t.
                  Inr (t\<lparr>tbuf_pos := 0, tbuf_master := master, tbuf_channel := chan\<rparr>))
              else Inr t) (\<lambda>t.
         if length (tbuf_msgs t) \<le> tbuf_pos t then Inl OutOfBounds
         else trace_decode (t\<lparr>tbuf_msgs := (tbuf_msgs t)[tbuf_pos t := msg], tbuf_pos := Suc (tbuf_pos t)\<rparr>)))"

section \<open>Log lines\<close>

text \<open>What a step adds to the log, whatever is left in the buffer.\<close>

definition adds_log :: "string \<Rightarrow> log_world \<Rightarrow> log_world \<Rightarrow> bool" where
  "adds_log s w w' \<longleftrightarrow> length (log_buffer w') = length (log_buffer w) \<and> log_level w' = log_level w \<and>
     stderr_text w' = stderr_text w @ s"

lemma adds_log_refl [simp]: "adds_log [] w w"
  by (simp add: adds_log_def)

lemma log_below: "level < log_level w \<Longrightarrow> log_msg level module format l w = Inr w"
  by (simp add: log_msg_def vlog_def)

lemma printf_text_string: "printf_text ''%s'' [VaStr s] = Inr s"
  using pf_loop_string[of pf_init "[]" s "[]" "[]"] by (simp add: printf_text_loop)

lemma log_string:
  assumes "length (log_buffer w) = 1024" and "log_level w \<le> 6" and "CHR 0x00 \<notin> set s" and "length s < 1024"
  shows "\<exists>w'. log_msg 6 module ''%s'' [VaStr s] w = Inr w' \<and> adds_log (log_line 6 module s) w w'"
  using log_msg_text[OF assms(1) _ _ printf_text_string assms(3), of 6 module] assms(1,2,4)
  by (auto simp: adds_log_def)

definition first_line :: "string \<Rightarrow> string" where
  "first_line s = takeWhile (\<lambda>c. c \<noteq> CHR 0x0A) s"

text \<open>The line that is printed for a text: the first one, unless it is empty.\<close>

definition sven_line :: "string \<Rightarrow> string" where
  "sven_line s = (if first_line s = [] then [] else log_line 6 ''sven'' (first_line s))"

lemma take_takeWhile: "k \<le> length (takeWhile P xs) \<Longrightarrow> take k (takeWhile P xs) = take k xs"
proof (induction xs arbitrary: k)
  case (Cons x xs)
  then show ?case by (cases k) (auto split: if_splits)
qed simp

lemma takeWhile_take: "k \<le> length (takeWhile P xs) \<Longrightarrow> takeWhile P (take k xs @ ys) = take k xs @ takeWhile P ys"
proof (induction xs arbitrary: k)
  case (Cons x xs)
  then show ?case by (cases k) (auto split: if_splits)
qed simp

lemma takeWhile_full: "length xs \<le> length (takeWhile P xs) \<Longrightarrow> takeWhile P xs = xs"
  using take_takeWhile[of "length (takeWhile P xs)" P xs] by simp

lemma takeWhile_shorter: "x \<in> set xs \<Longrightarrow> \<not> P x \<Longrightarrow> length (takeWhile P xs) < length xs"
  by (induction xs) auto

lemma strchr_None: "strchr c s = None \<Longrightarrow> takeWhile (\<lambda>x. x \<noteq> c) (c_string s) = c_string s"
  by (rule takeWhile_full) (simp add: strchr_def Let_def not_less split: if_splits)

lemma strchr_cut:
  assumes "strchr c s = Some k"
  shows "takeWhile (\<lambda>x. x \<noteq> c) (c_string s) = take k s" and "c_string (s[k := CHR 0x00]) = take k s"
    and "c_string (drop k (s[k := CHR 0x00])) = []"
proof -
  have k: "k = length (takeWhile (\<lambda>x. x \<noteq> c) (c_string s))" "k < length (c_string s)"
    using assms by (auto simp: strchr_def Let_def split: if_splits)
  have t: "take k (c_string s) = take k s"
    using k(2) unfolding c_string_def by (intro take_takeWhile) simp
  show "takeWhile (\<lambda>x. x \<noteq> c) (c_string s) = take k s"
    using take_takeWhile[of k "\<lambda>x. x \<noteq> c" "c_string s"] k(1) t by simp
  have "k < length s" using strchr_Some[OF assms] ..
  then have u: "s[k := CHR 0x00] = take k s @ CHR 0x00 # drop (Suc k) s" by (rule upd_conv_take_nth_drop)
  show "c_string (s[k := CHR 0x00]) = take k s"
    using k(2) takeWhile_take[of k "\<lambda>c. c \<noteq> CHR 0x00" s] unfolding u by (simp add: c_string_def)
  show "c_string (drop k (s[k := CHR 0x00])) = []"
    using \<open>k < length s\<close> unfolding u by (simp add: c_string_def)
qed

lemma strchr_empty: "c_string s = [] \<Longrightarrow> strchr c s = None"
  by (simp add: strchr_def)

lemma print_multiline_line:
  assumes "length (log_buffer w) = 1024" and "log_level w \<le> 6" and "CHR 0x00 \<in> set str" and "length str \<le> 1024"
  shows "\<exists>s' w'. print_multiline None str w = Inr (s', w') \<and> length s' = length str \<and> adds_log (sven_line (c_string str)) w w'"
proof -
  have n: "length (c_string str) < 1024" "CHR 0x00 \<notin> set (c_string str)"
    using assms(3,4) takeWhile_shorter[of "CHR 0x00" str "\<lambda>c. c \<noteq> CHR 0x00"]
    by (auto simp: c_string_def dest: set_takeWhileD)
  have l: "\<exists>w'. (if line \<noteq> [] then log_msg 6 ''sven'' ''%s'' [VaStr line] w else Inr w) = Inr w' \<and>
      adds_log (if line = [] then [] else log_line 6 ''sven'' line) w w'"
    if "line = first_line (c_string str)" for line
  proof -
    have "length line < 1024" "CHR 0x00 \<notin> set line"
      using that n by (auto simp: first_line_def dest: set_takeWhileD intro: le_less_trans[OF length_takeWhile_le])
    then show ?thesis using log_string[OF assms(1,2), of line] by simp
  qed
  show ?thesis
  proof (cases "strchr CHR 0x0A str")
    case None
    then have "first_line (c_string str) = c_string str" by (simp add: first_line_def strchr_None)
    with None l[of "c_string str"] assms(3) show ?thesis
      by (auto simp: print_multiline_def print_lines.simps[of _ str] sven_line_def)
  next
    case (Some k)
    let ?s = "str[k := CHR 0x00]"
    have f: "first_line (c_string str) = take k str" using strchr_cut(1)[OF Some] by (simp add: first_line_def)
    have "print_lines ''sven'' ?s k w' = Inr (?s, w')" for w'
      using strchr_cut(3)[OF Some] strchr_empty by (subst print_lines.simps) simp
    with Some l[OF f[symmetric]] strchr_cut(2)[OF Some] assms(3) f show ?thesis
      by (auto simp: print_multiline_def print_lines.simps[of _ str] sven_line_def)
  qed
qed

section \<open>Packets\<close>

text \<open>What the guest sends for a header and a payload: 32 bit pieces while they fit, then one
  of 16 and one of 8 bits, between the header with the length and the flag.\<close>

fun pieces :: "bytes \<Rightarrow> bytes list" where
  "pieces (a # b # c # d # bs) = [a, b, c, d] # pieces bs"
| "pieces (a # b # bs) = [a, b] # pieces bs"
| "pieces [a] = [[a]]"
| "pieces [] = []"

definition data_msg :: "int \<Rightarrow> bytes \<Rightarrow> th_msg" where
  "data_msg ty d = \<lparr>msg_type = ty, msg_size = int (length d), msg_data = d\<rparr>"

definition packet_head :: "u32 \<Rightarrow> bytes \<Rightarrow> th_msg list" where
  "packet_head header bs =
     [data_msg MT_DnTS (le_bytes 4 header), data_msg MT_Dn (le_bytes 2 (of_nat (length bs) :: u16))] @
     map (data_msg MT_Dn) (pieces bs)"

definition packet :: "u32 \<Rightarrow> bytes \<Rightarrow> th_msg list" where
  "packet header bs = packet_head header bs @ [data_msg MT_FLAG (replicate 4 0)]"

fun trace_all :: "int \<Rightarrow> int \<Rightarrow> th_msg list \<Rightarrow> trace \<Rightarrow> trace res" where
  "trace_all master chan [] t = Inr t"
| "trace_all master chan (msg # msgs) t = rbind (trace_msg master chan msg t) (trace_all master chan msgs)"

lemma trace_all_append:
  "trace_all master chan (xs @ ys) t = rbind (trace_all master chan xs t) (trace_all master chan ys)"
  by (induction xs arbitrary: t) (auto simp: rbind_assoc intro: rbind_cong)

definition trace_wf :: "trace \<Rightarrow> bool" where
  "trace_wf t \<longleftrightarrow> length (tbuf_msgs t) = 64 \<and> length (tbuf_data t) = 256 \<and> length (buffer t) = 40 \<and>
     length (sven_buffer t) = 640 \<and> length (log_buffer (logs t)) = 1024 \<and> tbuf_pos t \<le> 64"

text \<open>The pieces in the three widths of the copying loops.\<close>

lemma pieces_widths:
  "\<exists>c4 c2 c1. pieces bs = c4 @ c2 @ c1 \<and> concat (c4 @ c2 @ c1) = bs \<and> (\<forall>d\<in>set c4. length d = 4) \<and>
     (\<forall>d\<in>set c2. length d = 2) \<and> (\<forall>d\<in>set c1. length d = 1) \<and> length c2 \<le> 1 \<and> length c1 \<le> 1"
proof (induction bs rule: pieces.induct[case_names Four Two Three One Nil])
  case (Four a b c d bs)
  then obtain c4 c2 c1 where "pieces bs = c4 @ c2 @ c1" "concat (c4 @ c2 @ c1) = bs" "\<forall>d\<in>set c4. length d = 4"
    "\<forall>d\<in>set c2. length d = 2" "\<forall>d\<in>set c1. length d = 1" "length c2 \<le> 1" "length c1 \<le> 1" by blast
  then show ?case by (intro exI[of _ "[a, b, c, d] # c4"] exI[of _ c2] exI[of _ c1]) simp
next
  case (Two a b)
  show ?case by (intro exI[of _ "[]"] exI[of _ "[[a, b]]"]) simp
next
  case (Three a b c)
  show ?case by (rule exI[of _ "[]"], rule exI[of _ "[[a, b]]"], rule exI[of _ "[[c]]"]) simp
next
  case (One a)
  show ?case by (rule exI[of _ "[]"], rule exI[of _ "[]"], rule exI[of _ "[[a]]"]) simp
next
  case Nil
  show ?case by (rule exI[of _ "[]"], rule exI[of _ "[]"], rule exI[of _ "[]"]) simp
qed

lemma length_concat_const: "\<forall>d\<in>set cs. length d = n \<Longrightarrow> length (concat cs) = n * length cs"
  by (induction cs) auto

lemma msg_bytes_data [simp]: "msg_bytes (length d) (data_msg ty d) = Inr d"
  by (simp add: msg_bytes_def data_msg_def)

text \<open>One of the copying loops.\<close>

lemma copy_msgs_pieces:
  assumes "0 < n" and "\<forall>d\<in>set cs. length d = n" and "dpos + n * length cs \<le> sz" and "sz < dpos + n * length cs + n"
    and "sz \<le> length data" and "length pre = ipos"
  shows "copy_msgs n (pre @ map (data_msg ty) cs @ post) sz ipos dpos data =
    Inr (ipos + length cs, dpos + n * length cs, blit dpos (concat cs) data)"
  using assms
proof (induction cs arbitrary: pre ipos dpos data)
  case Nil
  then show ?case by (subst copy_msgs.simps) simp
next
  case (Cons d cs)
  have d: "length d = n" "dpos + n \<le> sz" using Cons.prems by simp_all
  have "copy_msgs n (pre @ map (data_msg ty) (d # cs) @ post) sz ipos dpos data =
    copy_msgs n ((pre @ [data_msg ty d]) @ map (data_msg ty) cs @ post) sz (Suc ipos) (dpos + n) (blit dpos d data)"
    using Cons.prems(1,5,6) d msg_bytes_data[of d ty]
    by (subst copy_msgs.simps) (simp add: nth_append memcpy_def)
  also have "\<dots> = Inr (Suc ipos + length cs, dpos + n + n * length cs, blit (dpos + n) (concat cs) (blit dpos d data))"
    using Cons.prems d by (intro Cons.IH) simp_all
  also have "blit (dpos + n) (concat cs) (blit dpos d data) = blit dpos (concat (d # cs)) data"
    using Cons.prems d length_concat_const[of cs n] blit_append[of dpos d "concat cs" data] by simp
  finally show ?case using d by (simp add: add.assoc)
qed

text \<open>All three.\<close>

lemma copy_all_pieces:
  assumes "length bs \<le> length data" and "msgs = [m0, m1] @ map (data_msg MT_Dn) (pieces bs) @ post"
  shows "rbind (copy_msgs 4 msgs (length bs) 2 0 data) (\<lambda>(ipos, dpos, data).
     rbind (copy_msgs 2 msgs (length bs) ipos dpos data) (\<lambda>(ipos, dpos, data).
     rbind (copy_msgs 1 msgs (length bs) ipos dpos data) (\<lambda>(ipos, dpos, data). f data))) = f (blit 0 bs data)"
proof -
  obtain c4 c2 c1 where c: "pieces bs = c4 @ c2 @ c1" "concat (c4 @ c2 @ c1) = bs" "\<forall>d\<in>set c4. length d = 4"
    "\<forall>d\<in>set c2. length d = 2" "\<forall>d\<in>set c1. length d = 1" "length c2 \<le> 1" "length c1 \<le> 1"
    using pieces_widths by blast
  note len = length_concat_const[OF c(3)] length_concat_const[OF c(4)] length_concat_const[OF c(5)]
  have l: "length bs = 4 * length c4 + 2 * length c2 + length c1"
    using arg_cong[OF c(2), of length] len by simp
  let ?d4 = "blit 0 (concat c4) data"
  let ?d2 = "blit (4 * length c4) (concat c2) ?d4"
  have ld: "length ?d4 = length data" "length ?d2 = length data"
    using assms(1) l len by simp_all
  have 4: "copy_msgs 4 msgs (length bs) 2 0 data = Inr (2 + length c4, 0 + 4 * length c4, ?d4)"
    unfolding assms(2) c(1) map_append append_assoc using l c(3,6,7) assms(1)
    by (rule_tac copy_msgs_pieces) auto
  have 2: "copy_msgs 2 msgs (length bs) (2 + length c4) (4 * length c4) ?d4 =
      Inr (2 + length c4 + length c2, 4 * length c4 + 2 * length c2, ?d2)"
    using copy_msgs_pieces[of 2 c2 "4 * length c4" "length bs" ?d4 "[m0, m1] @ map (data_msg MT_Dn) c4" "2 + length c4"
        MT_Dn "map (data_msg MT_Dn) c1 @ post"] l c(4,7) assms(1) ld
    unfolding assms(2) c(1) by simp
  have 1: "copy_msgs 1 msgs (length bs) (2 + length c4 + length c2) (4 * length c4 + 2 * length c2) ?d2 =
      Inr (2 + length c4 + length c2 + length c1, length bs, blit (4 * length c4 + 2 * length c2) (concat c1) ?d2)"
    using copy_msgs_pieces[of 1 c1 "4 * length c4 + 2 * length c2" "length bs" ?d2
        "[m0, m1] @ map (data_msg MT_Dn) c4 @ map (data_msg MT_Dn) c2" "2 + length c4 + length c2" MT_Dn post] l c(5) assms(1) ld
    unfolding assms(2) c(1) by simp
  have "blit (4 * length c4 + 2 * length c2) (concat c1) ?d2 = blit 0 bs data"
    using blit_append[of "4 * length c4" "concat c2" "concat c1" ?d4] blit_append[of 0 "concat c4" "concat c2 @ concat c1" data]
      l len assms(1) ld c(2) by simp
  then show ?thesis using 4 2 1 by simp
qed

section \<open>Collecting a packet\<close>

text \<open>Messages of the pending source that do not end the packet are appended.\<close>

lemma trace_msg_append:
  assumes "tbuf_master t = master" and "tbuf_channel t = chan" and "tbuf_pos t < 64" and "length (tbuf_msgs t) = 64"
    and "msg_type msg \<noteq> MT_FLAG"
  shows "trace_msg master chan msg t =
    Inr (t\<lparr>tbuf_msgs := (tbuf_msgs t)[tbuf_pos t := msg], tbuf_pos := Suc (tbuf_pos t)\<rparr>)"
  using assms by (simp add: trace_msg_def trace_decode_def TRACEBUF_SIZE_def Let_def)

lemma trace_all_append_msgs:
  assumes "tbuf_master t = master" and "tbuf_channel t = chan" and "tbuf_pos t + length msgs \<le> 64"
    and "length (tbuf_msgs t) = 64" and "\<forall>m\<in>set msgs. msg_type m \<noteq> MT_FLAG"
  shows "trace_all master chan msgs t =
    Inr (t\<lparr>tbuf_msgs := blit (tbuf_pos t) msgs (tbuf_msgs t), tbuf_pos := tbuf_pos t + length msgs\<rparr>)"
  using assms
proof (induction msgs arbitrary: t)
  case (Cons m ms)
  let ?t = "t\<lparr>tbuf_msgs := (tbuf_msgs t)[tbuf_pos t := m], tbuf_pos := Suc (tbuf_pos t)\<rparr>"
  have u: "(tbuf_msgs t)[tbuf_pos t := m] = blit (tbuf_pos t) [m] (tbuf_msgs t)"
    using Cons.prems(3,4) by (simp add: blit_def upd_conv_take_nth_drop)
  have "trace_msg master chan m t = Inr ?t" using Cons.prems by (intro trace_msg_append) auto
  moreover have "trace_all master chan ms ?t =
      Inr (?t\<lparr>tbuf_msgs := blit (tbuf_pos ?t) ms (tbuf_msgs ?t), tbuf_pos := tbuf_pos ?t + length ms\<rparr>)"
    using Cons.prems by (intro Cons.IH) auto
  moreover have "blit (Suc (tbuf_pos t)) ms (blit (tbuf_pos t) [m] (tbuf_msgs t)) = blit (tbuf_pos t) (m # ms) (tbuf_msgs t)"
    using blit_append[of "tbuf_pos t" "[m]" ms "tbuf_msgs t"] Cons.prems(3,4) by simp
  ultimately show ?case by (simp add: u)
qed simp

text \<open>A message from a new source, while no packet is pending.\<close>

lemma trace_msg_idle:
  assumes "tbuf_master t = -1" and "0 \<le> master" and "tbuf_pos t \<le> 64"
  shows "trace_msg master chan msg t =
    trace_msg master chan msg (t\<lparr>tbuf_pos := 0, tbuf_master := master, tbuf_channel := chan\<rparr>)"
  using assms by (simp add: trace_msg_def TRACEBUF_SIZE_def)

text \<open>The state in which the payload of a packet is decoded.\<close>

definition packet_state :: "int \<Rightarrow> u32 \<Rightarrow> bytes \<Rightarrow> trace \<Rightarrow> trace" where
  "packet_state chan header bs t = t\<lparr>tbuf_channel := chan, tbuf_msgs := blit 0 (packet header bs) (tbuf_msgs t),
     tbuf_data := blit 0 bs (tbuf_data t), tbuf_pos := 0, tbuf_master := -1\<rparr>"

lemma msg_d32_data: "msg_d32 (data_msg ty (le_bytes 4 v)) = Inr v"
  by (simp add: msg_d32_def msg_bytes_def data_msg_def le_word_le_bytes)

lemma msg_d16_data: "msg_d16 (data_msg ty (le_bytes 2 v)) = Inr v"
  by (simp add: msg_d16_def msg_bytes_def data_msg_def le_word_le_bytes)

lemma flag_zero: "msg_d32 (data_msg ty (replicate 4 0)) = Inr 0"
  by (simp add: msg_d32_def msg_bytes_def data_msg_def numeral_eq_Suc)

lemma length_pieces: "length bs \<le> 4 * length (pieces bs)"
  by (induction bs rule: pieces.induct) auto

lemma trace_decode_packet:
  assumes m: "tbuf_msgs t = packet_head header bs @ data_msg MT_FLAG (replicate 4 0) # post"
    and "tbuf_pos t = 3 + length (pieces bs)" and "length bs \<le> length (tbuf_data t)" and "length bs < 65536"
    and "0 < log_level (logs t)"
  shows "trace_decode t = sven_decode (-1) (tbuf_channel t) header (length bs)
    (t\<lparr>tbuf_data := blit 0 bs (tbuf_data t), tbuf_pos := 0, tbuf_master := -1\<rparr>)"
proof -
  let ?l = "of_nat (length bs) :: u16"
  let ?flag = "data_msg MT_FLAG (replicate 4 0)"
  have e: "tbuf_msgs t = [data_msg MT_DnTS (le_bytes 4 header), data_msg MT_Dn (le_bytes 2 ?l)] @
      map (data_msg MT_Dn) (pieces bs) @ (?flag # post)"
    by (simp add: m packet_head_def)
  have nth: "tbuf_msgs t ! (tbuf_pos t - 1) = ?flag" "tbuf_msgs t ! 0 = data_msg MT_DnTS (le_bytes 4 header)"
    "tbuf_msgs t ! 1 = data_msg MT_Dn (le_bytes 2 ?l)"
    by (simp_all add: e assms(2) nth_append)
  have sz: "unat ?l = length bs" using assms(4) by (simp add: unat_of_nat take_bit_nat_eq_self)
  have pos: "\<not> (tbuf_pos t = 0 \<or> length (tbuf_msgs t) < tbuf_pos t \<or> length (tbuf_msgs t) < 2)"
    by (simp add: e assms(2))
  have ty: "msg_type (data_msg ty d) = ty" "msg_size (data_msg ty d) = int (length d)" for ty d
    by (simp_all add: data_msg_def)
  have log: "trace_log 0 module format l t = Inr t" for module format l
    using assms(5) by (simp add: trace_log_def log_below)
  show ?thesis
    unfolding trace_decode_def if_not_P[OF pos] Let_def nth flag_zero msg_d32_data msg_d16_data ty sz
    using copy_all_pieces[OF assms(3) e] by (simp add: log sz)
qed

lemma rbind_trace_all_Nil: "rbind m (trace_all master chan []) = m"
  by (cases m) simp_all

lemma trace_packet:
  assumes "trace_wf t" and "tbuf_master t = -1" and "0 \<le> master" and "length (pieces bs) \<le> 61" and "0 < log_level (logs t)"
  shows "trace_all master chan (packet header bs) t = sven_decode (-1) chan header (length bs) (packet_state chan header bs t)"
proof -
  let ?t0 = "t\<lparr>tbuf_pos := 0, tbuf_master := master, tbuf_channel := chan\<rparr>"
  let ?h = "packet_head header bs"
  let ?flag = "data_msg MT_FLAG (replicate 4 0)"
  let ?t1 = "?t0\<lparr>tbuf_msgs := blit 0 ?h (tbuf_msgs t), tbuf_pos := length ?h\<rparr>"
  have wf: "length (tbuf_msgs t) = 64" "length (tbuf_data t) = 256" "tbuf_pos t \<le> 64" using assms(1) by (simp_all add: trace_wf_def)
  have lb: "length bs \<le> 244" using length_pieces[of bs] assms(4) by simp
  have lh: "length ?h = 2 + length (pieces bs)" by (simp add: packet_head_def)
  have "\<forall>m\<in>set ?h. msg_type m \<noteq> MT_FLAG"
    by (auto simp: packet_head_def data_msg_def MT_Dn_def MT_DnTS_def MT_FLAG_def)
  then have h: "trace_all master chan ?h ?t0 = Inr ?t1"
    using trace_all_append_msgs[of ?t0 master chan ?h] wf(1) lh assms(4) by simp
  have "trace_all master chan (packet header bs) t = trace_all master chan (?h @ [?flag]) ?t0"
    using trace_msg_idle[OF assms(2,3) wf(3)] by (simp add: packet_def packet_head_def)
  also have "\<dots> = trace_msg master chan ?flag ?t1"
    by (simp add: trace_all_append h rbind_trace_all_Nil)
  also have "\<dots> = trace_decode (?t0\<lparr>tbuf_msgs := blit 0 (packet header bs) (tbuf_msgs t), tbuf_pos := Suc (length ?h)\<rparr>)"
    using blit_append[of 0 ?h "[?flag]" "tbuf_msgs t"] wf(1) lh assms(4)
    by (simp add: trace_msg_def TRACEBUF_SIZE_def packet_def blit_def upd_conv_take_nth_drop list_update_append)
  also have "\<dots> = sven_decode (-1) chan header (length bs) (packet_state chan header bs t)"
  proof -
    obtain post where m: "blit 0 (packet header bs) (tbuf_msgs t) = ?h @ ?flag # post"
      by (simp add: packet_def blit_def)
    show ?thesis
      using trace_decode_packet[of "?t0\<lparr>tbuf_msgs := blit 0 (packet header bs) (tbuf_msgs t), tbuf_pos := Suc (length ?h)\<rparr>"
          header bs post] m lh lb wf(2) assms(2,5)
      by (simp add: packet_state_def)
  qed
  finally show ?thesis .
qed

section \<open>Text packets\<close>

lemma takeWhile_append_stop: "\<not> P x \<Longrightarrow> takeWhile P (xs @ x # ys) = takeWhile P xs"
  by (induction xs) auto

lemma c_string_data:
  assumes "length bs < length data"
  shows "c_string (chars_of ((blit 0 bs data)[length bs := 0])) = c_string (chars_of bs)"
    and "CHR 0x00 \<in> set (chars_of ((blit 0 bs data)[length bs := 0]))"
proof -
  have "(blit 0 bs data)[length bs := 0] = bs @ 0 # drop (Suc (length bs)) data"
    using assms by (simp add: blit_def upd_conv_take_nth_drop)
  moreover have z: "char_of (0 :: nat) = CHR 0x00" by (simp add: char_of_def)
  ultimately have e: "chars_of ((blit 0 bs data)[length bs := 0]) = chars_of bs @ CHR 0x00 # chars_of (drop (Suc (length bs)) data)"
    by (simp add: chars_of_def z)
  show "CHR 0x00 \<in> set (chars_of ((blit 0 bs data)[length bs := 0]))" unfolding e by simp
  show "c_string (chars_of ((blit 0 bs data)[length bs := 0])) = c_string (chars_of bs)"
    unfolding e c_string_def by (rule takeWhile_append_stop) simp
qed

lemma packet_state_fields [simp]:
  "tbuf_channel (packet_state chan header bs t) = chan" "tbuf_pos (packet_state chan header bs t) = 0"
  "tbuf_master (packet_state chan header bs t) = -1" "logs (packet_state chan header bs t) = logs t"
  "tbuf_data (packet_state chan header bs t) = blit 0 bs (tbuf_data t)"
  "sven_file (packet_state chan header bs t) = sven_file t" "buffer (packet_state chan header bs t) = buffer t"
  "sven_buffer (packet_state chan header bs t) = sven_buffer t"
  by (simp_all add: packet_state_def)

lemma packet_state_wf:
  "trace_wf t \<Longrightarrow> length (pieces bs) \<le> 61 \<Longrightarrow> trace_wf (packet_state chan header bs t)"
  using length_pieces[of bs] by (simp add: trace_wf_def packet_state_def packet_def packet_head_def)

text \<open>A text message, sent as a packet of the trace protocol from a source of its own, is
  put together from its 32, 16 and 8 bit pieces and printed: one line, up to the first
  newline or NUL of the text, is added to the log, and the decoder is idle again.\<close>

lemma trace_text_packet:
  assumes "trace_wf t" and "tbuf_master t = -1" and "0 \<le> master" and "length (pieces bs) \<le> 61"
    and "0 < log_level (logs t)" and "log_level (logs t) \<le> 6" and "header AND 0xF = 2"
  shows "\<exists>t'. trace_all master chan (packet header bs) t = Inr t' \<and> trace_wf t' \<and> tbuf_master t' = -1 \<and> tbuf_pos t' = 0 \<and>
    stderr_text (logs t') = stderr_text (logs t) @ sven_line (c_string (chars_of bs))"
proof -
  let ?t = "packet_state chan header bs t"
  let ?d = "(blit 0 bs (tbuf_data t))[length bs := 0]"
  have wf: "trace_wf ?t" by (rule packet_state_wf[OF assms(1,4)])
  then have len: "length (log_buffer (logs t)) = 1024" "length (blit 0 bs (tbuf_data t)) = 256"
    by (simp_all add: trace_wf_def)
  have lb: "length bs < length (tbuf_data t)" using length_pieces[of bs] assms(1,4) by (simp add: trace_wf_def)
  have lo: "trace_log 0 module format l u = Inr u" if "logs u = logs t" for module format l u
    using assms(5) that by (simp add: trace_log_def log_below)
  obtain s w where r: "print_multiline None (chars_of ?d) (logs t) = Inr (s, w)" and ls: "length s = 256"
    and l: "adds_log (sven_line (c_string (chars_of bs))) (logs t) w"
    using print_multiline_line[OF len(1) assms(6), of "chars_of ?d"] c_string_data[OF lb] len(2)
    by (auto simp: chars_of_def)
  have "trace_all master chan (packet header bs) t = Inr (?t\<lparr>tbuf_data := c_bytes s, logs := w\<rparr>)"
    using assms(7) len(2) lb lo r unfolding trace_packet[OF assms(1-5)] by (simp add: sven_decode_def Let_def)
  moreover have "trace_wf (?t\<lparr>tbuf_data := c_bytes s, logs := w\<rparr>)"
    using wf ls l by (simp add: trace_wf_def adds_log_def)
  ultimately show ?thesis using l assms(2) by (simp add: adds_log_def)
qed

definition trace_idle :: trace where
  "trace_idle = \<lparr>tbuf_master = -1, tbuf_channel = -1, tbuf_pos = 0, tbuf_msgs = replicate 64 zero_msg,
     tbuf_data = replicate 256 0, sven_file = None, buffer = replicate 40 CHR 0x00, sven_buffer = replicate 640 CHR 0x00,
     logs = \<lparr>log_buffer = replicate 1024 CHR 0x00, log_level = 1, stderr_text = ''''\<rparr>\<rparr>"

lemma trace_idle_wf: "trace_wf trace_idle"
  by (simp add: trace_wf_def trace_idle_def)

section \<open>Catalog packets\<close>

text \<open>Arguments that a format does not use make no difference.\<close>

lemma va_more:
  "va_word l = Inr (v, l') \<Longrightarrow> va_word (l @ m) = Inr (v, l' @ m)"
  "va_long l = Inr (v', l') \<Longrightarrow> va_long (l @ m) = Inr (v', l' @ m)"
  "va_str l = Inr (s, l') \<Longrightarrow> va_str (l @ m) = Inr (s, l' @ m)"
  by (auto simp: va_word_def va_long_def va_str_def split: list.splits va_slot.splits)

lemma pf_ival_more:
  "pf_sival sz l = Inr (v, l') \<Longrightarrow> pf_sival sz (l @ m) = Inr (v, l' @ m)"
  "pf_uival sz l = Inr (u, l') \<Longrightarrow> pf_uival sz (l @ m) = Inr (u, l' @ m)"
  by (auto simp: pf_sival_def pf_uival_def rbind_Inr_iff va_more split: pf_size.splits)

text \<open>The relation between a step on some arguments and the same step on more of them.\<close>

definition with_more :: "va_list \<Rightarrow> (pf \<times> va_list \<times> 'w) res \<Rightarrow> (pf \<times> va_list \<times> 'w) res \<Rightarrow> bool" where
  "with_more m r r' \<longleftrightarrow> (\<forall>p l w. r = Inr (p, l, w) \<longrightarrow> r' = Inr (p, l @ m, w))"

lemma with_more_base:
  "with_more m (Inl e) r" "with_more m (Inr (p, l, w)) (Inr (p, l @ m, w))"
  by (simp_all add: with_more_def)

lemma with_more_if:
  "(c \<Longrightarrow> with_more m a a') \<Longrightarrow> (\<not> c \<Longrightarrow> with_more m b b') \<Longrightarrow> with_more m (if c then a else b) (if c then a' else b')"
  by simp

lemma with_more_arg:
  "(\<And>v l. g = Inr (v, l) \<Longrightarrow> g' = Inr (v, l @ m)) \<Longrightarrow> (\<And>v l. with_more m (f v l) (f' v (l @ m))) \<Longrightarrow>
   with_more m (rbind g (\<lambda>(v, l). f v l)) (rbind g' (\<lambda>(v, l). f' v l))"
  by (cases g) (auto simp: with_more_def)

lemma with_more_bind: "(\<And>x. with_more m (f x) (f' x)) \<Longrightarrow> with_more m (rbind g f) (rbind g f')"
  by (cases g) (auto simp: with_more_def)

lemma with_more_put:
  "with_more m (rbind g (\<lambda>(q, w). Inr (h q, l, w))) (rbind g (\<lambda>(q, w). Inr (h q, l @ m, w)))"
  by (cases g) (auto simp: with_more_def)

lemma pf_type_more: "with_more m (pf_type putch c p l w) (pf_type putch c p (l @ m) w)"
  unfolding pf_type_def Let_def
  by (intro with_more_if with_more_arg with_more_bind with_more_put with_more_base pf_ival_more va_more)
    (auto simp: rbind_Inr_iff va_more pf_ival_more split: if_splits)

lemma pf_step_more: "with_more m (pf_step putch c p l w) (pf_step putch c p (l @ m) w)"
proof -
  have lm: "with_more m (pf_lmod putch c q l w) (pf_lmod putch c q (l @ m) w)" for q
    unfolding pf_lmod_def by (intro with_more_if with_more_base pf_type_more)
  have aw: "with_more m (pf_awidt putch c q l w) (pf_awidt putch c q (l @ m) w)" for q
    unfolding pf_awidt_def by (intro with_more_if with_more_base lm)
  have wi: "with_more m (pf_width putch c q l w) (pf_width putch c q (l @ m) w)" for q
    unfolding pf_width_def Let_def by (intro with_more_if with_more_arg with_more_base va_more aw)
  have fs: "with_more m (pf_fspec putch c q l w) (pf_fspec putch c q (l @ m) w)" for q
    unfolding pf_fspec_def by (intro with_more_if with_more_base wi)
  have pr: "with_more m (pf_presc c p l w) (pf_presc c p (l @ m) w)"
    unfolding pf_presc_def by (intro with_more_if with_more_arg with_more_base va_more)
  have pp: "with_more m (pf_print putch c p l w) (pf_print putch c p (l @ m) w)"
    unfolding pf_print_def by (intro with_more_if with_more_base) (auto simp: with_more_def rbind_Inr_iff)
  show ?thesis
    using lm aw wi fs pr pp pf_type_more by (cases "pf_state p") (simp_all add: pf_step_def)
qed

lemma pf_loop_more: "pf_loop putch format p l w = Inr (p', l', w') \<Longrightarrow> pf_loop putch format p (l @ m) w = Inr (p', l' @ m, w')"
proof (induction format arbitrary: p l w)
  case (Cons c format)
  from Cons.prems obtain q l1 w1 where s: "pf_step putch c p l w = Inr (q, l1, w1)"
    and r: "pf_loop putch format q l1 w1 = Inr (p', l', w')"
    by (auto simp: rbind_Inr_iff)
  then show ?case using pf_step_more[of m putch c p l w] Cons.IH[OF r] by (simp add: with_more_def)
qed simp

lemma printf_text_more:
  assumes "printf_text format l = Inr out"
  shows "printf_text format (l @ m) = Inr out"
proof -
  obtain p l' where "pf_loop collect format pf_init l [] = Inr (p, l', out)"
    using assms by (auto simp: printf_text_loop rbind_Inr_iff)
  from pf_loop_more[OF this, of m] show ?thesis by (simp add: printf_text_loop)
qed

lemma guest_args_append: "\<exists>m. guest_args (bs @ rest) = guest_args bs @ m"
  by (induction bs rule: guest_args.induct) auto

text \<open>The key of a message, and its format in the loaded file.\<close>

definition catalog_key :: "bytes \<Rightarrow> string" where
  "catalog_key bs = ''msg_0x'' @ hex8 (le_word (slice 4 4 bs)) @ hex8 (le_word (take 4 bs))"

definition catalog_format :: "cfg_file option \<Rightarrow> bytes \<Rightarrow> string option" where
  "catalog_format file bs = (case file of None \<Rightarrow> None | Some file \<Rightarrow>
     (case cfg_find_section file (catalog_key bs) of None \<Rightarrow> None | Some msg \<Rightarrow> cfg_find_string msg ''message''))"

text \<open>Its text: without a format, the first three words.\<close>

definition catalog_text :: "cfg_file option \<Rightarrow> bytes \<Rightarrow> string res" where
  "catalog_text file bs = (case catalog_format file bs of
     None \<Rightarrow> printf_text ''%08X%08X%08X'' (guest_args bs)
   | Some fmt \<Rightarrow> printf_text fmt (guest_args (drop 8 bs)))"

lemma catalog_key_inject:
  assumes "8 \<le> length a" and "8 \<le> length b" and "catalog_key a = catalog_key b"
  shows "take 8 a = take 8 b"
proof -
  have "le_word (take 4 a) = (le_word (take 4 b) :: u32)" "le_word (slice 4 4 a) = (le_word (slice 4 4 b) :: u32)"
    using assms(3) by (auto simp: catalog_key_def hex8_inject)
  then have "le_bytes 4 (le_word (take 4 a) :: u32) = le_bytes 4 (le_word (take 4 b) :: u32)"
    "le_bytes 4 (le_word (slice 4 4 a) :: u32) = le_bytes 4 (le_word (slice 4 4 b) :: u32)" by simp_all
  then have "take 4 a = take 4 b" "slice 4 4 a = slice 4 4 b"
    using assms(1,2) le_bytes_le_word[where 'a = 32, of "take 4 a"] le_bytes_le_word[where 'a = 32, of "take 4 b"]
      le_bytes_le_word[where 'a = 32, of "slice 4 4 a"] le_bytes_le_word[where 'a = 32, of "slice 4 4 b"] by simp_all
  then show ?thesis
    using slice_append_slice[of 0 4 a 4] slice_append_slice[of 0 4 b 4] by (simp add: slice_def)
qed

lemma msg_key_text: "printf_text ''msg_0x%08x%08x'' [VaWord hi, VaWord lo] = Inr (''msg_0x'' @ hex8 hi @ hex8 lo)"
proof -
  have f: "''msg_0x%08x%08x'' = ''msg_0x'' @ ''%08x'' @ ''%08x'' @ []" by simp
  show ?thesis
    unfolding f printf_text_loop
    by (subst pf_loop_text, simp, simp) (subst pf_loop_hex8, simp, subst pf_loop_hex8, simp_all)
qed

lemma catalog_key_buffer:
  assumes "8 \<le> length bs" and "length b = 40"
  shows "\<exists>b'. mel_snprintf b 40 ''msg_0x%08x%08x'' [VaWord (le_word (slice 4 4 bs)), VaWord (le_word (take 4 bs))] =
    Inr (22, b') \<and> length b' = 40 \<and> c_string b' = catalog_key bs"
proof -
  let ?k = "catalog_key bs"
  have l: "length ?k = 22" by (simp add: catalog_key_def)
  have key: "printf_text ''msg_0x%08x%08x'' [VaWord (le_word (slice 4 4 bs)), VaWord (le_word (take 4 bs))] = Inr ?k"
    by (simp add: msg_key_text catalog_key_def)
  have "CHR 0x00 \<notin> set ?k" using hex8_no_nul by (auto simp: catalog_key_def)
  then have "c_string (?k @ CHR 0x00 # r) = ?k" for r
    unfolding c_string_def by (subst takeWhile_append_stop) (auto intro: takeWhile_full)
  then show ?thesis
    using vsnprintf_text[of 40 b "''msg_0x%08x%08x''" "[VaWord (le_word (slice 4 4 bs)), VaWord (le_word (take 4 bs))]"]
      assms(2) l key
    by (simp add: mel_snprintf_def)
qed

lemma catalog_text_more:
  assumes "8 \<le> length bs" and "catalog_text file bs = Inr out"
  shows "catalog_text file (bs @ rest) = Inr out"
proof -
  have k: "catalog_key (bs @ rest) = catalog_key bs"
    using assms(1) by (simp add: catalog_key_def slice_def)
  have "catalog_format file (bs @ rest) = catalog_format file bs"
    unfolding catalog_format_def k ..
  moreover obtain m1 m2 where "guest_args (bs @ rest) = guest_args bs @ m1" "guest_args (drop 8 bs @ rest) = guest_args (drop 8 bs) @ m2"
    using guest_args_append by blast
  ultimately show ?thesis
    using assms by (simp add: catalog_text_def printf_text_more split: option.splits)
qed

lemma sven_getfmt_text:
  assumes "trace_wf t" and "log_level (logs t) \<le> 6" and "8 \<le> length data"
    and "catalog_text (sven_file t) data = Inr out" and "CHR 0x00 \<notin> set out"
  shows "\<exists>b s w. sven_getfmt data t = Inr (t\<lparr>buffer := b, sven_buffer := s, logs := w\<rparr>) \<and>
    length b = 40 \<and> length s = 640 \<and> adds_log (sven_line (take 639 out)) (logs t) w"
proof -
  have wf: "length (buffer t) = 40" "length (sven_buffer t) = 640" "length (log_buffer (logs t)) = 1024"
    using assms(1) by (simp_all add: trace_wf_def)
  have ld: "ld32 data = Inr (le_word (take 4 data))" "ld32 (drop 4 data) = Inr (le_word (slice 4 4 data))"
    using assms(3) by (simp_all add: ld32_def slice_def)
  obtain b where b: "mel_snprintf (buffer t) 40 ''msg_0x%08x%08x''
      [VaWord (le_word (slice 4 4 data)), VaWord (le_word (take 4 data))] = Inr (22, b)"
    "length b = 40" "c_string b = catalog_key data"
    using catalog_key_buffer[OF assms(3) wf(1)] by blast
  let ?s = "take 639 out @ CHR 0x00 # drop (Suc (min (length out) 639)) (sven_buffer t)"
  have fmt: "(case (case sven_file t of None \<Rightarrow> None | Some file \<Rightarrow> cfg_find_section file (catalog_key data)) of
      None \<Rightarrow> None | Some msg \<Rightarrow> cfg_find_string msg ''message'') = catalog_format (sven_file t) data"
    by (simp add: catalog_format_def split: option.splits)
  have p: "(case catalog_format (sven_file t) data of
      None \<Rightarrow> mel_vsnprintf (sven_buffer t) 640 ''%08X%08X%08X'' (guest_args data)
    | Some fmt \<Rightarrow> mel_vsnprintf (sven_buffer t) 640 fmt (guest_args (drop 8 data))) = Inr (min (length out) 639, ?s)"
    using assms(4) vsnprintf_text[of 640 "sven_buffer t"] wf(2)
    by (simp add: catalog_text_def split: option.splits)
  have "CHR 0x00 \<notin> set (take 639 out)" using assms(5) set_take_subset[of 639 out] by auto
  then have "c_string ?s = take 639 out"
    unfolding c_string_def by (subst takeWhile_append_stop) (auto intro: takeWhile_full)
  moreover have "length ?s = 640" using wf(2) by simp
  ultimately obtain s' w where pm: "print_multiline None ?s (logs t) = Inr (s', w)" "length s' = 640"
    "adds_log (sven_line (take 639 out)) (logs t) w"
    using print_multiline_line[OF wf(3) assms(2), of ?s] by auto
  have u: "buffer (t\<lparr>buffer := b\<rparr>) = b" "sven_buffer (t\<lparr>buffer := b\<rparr>) = sven_buffer t"
    "sven_file (t\<lparr>buffer := b\<rparr>) = sven_file t" "logs (t\<lparr>buffer := b\<rparr>) = logs t" by simp_all
  show ?thesis
    unfolding sven_getfmt_def ld rbind_simps b(1) Let_def prod.case u b(3) fmt p pm(1)
    using b(2) pm(2,3) by (intro exI[of _ b] exI[of _ s'] exI[of _ w]) simp
qed

text \<open>C36. A catalog message is printed through the format that the loaded file has for its 64
  bit id, with the words of the payload as arguments, and without a format as three words;
  what an earlier packet left in the data buffer does not matter. One line, cut at the
  buffer of 640 characters, is added to the log, and the decoder is idle again.\<close>

theorem trace_catalog_packet:
  assumes "trace_wf t" and "tbuf_master t = -1" and "0 \<le> master" and "length (pieces bs) \<le> 61"
    and "0 < log_level (logs t)" and "log_level (logs t) \<le> 6" and "header AND 0xF = 3"
    and "8 \<le> length bs" and "catalog_text (sven_file t) bs = Inr out" and "CHR 0x00 \<notin> set out"
  shows "\<exists>t'. trace_all master chan (packet header bs) t = Inr t' \<and> trace_wf t' \<and> tbuf_master t' = -1 \<and> tbuf_pos t' = 0 \<and>
    stderr_text (logs t') = stderr_text (logs t) @ sven_line (take 639 out)"
proof -
  let ?t = "packet_state chan header bs t"
  let ?d = "blit 0 bs (tbuf_data t)"
  have wf: "trace_wf ?t" by (rule packet_state_wf[OF assms(1,4)])
  have d: "?d = bs @ drop (length bs) (tbuf_data t)" by (simp add: blit_def)
  have ld: "\<exists>v. ld32 ?d = Inr v" "\<exists>v. ld32 (drop 4 ?d) = Inr v" using assms(8) by (simp_all add: d ld32_def)
  have lo: "trace_log 0 module format l ?t = Inr ?t" for module format l
    using assms(5) by (simp add: trace_log_def log_below)
  obtain b s w where r: "sven_getfmt ?d ?t = Inr (?t\<lparr>buffer := b, sven_buffer := s, logs := w\<rparr>)"
    and l: "length b = 40" "length s = 640" "adds_log (sven_line (take 639 out)) (logs t) w"
    using sven_getfmt_text[OF wf, of ?d out] catalog_text_more[OF assms(8,9)] assms(6,8,10) by (auto simp: d)
  have "trace_all master chan (packet header bs) t = Inr (?t\<lparr>buffer := b, sven_buffer := s, logs := w\<rparr>)"
    unfolding trace_packet[OF assms(1-5)] using assms(7) ld lo r by (auto simp: sven_decode_def Let_def)
  then show ?thesis using wf l by (simp add: trace_wf_def adds_log_def)
qed

definition sample_catalog :: cfg_file where
  "sample_catalog = \<lparr>file_name = ''sven'', file_sections =
     [\<lparr>section_type = ''msg'', section_name = ''msg_0x0000000200000001'',
       section_entries = [\<lparr>entry_name = ''message'', entry_value = CfgString ''state %d''\<rparr>]\<rparr>], last_section = 0\<rparr>"

theorem trace_catalog_packet_witness:
  "\<exists>t'. trace_all 3 1 (packet 0x13 (le_bytes 4 (1 :: u32) @ le_bytes 4 (2 :: u32) @ le_bytes 4 (42 :: u32)))
       (trace_idle\<lparr>sven_file := Some sample_catalog\<rparr>) = Inr t' \<and>
     stderr_text (logs t') = ''[METRC] sven: state 42'' @ [CHR 0x0A]"
proof -
  let ?b = "le_bytes 4 (1 :: u32) @ le_bytes 4 (2 :: u32) @ le_bytes 4 (42 :: u32)"
  let ?t = "trace_idle\<lparr>sven_file := Some sample_catalog\<rparr>"
  have "catalog_text (Some sample_catalog) ?b = Inr ''state 42''" by code_simp
  moreover have "sven_line (take 639 ''state 42'') = ''[METRC] sven: state 42'' @ [CHR 0x0A]" by code_simp
  moreover have "length (pieces ?b) \<le> 61" "(0x13 AND 0xF :: u32) = 3" by code_simp+
  moreover have "trace_wf ?t" using trace_idle_wf by (simp add: trace_wf_def)
  ultimately show ?thesis
    using trace_catalog_packet[of ?t 3 ?b "0x13" "''state 42''" 1] by (auto simp: trace_idle_def)
qed

section \<open>A packet that is too long\<close>

text \<open>A source that sends 64 messages without a flag fills the buffer; the check for the
  overflow lets the next one through, which is stored behind the end of the array.\<close>

lemma trace_overflow:
  assumes "trace_wf t" and "tbuf_master t = -1" and "0 \<le> master" and "length msgs = 64"
    and "\<forall>m\<in>set msgs. msg_type m \<noteq> MT_FLAG"
  shows "returns (trace_all master chan msgs t) \<and> trace_all master chan (msgs @ [m]) t = Inl OutOfBounds"
proof -
  let ?t = "t\<lparr>tbuf_pos := 0, tbuf_master := master, tbuf_channel := chan\<rparr>"
  have wf: "length (tbuf_msgs t) = 64" "tbuf_pos t \<le> 64" using assms(1) by (simp_all add: trace_wf_def)
  obtain m0 ms where m: "msgs = m0 # ms" using assms(4) by (cases msgs) auto
  have "trace_all master chan msgs t = trace_all master chan msgs ?t"
    unfolding m using trace_msg_idle[OF assms(2,3) wf(2)] by simp
  then have r: "trace_all master chan msgs t = Inr (?t\<lparr>tbuf_msgs := blit 0 msgs (tbuf_msgs t), tbuf_pos := 64\<rparr>)"
    using trace_all_append_msgs[of ?t master chan msgs] wf(1) assms(4,5) by simp
  then show ?thesis
    using wf(1) assms(4) unfolding trace_all_append r by (simp add: trace_msg_def TRACEBUF_SIZE_def)
qed

end
