(* ===== verification/TraceHub.thy ===== *)
theory TraceHub
  imports Trace PciConfig RegFile
begin

text \<open>
  \<open>periph/tracehub\<close>: the PCI function of the trace hub. BAR 0 holds the registers of the
  global trace hub, BAR 3 the region in which each source of messages has its own 64 bytes.
  The state is the instance and the decoder of \<open>Trace\<close>, which also holds the log.
\<close>

section \<open>State\<close>

definition TRACEHUB_FTMR_SIZE :: u32 where "TRACEHUB_FTMR_SIZE = 0x00400000"
definition TRACEHUB_MTB_SIZE :: u32 where "TRACEHUB_MTB_SIZE = 0x00100000"
definition TRACEHUB_GTH_OFFSET :: int where "TRACEHUB_GTH_OFFSET = 0"
definition TRACEHUB_TSCU_OFFSET :: int where "TRACEHUB_TSCU_OFFSET = 0x2000"

record thub_inst =
  thub_name :: string
  gth_scrpd0 :: u32
  gth_swdest :: "u32 list"

section \<open>Global trace hub registers\<close>

definition tracehub_fake_probe :: "thub_inst \<Rightarrow> thub_inst" where
  "tracehub_fake_probe t = t\<lparr>gth_scrpd0 := BIT 24,
     gth_swdest := (gth_swdest t)[2 := 0x80000 OR 0x8000 OR 0x800 OR 0x80 OR 0x8]\<rparr>"

definition tracehub_gth_read :: "thub_inst \<Rightarrow> u32 \<Rightarrow> bytes \<Rightarrow> int \<Rightarrow> trace \<Rightarrow> (bytes \<times> trace) res" where
  "tracehub_gth_read t addr buf count tr =
    (if addr AND 3 \<noteq> 0 \<or> count \<noteq> 4 then
       rbind (trace_log 4 (thub_name t) (''Non-aligned read to GTH: off: %05x cnt: %05x'' @ [CHR 0x0A])
         [VaWord addr, VaWord (of_int count)] tr) (\<lambda>tr. Inr (buf, tr))
     else if addr = 0xE0 then
       rbind (st32 (gth_scrpd0 t) buf) (\<lambda>buf.
       rbind (trace_log 1 (thub_name t) ''Read SCRPD0: 0x%08x'' [VaWord (gth_scrpd0 t)] tr) (\<lambda>tr. Inr (buf, tr)))
     else if addr \<ge> 0x8 \<and> addr \<le> 0x84 then
       rbind (st32 (gth_swdest t ! (unat (addr - 8) div 4)) buf) (\<lambda>buf. Inr (buf, tr))
     else Inr (buf, tr))"

definition tracehub_gth_write :: "thub_inst \<Rightarrow> u32 \<Rightarrow> bytes \<Rightarrow> int \<Rightarrow> trace \<Rightarrow> (thub_inst \<times> trace) res" where
  "tracehub_gth_write t addr buf count tr =
    (if addr AND 3 \<noteq> 0 \<or> count \<noteq> 4 then
       rbind (trace_log 4 (thub_name t) (''Non-aligned write to GTH: off: %05x cnt: %05x'' @ [CHR 0x0A])
         [VaWord addr, VaWord (of_int count)] tr) (\<lambda>tr. Inr (t, tr))
     else if addr = 0xE0 then rbind (ld32 buf) (\<lambda>v. Inr (t\<lparr>gth_scrpd0 := v\<rparr>, tr))
     else if addr \<ge> 0x8 \<and> addr \<le> 0x84 then
       rbind (ld32 buf) (\<lambda>v. Inr (t\<lparr>gth_swdest := (gth_swdest t)[unat (addr - 8) div 4 := v]\<rparr>, tr))
     else Inr (t, tr))"

section \<open>Firmware trace memory region\<close>

definition mipi_tmsg_types :: "string list" where
  "mipi_tmsg_types = [''Dn'', ''DnM'', ''DnTS'', ''DnMTS'', ''USER'', ''USER_TS'', ''FLAG'', ''FLAG_TS'', ''MERR'']"

definition tracehub_ftmr_read :: "thub_inst \<Rightarrow> u32 \<Rightarrow> bytes \<Rightarrow> int \<Rightarrow> trace \<Rightarrow> (int \<times> bytes \<times> trace) res" where
  "tracehub_ftmr_read t addr buf count tr =
    (if addr \<ge> TRACEHUB_FTMR_SIZE then Inr (0, buf, tr)
     else rbind (trace_log 4 (thub_name t) ''Read from Firmware Trace Memory Region : %08x'' [VaWord addr] tr)
       (\<lambda>tr. Inr (1, buf, tr)))"

text \<open>For an address that is no register the function returns without a value.\<close>

definition tracehub_ftmr_msgtype :: "u32 \<Rightarrow> int res" where
  "tracehub_ftmr_msgtype a =
    (if a = 0x00 then Inr 0 else if a = 0x08 then Inr 1 else if a = 0x10 then Inr 2 else if a = 0x18 then Inr 3
     else if a = 0x20 then Inr 4 else if a = 0x28 then Inr 5 else if a = 0x30 then Inr 6 else if a = 0x34 then Inr 7
     else if a = 0x38 then Inr 8 else if a = 0x3C then Inr 9 else Inl BadUsage)"

definition tracehub_ftmr_write :: "thub_inst \<Rightarrow> u32 \<Rightarrow> bytes \<Rightarrow> int \<Rightarrow> trace \<Rightarrow> (int \<times> trace) res" where
  "tracehub_ftmr_write t addr buf count tr =
    (if addr \<ge> TRACEHUB_FTMR_SIZE then Inr (0, tr)
     else
       let master_chan = uint addr div 0x40; master = master_chan div 1024; chan = master_chan mod 1024 in
       rbind (tracehub_ftmr_msgtype (addr mod 0x40)) (\<lambda>reg_no.
       if count \<in> {1, 2, 4, 8} then
         if length buf < nat count then Inl OutOfBounds
         else rbind (trace_msg master chan \<lparr>msg_type = reg_no, msg_size = count, msg_data = take (nat count) buf\<rparr> tr)
           (\<lambda>tr. Inr (1, tr))
       else if length mipi_tmsg_types \<le> nat reg_no then Inl OutOfBounds
       else rbind (trace_log 4 (thub_name t) (''Master %i:%i write to %s with unsupported count %i'' @ [CHR 0x0A])
         [VaWord (of_int master), VaWord (of_int chan), VaStr (mipi_tmsg_types ! nat reg_no), VaWord (of_int count)] tr)
         (\<lambda>tr. Inr (1, tr))))"

section \<open>The function\<close>

definition tracehub_mtb_read :: "thub_inst \<Rightarrow> int \<Rightarrow> bytes \<Rightarrow> int \<Rightarrow> trace \<Rightarrow> (int \<times> bytes \<times> trace) res" where
  "tracehub_mtb_read t addr buf count tr =
    (if addr < TRACEHUB_TSCU_OFFSET then
       rbind (tracehub_gth_read t (of_int (addr - TRACEHUB_GTH_OFFSET)) buf count tr) (\<lambda>(buf, tr). Inr (1, buf, tr))
     else Inr (1, buf, tr))"

definition tracehub_mtb_write :: "thub_inst \<Rightarrow> int \<Rightarrow> bytes \<Rightarrow> int \<Rightarrow> trace \<Rightarrow> (int \<times> thub_inst \<times> trace) res" where
  "tracehub_mtb_write t addr buf count tr =
    (if addr < TRACEHUB_TSCU_OFFSET then
       rbind (tracehub_gth_write t (of_int (addr - TRACEHUB_GTH_OFFSET)) buf count tr) (\<lambda>(t, tr). Inr (1, t, tr))
     else Inr (1, t, tr))"

text \<open>The two conversions of the 64 bit address: to \<open>int\<close> and to \<open>uint32_t\<close>.\<close>

definition thub_bar_read :: "nat \<Rightarrow> u64 \<Rightarrow> bytes \<Rightarrow> int \<Rightarrow> thub_inst \<times> trace \<Rightarrow> (int \<times> bytes \<times> thub_inst \<times> trace) res" where
  "thub_bar_read bar addr buf count = (\<lambda>(t, tr).
     if bar = 0 then
       rbind (tracehub_mtb_read t (sint (ucast addr :: u32)) buf count tr) (\<lambda>(r, buf, tr). Inr (r, buf, t, tr))
     else if bar = 3 then
       rbind (tracehub_ftmr_read t (ucast addr) buf count tr) (\<lambda>(r, buf, tr). Inr (r, buf, t, tr))
     else Inr (-1, buf, t, tr))"

definition thub_bar_write :: "nat \<Rightarrow> u64 \<Rightarrow> bytes \<Rightarrow> int \<Rightarrow> thub_inst \<times> trace \<Rightarrow> (int \<times> thub_inst \<times> trace) res" where
  "thub_bar_write bar addr buf count = (\<lambda>(t, tr).
     if bar = 0 then tracehub_mtb_write t (sint (ucast addr :: u32)) buf count tr
     else if bar = 3 then rbind (tracehub_ftmr_write t (ucast addr) buf count tr) (\<lambda>(r, tr). Inr (r, t, tr))
     else Inr (-1, t, tr))"

text \<open>Where the instance, the decoder and the configuration space live.\<close>

record 'w thub_host =
  thub_get :: "'w \<Rightarrow> thub_inst \<times> trace"
  thub_put :: "thub_inst \<times> trace \<Rightarrow> 'w \<Rightarrow> 'w"
  thub_get_config :: "'w \<Rightarrow> pci_cfgspace"
  thub_put_config :: "pci_cfgspace \<Rightarrow> 'w \<Rightarrow> 'w"

definition thub_func :: "'w thub_host \<Rightarrow> 'w pci_simplefunc" where
  "thub_func host = \<lparr>sf_flags = 0, sf_max_bar = 4, sf_bar_size = [0x00100000, 0, 0, 0x00400000, 0, 0],
     sf_get_config = thub_get_config host, sf_put_config = thub_put_config host,
     sf_bar_read = Some (\<lambda>bar addr buf count w. rbind (thub_bar_read bar addr buf count (thub_get host w))
       (\<lambda>(r, buf, s). Inr (r, buf, thub_put host s w))),
     sf_bar_write = Some (\<lambda>bar addr buf count w. rbind (thub_bar_write bar addr buf count (thub_get host w))
       (\<lambda>(r, s). Inr (r, thub_put host s w))),
     sf_cfg_read = None, sf_cfg_write = None\<rparr>"

definition thub_spawn :: "'w thub_host \<Rightarrow> cfg_section \<Rightarrow> 'w pci_bus list \<Rightarrow> unit device_instance list \<Rightarrow> 'w \<Rightarrow>
    ('w pci_bus list \<times> unit device_instance list \<times> 'w) res" where
  "thub_spawn host sec buses devs w =
    (let i = \<lparr>thub_name = section_name sec, gth_scrpd0 = 0, gth_swdest = replicate 32 0\<rparr>;
         fp = cfg_or (cfg_find_int32 sec ''fake_probe'') 0;
         i = (if fp \<noteq> 0 then tracehub_fake_probe i else i);
         w = thub_put_config host (replicate 0x1000 0) (thub_put host (i, snd (thub_get host w)) w)
     in rbind (pci_simple_init (thub_func host) (Some sec) buses w) (\<lambda>(buses, w).
        rbind (device_register \<lparr>device_name = section_name sec, device_impl = ()\<rparr> devs) (\<lambda>devs.
          Inr (buses, devs, w))))"

section \<open>The sources of the message region\<close>

definition source_base :: "nat \<Rightarrow> nat \<Rightarrow> u32" where
  "source_base master chan = of_nat ((master * 1024 + chan) * 64)"

lemma source_address:
  assumes "master < 64" and "chan < 1024" and "unat reg < 64"
  shows "unat (source_base master chan + reg) = (master * 1024 + chan) * 64 + unat reg"
proof -
  have n: "n < 2 ^ 32 \<Longrightarrow> unat (of_nat n :: u32) = n" for n
    by (simp add: unat_of_nat take_bit_nat_eq_self)
  have "unat (source_base master chan) = (master * 1024 + chan) * 64"
    unfolding source_base_def by (rule n) (use assms in simp)
  then show ?thesis using assms by (subst unat_add_lem[THEN iffD1]) simp_all
qed

lemma ftmr_write_msg:
  assumes "master < 64" and "chan < 1024" and "unat reg < 64" and "tracehub_ftmr_msgtype reg = Inr ty"
    and "length d \<in> {1, 2, 4, 8}"
  shows "tracehub_ftmr_write t (source_base master chan + reg) d (int (length d)) tr =
    rbind (trace_msg (int master) (int chan) (data_msg ty d) tr) (\<lambda>tr. Inr (1, tr))"
proof -
  let ?a = "source_base master chan + reg"
  note a = source_address[OF assms(1-3)]
  have "unat ?a < 0x400000" using a assms(1-3) by simp
  then have lim: "\<not> ?a \<ge> TRACEHUB_FTMR_SIZE" by (simp add: TRACEHUB_FTMR_SIZE_def word_le_nat_alt)
  have reg: "?a mod 0x40 = reg"
  proof (rule word_unat_eq_iff[THEN iffD2])
    have "((master * 1024 + chan) * 64 + unat reg) mod 64 = unat reg" using assms(3) by (simp only: mod_mult_self3 mod_less)
    then show "unat (?a mod 0x40) = unat reg" unfolding unat_mod a by simp
  qed
  have source: "uint ?a div 0x40 = int (master * 1024 + chan)"
  proof -
    have "((master * 1024 + chan) * 64 + unat reg) div 64 = master * 1024 + chan"
      using assms(3) by (simp only: div_mult_self3 div_less)
    then show ?thesis unfolding uint_nat a by (metis of_nat_div of_nat_numeral)
  qed
  have parts: "int (master * 1024 + chan) div 1024 = int master" "int (master * 1024 + chan) mod 1024 = int chan"
    using assms(2) by simp_all
  show ?thesis
    unfolding tracehub_ftmr_write_def Let_def if_not_P[OF lim] reg source parts assms(4) rbind_simps
    using assms(5) by (auto simp: data_msg_def)
qed

text \<open>The writes with which a source sends a packet, as offsets in its 64 bytes.\<close>

definition packet_writes :: "u32 \<Rightarrow> bytes \<Rightarrow> (u32 \<times> bytes) list" where
  "packet_writes header bs = [(0x10, le_bytes 4 header), (0, le_bytes 2 (of_nat (length bs) :: u16))] @
     map (Pair 0) (pieces bs) @ [(0x30, replicate 4 0)]"

fun thub_writes :: "u32 \<Rightarrow> (u32 \<times> bytes) list \<Rightarrow> thub_inst \<times> trace \<Rightarrow> (thub_inst \<times> trace) res" where
  "thub_writes base [] s = Inr s"
| "thub_writes base ((reg, d) # ws) s =
    rbind (thub_bar_write 3 (ucast (base + reg)) d (int (length d)) s) (\<lambda>(r, s). thub_writes base ws s)"

lemma bar_write_msg:
  assumes "master < 64" and "chan < 1024" and "unat reg < 64" and "tracehub_ftmr_msgtype reg = Inr ty"
    and "length d \<in> {1, 2, 4, 8}"
  shows "thub_bar_write 3 (ucast (source_base master chan + reg)) d (int (length d)) (t, tr) =
    rbind (trace_msg (int master) (int chan) (data_msg ty d) tr) (\<lambda>tr. Inr (1, t, tr))"
proof -
  have "ucast (ucast a :: u64) = (a :: u32)" for a by (rule bit_word_eqI) (simp add: bit_simps)
  then show ?thesis
    using ftmr_write_msg[OF assms, of t tr]
    by (cases "trace_msg (int master) (int chan) (data_msg ty d) tr") (simp_all add: thub_bar_write_def)
qed

lemma thub_writes_msgs:
  assumes "master < 64" and "chan < 1024"
    and "\<forall>(reg, d)\<in>set ws. unat reg < 64 \<and> returns (tracehub_ftmr_msgtype reg) \<and> length d \<in> {1, 2, 4, 8}"
  shows "thub_writes (source_base master chan) ws (t, tr) =
    rbind (trace_all (int master) (int chan)
      (map (\<lambda>(reg, d). data_msg (case tracehub_ftmr_msgtype reg of Inr ty \<Rightarrow> ty | Inl e \<Rightarrow> 0) d) ws) tr) (\<lambda>tr. Inr (t, tr))"
  using assms(3)
proof (induction ws arbitrary: tr)
  case (Cons w ws)
  obtain reg d where w: "w = (reg, d)" by (cases w)
  obtain ty where ty: "tracehub_ftmr_msgtype reg = Inr ty" using Cons.prems w by (auto simp: returns_iff)
  have "unat reg < 64" "length d \<in> {1, 2, 4, 8}" using Cons.prems w by auto
  note step = bar_write_msg[OF assms(1,2) this(1) ty this(2), of t]
  show ?case
    using Cons.IH Cons.prems
    by (cases "trace_msg (int master) (int chan) (data_msg ty d) tr") (simp_all add: w step ty)
qed simp

lemma pieces_length: "d \<in> set (pieces bs) \<Longrightarrow> length d \<in> {1, 2, 4, 8}"
  by (induction bs rule: pieces.induct) auto

lemma thub_writes_packet:
  assumes "master < 64" and "chan < 1024"
  shows "thub_writes (source_base master chan) (packet_writes header bs) (t, tr) =
    rbind (trace_all (int master) (int chan) (packet header bs) tr) (\<lambda>tr. Inr (t, tr))"
proof -
  have "\<forall>(reg, d)\<in>set (packet_writes header bs). unat reg < 64 \<and> returns (tracehub_ftmr_msgtype reg) \<and> length d \<in> {1, 2, 4, 8}"
    using pieces_length by (auto simp: packet_writes_def tracehub_ftmr_msgtype_def)
  from thub_writes_msgs[OF assms this, of t tr] show ?thesis
    by (simp add: packet_writes_def packet_def packet_head_def tracehub_ftmr_msgtype_def MT_Dn_def MT_DnTS_def MT_FLAG_def
        comp_def)
qed

text \<open>C35. A guest that writes a text message to the registers of its source in BAR 3, in pieces of
  32, 16 and 8 bits between header and flag, gets it printed: one line, up to the first newline
  or NUL of the text, is added to the log. The decoder is idle again afterwards, and the
  registers of the hub are untouched.\<close>

theorem thub_prints_text:
  assumes "master < 64" and "chan < 1024" and "trace_wf tr" and "tbuf_master tr = -1" and "length (pieces bs) \<le> 61"
    and "0 < log_level (logs tr)" and "log_level (logs tr) \<le> 6" and "header AND 0xF = 2"
  shows "\<exists>tr'. thub_writes (source_base master chan) (packet_writes header bs) (t, tr) = Inr (t, tr') \<and>
    trace_wf tr' \<and> tbuf_master tr' = -1 \<and>
    stderr_text (logs tr') = stderr_text (logs tr) @ sven_line (c_string (chars_of bs))"
  using trace_text_packet[OF assms(3,4) _ assms(5-8), of "int master" "int chan"]
  unfolding thub_writes_packet[OF assms(1,2)] by auto

theorem thub_prints_text_witness:
  "\<exists>tr'. thub_writes (source_base 3 1) (packet_writes 0x12 (c_bytes ''hello'')) (\<lparr>thub_name = ''th'', gth_scrpd0 = 0,
       gth_swdest = replicate 32 0\<rparr>, trace_idle) = Inr (\<lparr>thub_name = ''th'', gth_scrpd0 = 0, gth_swdest = replicate 32 0\<rparr>, tr') \<and>
     stderr_text (logs tr') = ''[METRC] sven: hello'' @ [CHR 0x0A]"
proof -
  have "sven_line (c_string (chars_of (c_bytes ''hello''))) = ''[METRC] sven: hello'' @ [CHR 0x0A]" by code_simp
  moreover have "length (pieces (c_bytes ''hello'')) \<le> 61" "(0x12 AND 0xF :: u32) = 2" by code_simp+
  ultimately show ?thesis
    using thub_prints_text[of 3 1 trace_idle "c_bytes ''hello''" "0x12"] trace_idle_wf by (auto simp: trace_idle_def)
qed

section \<open>The registers of BAR 0\<close>

definition gth_offsets :: "u32 set" where
  "gth_offsets = insert 0xE0 {a. a AND 3 = 0 \<and> 8 \<le> a \<and> a \<le> 0x84}"

definition gth_rd :: "u32 \<Rightarrow> thub_inst \<Rightarrow> u32" where
  "gth_rd a t = (if a = 0xE0 then gth_scrpd0 t else gth_swdest t ! (unat (a - 8) div 4))"

definition gth_wr :: "u32 \<Rightarrow> u32 \<Rightarrow> thub_inst \<Rightarrow> thub_inst" where
  "gth_wr a v t = (case tracehub_gth_write t a (le_bytes 4 v) 4 trace_idle of Inr (t, tr) \<Rightarrow> t | Inl e \<Rightarrow> t)"

lemma gth_write:
  "a \<in> gth_offsets \<Longrightarrow> tracehub_gth_write t a (le_bytes 4 v) 4 tr = Inr (gth_wr a v t, tr)"
  by (auto simp: gth_offsets_def gth_wr_def tracehub_gth_write_def)

lemma gth_index:
  assumes "(a :: u32) AND 3 = 0" and "8 \<le> a" and "a \<le> 0x84"
  shows "unat (a - 8) div 4 < 32" and "unat a = 8 + 4 * (unat (a - 8) div 4)"
proof -
  have "a AND 3 = take_bit 2 a" by (simp add: take_bit_eq_mask mask_eq_exp_minus_1)
  then have "unat a mod 4 = 0"
    using assms(1) unat_mod[of a 4] by (simp add: take_bit_eq_mod)
  moreover have "unat (a - 8) = unat a - 8" "8 \<le> unat a" "unat a \<le> 0x84"
    using assms(2,3) by (simp_all add: unat_sub word_le_nat_alt)
  ultimately show "unat (a - 8) div 4 < 32" "unat a = 8 + 4 * (unat (a - 8) div 4)" by presburger+
qed

interpretation gth_regs: reg_file gth_rd gth_wr gth_offsets "\<lambda>t. length (gth_swdest t) = 32"
proof (unfold_locales, goal_cases)
  case (1 t a b v)
  then show ?case
    using gth_index[of a] gth_index[of b]
    by (auto simp: gth_offsets_def gth_rd_def gth_wr_def tracehub_gth_write_def word_unat_eq_iff[of a b])
next
  case (2 t a v)
  then show ?case by (auto simp: gth_offsets_def gth_wr_def tracehub_gth_write_def)
qed

lemma scrpd0_text: "printf_text ''Read SCRPD0: 0x%08x'' [VaWord v] = Inr (''Read SCRPD0: 0x'' @ hex8 v)"
proof -
  have f: "''Read SCRPD0: 0x%08x'' = ''Read SCRPD0: 0x'' @ ''%08x'' @ []" by simp
  show ?thesis
    unfolding f printf_text_loop by (subst pf_loop_text, simp, simp) (subst pf_loop_hex8, simp_all)
qed

lemma gth_read:
  assumes "a \<in> gth_offsets" and "length buf = 4" and "length (log_buffer (logs tr)) = 1024"
  shows "\<exists>tr'. tracehub_gth_read t a buf 4 tr = Inr (le_bytes 4 (gth_rd a t), tr')"
proof (cases "a = 0xE0")
  case True
  have "CHR 0x00 \<notin> set (''Read SCRPD0: 0x'' @ hex8 (gth_scrpd0 t))" using hex8_no_nul by auto
  from log_msg_text[OF assms(3) _ _ scrpd0_text this, of 1 "thub_name t"] True assms(2) show ?thesis
    by (auto simp: tracehub_gth_read_def gth_rd_def trace_log_def)
next
  case False
  with assms(1,2) show ?thesis
    by (auto simp: tracehub_gth_read_def gth_rd_def gth_offsets_def)
qed

text \<open>The registers of the global trace hub are a register file: after any sequence of aligned
  writes to the destination registers and the scratchpad, a read of one of them gives the
  last value written to it, or the value it had.\<close>

lemma gth_last_write:
  assumes "length (gth_swdest t) = 32" and "fst ` set ws \<subseteq> gth_offsets" and "a \<in> gth_offsets"
    and "length buf = 4" and "length (log_buffer (logs tr)) = 1024"
  shows "\<exists>tr'. tracehub_gth_read (write_all gth_wr ws t) a buf 4 tr =
    Inr (le_bytes 4 (case last_write ws a of Some v \<Rightarrow> v | None \<Rightarrow> gth_rd a t), tr')"
  using gth_read[OF assms(3-5), of "write_all gth_wr ws t"] gth_regs.read_write_all[OF assms(1-3)] by simp

end
