(* ===== verification/Machine.thy ===== *)
theory Machine
  imports "HOL-Library.Multiset" OcsState Sideband Att Heci Misa P2g Pmc SpiDev TraceHub
begin

text \<open>
  The program's device types, as their constructors register them, and the machine that
  \<open>initialize_devices\<close> makes of a configuration: the registries of buses, sideband devices and
  devices, and the instances. An instance is kept under the name of its section, where the code
  allocates it; its callbacks find it there. The sideband devices are not in the registry of
  devices, which keeps the names different: theirs are numbered in the order of the start.

  A pointer to a bus shows what is registered on the bus at the time of an access. Here the
  callbacks get the buses by name from \<open>env\<close>, which also has what else the spawn functions use
  of their surroundings.
\<close>

section \<open>State\<close>

record instances =
  ocs_insts :: "string \<Rightarrow> ocs_inst"
  gpdma_buffer :: bytes
  att_insts :: "string \<Rightarrow> att_inst"
  heci_insts :: "string \<Rightarrow> heci_inst"
  misa_insts :: "string \<Rightarrow> misa_inst"
  pmc_insts :: "string \<Rightarrow> pmc_inst"
  spi_insts :: "string \<Rightarrow> fastspi"
  thub_insts :: "string \<Rightarrow> thub_inst"
  fuse_insts :: "nat \<Rightarrow> fusectl_inst"
  dfx_insts :: "nat \<Rightarrow> dfxagg_inst"
  exi_insts :: "nat \<Rightarrow> exi_inst"
  simple_configs :: "string \<Rightarrow> pci_cfgspace"
  trace_state :: trace

record machine =
  bus_list :: "instances pci_bus list"
  sbdev_list :: "instances sideband_dev list"
  device_list :: "unit device_instance list"
  cpu_fsb :: "string \<rightharpoonup> instances mia_fsb"
  insts :: instances

text \<open>
  What the callbacks and the spawn functions find: the buses and sideband devices by the time of
  an access, the files of the host, the memory of the process, the value that the address of a
  string literal has as a word, what the uninitialised \<open>ext\<close> of \<open>att_spawn\<close> holds, and the stack
  frame of the hash unit's round function.
\<close>

record env =
  env_bus :: "string \<Rightarrow> instances pci_bus"
  env_sbdevs :: "instances sideband_dev list"
  env_files :: "string \<rightharpoonup> bytes"
  env_load :: "u32 \<Rightarrow> nat \<Rightarrow> instances \<Rightarrow> bytes res"
  env_store :: "u32 \<Rightarrow> bytes \<Rightarrow> instances \<Rightarrow> instances res"
  env_literal :: "string \<Rightarrow> u32"
  env_garbage :: u64
  env_frame :: sha_frame

definition named_bus :: "env \<Rightarrow> cfg_section \<Rightarrow> string \<Rightarrow> instances pci_bus" where
  "named_bus env sec key = env_bus env (case cfg_find_string sec key of None \<Rightarrow> '''' | Some name \<Rightarrow> name)"

section \<open>Where the instances live\<close>

definition ocs_host_of :: "env \<Rightarrow> cfg_section \<Rightarrow> instances ocs_host" where
  "ocs_host_of env sec = (let n = section_name sec in
    \<lparr>ocs_frame = env_frame env, ocs_get = (\<lambda>w. ocs_insts w n), ocs_put = (\<lambda>i w. w\<lparr>ocs_insts := (ocs_insts w)(n := i)\<rparr>),
     ocs_buf_get = gpdma_buffer, ocs_buf_put = (\<lambda>b w. w\<lparr>gpdma_buffer := b\<rparr>), ocs_bus = named_bus env sec ''bus''\<rparr>)"

definition att_host_of :: "env \<Rightarrow> cfg_section \<Rightarrow> instances att_host" where
  "att_host_of env sec = (let n = section_name sec in
    \<lparr>att_get = (\<lambda>w. att_insts w n), att_put = (\<lambda>i w. w\<lparr>att_insts := (att_insts w)(n := i)\<rparr>),
     att_prim_bus = named_bus env sec ''att_bus'', att_sbdevs = env_sbdevs env\<rparr>)"

definition config_get :: "cfg_section \<Rightarrow> instances \<Rightarrow> pci_cfgspace" where
  "config_get sec w = simple_configs w (section_name sec)"

definition config_put :: "cfg_section \<Rightarrow> pci_cfgspace \<Rightarrow> instances \<Rightarrow> instances" where
  "config_put sec c w = w\<lparr>simple_configs := (simple_configs w)(section_name sec := c)\<rparr>"

definition put_logs :: "log_world \<Rightarrow> instances \<Rightarrow> instances" where
  "put_logs l w = w\<lparr>trace_state := (trace_state w)\<lparr>logs := l\<rparr>\<rparr>"

definition heci_host_of :: "cfg_section \<Rightarrow> instances heci_host" where
  "heci_host_of sec = (let n = section_name sec in
    \<lparr>heci_get = (\<lambda>w. (heci_insts w n, logs (trace_state w))),
     heci_put = (\<lambda>(i, l) w. put_logs l (w\<lparr>heci_insts := (heci_insts w)(n := i)\<rparr>)),
     heci_get_config = config_get sec, heci_put_config = config_put sec\<rparr>)"

definition pmc_host_of :: "cfg_section \<Rightarrow> instances pmc_host" where
  "pmc_host_of sec = (let n = section_name sec in
    \<lparr>pmc_get = (\<lambda>w. (pmc_insts w n, logs (trace_state w))),
     pmc_put = (\<lambda>(i, l) w. put_logs l (w\<lparr>pmc_insts := (pmc_insts w)(n := i)\<rparr>)),
     pmc_get_config = config_get sec, pmc_put_config = config_put sec\<rparr>)"

definition thub_host_of :: "cfg_section \<Rightarrow> instances thub_host" where
  "thub_host_of sec = (let n = section_name sec in
    \<lparr>thub_get = (\<lambda>w. (thub_insts w n, trace_state w)),
     thub_put = (\<lambda>(i, t) w. w\<lparr>thub_insts := (thub_insts w)(n := i), trace_state := t\<rparr>),
     thub_get_config = config_get sec, thub_put_config = config_put sec\<rparr>)"

definition fastspi_host_of :: "cfg_section \<Rightarrow> instances fastspi_host" where
  "fastspi_host_of sec = (let n = section_name sec in
    \<lparr>fastspi_get = (\<lambda>w. spi_insts w n), fastspi_put = (\<lambda>i w. w\<lparr>spi_insts := (spi_insts w)(n := i)\<rparr>),
     fastspi_get_config = config_get sec, fastspi_put_config = config_put sec\<rparr>)"

definition misa_host_of :: "env \<Rightarrow> cfg_section \<Rightarrow> instances misa_host" where
  "misa_host_of env sec = (let n = section_name sec in
    \<lparr>misa_get = (\<lambda>w. misa_insts w n), misa_put = (\<lambda>i w. w\<lparr>misa_insts := (misa_insts w)(n := i)\<rparr>),
     misa_bus = named_bus env sec ''prim_bus'', host_load = env_load env, host_store = env_store env\<rparr>)"

section \<open>The device types\<close>

text \<open>A spawn function that works on the buses, and one that works on the sideband.\<close>

definition pci_type :: "string \<Rightarrow> (cfg_section \<Rightarrow> instances pci_bus list \<Rightarrow> unit device_instance list \<Rightarrow> instances \<Rightarrow>
    (instances pci_bus list \<times> unit device_instance list \<times> instances) res) \<Rightarrow> machine device_type" where
  "pci_type name f = \<lparr>type_name = name, spawn = (\<lambda>file sec m.
     rbind (f sec (bus_list m) (device_list m) (insts m)) (\<lambda>(buses, devs, w).
       Inr (m\<lparr>bus_list := buses, device_list := devs, insts := w\<rparr>)))\<rparr>"

definition sb_type :: "string \<Rightarrow> (cfg_section \<Rightarrow> instances sideband_dev list \<Rightarrow> instances \<Rightarrow>
    (instances sideband_dev list \<times> instances) res) \<Rightarrow> machine device_type" where
  "sb_type name f = \<lparr>type_name = name, spawn = (\<lambda>file sec m.
     rbind (f sec (sbdev_list m) (insts m)) (\<lambda>(sbdevs, w). Inr (m\<lparr>sbdev_list := sbdevs, insts := w\<rparr>)))\<rparr>"

definition ocs_type :: "env \<Rightarrow> machine device_type" where
  "ocs_type env = pci_type ''ocs'' (\<lambda>sec. ocs_spawn (ocs_host_of env sec) sec)"

definition att_type :: "env \<Rightarrow> machine device_type" where
  "att_type env = pci_type ''att'' (\<lambda>sec. att_spawn (env_garbage env) (att_host_of env sec) sec)"

definition heci_type :: "env \<Rightarrow> machine device_type" where
  "heci_type env = pci_type ''heci'' (\<lambda>sec. heci_spawn (env_literal env) (heci_host_of sec) sec)"

definition pmc_type :: "machine device_type" where
  "pmc_type = pci_type ''pmc'' (\<lambda>sec. pmc_spawn (pmc_host_of sec) sec)"

definition thub_type :: "machine device_type" where
  "thub_type = pci_type ''tracehub'' (\<lambda>sec. thub_spawn (thub_host_of sec) sec)"

definition fastspi_type :: "env \<Rightarrow> machine device_type" where
  "fastspi_type env = pci_type ''fastspi'' (\<lambda>sec. fastspi_spawn (env_files env) (fastspi_host_of sec) sec)"

definition p2g_type :: "env \<Rightarrow> machine device_type" where
  "p2g_type env = pci_type ''prim2gasket'' (\<lambda>sec buses devs w.
     rbind (p2g_spawn (named_bus env sec ''gasket_bus'') sec buses devs) (\<lambda>(buses, devs). Inr (buses, devs, w)))"

text \<open>The instance of a sideband device is numbered by the devices registered before it.\<close>

definition fusectl_type :: "machine device_type" where
  "fusectl_type = sb_type ''fusectl'' (\<lambda>sec sbdevs. let n = length sbdevs in
     fusectl_spawn sec (\<lambda>w. fuse_insts w n) (\<lambda>i w. w\<lparr>fuse_insts := (fuse_insts w)(n := i)\<rparr>) sbdevs)"

definition dfxagg_type :: "machine device_type" where
  "dfxagg_type = sb_type ''dfxagg'' (\<lambda>sec sbdevs. let n = length sbdevs in
     dfxagg_spawn sec (\<lambda>w. dfx_insts w n) (\<lambda>i w. w\<lparr>dfx_insts := (dfx_insts w)(n := i)\<rparr>) sbdevs)"

definition exi_type :: "machine device_type" where
  "exi_type = sb_type ''exi'' (\<lambda>sec sbdevs. let n = length sbdevs in
     exi_spawn sec (\<lambda>w. exi_insts w n) (\<lambda>i w. w\<lparr>exi_insts := (exi_insts w)(n := i)\<rparr>) sbdevs)"

definition usercpu_type :: "machine device_type" where
  "usercpu_type = \<lparr>type_name = ''usercpu'', spawn = (\<lambda>file sec m.
     rbind (usercpu_spawn () sec (device_list m)) (\<lambda>devs. Inr (m\<lparr>device_list := devs\<rparr>)))\<rparr>"

text \<open>The system agent connects itself to the front side bus of the processor it names.\<close>

definition misa_type :: "env \<Rightarrow> machine device_type" where
  "misa_type env = \<lparr>type_name = ''misa'', spawn = (\<lambda>file sec m.
     rbind (misa_spawn (misa_host_of env sec) sec (bus_list m) (device_list m) (insts m)) (\<lambda>(buses, devs, cpu, fsb, w).
       Inr (m\<lparr>bus_list := buses, device_list := devs, cpu_fsb := (cpu_fsb m)(device_name cpu \<mapsto> fsb), insts := w\<rparr>)))\<rparr>"

definition machine_types :: "env \<Rightarrow> machine device_type list" where
  "machine_types env = [ocs_type env, att_type env, heci_type env, pmc_type, thub_type, fastspi_type env, p2g_type env,
     fusectl_type, dfxagg_type, exi_type, usercpu_type, misa_type env]"

section \<open>The machine of a configuration\<close>

text \<open>
  The names of the buses are different, on each bus the device and function numbers are, and so
  are the names of the devices. The spawn functions keep this, or end the program.
\<close>

definition buses_ok :: "'w pci_bus list \<Rightarrow> bool" where
  "buses_ok buses \<longleftrightarrow> list_all bus_wf buses \<and> distinct (map bus_name buses)"

definition devices_ok :: "'i device_instance list \<Rightarrow> bool" where
  "devices_ok devs \<longleftrightarrow> distinct (map device_name devs)"

abbreviation exits :: "fault \<Rightarrow> bool" where
  "exits e \<equiv> e = ExitFailure"

lemma bus_find_None: "pci_bus_find n buses = None \<longleftrightarrow> n \<notin> bus_name ` set buses"
  by (induction buses) auto

lemma bus_find_Some: "pci_bus_find n buses = Some bus \<Longrightarrow> bus \<in> set buses \<and> bus_name bus = n"
  by (induction buses) (auto split: if_splits)

lemma bus_find_wf: "buses_ok buses \<Longrightarrow> pci_bus_find n buses = Some bus \<Longrightarrow> bus_wf bus"
  using bus_find_Some by (fastforce simp: buses_ok_def list_all_iff)

lemma device_find_None: "device_find n devs = None \<longleftrightarrow> n \<notin> device_name ` set devs"
  by (induction devs) auto

lemma replace_bus_names: "map bus_name (replace_bus bus buses) = map bus_name buses"
  by (induction buses) auto

lemma replace_bus_ok: "buses_ok buses \<Longrightarrow> bus_wf bus \<Longrightarrow> buses_ok (replace_bus bus buses)"
proof -
  have "list_all bus_wf bs \<Longrightarrow> bus_wf bus \<Longrightarrow> list_all bus_wf (replace_bus bus bs)" for bs
    by (induction bs) auto
  then show "buses_ok buses \<Longrightarrow> bus_wf bus \<Longrightarrow> buses_ok (replace_bus bus buses)"
    by (simp add: buses_ok_def replace_bus_names)
qed

lemma empty_bus_wf [simp]: "bus_wf \<lparr>bus_name = n, bus_funcs = [], bus_num = k\<rparr>"
  by (simp add: bus_wf_def)

lemma bus_register_holds [simp]:
  "buses_ok buses \<Longrightarrow> bus_wf bus \<Longrightarrow> (\<And>bs. buses_ok bs \<Longrightarrow> P bs) \<Longrightarrow> res_holds exits P (pci_bus_register bus buses)"
  by (auto simp: pci_bus_register_def buses_ok_def bus_find_None)

lemma func_register_holds [simp]:
  "bus_wf bus \<Longrightarrow> (\<And>b. bus_wf b \<Longrightarrow> P b) \<Longrightarrow> res_holds exits P (pci_func_register f bus)"
  using bus_wf_register[of bus f] by (cases "pci_func_register f bus") (auto simp: pci_func_register_def split: if_splits)

lemma device_register_holds [simp]:
  "devices_ok devs \<Longrightarrow> (\<And>d. devices_ok d \<Longrightarrow> P d) \<Longrightarrow> res_holds exits P (device_register dev devs)"
  by (auto simp: device_register_def devices_ok_def device_find_None)

lemma cfg_require_holds [simp]: "(\<And>v. P v) \<Longrightarrow> res_holds exits P (cfg_require found limit)"
  by (simp add: cfg_require_def split: option.splits)

lemma handle_device_holds [simp]:
  "buses_ok buses \<Longrightarrow> (\<And>bs. buses_ok bs \<Longrightarrow> P bs) \<Longrightarrow> res_holds exits P (pci_cfg_handle_device f sec buses)"
  by (auto simp: pci_cfg_handle_device_def Let_def bus_find_wf replace_bus_ok split: option.splits)

lemma simple_init_holds [simp]:
  "buses_ok buses \<Longrightarrow> (\<And>bs w. buses_ok bs \<Longrightarrow> P (bs, w)) \<Longrightarrow> res_holds exits P (pci_simple_init sf (Some sec) buses w)"
  by (simp add: pci_simple_init_def Let_def)

text \<open>Each spawn function.\<close>

definition keeps_registries :: "('w pci_bus list \<Rightarrow> 'i device_instance list \<Rightarrow>
    ('w pci_bus list \<times> 'i device_instance list \<times> 'x) res) \<Rightarrow> bool" where
  "keeps_registries f \<longleftrightarrow> (\<forall>buses devs. buses_ok buses \<longrightarrow> devices_ok devs \<longrightarrow>
     res_holds exits (\<lambda>(bs, ds, x). buses_ok bs \<and> devices_ok ds) (f buses devs))"

lemma spi_openimg_exits: "(\<And>i. P i) \<Longrightarrow> res_holds exits P (spi_openimg files path spi)"
  by (simp add: spi_openimg_def split: option.splits)

lemma spawns_keep:
  "keeps_registries (\<lambda>buses devs. ocs_spawn oh sec buses devs w)"
  "keeps_registries (\<lambda>buses devs. att_spawn g ah sec buses devs w)"
  "keeps_registries (\<lambda>buses devs. heci_spawn lit hh sec buses devs w)"
  "keeps_registries (\<lambda>buses devs. pmc_spawn ph sec buses devs w)"
  "keeps_registries (\<lambda>buses devs. thub_spawn th sec buses devs w)"
  "keeps_registries (\<lambda>buses devs. fastspi_spawn files fh sec buses devs w)"
  by (simp_all add: keeps_registries_def ocs_spawn_def att_spawn_def heci_spawn_def pmc_spawn_def thub_spawn_def
      fastspi_spawn_def spi_config_def Let_def bus_find_wf replace_bus_ok spi_openimg_exits case_prod_unfold split: option.splits)

lemma p2g_spawn_keeps:
  "buses_ok buses \<Longrightarrow> devices_ok devs \<Longrightarrow>
   res_holds exits (\<lambda>(bs, ds). buses_ok bs \<and> devices_ok ds) (p2g_spawn gb sec buses devs)"
  by (auto simp: p2g_spawn_def bus_find_wf replace_bus_ok split: option.splits)

lemma misa_spawn_keeps: "keeps_registries (\<lambda>buses devs. misa_spawn mh sec buses devs w)"
  by (simp add: keeps_registries_def misa_spawn_def misa_aunit_bus_init_def misa_aunit_bus_target_init_def misa_fsb_init_def
      Let_def replace_bus_ok case_prod_unfold split: option.splits)

lemma sb_config_holds [simp]: "(\<And>x. P x) \<Longrightarrow> res_holds exits P (sb_config sec)"
  by (simp add: sb_config_def split: option.splits)

lemma usercpu_spawn_keeps: "devices_ok devs \<Longrightarrow> res_holds exits devices_ok (usercpu_spawn fsb sec devs)"
  by (simp add: usercpu_spawn_def)

text \<open>Each device type.\<close>

definition machine_wf :: "machine \<Rightarrow> bool" where
  "machine_wf m \<longleftrightarrow> buses_ok (bus_list m) \<and> devices_ok (device_list m)"

definition type_keeps :: "machine device_type \<Rightarrow> bool" where
  "type_keeps type \<longleftrightarrow> (\<forall>cfg sec m. machine_wf m \<longrightarrow> res_holds exits machine_wf (spawn type cfg sec m))"

lemma pci_type_keeps:
  assumes "\<And>sec w. keeps_registries (\<lambda>buses devs. f sec buses devs w)"
  shows "type_keeps (pci_type name f)"
  unfolding type_keeps_def
proof (intro allI impI)
  fix cfg sec m
  assume "machine_wf m"
  then have "res_holds exits (\<lambda>(bs, ds, x). buses_ok bs \<and> devices_ok ds) (f sec (bus_list m) (device_list m) (insts m))"
    using assms[of sec "insts m"] by (simp add: keeps_registries_def machine_wf_def)
  from res_holds_mono[OF this] show "res_holds exits machine_wf (spawn (pci_type name f) cfg sec m)"
    by (simp add: pci_type_def machine_wf_def case_prod_unfold)
qed

lemma sb_type_keeps:
  assumes "\<And>sec sbdevs w. res_holds exits (\<lambda>x. True) (f sec sbdevs w)"
  shows "type_keeps (sb_type name f)"
  unfolding type_keeps_def
proof (intro allI impI)
  fix cfg sec m
  assume "machine_wf m"
  with res_holds_mono[OF assms[of sec "sbdev_list m" "insts m"]]
  show "res_holds exits machine_wf (spawn (sb_type name f) cfg sec m)"
    by (simp add: sb_type_def machine_wf_def case_prod_unfold)
qed

lemma p2g_type_keeps: "type_keeps (p2g_type env)"
  unfolding p2g_type_def
proof (rule pci_type_keeps)
  fix sec and w :: instances
  show "keeps_registries (\<lambda>buses devs. rbind (p2g_spawn (named_bus env sec ''gasket_bus'') sec buses devs)
      (\<lambda>(buses, devs). Inr (buses, devs, w)))"
    using p2g_spawn_keeps[where gb = "named_bus env sec ''gasket_bus''" and sec = sec]
    by (simp add: keeps_registries_def case_prod_unfold)
qed

lemma misa_type_keeps: "type_keeps (misa_type env)"
  unfolding type_keeps_def
proof (intro allI impI)
  fix cfg sec m
  assume "machine_wf m"
  then have "res_holds exits (\<lambda>(bs, ds, x). buses_ok bs \<and> devices_ok ds)
      (misa_spawn (misa_host_of env sec) sec (bus_list m) (device_list m) (insts m))"
    using misa_spawn_keeps[of "misa_host_of env sec" sec "insts m"] by (simp add: keeps_registries_def machine_wf_def)
  from res_holds_mono[OF this] show "res_holds exits machine_wf (spawn (misa_type env) cfg sec m)"
    by (simp add: misa_type_def machine_wf_def case_prod_unfold)
qed

lemma usercpu_type_keeps: "type_keeps usercpu_type"
  unfolding type_keeps_def
proof (intro allI impI)
  fix cfg sec m
  assume "machine_wf m"
  with res_holds_mono[OF usercpu_spawn_keeps[of "device_list m" "()" sec]]
  show "res_holds exits machine_wf (spawn usercpu_type cfg sec m)"
    by (simp add: usercpu_type_def machine_wf_def)
qed

lemma machine_types_keep: "type \<in> set (machine_types env) \<Longrightarrow> type_keeps type"
  by (auto simp: machine_types_def ocs_type_def att_type_def heci_type_def pmc_type_def thub_type_def fastspi_type_def
      fusectl_type_def dfxagg_type_def exi_type_def fusectl_spawn_def dfxagg_spawn_def exi_spawn_def case_prod_unfold Let_def
      intro: p2g_type_keeps misa_type_keeps usercpu_type_keeps pci_type_keeps sb_type_keeps spawns_keep)

lemma machine_type_names:
  "map type_name (machine_types env) = [''ocs'', ''att'', ''heci'', ''pmc'', ''tracehub'', ''fastspi'', ''prim2gasket'',
     ''fusectl'', ''dfxagg'', ''exi'', ''usercpu'', ''misa'']"
  by (simp add: machine_types_def ocs_type_def att_type_def heci_type_def pmc_type_def thub_type_def fastspi_type_def
      p2g_type_def fusectl_type_def dfxagg_type_def exi_type_def usercpu_type_def misa_type_def pci_type_def sb_type_def)

section \<open>Start-up\<close>

text \<open>
  The constructors run in the order of the linker, so the types are registered in any order.
  With different names, a type is found by its name and the order does not matter.
\<close>

lemma registered_types: "register_all device_type_register types reg = Inr reg' \<Longrightarrow> reg' = rev types @ reg"
  by (induction types arbitrary: reg) (auto simp: rbind_Inr_iff device_type_register_def split: if_splits)

lemma device_type_find_iff:
  "distinct (map type_name types) \<Longrightarrow> device_type_find n types = Some t \<longleftrightarrow> t \<in> set types \<and> type_name t = n"
  by (induction types) (auto simp: image_iff)

lemma distinct_map_mset: "mset xs = mset ys \<Longrightarrow> distinct (map f xs) \<longleftrightarrow> distinct (map f ys)"
  by (metis mset_map mset_eq_imp_distinct_iff)

lemma device_type_find_perm:
  assumes "mset types = mset types'" and "distinct (map type_name types')"
  shows "device_type_find n types = device_type_find n types'"
proof -
  have "distinct (map type_name types)"
    using assms distinct_map_mset by blast
  then have "device_type_find n types = Some t \<longleftrightarrow> device_type_find n types' = Some t" for t
    using assms mset_eq_setD[OF assms(1)] by (simp add: device_type_find_iff)
  then show ?thesis by (cases "device_type_find n types'") (auto intro: option.expand)
qed

lemma initialize_sections_cong:
  "(\<And>n. device_type_find n types = device_type_find n types') \<Longrightarrow>
   initialize_sections types cfg secs w = initialize_sections types' cfg secs w"
  by (induction secs arbitrary: w) (auto intro!: rbind_cong split: option.splits)

lemma device_type_find_in: "device_type_find n types = Some t \<Longrightarrow> t \<in> set types"
  by (induction types) (auto split: if_splits)

lemma initialize_sections_keeps:
  assumes "\<And>t cfg sec w. t \<in> set types \<Longrightarrow> P w \<Longrightarrow> res_holds exits P (spawn t cfg sec w)"
  shows "P w \<Longrightarrow> res_holds exits P (initialize_sections types cfg secs w)"
proof (induction secs arbitrary: w)
  case (Cons sec secs)
  have "res_holds exits P (rbind (spawn t cfg sec w) (initialize_sections types cfg secs))"
    if "t \<in> set types" for t
    using res_holds_mono[OF assms[OF that Cons.prems], of exits "\<lambda>w. res_holds exits P (initialize_sections types cfg secs w)"]
      Cons.IH by simp
  with Cons show ?case by (auto split: option.splits dest: device_type_find_in)
qed simp

text \<open>C7. Whatever the order in which the constructors register the twelve device types, all
  registrations succeed and the devices of a configuration are spawned alike. Started on
  registries in order, the program ends with the fatal exit, never in undefined behaviour or
  a failed assertion, or it has a machine whose buses have different names, whose buses each
  have functions of different device and function numbers that carry the number of the bus,
  and whose devices have different names.\<close>

theorem machine_initialises:
  assumes "mset types = mset (machine_types env)" and "machine_wf m"
  shows "\<exists>reg. register_all device_type_register types [] = Inr reg \<and>
    initialize_devices reg cfg m = initialize_devices (machine_types env) cfg m \<and>
    (case initialize_devices reg cfg m of Inl e \<Rightarrow> e = ExitFailure | Inr m' \<Rightarrow> machine_wf m')"
proof -
  have d: "distinct (map type_name (machine_types env))" by (simp add: machine_type_names)
  then have "distinct (map type_name types)"
    using distinct_map_mset[OF assms(1)] by blast
  then obtain reg where reg: "register_all device_type_register types [] = Inr reg"
    using types.register_all_ok[of types "[]"] by auto
  then have "mset reg = mset (machine_types env)" using assms(1) registered_types[OF reg] by simp
  from initialize_sections_cong[OF device_type_find_perm[OF this d]]
  have "initialize_devices reg cfg m = initialize_devices (machine_types env) cfg m"
    by (simp add: initialize_devices_def)
  moreover have "res_holds exits machine_wf (initialize_devices (machine_types env) cfg m)"
    unfolding initialize_devices_def using machine_types_keep assms(2)
    by (intro initialize_sections_keeps) (auto simp: type_keeps_def)
  ultimately show ?thesis using reg by (auto simp: res_holds_def)
qed

text \<open>A configuration with two device sections, of the types registered first and last.\<close>

definition two_devices :: cfg_file where
  "two_devices = \<lparr>file_name = ''c'', file_sections =
    [\<lparr>section_type = ''device'', section_name = ''cpu'',
       section_entries = [\<lparr>entry_name = ''type'', entry_value = CfgString ''usercpu''\<rparr>]\<rparr>,
     \<lparr>section_type = ''device'', section_name = ''fuse'',
       section_entries = [\<lparr>entry_name = ''type'', entry_value = CfgString ''fusectl''\<rparr>,
         \<lparr>entry_name = ''endpoint'', entry_value = CfgInt64 4\<rparr>, \<lparr>entry_name = ''sai'', entry_value = CfgInt64 1\<rparr>]\<rparr>],
    last_section = 1\<rparr>"

theorem machine_initialises_witness:
  "\<forall>env (w :: instances). \<exists>reg m'. register_all device_type_register (rev (machine_types env)) [] = Inr reg \<and>
     initialize_devices reg two_devices
       \<lparr>bus_list = [], sbdev_list = [], device_list = [], cpu_fsb = Map.empty, insts = w\<rparr> = Inr m' \<and>
     map device_name (device_list m') = [''cpu''] \<and> map endpoint (sbdev_list m') = [4] \<and> machine_wf m'"
proof (intro allI)
  fix env and w :: instances
  let ?m = "\<lparr>bus_list = [], sbdev_list = [], device_list = [], cpu_fsb = Map.empty, insts = w\<rparr> :: machine"
  have "machine_wf ?m" by (simp add: machine_wf_def buses_ok_def devices_ok_def)
  then obtain reg where reg: "register_all device_type_register (rev (machine_types env)) [] = Inr reg"
    "initialize_devices reg two_devices ?m = initialize_devices (machine_types env) two_devices ?m"
    "case initialize_devices reg two_devices ?m of Inl e \<Rightarrow> e = ExitFailure | Inr m' \<Rightarrow> machine_wf m'"
    using machine_initialises[of "rev (machine_types env)" env ?m two_devices] by auto
  have "\<exists>m'. initialize_devices (machine_types env) two_devices ?m = Inr m' \<and>
      map device_name (device_list m') = [''cpu''] \<and> map endpoint (sbdev_list m') = [4]"
    by (simp add: initialize_devices_def two_devices_def machine_types_def ocs_type_def att_type_def heci_type_def
        pmc_type_def thub_type_def fastspi_type_def p2g_type_def fusectl_type_def dfxagg_type_def exi_type_def
        usercpu_type_def misa_type_def pci_type_def sb_type_def cfg_finders usercpu_spawn_def device_register_def
        fusectl_spawn_def sb_config_def sb_register_def sb_device_def Let_def)
  with reg show "\<exists>reg m'. register_all device_type_register (rev (machine_types env)) [] = Inr reg \<and>
     initialize_devices reg two_devices ?m = Inr m' \<and>
     map device_name (device_list m') = [''cpu''] \<and> map endpoint (sbdev_list m') = [4] \<and> machine_wf m'"
    by auto
qed

end
