(* ===== verification/MisaFields.thy ===== *)
theory MisaFields
  imports MisaRegs
begin

text \<open>
  \<open>include/misa/regs.h\<close>: the macros for the fields of the registers of the system agent. For each
  register this has the fields that its macros give, with their lowest bits and widths, in the
  order of the header. A register value is put together with \<open>OR\<close> from the values of its fields;
  if no two fields share a bit, every field reads back what was put into it.
\<close>

section \<open>Fields\<close>

type_synonym field = "string \<times> nat \<times> nat"

definition field_bits :: "field \<Rightarrow> nat list" where
  "field_bits f = (case f of (name, low, width) \<Rightarrow> [low..<low + width])"

text \<open>A macro with an argument, a macro that is a mask in place, and the field of a register value.
  The argument is a value: several macros do not put it in parentheses.\<close>

definition field_put :: "field \<Rightarrow> u32 \<Rightarrow> u32" where
  "field_put f v = (case f of (name, low, width) \<Rightarrow> push_bit low (v AND mask width))"

definition field_mask :: "field \<Rightarrow> u32" where
  "field_mask f = (case f of (name, low, width) \<Rightarrow> push_bit low (mask width))"

definition field_get :: "field \<Rightarrow> u32 \<Rightarrow> u32" where
  "field_get f r = (case f of (name, low, width) \<Rightarrow> drop_bit low r AND mask width)"

fun compose_fields :: "(field \<times> u32) list \<Rightarrow> u32" where
  "compose_fields [] = 0"
| "compose_fields ((f, v) # rest) = field_put f v OR compose_fields rest"

section \<open>The registers\<close>

definition BCTRL_fields :: "field list" where
  "BCTRL_fields = [(''RQLIMIT'', 16, 4), (''SNPE'', 11, 1), (''MVE'', 8, 1), (''RDE'', 7, 1),
     (''BECLKGTEN'', 2, 1), (''MCLKGTEN'', 1, 1), (''SCRATCHPAD'', 0, 1)]"

definition BWFLUSH_fields :: "field list" where
  "BWFLUSH_fields = [(''SNPDIS'', 24, 1), (''AEIDLE'', 17, 1), (''AEFLUSH'', 16, 1), (''DLWM'', 8, 8), (''DHWM'', 0, 8)]"

definition FWDCTL_fields :: "field list" where
  "FWDCTL_fields = [(''WDTEN'', 16, 1), (''TO2_V'', 8, 8), (''TO1_V'', 0, 8)]"

text \<open>The second one is about the write port, the register after this one.\<close>

definition FWDTRP_fields :: "field list" where
  "FWDTRP_fields = [(''WDTRV'', 0, 8), (''WDTWP'', 0, 8)]"

definition CCTRL_fields :: "field list" where
  "CCTRL_fields = [(''SKPD'', 2, 6), (''MCLKGTEN'', 1, 1), (''CCLKGTEN'', 0, 1)]"

definition HMISC0_fields :: "field list" where
  "HMISC0_fields = [(''CMDTRKSIZE'', 24, 8), (''PERFMEN'', 20, 1), (''PRISTS'', 18, 2), (''SNPALIMIT'', 16, 2),
     (''HCDIS'', 15, 1), (''SKPD'', 14, 1), (''HLRUCLKGTEN'', 13, 1), (''HCACHECLKGTEN'', 12, 1), (''HXCCLKGTEN'', 11, 1),
     (''HMSGCLKGTEN'', 10, 1), (''HCMDCLKGTEN'', 9, 1), (''PHBYPEN'', 8, 1), (''BHBYPEN'', 7, 1), (''HHBYPEN'', 6, 1),
     (''IOFWEN'', 5, 1), (''CACHERDLEN'', 4, 1), (''MIATCEN'', 3, 1), (''MIACLKGTEN'', 2, 1), (''MISASTPCLKEN'', 1, 1),
     (''MIAIDLE'', 0, 1)]"

definition HMBOUND_fields :: "field list" where
  "HMBOUND_fields = [(''HMBOUND'', 12, 20), (''HMLOCK'', 0, 1)]"

definition HEC_fields :: "field list" where
  "HEC_fields = [(''ECBASE'', 28, 4), (''ECEN'', 0, 1)]"

definition HROMMB_fields :: "field list" where
  "HROMMB_fields = [(''ROMBASE'', 12, 20)]"

definition HMLSE_fields :: "field list" where
  "HMLSE_fields = [(''NMI'', 14, 1), (''INT'', 10, 1)]"

definition HWFLUSH_fields :: "field list" where
  "HWFLUSH_fields = [(''ALLFLUSHED'', 16, 1), (''HWM'', 0, 8)]"

definition HLRURES_fields :: "field list" where
  "HLRURES_fields = [(''LRURES'', 0, 20)]"

definition HLRUCR_fields :: "field list" where
  "HLRUCR_fields = [(''CMD'', 30, 2), (''PGNUM'', 0, 20)]"

text \<open>The header gives the page number of this register the name of the one above.\<close>

definition HLRULERR_fields :: "field list" where
  "HLRULERR_fields = [(''LRULES'', 31, 1), (''RPNEE'', 30, 1), (''APLFE'', 29, 1), (''APPGNUMEE'', 28, 1), (''PGNUM'', 0, 20)]"

definition HFWDBG_fields :: "field list" where
  "HFWDBG_fields = [(''LOCK'', 16, 1), (''SEND'', 15, 1), (''RECSIG'', 14, 1), (''SKPD'', 8, 6), (''FWMSG'', 0, 8)]"

definition ACF8_fields :: "field list" where
  "ACF8_fields = [(''CF8EN'', 31, 1), (''BUS'', 16, 8), (''DEV'', 11, 5), (''FUNC'', 8, 3), (''REGOFF'', 2, 6)]"

definition ACTRL_fields :: "field list" where
  "ACTRL_fields = [(''PRISTS'', 8, 2), (''SKPD'', 2, 6), (''AIOMCLKGTEN'', 1, 1), (''ACLKGTEN'', 0, 1)]"

definition AMISRCTL_fields :: "field list" where
  "AMISRCTL_fields = [(''MISREN'', 8, 1), (''MISRRST'', 0, 1)]"

text \<open>\<open>ENDCPLAC\<close> is defined twice in the same way.\<close>

definition AAVCTL_fields :: "field list" where
  "AAVCTL_fields = [(''ENDMAAC'', 31, 1), (''ENDMSIAC'', 30, 1), (''ENDCPLAC'', 29, 1), (''ENDMATM'', 28, 1),
     (''AVES'', 11, 1), (''AVTYPE'', 8, 2), (''AVSAI'', 0, 8)]"

definition AIOMCTL_fields :: "field list" where
  "AIOMCTL_fields = [(''IACPEN'', 0, 1), (''IATEN'', 1, 1), (''UMCEN'', 2, 1), (''IACPENLK'', 2, 1)]"

definition AIOMERR_fields :: "field list" where
  "AIOMERR_fields = [(''IES'', 31, 1), (''ATTLPAE'', 30, 1), (''DMAACPSAIAE'', 29, 1)]"

definition AIOMLIN_fields :: "field list" where
  "AIOMLIN_fields = [(''LINPGMAP'', 12, 20), (''EVLD'', 0, 1)]"

lemmas misa_field_defs = BCTRL_fields_def BWFLUSH_fields_def FWDCTL_fields_def FWDTRP_fields_def CCTRL_fields_def
  HMISC0_fields_def HMBOUND_fields_def HEC_fields_def HROMMB_fields_def HMLSE_fields_def HWFLUSH_fields_def
  HLRURES_fields_def HLRUCR_fields_def HLRULERR_fields_def HFWDBG_fields_def ACF8_fields_def ACTRL_fields_def
  AMISRCTL_fields_def AAVCTL_fields_def AIOMCTL_fields_def AIOMERR_fields_def AIOMLIN_fields_def

text \<open>The macros that the emulator uses are these fields.\<close>

lemma used_macros:
  "MISA_ACF8_BUS v = field_put (''BUS'', 16, 8) v" "MISA_ACF8_DEV v = field_put (''DEV'', 11, 5) v"
  "MISA_ACF8_FUNC v = field_put (''FUNC'', 8, 3) v"
  "MISA_ACF8_G_BUS r = field_get (''BUS'', 16, 8) r" "MISA_ACF8_G_DEV r = field_get (''DEV'', 11, 5) r"
  "MISA_ACF8_G_FUNC r = field_get (''FUNC'', 8, 3) r"
  "MISA_ACF8_REGOFF v = v AND field_mask (''REGOFF'', 2, 6)" "MISA_ACF8_G_REGOFF v = v AND field_mask (''REGOFF'', 2, 6)"
  "MISA_ACF8_CF8EN = field_mask (''CF8EN'', 31, 1)" "MISA_HEC_ECEN = field_mask (''ECEN'', 0, 1)"
  "MISA_AIOMCTL_IATEN = field_mask (''IATEN'', 1, 1)" "MISA_AIOMLIN_EVLD = field_mask (''EVLD'', 0, 1)"
  "MISA_HMBOUND_HMBOUND_MASK = field_mask (''HMBOUND'', 12, 20)" "MISA_HEC_ECBASE_MASK = field_mask (''ECBASE'', 28, 4)"
  "MISA_HROMMB_ROMBASE_MASK = field_mask (''ROMBASE'', 12, 20)"
  "MISA_AIOMLIN_LINPGMAP_MASK = field_mask (''LINPGMAP'', 12, 20)"
  by (simp_all add: field_put_def field_get_def field_mask_def MISA_ACF8_BUS_def MISA_ACF8_DEV_def MISA_ACF8_FUNC_def
      MISA_ACF8_G_BUS_def MISA_ACF8_G_DEV_def MISA_ACF8_G_FUNC_def MISA_ACF8_REGOFF_def MISA_ACF8_G_REGOFF_def MISA_ACF8_CF8EN_def MISA_HEC_ECEN_def BIT_def
      MISA_AIOMCTL_IATEN_def MISA_AIOMLIN_EVLD_def MISA_HMBOUND_HMBOUND_MASK_def MISA_HEC_ECBASE_MASK_def
      MISA_HROMMB_ROMBASE_MASK_def MISA_AIOMLIN_LINPGMAP_MASK_def mask_eq_exp_minus_1 push_bit_eq_mult)

section \<open>Fields that do not share a bit\<close>

definition fields_apart :: "field list \<Rightarrow> bool" where
  "fields_apart fs \<longleftrightarrow> distinct (concat (map field_bits fs)) \<and> list_all (\<lambda>(name, low, width). low + width \<le> 32) fs"

lemma bit_field_put: "bit (field_put f v) i \<Longrightarrow> i \<in> set (field_bits f)"
  by (auto simp: field_put_def field_bits_def bit_simps split: prod.splits)

lemma bit_compose_outside: "i \<notin> set (concat (map field_bits (map fst fvs))) \<Longrightarrow> \<not> bit (compose_fields fvs) i"
  by (induction fvs rule: compose_fields.induct) (auto simp: bit_simps dest: bit_field_put)

lemma bit_compose:
  assumes "distinct (concat (map field_bits (map fst fvs)))" and "(f, v) \<in> set fvs" and "i \<in> set (field_bits f)"
  shows "bit (compose_fields fvs) i = bit (field_put f v) i"
  using assms
proof (induction fvs rule: compose_fields.induct)
  case (2 g u rest)
  have apart: "set (field_bits g) \<inter> set (concat (map field_bits (map fst rest))) = {}"
    using 2(2) by simp
  show ?case
  proof (cases "(f, v) = (g, u)")
    case True
    then have "i \<notin> set (concat (map field_bits (map fst rest)))" using apart 2(4) by blast
    with True show ?thesis by (simp add: bit_or_iff bit_compose_outside del: set_concat)
  next
    case False
    then have r: "(f, v) \<in> set rest" using 2(3) by auto
    then have "i \<in> set (concat (map field_bits (map fst rest)))" using 2(4) by force
    then have "\<not> bit (field_put g u) i" using apart bit_field_put[of g u i] by blast
    with 2(1)[OF _ r 2(4)] 2(2) show ?thesis by (simp add: bit_or_iff)
  qed
qed simp

text \<open>In a register whose fields do not share a bit, every field reads back its value.\<close>

lemma compose_fields_get:
  assumes "fields_apart (map fst fvs)" and "(f, v) \<in> set fvs"
  shows "field_get f (compose_fields fvs) = v AND mask (snd (snd f))"
proof (cases f)
  case (fields name low width)
  then have low: "low + width \<le> 32" using assms by (fastforce simp: fields_apart_def list_all_iff)
  have bits: "bit (compose_fields fvs) (low + i) = bit v i" if "i < width" for i
    using bit_compose[of fvs f v "low + i"] assms that low
    by (simp add: fields fields_apart_def field_bits_def field_put_def bit_simps)
  have "bit (drop_bit low (compose_fields fvs) AND mask width) n = bit (v AND mask width) n" for n
    using bits[of n] by (cases "n < width") (simp_all add: bit_simps)
  then show ?thesis by (simp add: fields field_get_def bit_eq_iff)
qed

lemma misa_fields_apart:
  "list_all fields_apart [BCTRL_fields, BWFLUSH_fields, FWDCTL_fields, CCTRL_fields, HMISC0_fields, HMBOUND_fields,
     HEC_fields, HROMMB_fields, HMLSE_fields, HWFLUSH_fields, HLRURES_fields, HLRUCR_fields, HLRULERR_fields,
     HFWDBG_fields, ACF8_fields, ACTRL_fields, AMISRCTL_fields, AAVCTL_fields, AIOMERR_fields, AIOMLIN_fields]"
  by (simp add: fields_apart_def misa_field_defs field_bits_def upt_rec)

text \<open>
  In the control register of the IOMMU two fields are one bit: the lock of the access control also
  enables the check of messages, and the other way round.
\<close>

lemma aiomctl_fields_clash:
  "\<not> fields_apart AIOMCTL_fields" "field_mask (AIOMCTL_fields ! 2) = field_mask (AIOMCTL_fields ! 3)"
  by (simp_all add: fields_apart_def misa_field_defs field_bits_def field_mask_def)

end
