(* ===== verification/FuseLog.thy ===== *)
theory FuseLog
  imports Sideband Printf
begin

text \<open>
  The messages of the fuse controller (\<open>periph/fuse/fusectl.c\<close>), which decode its address and
  sequencer registers: \<open>fusectl_process\<close> with its output. Without the output it is the step of
  \<open>Sideband\<close>, over which the accesses of the sideband are written.
\<close>

definition fuse_field :: "u32 \<Rightarrow> nat \<Rightarrow> u32 \<Rightarrow> va_slot" where
  "fuse_field v sh m = VaWord (drop_bit sh v AND m)"

definition fusectl_dump_addr :: "string \<Rightarrow> fusectl_inst \<Rightarrow> log_world \<Rightarrow> log_world res" where
  "fusectl_dump_addr name i w =
    (let baraddr = fuse_field (intel_address i) 17 0x7;
         sp_modaddrmsb = fuse_field (intel_address i) 16 0x1;
         modaddr = fuse_field (intel_address i) 10 0x3F;
         blkaddr = fuse_field (intel_address i) 7 0x7;
         rowaddr = fuse_field (intel_address i) 2 0x1F
     in log_msg 2 name ''rowaddr: %02X blkaddr: %i modaddr: %02X sp_modaddrmsb: %i baraddr: %i''
          [rowaddr, blkaddr, modaddr, sp_modaddrmsb, baraddr] w)"

definition fusectl_dump_fsm :: "string \<Rightarrow> fusectl_inst \<Rightarrow> log_world \<Rightarrow> log_world res" where
  "fusectl_dump_fsm name i w =
    (let f = fuse_field (intel_fsm_ctrl i) in
     rbind (log_msg 2 name ''gblpgmen: %i mode_sel: %i hvprotect: %i fsmstart: %i fsmreset: %i repschmsel: %i''
       [f 0 1, f 1 7, f 22 1, f 23 1, f 24 1, f 31 1] w) (\<lambda>w.
     rbind (log_msg 2 name ''favor0hd: %i favor1hd: %i sensehizhd: %i senselvlbhd: %i senselvlhd: %i''
       [f 4 7, f 7 7, f 10 1, f 11 1, f 12 1] w) (\<lambda>w.
     log_msg 2 name ''favor0hs: %i favor1hs: %i sensehizhs: %i senselvlbhs: %i senselvlhs: %i''
       [f 13 7, f 16 7, f 19 1, f 20 1, f 21 1] w)))"

text \<open>The body of an \<open>if\<close> that prints \<open>msg\<close> and turns the state into \<open>j\<close>.\<close>

definition fuse_step :: "bool \<Rightarrow> (log_world \<Rightarrow> log_world res) \<Rightarrow> fusectl_inst \<Rightarrow> fusectl_inst \<Rightarrow> log_world \<Rightarrow>
    (fusectl_inst \<times> log_world) res" where
  "fuse_step c msg j i w = (if c then rbind (msg w) (\<lambda>w. Inr (j, w)) else Inr (i, w))"

text \<open>The dump of the sequencer comes after its start bit is cleared, so it shows \<open>fsmstart: 0\<close>.\<close>

definition fusectl_process_log :: "string \<Rightarrow> fusectl_inst \<Rightarrow> log_world \<Rightarrow> (fusectl_inst \<times> log_world) res" where
  "fusectl_process_log name i w =
    rbind (fuse_step (tst (fuse_control i) (BIT 17))
        (log_msg 4 name ''Requested command 0x20000 with control word %08X'' [VaWord (fuse_control i)])
        (i\<lparr>fuse_control := (fuse_control i AND NOT (BIT 17 OR 0x90)) OR 0x90\<rparr>) i w) (\<lambda>(i, w).
    rbind (fuse_step (tst (fuse_control i) (BIT 18))
        (log_msg 4 name ''Requested command 0x40000 with control word %08X'' [VaWord (fuse_control i)])
        (i\<lparr>fuse_control := 0x90\<rparr>) i w) (\<lambda>(i, w).
    let i = (if tst (intel_debug_status i) (BIT 31) then i\<lparr>intel_debug_status := 0\<rparr> else i);
        j = i\<lparr>intel_fsm_ctrl := intel_fsm_ctrl i AND NOT (BIT 23)\<rparr> in
    rbind (fuse_step (tst (intel_fsm_ctrl i) (BIT 23))
        (\<lambda>w. rbind (log_msg 4 name ''Requested FSM start with control word %08X'' [VaWord (intel_fsm_ctrl j)] w) (\<lambda>w.
             rbind (fusectl_dump_fsm name j w) (fusectl_dump_addr name j)))
        (j\<lparr>intel_debug_status := intel_debug_status j OR BIT 1\<rparr>) i w) (\<lambda>(i, w).
    let j = i\<lparr>intel_fsm_ctrl := intel_fsm_ctrl i AND NOT (BIT 24)\<rparr> in
    fuse_step (tst (intel_fsm_ctrl i) (BIT 24))
      (log_msg 4 name ''Requested FSM stop with control word %08X'' [VaWord (intel_fsm_ctrl j)]) j i w)))"

text \<open>The messages do not change what the step does to the registers.\<close>

lemma fuse_step_state: "rbind (fuse_step c msg j i w) f = Inr r \<Longrightarrow> \<exists>w. f (if c then j else i, w) = Inr r"
  by (cases "msg w") (auto simp: fuse_step_def split: if_splits)

lemma fuse_step_last: "fuse_step c msg j i w = Inr (i', w') \<Longrightarrow> i' = (if c then j else i)"
  by (cases "msg w") (auto simp: fuse_step_def split: if_splits)

lemma fusectl_process_log_state: "fusectl_process_log name i w = Inr (i', w') \<Longrightarrow> i' = fusectl_process i"
  unfolding fusectl_process_log_def fusectl_process_def Let_def
  by (drule fuse_step_state, elim exE, simp only: prod.case, drule fuse_step_state, elim exE, simp only: prod.case,
      drule fuse_step_state, elim exE, simp only: prod.case, drule fuse_step_last)
    (simp cong: if_cong)

end
