(* ===== verification/HostMem.thy ===== *)
theory HostMem
  imports Layout
begin

text \<open>
  The memory of the process, which the guest's native code shares with the emulator: the bytes
  at the addresses that are mapped. An access to an address that is not mapped is a fault.
\<close>

type_synonym memory = "u32 \<rightharpoonup> u8"

definition mapped :: "u32 \<Rightarrow> nat \<Rightarrow> memory \<Rightarrow> bool" where
  "mapped a n m \<longleftrightarrow> list_all (\<lambda>i. m (a + of_nat i) \<noteq> None) [0..<n]"

definition mem_load :: "u32 \<Rightarrow> nat \<Rightarrow> memory \<Rightarrow> bytes res" where
  "mem_load a n m = (if mapped a n m then Inr (map (\<lambda>i. the (m (a + of_nat i))) [0..<n]) else Inl OutOfBounds)"

definition mem_store :: "u32 \<Rightarrow> bytes \<Rightarrow> memory \<Rightarrow> memory res" where
  "mem_store a bs m =
    (if mapped a (length bs) m then Inr (\<lambda>x. if unat (x - a) < length bs then Some (bs ! unat (x - a)) else m x)
     else Inl OutOfBounds)"

text \<open>Two ranges without a common address.\<close>

definition apart :: "u32 \<Rightarrow> nat \<Rightarrow> u32 \<Rightarrow> nat \<Rightarrow> bool" where
  "apart a n b k \<longleftrightarrow> (\<forall>i<n. \<forall>j<k. a + of_nat i \<noteq> b + of_nat j)"

lemma mapped_iff: "mapped a n m \<longleftrightarrow> (\<forall>i<n. m (a + of_nat i) \<noteq> None)"
  by (auto simp: mapped_def list_all_iff)

lemma mapped_sub:
  assumes "mapped a n m" and "i + k \<le> n"
  shows "mapped (a + of_nat i) k m"
  unfolding mapped_iff
proof (intro allI impI)
  fix j assume "j < k"
  then have "m (a + of_nat (i + j)) \<noteq> None" using assms by (simp add: mapped_iff del: of_nat_add)
  then show "m (a + of_nat i + of_nat j) \<noteq> None" by (simp add: add.assoc)
qed

lemma apart_sub:
  assumes "apart a n b k" and "i + n' \<le> n" and "k' \<le> k"
  shows "apart (a + of_nat i) n' b k'"
  unfolding apart_def
proof (intro allI impI)
  fix j l assume "j < n'" "l < k'"
  then have "a + of_nat (i + j) \<noteq> b + of_nat l" using assms by (simp add: apart_def del: of_nat_add)
  then show "a + of_nat i + of_nat j \<noteq> b + of_nat l" by (simp add: add.assoc)
qed

lemma apart_sym: "apart a n b k \<Longrightarrow> apart b k a n"
  by (metis apart_def)

lemma length_mem_load: "mem_load a n m = Inr bs \<Longrightarrow> length bs = n"
  by (auto simp: mem_load_def split: if_splits)

lemma mem_load_mapped: "mapped a n m \<Longrightarrow> \<exists>bs. mem_load a n m = Inr bs \<and> length bs = n"
  by (simp add: mem_load_def)

text \<open>A store changes exactly its range, and the mapping not at all.\<close>

lemma mem_store_mapped: "mem_store a bs m = Inr m' \<Longrightarrow> mapped b n m' = mapped b n m"
  unfolding mapped_iff
proof -
  assume s: "mem_store a bs m = Inr m'"
  have "m' x \<noteq> None \<longleftrightarrow> m x \<noteq> None" for x
  proof (cases "unat (x - a) < length bs")
    case True
    then have "m (a + of_nat (unat (x - a))) \<noteq> None" using s by (auto simp: mem_store_def mapped_iff split: if_splits)
    then show ?thesis using s True by (auto simp: mem_store_def split: if_splits)
  next
    case False
    then show ?thesis using s by (auto simp: mem_store_def split: if_splits)
  qed
  then show "(\<forall>i<n. m' (b + of_nat i) \<noteq> None) = (\<forall>i<n. m (b + of_nat i) \<noteq> None)" by simp
qed

lemma mem_load_store_same:
  assumes "mem_store a bs m = Inr m'" and "length bs \<le> 2 ^ 32"
  shows "mem_load a (length bs) m' = Inr bs"
proof -
  have "mapped a (length bs) m" using assms(1) by (simp add: mem_store_def split: if_splits)
  then have "mapped a (length bs) m'" using mem_store_mapped[OF assms(1)] by simp
  moreover have "map (\<lambda>i. the (m' (a + of_nat i))) [0..<length bs] = bs"
  proof (rule nth_equalityI, simp)
    fix i assume "i < length (map (\<lambda>i. the (m' (a + of_nat i))) [0..<length bs])"
    then have i: "i < length bs" by simp
    then have "unat (a + of_nat i - a) = i" using assms(2) by (simp add: unat_of_nat take_bit_nat_eq_self)
    then show "map (\<lambda>i. the (m' (a + of_nat i))) [0..<length bs] ! i = bs ! i"
      using assms(1) i by (auto simp: mem_store_def split: if_splits)
  qed
  ultimately show ?thesis by (simp add: mem_load_def)
qed

lemma mem_load_store_other:
  assumes "mem_store a bs m = Inr m'" and "apart b n a (length bs)"
  shows "mem_load b n m' = mem_load b n m"
proof -
  have "m' (b + of_nat i) = m (b + of_nat i)" if "i < n" for i
  proof -
    have "\<not> unat (b + of_nat i - a) < length bs"
    proof
      assume l: "unat (b + of_nat i - a) < length bs"
      have "b + of_nat i = a + of_nat (unat (b + of_nat i - a))" by simp
      then show False using assms(2)[unfolded apart_def, rule_format, OF that l] by simp
    qed
    then show ?thesis using assms(1) by (auto simp: mem_store_def split: if_splits)
  qed
  then show ?thesis
    unfolding mem_load_def mem_store_mapped[OF assms(1)] by (auto intro!: map_cong)
qed

lemma mem_store_total: "mapped a (length bs) m \<Longrightarrow> \<exists>m'. mem_store a bs m = Inr m'"
  by (simp add: mem_store_def)

lemma mem_load_split:
  assumes "mem_load a n m = Inr bs" and "i + k \<le> n"
  shows "mem_load (a + of_nat i) k m = Inr (slice i k bs)"
proof -
  have m: "mapped a n m" using assms(1) by (auto simp: mem_load_def split: if_splits)
  have "map (\<lambda>j. the (m (a + of_nat i + of_nat j))) [0..<k] = slice i k bs"
    using assms m by (intro nth_equalityI) (auto simp: mem_load_def add.assoc)
  then show ?thesis using mapped_sub[OF m assms(2)] by (simp add: mem_load_def)
qed

text \<open>A 32 bit member of a packed struct at an address.\<close>

definition field_addr :: "u32 \<Rightarrow> layout \<Rightarrow> string \<Rightarrow> u32" where
  "field_addr p struct name = p + of_nat (offset_of struct name)"

definition load_field :: "u32 \<Rightarrow> layout \<Rightarrow> string \<Rightarrow> memory \<Rightarrow> u32 res" where
  "load_field p struct name m = rbind (mem_load (field_addr p struct name) 4 m) ld32"

definition store_field :: "u32 \<Rightarrow> layout \<Rightarrow> string \<Rightarrow> u32 \<Rightarrow> memory \<Rightarrow> memory res" where
  "store_field p struct name v m = mem_store (field_addr p struct name) (le_bytes 4 v) m"

text \<open>Two parts of an object that do not overlap.\<close>

lemma apart_offsets:
  assumes "i + n \<le> j \<or> j + k \<le> i" and "i + n \<le> 2 ^ 32" and "j + k \<le> 2 ^ 32"
  shows "apart (p + of_nat i) n (p + of_nat j) k"
  unfolding apart_def
proof (intro allI impI)
  fix x y assume xy: "x < n" "y < k"
  have "(of_nat (i + x) :: u32) \<noteq> of_nat (j + y)"
  proof
    assume "(of_nat (i + x) :: u32) = of_nat (j + y)"
    then have "unat (of_nat (i + x) :: u32) = unat (of_nat (j + y) :: u32)" by simp
    moreover have "i + x < 2 ^ 32" "j + y < 2 ^ 32" using assms xy by linarith+
    ultimately have "i + x = j + y" by (simp add: unat_of_nat take_bit_nat_eq_self del: of_nat_add)
    then show False using assms(1) xy by linarith
  qed
  then show "p + of_nat i + of_nat x \<noteq> p + of_nat j + of_nat y" by (simp add: add.assoc)
qed

text \<open>Fields of structs, given the bytes of the struct or after a store to another field.\<close>

lemma load_field_bytes:
  assumes "mem_load p (layout_size l) m = Inr bs" and "offset_of l name + 4 \<le> layout_size l"
  shows "load_field p l name m = ld32 (slice (offset_of l name) 4 bs)"
  using mem_load_split[OF assms] by (simp add: load_field_def field_addr_def)

lemma load_store_field:
  assumes "store_field p l name v m = Inr m'"
  shows "load_field p l name m' = Inr v"
    and "offset_of l name + 4 \<le> offset_of l name' \<or> offset_of l name' + 4 \<le> offset_of l name \<Longrightarrow>
      offset_of l name + 4 \<le> 2 ^ 32 \<Longrightarrow> offset_of l name' + 4 \<le> 2 ^ 32 \<Longrightarrow>
      load_field p l name' m' = load_field p l name' m"
    and "apart a n p (layout_size l) \<Longrightarrow> offset_of l name + 4 \<le> layout_size l \<Longrightarrow> mem_load a n m' = mem_load a n m"
    and "mapped a n m' = mapped a n m"
proof -
  note s = assms[unfolded store_field_def]
  show "load_field p l name m' = Inr v"
    using mem_load_store_same[OF s] by (simp add: load_field_def)
  show "mapped a n m' = mapped a n m" by (rule mem_store_mapped[OF s])
next
  note s = assms[unfolded store_field_def]
  assume "offset_of l name + 4 \<le> offset_of l name' \<or> offset_of l name' + 4 \<le> offset_of l name"
    "offset_of l name + 4 \<le> 2 ^ 32" "offset_of l name' + 4 \<le> 2 ^ 32"
  then have "apart (field_addr p l name') 4 (field_addr p l name) 4"
    unfolding field_addr_def by (intro apart_offsets) auto
  then show "load_field p l name' m' = load_field p l name' m"
    using mem_load_store_other[OF s] by (simp add: load_field_def)
next
  note s = assms[unfolded store_field_def]
  assume a: "apart a n p (layout_size l)" and o: "offset_of l name + 4 \<le> layout_size l"
  have "apart a n (field_addr p l name) (length (le_bytes 4 v))"
    using apart_sym[OF apart_sub[OF apart_sym[OF a] o order_refl]] by (simp add: field_addr_def)
  then show "mem_load a n m' = mem_load a n m" by (rule mem_load_store_other[OF s])
qed

lemma store_field_total:
  "mapped p (layout_size l) m \<Longrightarrow> offset_of l name + 4 \<le> layout_size l \<Longrightarrow> \<exists>m'. store_field p l name v m = Inr m'"
  unfolding store_field_def field_addr_def by (intro mem_store_total mapped_sub) simp_all

end
