(* ===== verification/Snowball.thy ===== *)
theory Snowball
  imports CfgFile HostMem
begin

text \<open>
  \<open>user/kernel/snowball.c\<close> and \<open>util/file.c\<close>: the data that the boot ROM hands over to the
  guest, a stream of blocks with a header each, which the sections of type \<open>snowball\<close> of the
  configuration describe and which the guest reads in pieces of any size. The host's files
  are a map from paths to contents.
\<close>

section \<open>Files\<close>

text \<open>A missing file and an empty one, which cannot be mapped, end the program. The size is cut
  to 16 bits, the buffer is not.\<close>

definition read_full_file :: "(string \<rightharpoonup> bytes) \<Rightarrow> string \<Rightarrow> (bytes \<times> u16) res" where
  "read_full_file files path =
    (case files path of
       None \<Rightarrow> Inl ExitFailure
     | Some data \<Rightarrow> if data = [] then Inl ExitFailure else Inr (data, of_nat (length data)))"

section \<open>Blocks\<close>

definition romhandoff_block :: layout where
  "romhandoff_block = [(''name'', 12), (''unk0'', 1), (''flags'', 1), (''size'', 2), (''unk1'', 2)]"

record snowball =
  snowball_buffer :: bytes
  snowball_wrptr :: int
  snowball_rdptr :: int

definition SNOWBALL_SIZE :: nat where "SNOWBALL_SIZE = 0x1FE000"

text \<open>\<open>strncpy(block->name, name, 12)\<close>: no terminator if the name is too long.\<close>

definition strncpy_name :: "string \<Rightarrow> bytes" where
  "strncpy_name name = take 12 (c_bytes name @ replicate 12 0)"

definition block_header :: "string \<Rightarrow> int \<Rightarrow> int \<Rightarrow> int \<Rightarrow> int \<Rightarrow> bytes" where
  "block_header name unk0 flags total_size unk1 =
    strncpy_name name @ [word_of_int unk0, word_of_int flags OR 1] @
    le_bytes 2 (word_of_int total_size :: u16) @ le_bytes 2 (word_of_int unk1 :: u16)"

definition snowball_add :: "string \<Rightarrow> int \<Rightarrow> int \<Rightarrow> int \<Rightarrow> int \<Rightarrow> bytes \<Rightarrow> snowball \<Rightarrow> snowball res" where
  "snowball_add name unk0 flags sz unk1 data s =
    (let total_size = sz + int (layout_size romhandoff_block); wr = snowball_wrptr s in
     if (word_of_int (total_size + wr) :: u32) \<ge> of_nat SNOWBALL_SIZE then Inr s
     else
       rbind (memcpy (nat wr) (layout_size romhandoff_block) (block_header name unk0 flags total_size unk1)
         (snowball_buffer s)) (\<lambda>b.
       rbind (memcpy_int (nat wr + layout_size romhandoff_block) sz data b) (\<lambda>b.
         Inr (s\<lparr>snowball_buffer := b, snowball_wrptr := wr + total_size\<rparr>))))"

section \<open>Sections of the configuration\<close>

text \<open>The size and the data of a section; the data of a string includes its NUL, the data of an
  integer is its 8 bytes.\<close>

definition snowball_data :: "(string \<rightharpoonup> bytes) \<Rightarrow> cfg_section \<Rightarrow> (u16 \<times> bytes) res" where
  "snowball_data files sec =
    (case cfg_find_string sec ''path'' of
       Some path \<Rightarrow> rbind (read_full_file files path) (\<lambda>(data, sz). Inr (sz, data))
     | None \<Rightarrow>
         let s = cfg_find_int16 sec ''size'' in
         (case cfg_find_entry sec ''value'' of
            None \<Rightarrow> (case s of None \<Rightarrow> Inl ExitFailure | Some sz \<Rightarrow> Inr (sz, replicate (unat sz) 0))
          | Some value \<Rightarrow>
              (case entry_value value of
                 CfgString str \<Rightarrow>
                   (case s of
                      None \<Rightarrow> Inr (of_nat (length str), c_bytes str @ [0])
                    | Some sz \<Rightarrow>
                        if unat sz \<le> length str + 1 then Inr (sz, c_bytes str @ [0]) else Inl ExitFailure)
               | CfgInt64 v \<Rightarrow>
                   (case s of
                      None \<Rightarrow> Inl ExitFailure
                    | Some sz \<Rightarrow> if sz \<le> 8 then Inr (sz, le_bytes 8 v) else Inl ExitFailure))))"

definition snowball_add_section :: "(string \<rightharpoonup> bytes) \<Rightarrow> cfg_section \<Rightarrow> snowball \<Rightarrow> snowball res" where
  "snowball_add_section files sec s =
    (let flags = cfg_or (cfg_find_int16 sec ''flags'') 0;
         unk0 = cfg_or (cfg_find_int16 sec ''unknown_0'') 0;
         unk1 = cfg_or (cfg_find_int16 sec ''unknown_1'') 0
     in rbind (snowball_data files sec) (\<lambda>(sz, data).
          snowball_add (section_name sec) (uint unk0) (uint flags) (uint sz) (uint unk1) data s))"

fun snowball_sections :: "(string \<rightharpoonup> bytes) \<Rightarrow> cfg_section list \<Rightarrow> snowball \<Rightarrow> snowball res" where
  "snowball_sections files [] s = Inr s"
| "snowball_sections files (sec # next) s =
    (if section_type sec \<noteq> ''snowball'' then snowball_sections files next s
     else rbind (snowball_add_section files sec s) (snowball_sections files next))"

definition snowball_init :: "(string \<rightharpoonup> bytes) \<Rightarrow> cfg_file \<Rightarrow> snowball \<Rightarrow> snowball res" where
  "snowball_init files file s = snowball_sections files (file_sections file) s"

section \<open>The call of the guest\<close>

definition handoff_read_pars :: layout where
  "handoff_read_pars = [(''size'', word32), (''buffer'', word32), (''size2'', word32), (''actualsize'', word32)]"

text \<open>The parameters are in the memory of the guest, at \<open>par\<close>.\<close>

definition snowball_read :: "u32 \<Rightarrow> snowball \<Rightarrow> memory \<Rightarrow> (snowball \<times> memory) res" where
  "snowball_read par s m =
    rbind (load_field par handoff_read_pars ''size'' m) (\<lambda>sz.
    let turnsize = sint sz; avail = snowball_wrptr s - snowball_rdptr s in
    rbind (store_field par handoff_read_pars ''actualsize'' 0 m) (\<lambda>m.
    rbind (load_field par handoff_read_pars ''size'' m) (\<lambda>sz.
    rbind (load_field par handoff_read_pars ''size2'' m) (\<lambda>size2.
    if sz \<noteq> size2 then Inr (s, m)
    else if avail = 0 then Inr (s, m)
    else
      let turnsize = (if avail < turnsize then avail else turnsize) in
      rbind (store_field par handoff_read_pars ''actualsize'' (word_of_int turnsize) m) (\<lambda>m.
      rbind (load_field par handoff_read_pars ''buffer'' m) (\<lambda>buf.
      if turnsize < 0 \<or> snowball_rdptr s + turnsize > int (length (snowball_buffer s)) then Inl OutOfBounds
      else
        rbind (mem_store buf (slice (nat (snowball_rdptr s)) (nat turnsize) (snowball_buffer s)) m) (\<lambda>m.
          Inr (s\<lparr>snowball_rdptr := snowball_rdptr s + turnsize\<rparr>, m))))))))"

section \<open>The stream\<close>

definition snow_wf :: "snowball \<Rightarrow> bool" where
  "snow_wf s \<longleftrightarrow> length (snowball_buffer s) = SNOWBALL_SIZE \<and> 0 \<le> snowball_rdptr s \<and>
     snowball_rdptr s \<le> snowball_wrptr s \<and> snowball_wrptr s \<le> int SNOWBALL_SIZE"

definition unread :: "snowball \<Rightarrow> bytes" where
  "unread s = slice (nat (snowball_rdptr s)) (nat (snowball_wrptr s - snowball_rdptr s)) (snowball_buffer s)"

definition snow_empty :: snowball where
  "snow_empty = \<lparr>snowball_buffer = replicate SNOWBALL_SIZE 0, snowball_wrptr = 0, snowball_rdptr = 0\<rparr>"

lemma snow_empty: "snow_wf snow_empty" "unread snow_empty = []"
  by (simp_all add: snow_wf_def unread_def snow_empty_def)

lemma header_size: "layout_size romhandoff_block = 18"
  by (simp add: romhandoff_block_def)

lemma length_header [simp]: "length (block_header name unk0 flags tot unk1) = 18"
  by (simp add: block_header_def strncpy_name_def)

lemma length_unread: "snow_wf s \<Longrightarrow> int (length (unread s)) = snowball_wrptr s - snowball_rdptr s"
  by (auto simp: snow_wf_def unread_def slice_def min_def)

text \<open>A block that fits is appended to the stream; one that does not is left out.\<close>

lemma snowball_add_appends:
  assumes "snow_wf s" and "0 \<le> sz" and "sz \<le> 0xFFFF" and "nat sz \<le> length data"
  shows "if sz + 18 + snowball_wrptr s < int SNOWBALL_SIZE
    then \<exists>s'. snowball_add name unk0 flags sz unk1 data s = Inr s' \<and> snow_wf s' \<and>
      unread s' = unread s @ block_header name unk0 flags (sz + 18) unk1 @ take (nat sz) data \<and>
      snowball_wrptr s' = snowball_wrptr s + sz + 18
    else snowball_add name unk0 flags sz unk1 data s = Inr s"
proof -
  obtain wr rd where wr: "snowball_wrptr s = int wr" and rd: "snowball_rdptr s = int rd"
    using assms(1) by (metis nat_0_le order_trans snow_wf_def)
  obtain n where n: "sz = int n" using assms(2) by (metis nat_0_le)
  have le: "rd \<le> wr" "wr \<le> SNOWBALL_SIZE" "length (snowball_buffer s) = SNOWBALL_SIZE"
    using assms(1) by (auto simp: snow_wf_def wr rd)
  have cmp: "(of_nat SNOWBALL_SIZE :: u32) \<le> word_of_int (sz + 18 + snowball_wrptr s) \<longleftrightarrow> SNOWBALL_SIZE \<le> n + 18 + wr"
  proof -
    have "n + 18 + wr < 2 ^ 32" using assms(3) le(2) n by (simp add: SNOWBALL_SIZE_def)
    then have "unat (word_of_int (int (n + 18 + wr)) :: u32) = n + 18 + wr"
      by (simp add: unat_of_nat take_bit_nat_eq_self del: of_nat_add)
    moreover have "unat (of_nat SNOWBALL_SIZE :: u32) = SNOWBALL_SIZE"
      by (simp add: unat_of_nat take_bit_nat_eq_self SNOWBALL_SIZE_def)
    ultimately show ?thesis by (simp add: word_le_nat_alt n wr)
  qed
  show ?thesis
  proof (cases "SNOWBALL_SIZE \<le> n + 18 + wr")
    case True
    then show ?thesis using cmp by (simp add: snowball_add_def header_size n wr)
  next
    case False
    let ?h = "block_header name unk0 flags (sz + 18) unk1"
    let ?b = "blit wr (?h @ take n data) (snowball_buffer s)"
    have fit: "wr + length (?h @ take n data) \<le> length (snowball_buffer s)" using False le n assms(4) by simp
    let ?s = "s\<lparr>snowball_buffer := ?b, snowball_wrptr := int (wr + (n + 18))\<rparr>"
    have add: "snowball_add name unk0 flags sz unk1 data s = Inr ?s"
      using cmp False le assms(4) blit_append[of wr ?h "take n data" "snowball_buffer s"]
      by (simp add: snowball_add_def header_size n wr memcpy_int_def memcpy_Inr Let_def)
    have "slice rd (wr - rd) ?b @ slice (rd + (wr - rd)) (n + 18) ?b = slice rd (wr - rd + (n + 18)) ?b"
      by (rule slice_append_slice)
    moreover have "slice rd (wr - rd) ?b = slice rd (wr - rd) (snowball_buffer s)"
      by (rule slice_blit_other) (use fit le in auto)
    moreover have "slice wr (n + 18) ?b = ?h @ take n data"
      by (rule slice_blit_same) (use fit assms(4) n in auto)
    ultimately have sl: "slice rd (wr - rd + (n + 18)) ?b = slice rd (wr - rd) (snowball_buffer s) @ ?h @ take n data"
      using le(1) by simp
    have "nat (int (wr + (n + 18)) - int rd) = wr - rd + (n + 18)" "nat (int wr - int rd) = wr - rd" using le(1) by linarith+
    with sl have "unread ?s = unread s @ ?h @ take n data"
      unfolding unread_def wr rd by (simp add: rd del: of_nat_add)
    moreover have "snow_wf ?s" using False le fit by (simp add: snow_wf_def rd)
    ultimately show ?thesis using add False by (simp add: n wr)
  qed
qed

section \<open>Reading the stream\<close>

definition read_pars :: "nat \<Rightarrow> u32 \<Rightarrow> bytes" where
  "read_pars n buf = le_bytes 4 (of_nat n :: u32) @ le_bytes 4 buf @ le_bytes 4 (of_nat n :: u32) @ le_bytes 4 (0 :: u32)"

lemma pars_offsets:
  "offset_of handoff_read_pars ''size'' = 0" "offset_of handoff_read_pars ''buffer'' = 4"
  "offset_of handoff_read_pars ''size2'' = 8" "offset_of handoff_read_pars ''actualsize'' = 12"
  "layout_size handoff_read_pars = 16"
  by (simp_all add: handoff_read_pars_def word32_def)

text \<open>A read of \<open>n\<close> bytes takes them off the front of the stream, or what is left of it, tells the
  guest how many there were, and changes nothing else of the mapping.\<close>

lemma snowball_read_takes:
  assumes "snow_wf s" and "n < 2 ^ 31" and "mem_load par 16 m = Inr (read_pars n buf)"
    and "mapped buf n m" and "apart buf n par 16"
  shows "\<exists>s' m'. snowball_read par s m = Inr (s', m') \<and> snow_wf s' \<and> unread s' = drop n (unread s) \<and>
    load_field par handoff_read_pars ''actualsize'' m' = Inr (of_nat (min n (length (unread s)))) \<and>
    mem_load buf (min n (length (unread s))) m' = Inr (take n (unread s)) \<and>
    (\<forall>a k. mapped a k m' = mapped a k m)"
proof -
  obtain wr rd where wr: "snowball_wrptr s = int wr" and rd: "snowball_rdptr s = int rd"
    using assms(1) by (metis nat_0_le order_trans snow_wf_def)
  have le: "rd \<le> wr" "wr \<le> SNOWBALL_SIZE" "length (snowball_buffer s) = SNOWBALL_SIZE"
    using assms(1) by (auto simp: snow_wf_def wr rd)
  have len: "length (unread s) = wr - rd" using length_unread[OF assms(1)] le(1) by (simp add: wr rd)
  let ?k = "min n (wr - rd)"
  have sn: "sint (of_nat n :: u32) = int n" using assms(2) by (simp add: signed_of_nat signed_take_bit_int_eq_self)
  note field = load_field_bytes[of par handoff_read_pars m, unfolded pars_offsets, OF assms(3)]
  have pars: "load_field par handoff_read_pars ''size'' m = Inr (of_nat n)"
    "load_field par handoff_read_pars ''buffer'' m = Inr buf" "load_field par handoff_read_pars ''size2'' m = Inr (of_nat n)"
    by (subst field; simp add: pars_offsets read_pars_def slice_def)+
  have mp: "mapped par (layout_size handoff_read_pars) m"
    using assms(3) by (auto simp: mem_load_def pars_offsets split: if_splits)
  obtain m1 where m1: "store_field par handoff_read_pars ''actualsize'' 0 m = Inr m1"
    using store_field_total[OF mp, of "''actualsize''"] by (auto simp: pars_offsets)
  note s1 = load_store_field[OF m1, unfolded pars_offsets]
  have pars1: "load_field par handoff_read_pars ''size'' m1 = Inr (of_nat n)"
    "load_field par handoff_read_pars ''buffer'' m1 = Inr buf" "load_field par handoff_read_pars ''size2'' m1 = Inr (of_nat n)"
    using s1(2) pars by (simp_all add: pars_offsets)
  show ?thesis
  proof (cases "wr = rd")
    case True
    have "unread s = []" using len True by simp
    moreover have "snowball_read par s m = Inr (s, m1)"
      unfolding snowball_read_def pars rbind_simps m1 pars1 Let_def by (simp add: wr rd True)
    moreover have "mem_load buf 0 m1 = Inr []" by (simp add: mem_load_def mapped_def)
    ultimately show ?thesis using s1(1,4) assms(1) by auto
  next
    case False
    have turn: "(if int wr - int rd < int n then int wr - int rd else int n) = int ?k" using le(1) by auto
    have mp1: "mapped par (layout_size handoff_read_pars) m1" using mp s1(4) by simp
    obtain m2 where m2: "store_field par handoff_read_pars ''actualsize'' (of_nat ?k) m1 = Inr m2"
      using store_field_total[OF mp1, of "''actualsize''"] by (auto simp: pars_offsets)
    note s2 = load_store_field[OF m2, unfolded pars_offsets]
    have buf2: "load_field par handoff_read_pars ''buffer'' m2 = Inr buf" using s2(2) pars1(2) by (simp add: pars_offsets)
    let ?d = "slice rd ?k (snowball_buffer s)"
    have d: "length ?d = ?k" "?d = take n (unread s)" "rd + ?k \<le> SNOWBALL_SIZE"
    proof -
      show "length ?d = ?k" using le by (simp add: slice_def)
      have "nat (int wr - int rd) = wr - rd" using le(1) by linarith
      then show "?d = take n (unread s)" by (simp add: unread_def slice_def wr rd min.commute)
      show "rd + ?k \<le> SNOWBALL_SIZE" using le by simp
    qed
    have "mapped buf ?k m2" using mapped_sub[of buf n m2 0 ?k] assms(4) s1(4) s2(4) by simp
    then obtain m3 where m3: "mem_store buf ?d m2 = Inr m3" using mem_store_total[of buf ?d m2] d(1) by auto
    let ?s = "s\<lparr>snowball_rdptr := int rd + int ?k\<rparr>"
    have "snowball_read par s m = Inr (?s, m3)"
      unfolding snowball_read_def pars rbind_simps m1 pars1 Let_def sn wr rd turn
      using False le d(3) m2 buf2 m3 by (simp del: of_nat_min)
    moreover have "snow_wf ?s" using assms(1) le(1) by (auto simp: snow_wf_def wr rd)
    moreover have "unread ?s = drop n (unread s)"
    proof -
      have "nat (int rd + int ?k) = rd + ?k" "nat (int wr - (int rd + int ?k)) = wr - rd - ?k" "nat (int wr - int rd) = wr - rd"
        using le(1) by linarith+
      then have "unread ?s = take (wr - rd - ?k) (drop (rd + ?k) (snowball_buffer s))"
        "drop n (unread s) = drop n (take (wr - rd) (drop rd (snowball_buffer s)))"
        by (simp_all add: unread_def slice_def wr rd)
      then show ?thesis by (cases "n \<le> wr - rd") (simp_all add: drop_take add.commute)
    qed
    moreover have "mem_load buf ?k m3 = Inr (take n (unread s))"
      using mem_load_store_same[OF m3] d(1,2) assms(2) by simp
    moreover have "load_field par handoff_read_pars ''actualsize'' m3 = Inr (of_nat ?k)"
    proof -
      have "apart par 16 buf ?k" using apart_sym[OF apart_sub[OF assms(5), of 0 ?k 16]] by simp
      then have "apart (par + of_nat 12) 4 buf (length ?d)" using apart_sub[of par 16 buf ?k 12 4 ?k] d(1) by simp
      then show ?thesis
        using mem_load_store_other[OF m3] s2(1) by (simp add: load_field_def field_addr_def pars_offsets)
    qed
    moreover have "\<forall>a k. mapped a k m3 = mapped a k m" using mem_store_mapped[OF m3] s1(4) s2(4) by simp
    ultimately show ?thesis unfolding len by blast
  qed
qed

end

