(* ===== verification/Kernel.thy ===== *)
theory Kernel
  imports Snowball Printf
begin

text \<open>
  \<open>user/syslib/kernelcall.c\<close> with \<open>user/kernel/grant.c\<close>, \<open>dma.c\<close>, \<open>select.c\<close>: the table of
  kernel calls, the list of memory grants, and locking a grant for DMA. A call has the address
  of its parameters in the memory of the guest. Parameters that are only logged are not read
  by the calls of the table; what \<open>sys_select_receive\<close> prints of them is \<open>sys_select_receive_log\<close>.
\<close>

section \<open>State\<close>

record kern =
  kern_mem :: memory
  kern_snow :: snowball
  mg_list :: u32
  mg_count :: u32

section \<open>Grants\<close>

definition mg_desc_t :: layout where
  "mg_desc_t = [(''flags'', word32), (''buffer'', word32), (''size'', word32), (''segment'', word32), (''obj'', word32)]"

definition mg_synclist_par :: layout where
  "mg_synclist_par = [(''desc'', word32), (''size'', word32)]"

definition sys_mg_synclist :: "u32 \<Rightarrow> kern \<Rightarrow> (int \<times> kern) res" where
  "sys_mg_synclist par k =
    rbind (load_field par mg_synclist_par ''desc'' (kern_mem k)) (\<lambda>desc.
    rbind (load_field par mg_synclist_par ''size'' (kern_mem k)) (\<lambda>sz.
      Inr (0, k\<lparr>mg_list := desc, mg_count := sz\<rparr>)))"

definition MG_EXISTS :: u32 where "MG_EXISTS = 1"
definition MG_FIELD1_USED :: u32 where "MG_FIELD1_USED = 2"
definition MG_BY_PID :: u32 where "MG_BY_PID = 4"
definition MG_FLAG1 :: u32 where "MG_FLAG1 = 8"
definition MG_FLAG2 :: u32 where "MG_FLAG2 = 16"

text \<open>The printed list, one line for each entry that exists; \<open>err\<close> is what is on standard error.\<close>

definition dump_flag :: "bool \<Rightarrow> string \<Rightarrow> string \<Rightarrow> string \<Rightarrow> string res" where
  "dump_flag on yes no err = rbind (mel_printf (if on then yes else no) [] err) (\<lambda>(n, err). Inr err)"

definition dump_grant :: "kern \<Rightarrow> nat \<Rightarrow> string \<Rightarrow> string res" where
  "dump_grant k i err =
    (let entry = mg_list k + of_nat (layout_size mg_desc_t) * of_nat i;
         field = (\<lambda>name. load_field entry mg_desc_t name (kern_mem k))
     in rbind (field ''flags'') (\<lambda>flags.
        if tst (NOT flags) MG_EXISTS then Inr err
        else
          rbind (field ''obj'') (\<lambda>obj. rbind (field ''buffer'') (\<lambda>buf.
          rbind (field ''size'') (\<lambda>sz. rbind (field ''segment'') (\<lambda>seg.
          rbind (mel_printf ''[grnt] g:%i hnd:%i buf: 0x%08x size:0x%08x seg:%04x ''
            [VaWord (of_nat i), VaWord obj, VaWord buf, VaWord sz, VaWord seg] err) (\<lambda>(n, err).
          rbind (dump_flag (tst flags MG_FIELD1_USED) ''F1 '' ''   '' err) (\<lambda>err.
          rbind (dump_flag (tst flags MG_BY_PID) ''PID '' ''    '' err) (\<lambda>err.
          rbind (dump_flag (tst flags MG_FLAG1) ''FL1 '' ''    '' err) (\<lambda>err.
          dump_flag (tst flags MG_FLAG2) (''FL2'' @ [CHR 0x0A]) (''   '' @ [CHR 0x0A]) err))))))))))"

fun dump_grants :: "kern \<Rightarrow> nat list \<Rightarrow> string \<Rightarrow> string res" where
  "dump_grants k [] err = Inr err"
| "dump_grants k (i # is) err = rbind (dump_grant k i err) (\<lambda>err. dump_grants k is err)"

definition dump_mglist :: "kern \<Rightarrow> string \<Rightarrow> string res" where
  "dump_mglist k err = dump_grants k [0..<nat (sint (mg_count k))] err"

section \<open>DMA\<close>

definition sys_dma_lock_ex_par :: layout where
  "sys_dma_lock_ex_par =
    [(''tid'', 2), (''par0a'', 1), (''par0b'', 1), (''grant'', word32), (''par2'', word32), (''address_out'', word32),
     (''par4'', word32), (''par5'', word32), (''par6'', word32), (''par7'', word32), (''size'', word32), (''par9'', word32),
     (''parA'', word32), (''parB'', word32), (''ref_out'', word32)]"

text \<open>The index of the grant is not compared with \<open>mg_count\<close>.\<close>

definition sys_dma_lock_ex :: "u32 \<Rightarrow> kern \<Rightarrow> (int \<times> kern) res" where
  "sys_dma_lock_ex par k =
    rbind (load_field par sys_dma_lock_ex_par ''grant'' (kern_mem k)) (\<lambda>grant.
    let entry = mg_list k + of_nat (layout_size mg_desc_t) * grant in
    rbind (store_field par sys_dma_lock_ex_par ''ref_out'' 0x42 (kern_mem k)) (\<lambda>m.
    rbind (load_field entry mg_desc_t ''buffer'' m) (\<lambda>buf.
    rbind (store_field par sys_dma_lock_ex_par ''address_out'' buf m) (\<lambda>m.
    rbind (store_field par sys_dma_lock_ex_par ''par7'' 0x37 m) (\<lambda>m.
      Inr (0, k\<lparr>kern_mem := m\<rparr>))))))"

definition sys_dma_unlock :: "u32 \<Rightarrow> kern \<Rightarrow> (int \<times> kern) res" where
  "sys_dma_unlock par k = Inr (0, k)"

definition select_receive_par :: layout where
  "select_receive_par =
    [(''bitfield0'', 8), (''bitfield1'', 8), (''bitfield2'', 8), (''raw_msg'', 64), (''flags'', word32), (''timeout'', 8),
     (''result_type'', word32), (''ret_val'', word32)]"

text \<open>The size and the offsets are those of the table in the comment.\<close>

lemma select_receive_offsets:
  "layout_size select_receive_par = 0x6C"
  "map (offset_of select_receive_par) [''bitfield0'', ''bitfield1'', ''bitfield2'', ''raw_msg'', ''flags'', ''timeout'',
     ''result_type'', ''ret_val''] = [0, 8, 0x10, 0x18, 0x58, 0x5C, 0x64, 0x68]"
  by (simp_all add: select_receive_par_def word32_def)

text \<open>The call only prints its parameters; a 64 bit member takes two argument slots.\<close>

definition select_slots :: "u32 \<Rightarrow> memory \<Rightarrow> string \<Rightarrow> va_list res" where
  "select_slots par m name =
    (let a = field_addr par select_receive_par name
     in rbind (rbind (mem_load a 4 m) ld32) (\<lambda>lo. rbind (rbind (mem_load (a + 4) 4 m) ld32) (\<lambda>hi. Inr [VaWord lo, VaWord hi])))"

definition sys_select_receive_log :: "u32 \<Rightarrow> memory \<Rightarrow> log_world \<Rightarrow> (int \<times> log_world) res" where
  "sys_select_receive_log par m w =
    rbind (select_slots par m ''bitfield0'') (\<lambda>b0. rbind (select_slots par m ''bitfield1'') (\<lambda>b1.
    rbind (select_slots par m ''bitfield2'') (\<lambda>b2. rbind (load_field par select_receive_par ''flags'' m) (\<lambda>flags.
    rbind (select_slots par m ''timeout'') (\<lambda>timeout.
    rbind (log_msg 1 ''krnl''
      ''sys_select_receive( bitfield0=0x%016llx, bitfield1=0x%016llx, bitfield2=0x%016llx, flags=0x%08x, timeout=%016llx )''
      (b0 @ b1 @ b2 @ [VaWord flags] @ timeout) w) (\<lambda>w. Inr (0, w)))))))"

text \<open>\<open>%016llx\<close>: sixteen hexadecimal digits of a 64 bit argument.\<close>

definition hex16 :: "u64 \<Rightarrow> string" where
  "hex16 v = replicate (16 - length (digits_of 16 (unat v))) CHR ''0'' @ digits_of 16 (unat v)"

lemma numfmt_hex16: "numfmt_unsigned v NF_ZEROPAD 16 16 65 = Inr (hex16 v)"
proof -
  have "unat v < 16 ^ Suc 15" by (rule order_less_le_trans[OF unsigned_less]) simp
  then have l: "length (digits_of 16 (unat v)) \<le> 16" using length_digits_of[of 16 "unat v" 15] by simp
  have "\<not> tst NF_ZEROPAD NF_SGNPLUS" by (simp add: NF_ZEROPAD_def NF_SGNPLUS_def bit_simps)
  then have "numfmt_unsigned v NF_ZEROPAD 16 16 65 = numfmt_finish NF_ZEROPAD 16 33 (digits_of 16 (unat v)) 65"
    by (simp add: numfmt_unsigned_def digits_of_def Let_def)
  also have "\<dots> = Inr (hex16 v)"
    using l by (subst numfmt_finish_fits) (simp_all add: hex16_def pad_char_def NF_ZEROPAD_def bit_simps)
  finally show ?thesis .
qed

lemma length_hex16 [simp]: "length (hex16 v) = 16"
proof -
  have "unat v < 16 ^ Suc 15" by (rule order_less_le_trans[OF unsigned_less]) simp
  then show ?thesis using length_digits_of[of 16 "unat v" 15] by (simp add: hex16_def)
qed

definition long_slots :: "u64 \<Rightarrow> va_list" where
  "long_slots v = [VaWord (ucast v), VaWord (ucast (drop_bit 32 v))]"

lemma va_long_slots: "va_long (VaWord (ucast v) # VaWord (ucast (drop_bit 32 v)) # l) = Inr (v, l)"
  by (simp add: va_long_def) (rule bit_word_eqI, auto simp: bit_simps)

lemma pf_loop_hex16:
  "pf_state p = PF_PRINT \<Longrightarrow>
   pf_loop collect (''%016llx'' @ format) p (VaWord (ucast v) # VaWord (ucast (drop_bit 32 v)) # l) out =
   pf_loop collect format (p\<lparr>nflags := NF_ZEROPAD, width := 16, size := PF_LONGLONG,
     pcount := pcount p + 16, pf_state := PF_PRINT\<rparr>) l (out @ hex16 v)"
  by (simp add: pf_step_def pf_print_def pf_fspec_def pf_width_def pf_awidt_def pf_lmod_def pf_type_def
      pf_uival_def va_long_slots put_str_collect numfmt_hex16 Let_def)

lemma hex16_no_nul: "CHR 0x00 \<notin> set (hex16 v)"
  using set_put_digits[of 16 "unat v" "[]"] by (auto simp: hex16_def digits_of_def numfmt_digits_def)

definition select_text :: "u64 \<Rightarrow> u64 \<Rightarrow> u64 \<Rightarrow> u32 \<Rightarrow> u64 \<Rightarrow> string" where
  "select_text b0 b1 b2 flags timeout = ''sys_select_receive( bitfield0=0x'' @ hex16 b0 @ '', bitfield1=0x'' @ hex16 b1 @
     '', bitfield2=0x'' @ hex16 b2 @ '', flags=0x'' @ hex8 flags @ '', timeout='' @ hex16 timeout @ '' )''"

lemma printf_select:
  "printf_text ''sys_select_receive( bitfield0=0x%016llx, bitfield1=0x%016llx, bitfield2=0x%016llx, flags=0x%08x, timeout=%016llx )''
    (long_slots b0 @ long_slots b1 @ long_slots b2 @ [VaWord flags] @ long_slots timeout) = Inr (select_text b0 b1 b2 flags timeout)"
proof -
  have f: "''sys_select_receive( bitfield0=0x%016llx, bitfield1=0x%016llx, bitfield2=0x%016llx, flags=0x%08x, timeout=%016llx )'' =
      ''sys_select_receive( bitfield0=0x'' @ ''%016llx'' @ '', bitfield1=0x'' @ ''%016llx'' @ '', bitfield2=0x'' @ ''%016llx'' @
      '', flags=0x'' @ ''%08x'' @ '', timeout='' @ ''%016llx'' @ '' )'' @ []"
    by simp
  have args: "long_slots b0 @ long_slots b1 @ long_slots b2 @ [VaWord flags] @ long_slots timeout =
      [VaWord (ucast b0), VaWord (ucast (drop_bit 32 b0)), VaWord (ucast b1), VaWord (ucast (drop_bit 32 b1)),
       VaWord (ucast b2), VaWord (ucast (drop_bit 32 b2)), VaWord flags, VaWord (ucast timeout), VaWord (ucast (drop_bit 32 timeout))]"
    by (simp add: long_slots_def)
  show ?thesis
    unfolding printf_text_loop f args
    by (simp add: pf_loop_text pf_loop_hex16 pf_loop_hex8 select_text_def pf_init_def pf_step_def pf_print_def put1_def
        collect_def del: append_Cons)
qed

text \<open>What the call prints: the parameters that are in the memory of the guest.\<close>

lemma sys_select_receive_logs:
  assumes "select_slots par m ''bitfield0'' = Inr (long_slots b0)" and "select_slots par m ''bitfield1'' = Inr (long_slots b1)"
    and "select_slots par m ''bitfield2'' = Inr (long_slots b2)" and "load_field par select_receive_par ''flags'' m = Inr flags"
    and "select_slots par m ''timeout'' = Inr (long_slots timeout)" and "log_ok w"
  shows "\<exists>w'. sys_select_receive_log par m w = Inr (0, w') \<and>
    logged w (line_at (log_level w) 1 ''krnl'' (select_text b0 b1 b2 flags timeout)) w'"
proof -
  have "CHR 0x00 \<notin> set (select_text b0 b1 b2 flags timeout)"
    by (simp add: select_text_def hex16_no_nul hex8_no_nul)
  from log_msg_logged[OF assms(6) _ _ printf_select this, of 1 "''krnl''"] show ?thesis
    unfolding sys_select_receive_log_def assms rbind_simps by (auto simp: rbind_def)
qed

definition sys_select_receive :: "u32 \<Rightarrow> kern \<Rightarrow> (int \<times> kern) res" where
  "sys_select_receive par k = Inr (0, k)"

definition sys_snowball_read :: "u32 \<Rightarrow> kern \<Rightarrow> (int \<times> kern) res" where
  "sys_snowball_read par k =
    rbind (snowball_read par (kern_snow k) (kern_mem k)) (\<lambda>(s, m). Inr (0, k\<lparr>kern_mem := m, kern_snow := s\<rparr>))"

section \<open>The table\<close>

record kernelcall_table =
  kc_name :: string
  kc_size :: int
  kc_impl :: "(u32 \<Rightarrow> kern \<Rightarrow> (int \<times> kern) res) option"

text \<open>An entry \<open>{}\<close>.\<close>

definition kc_none :: kernelcall_table where
  "kc_none = \<lparr>kc_name = '''', kc_size = 0, kc_impl = None\<rparr>"

definition kctable :: "kernelcall_table list" where
  "kctable =
    [\<lparr>kc_name = ''sys_snowball_read'', kc_size = 16, kc_impl = Some sys_snowball_read\<rparr>,
     kc_none, kc_none, kc_none, kc_none,
     \<lparr>kc_name = ''sys_mg_synclist'', kc_size = 8, kc_impl = Some sys_mg_synclist\<rparr>,
     kc_none, kc_none, kc_none,
     kc_none, kc_none, kc_none, kc_none, kc_none, kc_none, kc_none, kc_none,
     kc_none, kc_none, kc_none, kc_none, kc_none, kc_none,
     \<lparr>kc_name = ''sys_select_receive'', kc_size = 108, kc_impl = Some sys_select_receive\<rparr>,
     kc_none, kc_none,
     \<lparr>kc_name = ''sys_dma_lock_ex'', kc_size = 52, kc_impl = Some sys_dma_lock_ex\<rparr>,
     \<lparr>kc_name = ''sys_dma_unlock'', kc_size = 4, kc_impl = Some sys_dma_unlock\<rparr>]"

text \<open>The first test lets the number of entries itself through.\<close>

definition kernelcall :: "u8 \<Rightarrow> u16 \<Rightarrow> u32 \<Rightarrow> kern \<Rightarrow> (int \<times> kern) res" where
  "kernelcall call_id par_sz par k =
    (if unat call_id > length kctable then Inr (0, k)
     else if unat call_id = length kctable then Inl OutOfBounds
     else
       let entry = kctable ! unat call_id in
       if uint par_sz \<noteq> kc_size entry then Inr (0, k)
       else case kc_impl entry of None \<Rightarrow> Inl NullCall | Some impl \<Rightarrow> impl par k)"

lemma kctable_length: "length kctable = 28"
  by (simp add: kctable_def)

lemma kctable_entries:
  "kctable ! 0 = \<lparr>kc_name = ''sys_snowball_read'', kc_size = 16, kc_impl = Some sys_snowball_read\<rparr>"
  "kctable ! 5 = \<lparr>kc_name = ''sys_mg_synclist'', kc_size = 8, kc_impl = Some sys_mg_synclist\<rparr>"
  "kctable ! 26 = \<lparr>kc_name = ''sys_dma_lock_ex'', kc_size = 52, kc_impl = Some sys_dma_lock_ex\<rparr>"
  by (simp_all add: kctable_def)

lemma kernelcall_entries:
  "kernelcall 0 16 par k = sys_snowball_read par k"
  "kernelcall 5 8 par k = sys_mg_synclist par k"
  "kernelcall 26 52 par k = sys_dma_lock_ex par k"
  by (simp_all add: kernelcall_def kctable_length kctable_entries)

section \<open>Calls that do nothing\<close>

definition implemented :: "nat set" where
  "implemented = {0, 5, 23, 26, 27}"

lemma kctable_impl:
  "i < 28 \<Longrightarrow> (i \<in> implemented \<longleftrightarrow> kc_impl (kctable ! i) \<noteq> None) \<and> (i \<notin> implemented \<longrightarrow> kc_size (kctable ! i) = 0)"
proof -
  have u: "[0..<28] = [0, 1, 2, 3, 4, 5, 6, 7, 8, 9, 10, 11, 12, 13, 14, 15, 16, 17, 18, 19, 20, 21, 22, 23, 24, 25, 26, 27]"
    by code_simp
  have "list_all (\<lambda>i. (i \<in> implemented \<longleftrightarrow> kc_impl (kctable ! i) \<noteq> None) \<and> (i \<notin> implemented \<longrightarrow> kc_size (kctable ! i) = 0)) [0..<28]"
    unfolding u kctable_def by (simp add: kc_none_def implemented_def)
  then show "i < 28 \<Longrightarrow> ?thesis" by (simp add: list_all_iff)
qed

definition idle_kern :: kern where
  "idle_kern = \<lparr>kern_mem = Map.empty, kern_snow = snow_empty, mg_list = 0, mg_count = 0\<rparr>"

text \<open>C18. A call without an implementation, or with parameters of another size than that of the
  implementation, returns 0 and changes nothing, with two exceptions, in which the program
  faults: the number one behind the end of the table, and an empty entry that is called with
  parameters of size 0.\<close>

theorem kernelcall_refused:
  assumes "unat call_id \<in> implemented \<longrightarrow> uint par_sz \<noteq> kc_size (kctable ! unat call_id)"
  shows "kernelcall call_id par_sz par k =
    (if unat call_id = 28 then Inl OutOfBounds
     else if unat call_id < 28 \<and> unat call_id \<notin> implemented \<and> par_sz = 0 then Inl NullCall
     else Inr (0, k))"
proof (cases "unat call_id < 28")
  case True
  then show ?thesis
    using assms kctable_impl[OF True]
    by (auto simp: kernelcall_def kctable_length Let_def uint_0_iff)
qed (simp add: kernelcall_def kctable_length)

theorem kernelcall_refused_witness:
  "kernelcall 26 51 0 idle_kern = Inr (0, idle_kern) \<and> kernelcall 28 0 0 idle_kern = Inl OutOfBounds \<and> kernelcall 1 0 0 idle_kern = Inl NullCall"
  using kernelcall_refused[of 26 51 0 idle_kern] kernelcall_refused[of 28 0 0 idle_kern] kernelcall_refused[of 1 0 0 idle_kern]
  by (simp add: kctable_entries implemented_def)

section \<open>Locking a grant\<close>

text \<open>The descriptors of the grants in memory.\<close>

record mg_desc =
  mg_flags :: u32
  mg_buffer :: u32
  mg_size :: u32
  mg_segment :: u32
  mg_obj :: u32

definition mg_bytes :: "mg_desc \<Rightarrow> bytes" where
  "mg_bytes d = le_bytes 4 (mg_flags d) @ le_bytes 4 (mg_buffer d) @ le_bytes 4 (mg_size d) @ le_bytes 4 (mg_segment d) @
     le_bytes 4 (mg_obj d)"

lemma dma_offsets:
  "offset_of sys_dma_lock_ex_par ''grant'' = 4" "offset_of sys_dma_lock_ex_par ''address_out'' = 12"
  "offset_of sys_dma_lock_ex_par ''par7'' = 28" "offset_of sys_dma_lock_ex_par ''ref_out'' = 48"
  "layout_size sys_dma_lock_ex_par = 52" "layout_size mg_desc_t = 20" "offset_of mg_desc_t ''buffer'' = 4"
  "layout_size mg_synclist_par = 8" "offset_of mg_synclist_par ''desc'' = 0" "offset_of mg_synclist_par ''size'' = 4"
  by (simp_all add: sys_dma_lock_ex_par_def mg_desc_t_def mg_synclist_par_def word32_def)

lemma mg_bytes_buffer: "g < length ds \<Longrightarrow> ld32 (slice (20 * g + 4) 4 (concat (map mg_bytes ds))) = Inr (mg_buffer (ds ! g))"
proof (induction ds arbitrary: g)
  case (Cons d ds)
  have l: "length (mg_bytes d) = 20" by (simp add: mg_bytes_def)
  show ?case
  proof (cases g)
    case 0
    then show ?thesis by (simp add: mg_bytes_def slice_def)
  next
    case (Suc h)
    then have "slice (20 * g + 4) 4 (concat (map mg_bytes (d # ds))) = slice (20 * h + 4) 4 (concat (map mg_bytes ds))"
      using l by (simp add: slice_def add.commute)
    then show ?thesis using Cons Suc by simp
  qed
qed simp

text \<open>C16. After a guest has told the kernel where its list of grants is, locking a grant of the list for
  DMA gives the address of the buffer in its descriptor, and the call changes nothing of the
  descriptors.\<close>

theorem dma_lock_grant:
  assumes "load_field p1 mg_synclist_par ''desc'' (kern_mem k) = Inr list"
    and "load_field p1 mg_synclist_par ''size'' (kern_mem k) = Inr (of_nat (length ds))"
    and "mem_load list (20 * length ds) (kern_mem k) = Inr (concat (map mg_bytes ds))"
    and "load_field p2 sys_dma_lock_ex_par ''grant'' (kern_mem k) = Inr (of_nat g)" and "g < length ds"
    and "mapped p2 52 (kern_mem k)" and "apart list (20 * length ds) p2 52"
  shows "\<exists>k1 k2. kernelcall 5 8 p1 k = Inr (0, k1) \<and> kernelcall 26 52 p2 k1 = Inr (0, k2) \<and>
    load_field p2 sys_dma_lock_ex_par ''address_out'' (kern_mem k2) = Inr (mg_buffer (ds ! g)) \<and>
    mem_load list (20 * length ds) (kern_mem k2) = Inr (concat (map mg_bytes ds))"
proof -
  let ?p = "sys_dma_lock_ex_par" and ?n = "20 * length ds"
  let ?k1 = "k\<lparr>mg_list := list, mg_count := of_nat (length ds)\<rparr>"
  have mp: "mapped p2 (layout_size ?p) (kern_mem k)" using assms(6) by (simp add: dma_offsets)
  obtain m1 where m1: "store_field p2 ?p ''ref_out'' 0x42 (kern_mem k) = Inr m1"
    using store_field_total[OF mp, of "''ref_out''"] by (auto simp: dma_offsets)
  note s1 = load_store_field[OF m1, unfolded dma_offsets]
  have l1: "mem_load list ?n m1 = Inr (concat (map mg_bytes ds))" using s1(3)[OF assms(7)] assms(3) by simp
  have "mem_load (list + of_nat (20 * g + 4)) 4 m1 = Inr (slice (20 * g + 4) 4 (concat (map mg_bytes ds)))"
    by (rule mem_load_split[OF l1]) (use assms(5) in simp)
  then have buf: "load_field (list + 20 * of_nat g) mg_desc_t ''buffer'' m1 = Inr (mg_buffer (ds ! g))"
    using mg_bytes_buffer[OF assms(5)] by (simp add: load_field_def field_addr_def dma_offsets add.assoc)
  obtain m2 where m2: "store_field p2 ?p ''address_out'' (mg_buffer (ds ! g)) m1 = Inr m2"
    using store_field_total[of p2 ?p m1 "''address_out''" "mg_buffer (ds ! g)"] mp s1(4) by (auto simp: dma_offsets)
  note s2 = load_store_field[OF m2, unfolded dma_offsets]
  obtain m3 where m3: "store_field p2 ?p ''par7'' 0x37 m2 = Inr m3"
    using store_field_total[of p2 ?p m2 "''par7''" "0x37"] mp s1(4) s2(4) by (auto simp: dma_offsets)
  note s3 = load_store_field[OF m3, unfolded dma_offsets]
  have "kernelcall 5 8 p1 k = Inr (0, ?k1)" using assms(1,2) by (simp add: kernelcall_entries sys_mg_synclist_def)
  moreover have "kernelcall 26 52 p2 ?k1 = Inr (0, ?k1\<lparr>kern_mem := m3\<rparr>)"
    using assms(4) m1 buf m2 m3 by (simp add: kernelcall_entries sys_dma_lock_ex_def Let_def dma_offsets)
  moreover have "load_field p2 ?p ''address_out'' m3 = Inr (mg_buffer (ds ! g))"
    using s3(2)[of "''address_out''"] s2(1) by (simp add: dma_offsets)
  moreover have "mem_load list ?n m3 = Inr (concat (map mg_bytes ds))"
    using s2(3)[OF assms(7)] s3(3)[OF assms(7)] l1 by simp
  ultimately show ?thesis by auto
qed

definition toy_desc :: mg_desc where
  "toy_desc = \<lparr>mg_flags = 1, mg_buffer = 0x5000, mg_size = 16, mg_segment = 0, mg_obj = 0\<rparr>"

text \<open>The list is at 8, behind the parameters of the first call; the parameters of the second are at 28.\<close>

definition toy_grants :: memory where
  "toy_grants a = Some (let bs = le_bytes 4 (8 :: u32) @ le_bytes 4 (1 :: u32) @ mg_bytes toy_desc in
     if unat a < length bs then bs ! unat a else 0)"

theorem dma_lock_grant_witness:
  "\<exists>k1 k2. kernelcall 5 8 0 (idle_kern\<lparr>kern_mem := toy_grants\<rparr>) = Inr (0, k1) \<and> kernelcall 26 52 28 k1 = Inr (0, k2) \<and>
    load_field 28 sys_dma_lock_ex_par ''address_out'' (kern_mem k2) = Inr 0x5000"
proof -
  have "load_field 0 mg_synclist_par ''desc'' toy_grants = Inr 8" "load_field 0 mg_synclist_par ''size'' toy_grants = Inr 1"
    "mem_load 8 20 toy_grants = Inr (mg_bytes toy_desc)" "load_field 28 sys_dma_lock_ex_par ''grant'' toy_grants = Inr 0"
    by code_simp+
  moreover have "apart 8 20 28 52" using apart_offsets[of 8 20 28 52 0] by simp
  moreover have "mapped 28 52 toy_grants" by (simp add: mapped_iff toy_grants_def)
  ultimately show ?thesis
    using dma_lock_grant[of 0 "idle_kern\<lparr>kern_mem := toy_grants\<rparr>" 8 "[toy_desc]" 28 0] by (auto simp: toy_desc_def)
qed

end
