(* ===== verification/Handoff.thy ===== *)
theory Handoff
  imports Kernel
begin

text \<open>
  The way of the handoff data from the configuration to the guest: the blocks that the
  sections describe, the stream they are put into, the kernel calls by which a guest reads it,
  and the blocks that it finds there by following their sizes.
\<close>

section \<open>Blocks\<close>

record hblock =
  hb_name :: bytes
  hb_unk0 :: u8
  hb_flags :: u8
  hb_unk1 :: u16
  hb_data :: bytes

definition encode_block :: "hblock \<Rightarrow> bytes" where
  "encode_block b = hb_name b @ [hb_unk0 b, hb_flags b] @ le_bytes 2 (of_nat (18 + length (hb_data b)) :: u16) @
     le_bytes 2 (hb_unk1 b) @ hb_data b"

definition block_ok :: "hblock \<Rightarrow> bool" where
  "block_ok b \<longleftrightarrow> length (hb_name b) = 12 \<and> 18 + length (hb_data b) < 2 ^ 16"

lemma length_encode: "length (encode_block b) = length (hb_name b) + 6 + length (hb_data b)"
  by (simp add: encode_block_def)

text \<open>How a reader goes from block to block.\<close>

function parse_blocks :: "bytes \<Rightarrow> hblock list option" where
  "parse_blocks bs =
    (if bs = [] then Some []
     else let n = unat (le_word (slice 14 2 bs) :: u16) in
       if n < 18 \<or> length bs < n then None
       else map_option (Cons \<lparr>hb_name = take 12 bs, hb_unk0 = bs ! 12, hb_flags = bs ! 13,
              hb_unk1 = le_word (slice 16 2 bs), hb_data = slice 18 (n - 18) bs\<rparr>) (parse_blocks (drop n bs)))"
  by auto
termination by (relation "measure length") auto

declare parse_blocks.simps [simp del]

lemma parse_block:
  assumes "block_ok b"
  shows "parse_blocks (encode_block b @ bs) = map_option (Cons b) (parse_blocks bs)"
proof -
  obtain s where s: "s = encode_block b @ bs" by blast
  let ?n = "18 + length (hb_data b)"
  have ok: "length (hb_name b) = 12" "?n < 2 ^ 16" using assms by (simp_all add: block_ok_def)
  have "le_word (slice 14 2 s) = (of_nat ?n :: u16)"
    using ok(1) by (simp add: s encode_block_def slice_def le_word_le_bytes del: of_nat_add)
  then have n: "unat (le_word (slice 14 2 s) :: u16) = ?n"
    using ok(2) by (simp add: unat_of_nat take_bit_nat_eq_self del: of_nat_add)
  have fields: "take 12 s = hb_name b" "s ! 12 = hb_unk0 b" "s ! 13 = hb_flags b" "le_word (slice 16 2 s) = hb_unk1 b"
    "slice 18 (?n - 18) s = hb_data b" "length s = ?n + length bs" "s \<noteq> []"
    using ok(1) by (auto simp: s encode_block_def slice_def nth_append le_word_le_bytes)
  have eta: "\<lparr>hb_name = hb_name b, hb_unk0 = hb_unk0 b, hb_flags = hb_flags b, hb_unk1 = hb_unk1 b, hb_data = hb_data b\<rparr> = b"
    by (cases b) simp
  have "drop ?n s = bs" using length_encode[of b] ok(1) by (simp add: s)
  with n fields have "parse_blocks s = map_option (Cons b) (parse_blocks bs)"
    by (subst parse_blocks.simps) (simp add: Let_def eta)
  then show ?thesis by (simp add: s)
qed

lemma parse_encoded: "\<forall>b\<in>set bs. block_ok b \<Longrightarrow> parse_blocks (concat (map encode_block bs)) = Some bs"
  by (induction bs) (simp_all add: parse_block parse_blocks.simps[of "[]"])

section \<open>From sections to the stream\<close>

text \<open>The block that a section describes.\<close>

definition section_hblock :: "(string \<rightharpoonup> bytes) \<Rightarrow> cfg_section \<Rightarrow> hblock res" where
  "section_hblock files sec =
    rbind (snowball_data files sec) (\<lambda>(sz, data). Inr
      \<lparr>hb_name = strncpy_name (section_name sec), hb_unk0 = ucast (cfg_or (cfg_find_int16 sec ''unknown_0'') 0),
       hb_flags = ucast (cfg_or (cfg_find_int16 sec ''flags'') 0) OR 1, hb_unk1 = cfg_or (cfg_find_int16 sec ''unknown_1'') 0,
       hb_data = take (unat sz) data\<rparr>)"

lemma snowball_data_size:
  assumes "snowball_data files sec = Inr (sz, data)"
  shows "unat sz \<le> length data"
proof -
  have t: "unat (of_nat n :: u16) \<le> n" for n
    by (simp add: unat_of_nat take_bit_nat_less_eq_self)
  have e: "unat sz \<le> 8" if "sz \<le> 8" for sz :: u16 using that by (simp add: word_le_nat_alt)
  show ?thesis
  proof (cases "cfg_find_string sec ''path''")
    case (Some path)
    then show ?thesis using assms t by (auto simp: snowball_data_def read_full_file_def split: option.splits if_splits)
  next
    case None
    note path = this
    show ?thesis
    proof (cases "cfg_find_entry sec ''value''")
      case None
      then show ?thesis using assms path by (auto simp: snowball_data_def Let_def split: option.splits)
    next
      case (Some val)
      show ?thesis
      proof (cases "cfg_find_int16 sec ''size''")
        case None
        then show ?thesis
          using assms path Some t[THEN le_SucI] by (cases "entry_value val") (auto simp: snowball_data_def Let_def)
      next
        case (Some n)
        then show ?thesis
          using assms path \<open>cfg_find_entry sec ''value'' = Some val\<close> e
          by (cases "entry_value val") (auto simp: snowball_data_def Let_def split: if_splits)
      qed
    qed
  qed
qed

lemma section_added:
  assumes "snow_wf s" and "section_hblock files sec = Inr b"
    and "18 + int (length (hb_data b)) + snowball_wrptr s < int SNOWBALL_SIZE"
  shows "\<exists>s'. snowball_add_section files sec s = Inr s' \<and> snow_wf s' \<and> unread s' = unread s @ encode_block b \<and>
    snowball_wrptr s' = snowball_wrptr s + 18 + int (length (hb_data b))"
proof -
  obtain sz data where d: "snowball_data files sec = Inr (sz, data)" and b: "b =
      \<lparr>hb_name = strncpy_name (section_name sec), hb_unk0 = ucast (cfg_or (cfg_find_int16 sec ''unknown_0'') 0),
       hb_flags = ucast (cfg_or (cfg_find_int16 sec ''flags'') 0) OR 1, hb_unk1 = cfg_or (cfg_find_int16 sec ''unknown_1'') 0,
       hb_data = take (unat sz) data\<rparr>"
    using assms(2) by (auto simp: section_hblock_def rbind_Inr_iff)
  have len: "length (hb_data b) = unat sz" using snowball_data_size[OF d] by (simp add: b)
  have sz: "uint sz = int (unat sz)" "uint sz \<le> 0xFFFF"
  proof -
    show "uint sz = int (unat sz)" by (rule uint_nat)
    show "uint sz \<le> 0xFFFF" using uint_lt2p[of sz] by simp
  qed
  have fit: "uint sz + 18 + snowball_wrptr s < int SNOWBALL_SIZE" using assms(3) sz(1) unfolding len by linarith
  have nat: "nat (uint sz) = unat sz" by simp
  have "nat (uint sz) \<le> length data" using snowball_data_size[OF d] by (simp add: nat)
  note adds = snowball_add_appends[OF assms(1) uint_ge_0 sz(2) this, unfolded nat]
  obtain s' where s': "snowball_add (section_name sec) (uint (cfg_or (cfg_find_int16 sec ''unknown_0'') 0))
      (uint (cfg_or (cfg_find_int16 sec ''flags'') 0)) (uint sz) (uint (cfg_or (cfg_find_int16 sec ''unknown_1'') 0)) data s = Inr s'"
    and wf: "snow_wf s'" and un: "unread s' = unread s @ block_header (section_name sec)
      (uint (cfg_or (cfg_find_int16 sec ''unknown_0'') 0)) (uint (cfg_or (cfg_find_int16 sec ''flags'') 0)) (uint sz + 18)
      (uint (cfg_or (cfg_find_int16 sec ''unknown_1'') 0)) @ take (unat sz) data"
    and wr: "snowball_wrptr s' = snowball_wrptr s + uint sz + 18"
    using adds[of "section_name sec" "uint (cfg_or (cfg_find_int16 sec ''unknown_0'') 0)"
        "uint (cfg_or (cfg_find_int16 sec ''flags'') 0)" "uint (cfg_or (cfg_find_int16 sec ''unknown_1'') 0)"] fit by auto
  have "encode_block b = block_header (section_name sec) (uint (cfg_or (cfg_find_int16 sec ''unknown_0'') 0))
      (uint (cfg_or (cfg_find_int16 sec ''flags'') 0)) (uint sz + 18) (uint (cfg_or (cfg_find_int16 sec ''unknown_1'') 0)) @
      take (unat sz) data"
    unfolding encode_block_def len block_header_def sz(1) by (simp add: b add.commute)
  then show ?thesis using s' wf un wr d unfolding len sz(1)[symmetric] by (simp add: snowball_add_section_def)
qed

definition snow_sections :: "cfg_section list \<Rightarrow> cfg_section list" where
  "snow_sections secs = filter (\<lambda>sec. section_type sec = ''snowball'') secs"

lemma sections_added:
  assumes "snow_wf s" and "map (section_hblock files) (snow_sections secs) = map Inr bs"
    and "int (length (concat (map encode_block bs))) + snowball_wrptr s < int SNOWBALL_SIZE"
  shows "\<exists>s'. snowball_sections files secs s = Inr s' \<and> snow_wf s' \<and> unread s' = unread s @ concat (map encode_block bs)"
  using assms
proof (induction secs arbitrary: s bs)
  case (Cons sec secs)
  show ?case
  proof (cases "section_type sec = ''snowball''")
    case True
    with Cons.prems(2) obtain b bs' where bs: "bs = b # bs'" "section_hblock files sec = Inr b"
      "map (section_hblock files) (snow_sections secs) = map Inr bs'"
      by (auto simp: snow_sections_def)
    have "length (encode_block b) = 18 + length (hb_data b)"
      using bs(2) by (auto simp: section_hblock_def rbind_Inr_iff encode_block_def strncpy_name_def)
    with Cons.prems(3) bs(1) obtain s1 where s1: "snowball_add_section files sec s = Inr s1" "snow_wf s1"
      "unread s1 = unread s @ encode_block b" "snowball_wrptr s1 = snowball_wrptr s + 18 + int (length (hb_data b))"
      using section_added[OF Cons.prems(1) bs(2)] by auto
    have "int (length (concat (map encode_block bs'))) + snowball_wrptr s1 < int SNOWBALL_SIZE"
      using Cons.prems(3) bs(1) s1(4) \<open>length (encode_block b) = _\<close> by simp
    with Cons.IH[OF s1(2) bs(3)] s1 True show ?thesis by (auto simp: bs(1))
  next
    case False
    with Cons show ?thesis by (simp add: snow_sections_def)
  qed
qed (auto simp: snow_sections_def)

section \<open>The guest reads\<close>

text \<open>A guest that reads pieces of the given sizes, one call each, through a buffer at \<open>buf\<close> with its
  parameters at \<open>par\<close>, and keeps what it gets.\<close>

fun guest_reads :: "u32 \<Rightarrow> u32 \<Rightarrow> nat list \<Rightarrow> kern \<Rightarrow> (bytes \<times> kern) res" where
  "guest_reads par buf [] k = Inr ([], k)"
| "guest_reads par buf (n # ns) k =
    rbind (mem_store par (read_pars n buf) (kern_mem k)) (\<lambda>m.
    rbind (kernelcall 0 16 par (k\<lparr>kern_mem := m\<rparr>)) (\<lambda>(r, k).
    rbind (load_field par handoff_read_pars ''actualsize'' (kern_mem k)) (\<lambda>c.
    rbind (mem_load buf (unat c) (kern_mem k)) (\<lambda>d.
    rbind (guest_reads par buf ns k) (\<lambda>(ds, k). Inr (d @ ds, k))))))"

lemma length_read_pars [simp]: "length (read_pars n buf) = 16"
  by (simp add: read_pars_def)

lemma guest_reads_stream:
  assumes "snow_wf (kern_snow k)" and "\<forall>n\<in>set ns. n \<le> B" and "B < 2 ^ 31" and "mapped par 16 (kern_mem k)"
    and "mapped buf B (kern_mem k)" and "apart buf B par 16"
  shows "\<exists>k'. guest_reads par buf ns k = Inr (take (sum_list ns) (unread (kern_snow k)), k')"
  using assms(1,2,4,5)
proof (induction ns arbitrary: k)
  case (Cons n ns)
  let ?u = "unread (kern_snow k)"
  have n: "n \<le> B" "n < 2 ^ 31" using Cons.prems(2) assms(3) by auto
  obtain m where m: "mem_store par (read_pars n buf) (kern_mem k) = Inr m"
    using mem_store_total[of par "read_pars n buf" "kern_mem k"] Cons.prems(3) by auto
  have map: "mapped a i m = mapped a i (kern_mem k)" for a i by (rule mem_store_mapped[OF m])
  have "mem_load par 16 m = Inr (read_pars n buf)" using mem_load_store_same[OF m] by simp
  moreover have "mapped buf n m" using mapped_sub[of buf B m 0 n] Cons.prems(4) n(1) map by simp
  moreover have "apart buf n par 16" using apart_sub[OF assms(6), of 0 n 16] n(1) by simp
  ultimately obtain s' m' where r: "snowball_read par (kern_snow k) m = Inr (s', m')" "snow_wf s'"
      "unread s' = drop n ?u" "load_field par handoff_read_pars ''actualsize'' m' = Inr (of_nat (min n (length ?u)))"
      "mem_load buf (min n (length ?u)) m' = Inr (take n ?u)" "\<forall>a i. mapped a i m' = mapped a i m"
    using snowball_read_takes[OF Cons.prems(1) n(2)] by blast
  let ?k = "k\<lparr>kern_mem := m', kern_snow := s'\<rparr>"
  have "kernelcall 0 16 par (k\<lparr>kern_mem := m\<rparr>) = Inr (0, ?k)"
    by (simp add: kernelcall_entries sys_snowball_read_def r(1))
  moreover have "unat (of_nat (min n (length ?u)) :: u32) = min n (length ?u)"
    using n(2) by (simp add: unat_of_nat take_bit_nat_eq_self)
  moreover obtain k' where "guest_reads par buf ns ?k = Inr (take (sum_list ns) (unread s'), k')"
    using Cons.IH[of ?k] Cons.prems r(2,6) map by auto
  ultimately show ?case using m r(3-5) by (simp add: take_add)
qed simp

text \<open>C8. The blocks that the sections of type \<open>snowball\<close> of a configuration describe, in their
  order, are what a guest finds that reads the handoff data by kernel calls, in pieces of any
  sizes that reach to the end, and then goes from block to block by the sizes in the headers;
  if the blocks have less than 64 KiB each and together fit into the buffer.\<close>

theorem handoff_roundtrip:
  assumes "map (section_hblock files) (snow_sections (file_sections cfg)) = map Inr bs" and "\<forall>b\<in>set bs. block_ok b"
    and "length (concat (map encode_block bs)) < SNOWBALL_SIZE" and "length (concat (map encode_block bs)) \<le> sum_list ns"
    and "\<forall>n\<in>set ns. n \<le> B" and "B < 2 ^ 31" and "mapped par 16 m" and "mapped buf B m" and "apart buf B par 16"
  shows "\<exists>s out k. snowball_init files cfg snow_empty = Inr s \<and>
    guest_reads par buf ns \<lparr>kern_mem = m, kern_snow = s, mg_list = l, mg_count = c\<rparr> = Inr (out, k) \<and> parse_blocks out = Some bs"
proof -
  have "int (length (concat (map encode_block bs))) + snowball_wrptr snow_empty < int SNOWBALL_SIZE"
    using assms(3) by (simp add: snow_empty_def)
  then obtain s where s: "snowball_init files cfg snow_empty = Inr s" "snow_wf s" "unread s = concat (map encode_block bs)"
    using sections_added[OF snow_empty(1) assms(1)] snow_empty(2) unfolding snowball_init_def by auto
  let ?k = "\<lparr>kern_mem = m, kern_snow = s, mg_list = l, mg_count = c\<rparr>"
  obtain k where "guest_reads par buf ns ?k = Inr (take (sum_list ns) (unread s), k)"
    using guest_reads_stream[of ?k, OF _ assms(5,6) _ _ assms(9)] s(2) assms(7,8) by auto
  then show ?thesis using s parse_encoded[OF assms(2)] assms(4) by auto
qed

definition toy_snow_cfg :: cfg_file where
  "toy_snow_cfg = \<lparr>file_name = ''c'', file_sections =
    [\<lparr>section_type = ''snowball'', section_name = ''hello'', section_entries =
       [\<lparr>entry_name = ''value'', entry_value = CfgString ''abc''\<rparr>]\<rparr>,
     \<lparr>section_type = ''device'', section_name = ''x'', section_entries = []\<rparr>,
     \<lparr>section_type = ''snowball'', section_name = ''n'', section_entries =
       [\<lparr>entry_name = ''value'', entry_value = CfgInt64 7\<rparr>, \<lparr>entry_name = ''size'', entry_value = CfgInt64 2\<rparr>]\<rparr>],
     last_section = 2\<rparr>"

definition toy_blocks :: "hblock list" where
  "toy_blocks =
    [\<lparr>hb_name = strncpy_name ''hello'', hb_unk0 = 0, hb_flags = 1, hb_unk1 = 0, hb_data = c_bytes ''abc''\<rparr>,
     \<lparr>hb_name = strncpy_name ''n'', hb_unk0 = 0, hb_flags = 1, hb_unk1 = 0, hb_data = [7, 0]\<rparr>]"

lemma toy_sections: "map (section_hblock Map.empty) (snow_sections (file_sections toy_snow_cfg)) = map Inr toy_blocks"
proof -
  have "take 2 (le_bytes 8 (7 :: u64)) = [7, 0]" by code_simp
  then show ?thesis
    by (simp add: toy_snow_cfg_def snow_sections_def section_hblock_def toy_blocks_def snowball_data_def cfg_finders c_bytes_def)
qed

theorem handoff_roundtrip_witness:
  "\<exists>s out k. snowball_init Map.empty toy_snow_cfg snow_empty = Inr s \<and>
    guest_reads 0 0x100 [20, 100] \<lparr>kern_mem = (\<lambda>a. Some 0), kern_snow = s, mg_list = 0, mg_count = 0\<rparr> = Inr (out, k) \<and>
    parse_blocks out = Some toy_blocks"
proof -
  have "apart 0x100 100 0 16" using apart_offsets[of "0x100" 100 0 16 0] by simp
  then show ?thesis
    using handoff_roundtrip[OF toy_sections, of "[20, 100]" 100 0 "\<lambda>a. Some 0" "0x100" 0 0]
    by (simp add: toy_blocks_def block_ok_def length_encode strncpy_name_def SNOWBALL_SIZE_def mapped_iff)
qed

end
