(* ===== verification/Loader.thy ===== *)
theory Loader
  imports CfgFile Layout
begin

text \<open>
  \<open>user/loader/manifest.c\<close>, the layout part of \<open>user/loader/map.c\<close> and the search for the
  current thread in \<open>user/kernel/threads.c\<close>: the extensions of a manifest, the address ranges
  of a module, and the thread that a stack pointer belongs to. Pointers are 32 bit words. The
  mapping itself is \<open>mmap\<close>.
\<close>

section \<open>Manifest\<close>

text \<open>The packed structs of \<open>include/manifest.h\<close>; the arrays of length 0 at their ends take no room.\<close>

definition man_ext :: layout where
  "man_ext = [(''type'', word32), (''length'', word32)]"

definition man_ext_process :: layout where
  "man_ext_process =
    [(''type'', word32), (''length'', word32), (''flags'', word32), (''main_thread_id'', word32),
     (''priv_code_base_address'', word32), (''uncompressed_priv_code_size'', word32), (''cm0_heap_size'', word32),
     (''bss_size'', word32), (''default_heap_size'', word32), (''main_thread_entry'', word32),
     (''allowed_sys_calls'', 12), (''user_id'', 2), (''reserved_0'', word32), (''reserved_1'', 2), (''reserved_2'', 8),
     (''group_ids'', 0)]"

definition man_thread :: layout where
  "man_thread = [(''stack_size'', word32), (''flags'', word32), (''scheduling_policy'', word32)]"

definition man_ext_threads :: layout where
  "man_ext_threads = [(''type'', word32), (''length'', word32), (''threads'', 0)]"

definition man_mmio_range :: layout where
  "man_mmio_range = [(''base'', word32), (''limit'', word32), (''flags'', word32)]"

definition man_ext_mmio_ranges :: layout where
  "man_ext_mmio_ranges = [(''type'', word32), (''length'', word32), (''mmio_range_defs'', 0)]"

definition man_ext_mod_attr :: layout where
  "man_ext_mod_attr =
    [(''type'', word32), (''length'', word32), (''compression_type'', 1), (''reserved'', 3),
     (''uncompressed_size'', word32), (''compressed_size'', word32), (''module_number'', 2), (''vendor_id'', 2),
     (''hash'', 32 * word32)]"

definition man_ext_shared_lib :: layout where
  "man_ext_shared_lib =
    [(''type'', word32), (''length'', word32), (''context_size'', word32), (''total_alloc_virtual_space'', word32),
     (''code_base_address'', word32), (''tls_size'', word32), (''reserved'', word32)]"

definition man_locked_range :: layout where
  "man_locked_range = [(''base'', word32), (''size'', word32)]"

definition man_ext_locked_ranges :: layout where
  "man_ext_locked_ranges = [(''type'', word32), (''length'', word32), (''ranges'', 0)]"

text \<open>A 32 bit member of a struct in the mapped manifest, which is at offset \<open>at\<close>.\<close>

definition man_word :: "bytes \<Rightarrow> nat \<Rightarrow> u32 res" where
  "man_word man off = ld32 (drop off man)"

definition man_field :: "bytes \<Rightarrow> nat \<Rightarrow> layout \<Rightarrow> string \<Rightarrow> u32 res" where
  "man_field man at struct name = man_word man (at + offset_of struct name)"

lemmas man_layouts = man_ext_def man_ext_process_def man_thread_def man_ext_threads_def man_mmio_range_def
  man_ext_mmio_ranges_def man_ext_mod_attr_def man_ext_shared_lib_def man_locked_range_def man_ext_locked_ranges_def
  word32_def

text \<open>
  \<open>pos += ext->length\<close> wraps like a 32 bit word. An extension of length 0 is visited for ever:
  then the value is \<open>None\<close>.
\<close>

partial_function (option) man_ext_find :: "bytes \<Rightarrow> int \<Rightarrow> u32 \<Rightarrow> u32 \<Rightarrow> nat option res option" where
  "man_ext_find man sz type pos =
    (if \<not> sint pos < sz then Some (Inr None)
     else if sint pos < 0 then Some (Inl OutOfBounds)
     else case man_field man (unat pos) man_ext ''type'' of
       Inl e \<Rightarrow> Some (Inl e)
     | Inr ty \<Rightarrow>
         if ty = type then Some (Inr (Some (unat pos)))
         else case man_field man (unat pos) man_ext ''length'' of
           Inl e \<Rightarrow> Some (Inl e)
         | Inr len \<Rightarrow> man_ext_find man sz type (pos + len))"

section \<open>Ranges\<close>

record me_thrd =
  thread_id :: u32
  stack_top :: u32
  stack_size :: u32
  entry_point :: u32

record me_seg =
  seg_base :: u32
  seg_limit :: u32

text \<open>The two variants of the union are separate fields.\<close>

record me_mod =
  bss_base :: u32
  bss_size :: u32
  text_base :: u32
  text_size :: u32
  rodata_base :: u32
  rodata_size :: u32
  heap_base :: u32
  heap_size :: u32
  threads :: "me_thrd list"
  segments :: "me_seg list"
  load_base :: u32
  load_size :: u32
  context_size :: u32

text \<open>A search that does not end is the fault \<open>NoReturn\<close>; \<open>need_ext\<close> is the \<open>logassert\<close> of its result.\<close>

definition find_ext :: "bytes \<Rightarrow> u32 \<Rightarrow> nat option res" where
  "find_ext man type = (case man_ext_find man (int (length man)) type 0 of None \<Rightarrow> Inl NoReturn | Some r \<Rightarrow> r)"

definition need_ext :: "nat option \<Rightarrow> nat res" where
  "need_ext found = (case found of None \<Rightarrow> Inl ExitFailure | Some pos \<Rightarrow> Inr pos)"

text \<open>The loop over the threads: \<open>n\<close> are left, \<open>off\<close> is the offset of the next description.\<close>

fun populate_threads :: "bytes \<Rightarrow> nat \<Rightarrow> nat \<Rightarrow> u32 \<Rightarrow> u32 \<Rightarrow> (me_thrd list \<times> u32) res" where
  "populate_threads man off 0 t next_base = Inr ([], next_base)"
| "populate_threads man off (Suc n) t next_base =
    rbind (man_field man off man_thread ''stack_size'') (\<lambda>sz.
      let next_base = next_base + 0x1000 + sz in
      rbind (populate_threads man (off + layout_size man_thread) n (t + 1) next_base) (\<lambda>(ts, end).
        Inr (\<lparr>thread_id = t, stack_top = next_base, stack_size = sz, entry_point = 0\<rparr> # ts, end)))"

fun populate_segments :: "bytes \<Rightarrow> nat \<Rightarrow> nat \<Rightarrow> me_seg list res" where
  "populate_segments man off 0 = Inr []"
| "populate_segments man off (Suc n) =
    rbind (man_field man off man_mmio_range ''base'') (\<lambda>b.
    rbind (man_field man off man_mmio_range ''limit'') (\<lambda>l.
    rbind (populate_segments man (off + layout_size man_mmio_range) n) (\<lambda>ss. Inr (\<lparr>seg_base = b, seg_limit = l\<rparr> # ss))))"

text \<open>The number of array elements after the members of \<open>man_ext\<close>.\<close>

definition ext_elems :: "layout \<Rightarrow> u32 \<Rightarrow> nat" where
  "ext_elems elem len = unat (len - of_nat (layout_size man_ext)) div layout_size elem"

definition populate_ranges_mod :: "bytes \<Rightarrow> u32 \<Rightarrow> me_mod \<Rightarrow> me_mod res" where
  "populate_ranges_mod met ctx m =
    rbind (find_ext met 10) (\<lambda>mod_attr. rbind (find_ext met 6) (\<lambda>thrds.
    rbind (find_ext met 5) (\<lambda>process. rbind (find_ext met 8) (\<lambda>mmios.
    rbind (need_ext mod_attr) (\<lambda>mod_attr. rbind (need_ext process) (\<lambda>process.
    rbind (need_ext thrds) (\<lambda>thrds. rbind (need_ext mmios) (\<lambda>mmios.
    rbind (man_field met process man_ext_process ''priv_code_base_address'') (\<lambda>code_base.
    rbind (man_field met process man_ext_process ''uncompressed_priv_code_size'') (\<lambda>code_size.
    rbind (man_field met mod_attr man_ext_mod_attr ''uncompressed_size'') (\<lambda>uncompressed.
    rbind (man_field met thrds man_ext_threads ''length'') (\<lambda>thrds_len.
    rbind (man_field met process man_ext_process ''main_thread_id'') (\<lambda>t.
      let rodata_base = code_base + code_size; rodata_size = uncompressed - code_size;
          next_base = rodata_base + rodata_size in
    rbind (populate_threads met (thrds + offset_of man_ext_threads ''threads'') (ext_elems man_thread thrds_len) t next_base) (\<lambda>(ts, next_base).
    rbind (man_field met process man_ext_process ''main_thread_entry'') (\<lambda>entry.
    if ts = [] then Inl OutOfBounds
    else
      let ts = ts[0 := (ts ! 0)\<lparr>entry_point := entry\<rparr>] in
    rbind (man_field met mmios man_ext_mmio_ranges ''length'') (\<lambda>mmios_len.
    rbind (populate_segments met (mmios + offset_of man_ext_mmio_ranges ''mmio_range_defs'') (ext_elems man_mmio_range mmios_len)) (\<lambda>segs.
    rbind (man_field met process man_ext_process ''default_heap_size'') (\<lambda>heap.
    rbind (man_field met process man_ext_process ''bss_size'') (\<lambda>bss.
      Inr (m\<lparr>text_base := code_base, text_size := code_size, rodata_base := rodata_base, rodata_size := rodata_size,
        threads := ts, segments := segs, heap_base := next_base, heap_size := heap,
        bss_base := next_base + heap, bss_size := bss + ctx\<rparr>))))))))))))))))))))"

definition populate_ranges_shlib :: "bytes \<Rightarrow> me_mod \<Rightarrow> me_mod res" where
  "populate_ranges_shlib met m =
    rbind (find_ext met 10) (\<lambda>mod_attr. rbind (find_ext met 4) (\<lambda>shlib. rbind (find_ext met 11) (\<lambda>ranges.
    rbind (need_ext mod_attr) (\<lambda>mod_attr. rbind (need_ext shlib) (\<lambda>shlib. rbind (need_ext ranges) (\<lambda>ranges.
    rbind (man_field met ranges man_ext_locked_ranges ''length'') (\<lambda>len.
    if len < of_nat (layout_size man_ext_locked_ranges + layout_size man_locked_range) then Inl ExitFailure
    else
    rbind (man_field met (ranges + offset_of man_ext_locked_ranges ''ranges'') man_locked_range ''base'') (\<lambda>base.
    rbind (man_field met mod_attr man_ext_mod_attr ''uncompressed_size'') (\<lambda>uncompressed.
    rbind (man_field met shlib man_ext_shared_lib ''total_alloc_virtual_space'') (\<lambda>total.
    rbind (man_field met shlib man_ext_shared_lib ''context_size'') (\<lambda>ctx.
      Inr (m\<lparr>load_base := base, load_size := uncompressed, bss_base := base + uncompressed,
        bss_size := total - uncompressed, context_size := ctx\<rparr>))))))))))))"

text \<open>\<open>filesz\<close> of the module file is a parameter.\<close>

definition populate_ranges_romlib :: "u32 \<Rightarrow> u32 \<Rightarrow> me_mod \<Rightarrow> me_mod" where
  "populate_ranges_romlib filesz base m =
    m\<lparr>load_base := base, load_size := filesz, bss_base := base + filesz, bss_size := 0, context_size := 0\<rparr>"

section \<open>Threads\<close>

fun find_stack :: "u32 \<Rightarrow> nat \<Rightarrow> me_thrd list \<Rightarrow> int" where
  "find_stack stack i [] = -1"
| "find_stack stack i (th # ths) =
    (let st_top = stack_top th; st_base = st_top - stack_size th in
     if stack \<ge> st_base \<and> stack \<le> st_top then int i else find_stack stack (Suc i) ths)"

text \<open>The stack pointer is a parameter (\<open>get_esp\<close> is assembly).\<close>

definition get_current_thread_id :: "me_mod \<Rightarrow> u32 \<Rightarrow> int" where
  "get_current_thread_id current_mod esp = find_stack esp 0 (threads current_mod)"

definition get_thread_tls :: "me_mod \<Rightarrow> nat \<Rightarrow> u32 res" where
  "get_thread_tls current_mod i =
    (if i < length (threads current_mod) then Inr (stack_top (threads current_mod ! i) - 4) else Inl OutOfBounds)"

section \<open>Searching a manifest\<close>

text \<open>A manifest of extensions, and the offset of the first one of a type.\<close>

definition ext_bytes :: "u32 \<times> bytes \<Rightarrow> bytes" where
  "ext_bytes = (\<lambda>(ty, body). le_bytes 4 ty @ le_bytes 4 (of_nat (8 + length body) :: u32) @ body)"

definition manifest :: "(u32 \<times> bytes) list \<Rightarrow> bytes" where
  "manifest exts = concat (map ext_bytes exts)"

fun first_offset :: "u32 \<Rightarrow> (u32 \<times> bytes) list \<Rightarrow> nat \<Rightarrow> nat option" where
  "first_offset type [] off = None"
| "first_offset type ((ty, body) # exts) off =
    (if ty = type then Some off else first_offset type exts (off + 8 + length body))"

lemma manifest_simps [simp]:
  "manifest [] = []" "manifest ((ty, body) # exts) = le_bytes 4 ty @ le_bytes 4 (of_nat (8 + length body) :: u32) @ body @ manifest exts"
  by (simp_all add: manifest_def ext_bytes_def)

lemma small_pos: "n < 2 ^ 31 \<Longrightarrow> unat (of_nat n :: u32) = n \<and> sint (of_nat n :: u32) = int n"
  by (simp add: unat_of_nat take_bit_nat_eq_self signed_of_nat signed_take_bit_int_eq_self)

lemma man_ext_find_from:
  "length (pre @ manifest exts) < 2 ^ 31 \<Longrightarrow>
   man_ext_find (pre @ manifest exts) (int (length (pre @ manifest exts))) type (of_nat (length pre)) =
     Some (Inr (first_offset type exts (length pre)))"
proof (induction exts arbitrary: pre)
  case Nil
  then show ?case using small_pos[of "length pre"] by (subst man_ext_find.simps) simp
next
  case (Cons e exts)
  obtain ty body where e: "e = (ty, body)" by (cases e)
  let ?len = "of_nat (8 + length body) :: u32"
  let ?pre = "pre @ le_bytes 4 ty @ le_bytes 4 ?len @ body"
  have l: "length pre < 2 ^ 31" using Cons.prems by simp
  note pos = small_pos[OF l]
  have w: "man_field (pre @ manifest (e # exts)) (length pre) man_ext ''type'' = Inr ty"
    "man_field (pre @ manifest (e # exts)) (length pre) man_ext ''length'' = Inr ?len"
    by (simp_all add: man_field_def man_word_def man_layouts e)
  have lt: "int (length pre) < int (length (pre @ manifest (e # exts)))" by (simp add: e)
  show ?case
  proof (cases "ty = type")
    case True
    then show ?thesis using lt pos w by (subst man_ext_find.simps) (simp add: e)
  next
    case False
    have "of_nat (length pre) + ?len = of_nat (length ?pre)" by simp
    moreover have "pre @ manifest (e # exts) = ?pre @ manifest exts" by (simp add: e)
    ultimately have "man_ext_find (pre @ manifest (e # exts)) (int (length (pre @ manifest (e # exts)))) type (of_nat (length pre)) =
        man_ext_find (?pre @ manifest exts) (int (length (?pre @ manifest exts))) type (of_nat (length ?pre))"
      using False lt pos w by (subst man_ext_find.simps) simp
    also have "\<dots> = Some (Inr (first_offset type exts (length ?pre)))"
      using Cons.prems by (intro Cons.IH) (simp add: e)
    finally show ?thesis using False by (simp add: e add.assoc)
  qed
qed

text \<open>C20. The search through a manifest of any extensions ends and finds the first extension of the
  type, at its offset, or reports that there is none.\<close>

theorem man_ext_find_first:
  assumes "length (manifest exts) < 2 ^ 31"
  shows "man_ext_find (manifest exts) (int (length (manifest exts))) type 0 = Some (Inr (first_offset type exts 0))"
  using man_ext_find_from[of "[]" exts type] assms by simp

theorem man_ext_find_first_witness:
  "man_ext_find (manifest [(5, [1, 2]), (6, [])]) 18 6 0 = Some (Inr (Some 10))"
  using man_ext_find_first[of "[(5, [1, 2]), (6, [])]" 6] by simp

text \<open>C40. An extension of length 0 that is not the one searched for keeps the search at its place for
  ever.\<close>

theorem man_ext_find_stuck:
  assumes "0 \<le> sint pos" and "sint pos < sz" and "man_field man (unat pos) man_ext ''type'' = Inr ty" and "ty \<noteq> type"
    and "man_field man (unat pos) man_ext ''length'' = Inr 0"
  shows "man_ext_find man sz type pos = None"
proof -
  have False if "man_ext_find man sz type pos = Some r" for r
  proof -
    have "(man, sz, type, pos) \<noteq> (man, sz, type, pos)"
    proof (rule man_ext_find.raw_induct[of "\<lambda>m s t p r. (m, s, t, p) \<noteq> (man, sz, type, pos)", OF _ that])
      fix f m s t p y
      assume IH: "\<And>m s t p y. f m s t p = Some y \<Longrightarrow> (m, s, t, p) \<noteq> (man, sz, type, pos)"
        and body: "(if \<not> sint p < s then Some (Inr None)
          else if sint p < 0 then Some (Inl OutOfBounds)
          else case man_field m (unat p) man_ext ''type'' of Inl e \<Rightarrow> Some (Inl e)
          | Inr ty \<Rightarrow> if ty = t then Some (Inr (Some (unat p)))
            else case man_field m (unat p) man_ext ''length'' of Inl e \<Rightarrow> Some (Inl e) | Inr len \<Rightarrow> f m s t (p + len)) = Some y"
      show "(m, s, t, p) \<noteq> (man, sz, type, pos)"
        using body assms IH[of man sz type pos y] by auto
    qed
    then show False by simp
  qed
  then show ?thesis by (cases "man_ext_find man sz type pos") auto
qed

theorem man_ext_find_stuck_witness: "man_ext_find [0, 0, 0, 0, 0, 0, 0, 0] 8 5 0 = None"
  by (rule man_ext_find_stuck[of _ _ _ 0]) (simp_all add: man_field_def man_layouts man_word_def ld32_def)

section \<open>The layout of a module\<close>

text \<open>The ranges that \<open>map_ranges_mod\<close> maps, a stack together with its guard page, and the number
  of bytes they take.\<close>

definition stack_range :: "me_thrd \<Rightarrow> u32 \<times> nat" where
  "stack_range th = (stack_top th - stack_size th - 0x1000, unat (stack_size th) + 0x1000)"

definition mod_ranges :: "me_mod \<Rightarrow> (u32 \<times> nat) list" where
  "mod_ranges m = [(text_base m, unat (text_size m)), (rodata_base m, unat (rodata_size m))] @
     map stack_range (threads m) @ [(heap_base m, unat (heap_size m)), (bss_base m, unat (bss_size m))]"

definition range_bytes :: "(u32 \<times> nat) list \<Rightarrow> nat" where
  "range_bytes rs = sum_list (map snd rs)"

text \<open>Ranges one after the other: each starts where the one before it ends.\<close>

fun packed :: "u32 \<Rightarrow> (u32 \<times> nat) list \<Rightarrow> bool" where
  "packed lo [] \<longleftrightarrow> True"
| "packed lo ((b, n) # rs) \<longleftrightarrow> b = lo \<and> packed (lo + of_nat n) rs"

definition before :: "u32 \<times> nat \<Rightarrow> u32 \<times> nat \<Rightarrow> bool" where
  "before = (\<lambda>(b, n) (b', n'). unat b + n \<le> unat b')"

lemma packed_append: "packed lo (as @ bs) \<longleftrightarrow> packed lo as \<and> packed (lo + of_nat (range_bytes as)) bs"
  by (induction lo as rule: packed.induct) (auto simp: range_bytes_def add.assoc)

text \<open>Packed ranges that fit below the end of the address space are disjoint.\<close>

lemma packed_before:
  assumes "packed lo rs" and "unat lo + range_bytes rs < 2 ^ 32"
  shows "sorted_wrt before rs \<and> (\<forall>r\<in>set rs. unat lo \<le> unat (fst r) \<and> unat (fst r) + snd r < 2 ^ 32)"
  using assms
proof (induction lo rs rule: packed.induct)
  case (2 lo b n rs)
  have n: "n < 2 ^ 32" "unat lo + n < 2 ^ 32" using 2(3) by (simp_all add: range_bytes_def)
  have u: "unat (lo + of_nat n) = unat lo + n"
    using n by (simp add: unat_word_ariths unat_of_nat take_bit_nat_eq_self)
  with 2 have IH: "sorted_wrt before rs" "\<forall>r\<in>set rs. unat lo + n \<le> unat (fst r) \<and> unat (fst r) + snd r < 2 ^ 32"
    by (simp_all add: range_bytes_def add.assoc)
  have "\<forall>r\<in>set rs. before (b, n) r \<and> unat lo \<le> unat (fst r) \<and> unat (fst r) + snd r < 2 ^ 32"
    using IH(2) 2(2) by (fastforce simp: before_def)
  then show ?case using IH(1) n(2) 2(2) by auto
qed simp

lemma populate_threads_packed:
  "populate_threads man off n t next = Inr (ts, end) \<Longrightarrow>
   packed next (map stack_range ts) \<and> end = next + of_nat (range_bytes (map stack_range ts))"
proof (induction man off n t "next" arbitrary: ts "end" rule: populate_threads.induct)
  case (2 man off n t next_base)
  from 2(2) obtain sz ts' where sz: "man_field man off man_thread ''stack_size'' = Inr sz"
    and r: "populate_threads man (off + layout_size man_thread) n (t + 1) (next_base + 0x1000 + sz) = Inr (ts', end)"
    and ts: "ts = \<lparr>thread_id = t, stack_top = next_base + 0x1000 + sz, stack_size = sz, entry_point = 0\<rparr> # ts'"
    by (auto simp: rbind_Inr_iff Let_def)
  from 2(1)[OF sz refl r] show ?case by (simp add: ts stack_range_def range_bytes_def algebra_simps)
qed (simp add: range_bytes_def)

lemma populate_ranges_packed:
  assumes "populate_ranges_mod met ctx m0 = Inr m"
  shows "packed (text_base m) (mod_ranges m)"
proof -
  obtain off n t ts "end" entry where r: "populate_threads met off n t (rodata_base m + rodata_size m) = Inr (ts, end)"
    and m: "threads m = ts[0 := (ts ! 0)\<lparr>entry_point := entry\<rparr>]" "ts \<noteq> []" "rodata_base m = text_base m + text_size m"
      "heap_base m = end" "bss_base m = end + heap_size m"
    using assms by (fastforce simp: populate_ranges_mod_def rbind_Inr_iff Let_def split: if_splits prod.splits)
  have "map stack_range (threads m) = map stack_range ts"
    using m(1,2) by (cases ts) (simp_all add: stack_range_def)
  then show ?thesis
    using populate_threads_packed[OF r] m(3-5) by (simp add: mod_ranges_def packed_append range_bytes_def add.assoc)
qed

text \<open>A manifest with two threads, and the module it gives.\<close>

definition toy_exts :: "(u32 \<times> bytes) list" where
  "toy_exts = [(10, [0, 0, 0, 0, 0, 0x20, 0, 0]),
    (6, [0, 0x10, 0, 0, 0, 0, 0, 0, 0, 0, 0, 0, 0, 0x10, 0, 0, 0, 0, 0, 0, 0, 0, 0, 0]),
    (5, [0, 0, 0, 0, 7, 0, 0, 0, 0, 0x10, 0, 0, 0, 0x10, 0, 0, 0, 0, 0, 0, 0x30, 0, 0, 0, 0, 0x10, 0, 0, 0, 0x11, 0, 0]),
    (8, [0, 0, 0, 0xF0, 0, 1, 0, 0, 0, 0, 0, 0])]"

definition toy_mod :: me_mod where
  "toy_mod = \<lparr>bss_base = 0, bss_size = 0, text_base = 0, text_size = 0, rodata_base = 0, rodata_size = 0, heap_base = 0,
    heap_size = 0, threads = [], segments = [], load_base = 0, load_size = 0, context_size = 0\<rparr>"

definition toy_loaded :: me_mod where
  "toy_loaded = \<lparr>bss_base = 0x8000, bss_size = 0x40, text_base = 0x1000, text_size = 0x1000, rodata_base = 0x2000,
    rodata_size = 0x1000, heap_base = 0x7000, heap_size = 0x1000,
    threads = [\<lparr>thread_id = 7, stack_top = 0x5000, stack_size = 0x1000, entry_point = 0x1100\<rparr>,
      \<lparr>thread_id = 8, stack_top = 0x7000, stack_size = 0x1000, entry_point = 0\<rparr>],
    segments = [\<lparr>seg_base = 0xF0000000, seg_limit = 0x100\<rparr>], load_base = 0, load_size = 0, context_size = 0\<rparr>"

lemma toy_populated: "populate_ranges_mod (manifest toy_exts) 0x10 toy_mod = Inr toy_loaded"
proof -
  have len: "length (manifest toy_exts) = 108" by (simp add: toy_exts_def)
  have find: "find_ext (manifest toy_exts) type = Inr (first_offset type toy_exts 0)" for type
    using man_ext_find_from[of "[]" toy_exts type] len by (simp add: find_ext_def)
  have offsets: "first_offset 10 toy_exts 0 = Some 0" "first_offset 6 toy_exts 0 = Some 16"
    "first_offset 5 toy_exts 0 = Some 48" "first_offset 8 toy_exts 0 = Some 88"
    by (simp_all add: toy_exts_def)
  have words: "man_word (manifest toy_exts) 12 = Inr 0x2000" "man_word (manifest toy_exts) 20 = Inr 32"
    "man_word (manifest toy_exts) 24 = Inr 0x1000" "man_word (manifest toy_exts) 36 = Inr 0x1000"
    "man_word (manifest toy_exts) 60 = Inr 7" "man_word (manifest toy_exts) 64 = Inr 0x1000"
    "man_word (manifest toy_exts) 68 = Inr 0x1000" "man_word (manifest toy_exts) 76 = Inr 0x30"
    "man_word (manifest toy_exts) 80 = Inr 0x1000" "man_word (manifest toy_exts) 84 = Inr 0x1100"
    "man_word (manifest toy_exts) 92 = Inr 20" "man_word (manifest toy_exts) 96 = Inr 0xF0000000"
    "man_word (manifest toy_exts) 100 = Inr 0x100"
    by code_simp+
  have elems: "ext_elems man_thread 32 = Suc (Suc 0)" "ext_elems man_mmio_range 20 = Suc 0"
    by (simp_all add: ext_elems_def man_layouts)
  show ?thesis
    by (simp add: populate_ranges_mod_def find offsets need_ext_def man_field_def man_layouts words
        elems[unfolded man_layouts] toy_mod_def toy_loaded_def)
qed

text \<open>The ranges of a loaded module, that is its text, its read only data, the stacks of its
  threads each with a guard page below it, its heap and its bss, are disjoint and in this
  order, if together they fit into the address space.\<close>

lemma mod_ranges_disjoint:
  assumes "populate_ranges_mod met ctx m0 = Inr m" and "unat (text_base m) + range_bytes (mod_ranges m) < 2 ^ 32"
  shows "sorted_wrt before (mod_ranges m)"
  using packed_before[OF populate_ranges_packed[OF assms(1)] assms(2)] by blast

section \<open>Whose stack it is\<close>

text \<open>A stack pointer of a thread: from the lowest byte of its stack to the first byte above it.\<close>

definition on_stack :: "me_thrd \<Rightarrow> u32 \<Rightarrow> bool" where
  "on_stack th esp \<longleftrightarrow> stack_top th - stack_size th \<le> esp \<and> esp \<le> stack_top th"

lemma find_stack_unique:
  "n < length ths \<Longrightarrow> on_stack (ths ! n) esp \<Longrightarrow> \<forall>j<n. \<not> on_stack (ths ! j) esp \<Longrightarrow> find_stack esp i ths = int (i + n)"
proof (induction ths arbitrary: n i)
  case (Cons th ths)
  show ?case
  proof (cases n)
    case 0
    with Cons.prems show ?thesis by (simp add: on_stack_def)
  next
    case (Suc k)
    have "\<not> on_stack th esp" using Cons.prems(3) Suc by force
    moreover have "\<forall>j<k. \<not> on_stack (ths ! j) esp" using Cons.prems(3) Suc by force
    ultimately show ?thesis
      using Cons.IH[of k "Suc i"] Cons.prems(1,2) Suc by (simp add: on_stack_def Let_def)
  qed
qed simp

lemma stack_top_nat:
  fixes top sz :: u32
  assumes "unat (top - sz - 0x1000) + (unat sz + 0x1000) < 2 ^ 32"
  shows "unat (top - sz) = unat (top - sz - 0x1000) + 0x1000 \<and> unat top = unat (top - sz - 0x1000) + 0x1000 + unat sz"
proof -
  have "unat (b + 0x1000) = unat b + 0x1000" "unat (b + 0x1000 + sz) = unat b + 0x1000 + unat sz"
    if "unat b + (unat sz + 0x1000) < 2 ^ 32" for b :: u32
    using that by (simp_all add: unat_word_ariths)
  from this[OF assms] show ?thesis by simp
qed

lemma stack_identifies_thread:
  assumes "populate_ranges_mod met ctx m0 = Inr m" and "unat (text_base m) + range_bytes (mod_ranges m) < 2 ^ 32"
    and "i < length (threads m)" and "on_stack (threads m ! i) esp"
  shows "get_current_thread_id m esp = int i"
proof -
  let ?r = "map stack_range (threads m)"
  note pk = populate_ranges_packed[OF assms(1)]
  note pb = packed_before[OF pk assms(2)]
  have s: "sorted_wrt before ?r" using pb by (simp add: mod_ranges_def sorted_wrt_append)
  have in32: "unat (stack_top th - stack_size th - 0x1000) + (unat (stack_size th) + 0x1000) < 2 ^ 32"
    if "th \<in> set (threads m)" for th
    using pb that by (simp add: mod_ranges_def stack_range_def)
  have "\<not> on_stack (threads m ! j) esp" if "j < i" for j
  proof -
    have "before (?r ! j) (?r ! i)" using s that assms(3) by (intro sorted_wrt_nth_less) simp_all
    then show ?thesis
      using stack_top_nat[OF in32[of "threads m ! j"]] stack_top_nat[OF in32[of "threads m ! i"]] that assms(3,4)
      by (simp add: before_def stack_range_def on_stack_def word_le_nat_alt)
  qed
  then show ?thesis
    using find_stack_unique[of i "threads m" esp 0] assms(3,4) by (simp add: get_current_thread_id_def)
qed

text \<open>C26. In a loaded module the running thread is recognised by its stack pointer: the search over the
  threads returns the number of the one whose stack the pointer is in, also when the stack is
  empty and the pointer is the first address above it, which the guard page of the next stack
  keeps apart from that.\<close>

theorem current_thread_of_stack:
  assumes "populate_ranges_mod met ctx m0 = Inr m" and "unat (text_base m) + range_bytes (mod_ranges m) < 2 ^ 32"
    and "i < length (threads m)" and "on_stack (threads m ! i) esp"
  shows "get_current_thread_id m esp = int i"
  by (rule stack_identifies_thread[OF assms])

theorem current_thread_of_stack_witness: "get_current_thread_id toy_loaded 0x7000 = 1"
  using current_thread_of_stack[OF toy_populated, where i = 1 and esp = "0x7000"]
  by (simp add: toy_loaded_def mod_ranges_def stack_range_def range_bytes_def on_stack_def)

end
