(* ===== verification/Segments.thy ===== *)
theory Segments
  imports Misa Loader
begin

text \<open>
  \<open>user/kernel/memory.c\<close> and \<open>user/romlib/mmio.c\<close>: the accesses of the guest to its segments,
  which the kernel checks against the segments of the loaded module and passes on to the
  system agent. Numbers that C converts between \<open>int\<close> and \<open>size_t\<close> are words.
\<close>

section \<open>Segments\<close>

text \<open>
  Without the LDT bit the address stays uninitialised. \<open>seg >>= 3\<close> keeps the sign. The sum of
  the \<open>int\<close> offset and the \<open>size_t\<close> count is unsigned, and so is its comparison with the limit.
  The code faults on purpose by a write through a null pointer.
\<close>

definition krnl_deref_seg :: "me_mod \<Rightarrow> u32 \<Rightarrow> u32 \<Rightarrow> u32 \<Rightarrow> u32 res" where
  "krnl_deref_seg current_mod seg offset count =
    (if seg AND 4 \<noteq> 4 then Inl BadUsage
     else
       let seg = sint seg div 8 in
       if seg \<ge> int (length (segments current_mod)) then Inl NullCall
       else if seg < 0 then Inl OutOfBounds
       else if offset + count > seg_limit (segments current_mod ! nat seg) then Inl NullCall
       else Inr (seg_base (segments current_mod ! nat seg) + offset))"

definition krnl_write_seg :: "'w mia_fsb \<Rightarrow> me_mod \<Rightarrow> u32 \<Rightarrow> u32 \<Rightarrow> bytes \<Rightarrow> u32 \<Rightarrow> 'w \<Rightarrow> 'w res" where
  "krnl_write_seg fsb current_mod seg offset data count w =
    rbind (krnl_deref_seg current_mod seg offset count) (\<lambda>lad. sa_mem_write fsb lad data (unat count) w)"

definition krnl_read_seg :: "'w mia_fsb \<Rightarrow> me_mod \<Rightarrow> u32 \<Rightarrow> u32 \<Rightarrow> bytes \<Rightarrow> u32 \<Rightarrow> 'w \<Rightarrow> (bytes \<times> 'w) res" where
  "krnl_read_seg fsb current_mod seg offset data count w =
    rbind (krnl_deref_seg current_mod seg offset count) (\<lambda>lad. sa_mem_read fsb lad data (unat count) w)"

text \<open>The old interface is not to be used any more.\<close>

definition dma_write :: "u32 \<Rightarrow> bytes \<Rightarrow> u32 \<Rightarrow> unit res" where
  "dma_write lad data count = Inl ExitFailure"

definition dma_read :: "u32 \<Rightarrow> bytes \<Rightarrow> u32 \<Rightarrow> bytes res" where
  "dma_read lad data count = Inl ExitFailure"

section \<open>The library of the boot ROM\<close>

definition tstamp_read :: u64 where
  "tstamp_read = 0x7EADCAFEFEED1337"

definition write_seg_32 :: "'w mia_fsb \<Rightarrow> me_mod \<Rightarrow> u32 \<Rightarrow> u32 \<Rightarrow> u32 \<Rightarrow> 'w \<Rightarrow> 'w res" where
  "write_seg_32 fsb m seg offset v w = krnl_write_seg fsb m seg offset (le_bytes 4 v) 4 w"

definition write_seg_16 :: "'w mia_fsb \<Rightarrow> me_mod \<Rightarrow> u32 \<Rightarrow> u32 \<Rightarrow> u16 \<Rightarrow> 'w \<Rightarrow> 'w res" where
  "write_seg_16 fsb m seg offset v w = krnl_write_seg fsb m seg offset (le_bytes 2 v) 2 w"

definition write_seg_8 :: "'w mia_fsb \<Rightarrow> me_mod \<Rightarrow> u32 \<Rightarrow> u32 \<Rightarrow> u8 \<Rightarrow> 'w \<Rightarrow> 'w res" where
  "write_seg_8 fsb m seg offset v w = krnl_write_seg fsb m seg offset (le_bytes 1 v) 1 w"

definition read_seg_32 :: "'w mia_fsb \<Rightarrow> me_mod \<Rightarrow> u32 \<Rightarrow> u32 \<Rightarrow> 'w \<Rightarrow> (u32 \<times> 'w) res" where
  "read_seg_32 fsb m seg offset w =
    (let v = (if seg = 0x3B then 0xDEADBEEF else 0 :: u32) in
     rbind (krnl_read_seg fsb m seg offset (le_bytes 4 v) 4 w) (\<lambda>(b, w). Inr (le_word b, w)))"

definition read_seg_16 :: "'w mia_fsb \<Rightarrow> me_mod \<Rightarrow> u32 \<Rightarrow> u32 \<Rightarrow> 'w \<Rightarrow> (u16 \<times> 'w) res" where
  "read_seg_16 fsb m seg offset w =
    rbind (krnl_read_seg fsb m seg offset (le_bytes 2 (0 :: u16)) 2 w) (\<lambda>(b, w). Inr (le_word b, w))"

definition read_seg_8 :: "'w mia_fsb \<Rightarrow> me_mod \<Rightarrow> u32 \<Rightarrow> u32 \<Rightarrow> 'w \<Rightarrow> (u8 \<times> 'w) res" where
  "read_seg_8 fsb m seg offset w =
    rbind (krnl_read_seg fsb m seg offset (le_bytes 1 (0 :: u8)) 1 w) (\<lambda>(b, w). Inr (le_word b, w))"

definition write_seg :: "'w mia_fsb \<Rightarrow> me_mod \<Rightarrow> u32 \<Rightarrow> u32 \<Rightarrow> bytes \<Rightarrow> u32 \<Rightarrow> 'w \<Rightarrow> 'w res" where
  "write_seg fsb m seg offset buffer count w = krnl_write_seg fsb m seg offset buffer count w"

definition read_seg :: "'w mia_fsb \<Rightarrow> me_mod \<Rightarrow> bytes \<Rightarrow> u32 \<Rightarrow> u32 \<Rightarrow> u32 \<Rightarrow> 'w \<Rightarrow> (bytes \<times> 'w) res" where
  "read_seg fsb m buffer seg offset count w = krnl_read_seg fsb m seg offset buffer count w"

section \<open>What the limit protects\<close>

text \<open>The selector of entry \<open>i\<close> of the LDT.\<close>

definition ldt_selector :: "nat \<Rightarrow> u32" where
  "ldt_selector i = of_nat (8 * i + 7)"

lemma ldt_selector:
  assumes "i < 2 ^ 28"
  shows "ldt_selector i AND 4 = 4" and "sint (ldt_selector i) div 8 = int i"
proof -
  have "bit (ldt_selector i) 2"
  proof -
    have "(8 * i + 7) div 2 ^ 2 = 2 * i + 1" by simp
    then have "bit (8 * i + 7) 2" unfolding bit_iff_odd by simp
    then show ?thesis by (simp add: ldt_selector_def bit_of_nat_iff del: of_nat_add of_nat_mult)
  qed
  moreover have "(4 :: u32) = BIT 2" by (simp add: BIT_def)
  ultimately show "ldt_selector i AND 4 = 4" by (simp only: and_BIT if_True)
  have "sint (ldt_selector i) = int (8 * i + 7)"
    using assms by (simp add: ldt_selector_def signed_of_nat signed_take_bit_int_eq_self del: of_nat_add of_nat_mult)
  then show "sint (ldt_selector i) div 8 = int i" by simp
qed

lemma krnl_deref_ldt:
  assumes "i < length (segments m)" and "i < 2 ^ 28"
  shows "krnl_deref_seg m (ldt_selector i) offset count =
    (if offset + count > seg_limit (segments m ! i) then Inl NullCall else Inr (seg_base (segments m ! i) + offset))"
  using ldt_selector[OF assms(2)] assms(1) by (simp add: krnl_deref_seg_def)

text \<open>C17. What the segment limit protects, for writes and for reads. An access is passed to the
  bus, at the base of the segment plus the offset, exactly if the 32 bit sum of offset and count
  is at most the limit; otherwise the emulator uses the null pointer it gets. An access of at
  least one byte that is passed on stays inside the segment exactly if offset and count do not
  wrap around: one that wraps passes the test and leaves the segment.\<close>

theorem segment_limit:
  assumes "i < length (segments m)" and "i < 2 ^ 28"
  shows "let s = segments m ! i; passed = offset + count \<le> seg_limit s in
    krnl_write_seg fsb m (ldt_selector i) offset data count w =
      (if passed then sa_mem_write fsb (seg_base s + offset) data (unat count) w else Inl NullCall) \<and>
    krnl_read_seg fsb m (ldt_selector i) offset data count w =
      (if passed then sa_mem_read fsb (seg_base s + offset) data (unat count) w else Inl NullCall) \<and>
    (passed \<and> count \<noteq> 0 \<longrightarrow>
      ((\<forall>k<unat count. unat offset + k < unat (seg_limit s)) \<longleftrightarrow> unat offset + unat count < 2 ^ 32))"
proof -
  let ?s = "segments m ! i"
  have n: "unat x < 2 ^ 32" for x :: u32 by (rule order_less_le_trans[OF unsigned_less]) simp
  have "(\<forall>k<unat count. unat offset + k < unat (seg_limit ?s)) \<longleftrightarrow> unat offset + unat count < 2 ^ 32"
    if p: "offset + count \<le> seg_limit ?s" and c: "count \<noteq> 0"
  proof
    have pos: "0 < unat count" using c by (simp add: unat_gt_0)
    assume "\<forall>k<unat count. unat offset + k < unat (seg_limit ?s)"
    from this[rule_format, of "unat count - 1"] have "unat offset + (unat count - 1) < unat (seg_limit ?s)" using pos by linarith
    then show "unat offset + unat count < 2 ^ 32" using n[of "seg_limit ?s"] pos by linarith
  next
    assume "unat offset + unat count < 2 ^ 32"
    then have "unat offset + unat count \<le> unat (seg_limit ?s)"
      using p by (simp add: word_le_nat_alt unat_word_ariths)
    then show "\<forall>k<unat count. unat offset + k < unat (seg_limit ?s)" by auto
  qed
  then show ?thesis
    by (auto simp: krnl_write_seg_def krnl_read_seg_def krnl_deref_ldt[OF assms] Let_def not_less not_le[symmetric])
qed

definition trace_fsb :: "(u32 \<times> nat) list mia_fsb" where
  "trace_fsb = \<lparr>sa_mem_write = (\<lambda>a d n w. Inr (w @ [(a, n)])), sa_mem_read = (\<lambda>a d n w. Inr (d, w @ [(a, n)])),
     sa_io_write = (\<lambda>a d n w. Inr w), sa_io_read = (\<lambda>a d n w. Inr (d, w))\<rparr>"

theorem segment_limit_witness:
  "krnl_write_seg trace_fsb toy_loaded (ldt_selector 0) 0xFC [1, 2, 3, 4] 4 [] = Inr [(0xF00000FC, 4)] \<and>
   krnl_write_seg trace_fsb toy_loaded (ldt_selector 0) 0xFD [1, 2, 3, 4] 4 [] = Inl NullCall \<and>
   krnl_read_seg trace_fsb toy_loaded (ldt_selector 0) 0xFFFFFFFC [1, 2, 3, 4] 4 [] = Inr ([1, 2, 3, 4], [(0xEFFFFFFC, 4)])"
proof -
  have l: "0 < length (segments toy_loaded)" "(0 :: nat) < 2 ^ 28" by (simp_all add: toy_loaded_def)
  have s: "segments toy_loaded ! 0 = \<lparr>seg_base = 0xF0000000, seg_limit = 0x100\<rparr>" by (simp add: toy_loaded_def)
  have t: "sa_mem_write trace_fsb a d n w = Inr (w @ [(a, n)])" "sa_mem_read trace_fsb a d n w = Inr (d, w @ [(a, n)])" for a d n w
    by (simp_all add: trace_fsb_def)
  show ?thesis
    using segment_limit[OF l, where fsb = trace_fsb and offset = "0xFC" and count = 4 and data = "[1, 2, 3, 4]" and w = "[]"]
      segment_limit[OF l, where fsb = trace_fsb and offset = "0xFD" and count = 4 and data = "[1, 2, 3, 4]" and w = "[]"]
      segment_limit[OF l, where fsb = trace_fsb and offset = "0xFFFFFFFC" and count = 4 and data = "[1, 2, 3, 4]" and w = "[]"]
    unfolding s by (simp add: Let_def t)
qed

end
