(* ===== verification/Guest.thy ===== *)
theory Guest
  imports Segments P2g Heci HostMem
begin

text \<open>
  The path of an access of the guest: from its segment through the system agent, over the
  primary bus, the bridge and the gasket bus, to the registers of a device.
\<close>

section \<open>The system agent passes the access on\<close>

text \<open>Neither memory, nor configuration space, nor a port.\<close>

definition device_addr :: "misa_inst \<Rightarrow> u32 \<Rightarrow> bool" where
  "device_addr sa addr \<longleftrightarrow> \<not> is_bunit_addr sa addr \<and> \<not> in_ecam sa addr \<and> 0xFFFF < addr"

lemma device_addr_bus:
  assumes "device_addr (misa_get host w) addr"
  shows "misa_fsb_mem_write host addr buf n w =
      rbind (pci_bus_mem_write (misa_bus host) (ucast addr) buf (int n) (misa_sai (misa_get host w)) 16 w) (\<lambda>(s, w). Inr w)"
    and "pci_bus_mem_read (misa_bus host) (ucast addr) buf (int n) (misa_sai (misa_get host w)) 16 w = Inr (s, b, w') \<Longrightarrow>
      misa_fsb_mem_read host addr buf n w = Inr (b, w')"
proof -
  have a: "addr \<noteq> 0xCF8" "addr \<noteq> 0xCFC" "\<not> addr \<le> 0xFFFF" "\<not> in_ecam (misa_get host w) addr"
    "\<not> is_bunit_addr (misa_get host w) addr"
    using assms by (auto simp: device_addr_def)
  show "misa_fsb_mem_write host addr buf n w =
      rbind (pci_bus_mem_write (misa_bus host) (ucast addr) buf (int n) (misa_sai (misa_get host w)) 16 w) (\<lambda>(s, w). Inr w)"
    by (simp add: misa_fsb_mem_write_def misa_aunit_upstream_write_def a)
  have may: "\<exists>r. (if s \<le> 0 then Inr 0 else misa_aunit_may_complete (misa_get host w') s) = Inr r"
    by (simp add: misa_aunit_may_complete_def Let_def)
  show "pci_bus_mem_read (misa_bus host) (ucast addr) buf (int n) (misa_sai (misa_get host w)) 16 w = Inr (s, b, w') \<Longrightarrow>
      misa_fsb_mem_read host addr buf n w = Inr (b, w')"
    using may by (auto simp: misa_fsb_mem_read_def misa_aunit_upstream_read_def a)
qed

section \<open>A machine\<close>

text \<open>
  The state of a machine with a system agent, a host interface on the gasket bus and the log; the
  other functions of the two buses are arbitrary simple functions of this state. The system
  agent creates the primary bus, so its function is the last one there.
\<close>

record machine =
  mach_misa :: misa_inst
  mach_heci :: heci_inst
  mach_heci_config :: pci_cfgspace
  mach_log :: log_world
  mach_mem :: memory

definition mach_heci_host :: "machine heci_host" where
  "mach_heci_host = \<lparr>heci_get = (\<lambda>w. (mach_heci w, mach_log w)), heci_put = (\<lambda>(t, l) w. w\<lparr>mach_heci := t, mach_log := l\<rparr>),
     heci_get_config = mach_heci_config, heci_put_config = (\<lambda>c w. w\<lparr>mach_heci_config := c\<rparr>)\<rparr>"

definition gasket_bus :: "(string \<Rightarrow> u32) \<Rightarrow> u32 \<Rightarrow> (u32 \<times> machine pci_simplefunc) list \<Rightarrow> machine pci_bus" where
  "gasket_bus lit bdf gsfs = simple_bus ''gasket'' 0 ((bdf, heci_func lit mach_heci_host) # gsfs)"

definition mach_misa_host :: "machine pci_bus \<Rightarrow> machine misa_host" where
  "mach_misa_host bus = \<lparr>misa_get = mach_misa, misa_put = (\<lambda>s w. w\<lparr>mach_misa := s\<rparr>), misa_bus = bus,
     host_load = (\<lambda>a n w. mem_load a n (mach_mem w)),
     host_store = (\<lambda>a d w. rbind (mem_store a d (mach_mem w)) (\<lambda>m. Inr (w\<lparr>mach_mem := m\<rparr>)))\<rparr>"

definition primary_bus :: "(u32 \<times> machine pci_simplefunc) list \<Rightarrow> machine pci_bus \<Rightarrow> machine pci_func \<Rightarrow> machine pci_bus" where
  "primary_bus sfs gasket sa_func = \<lparr>bus_name = ''prim'',
     bus_funcs = bus_funcs (bridged_bus ''prim'' 0x100 sfs gasket) @ [sa_func], bus_num = 0x100\<rparr>"

text \<open>The callbacks of the system agent on the bus do not use its bus, so it is on its own bus.\<close>

definition mach_host :: "(string \<Rightarrow> u32) \<Rightarrow> u32 \<Rightarrow> (u32 \<times> machine pci_simplefunc) list \<Rightarrow> (u32 \<times> machine pci_simplefunc) list \<Rightarrow>
    machine misa_host" where
  "mach_host lit bdf sfs gsfs =
    (let none = \<lparr>bus_name = [], bus_funcs = [], bus_num = 0\<rparr> in
     mach_misa_host (primary_bus sfs (gasket_bus lit bdf gsfs) (misa_func (mach_misa_host none))))"

lemma on_own_bus:
  "misa_bus (mach_host lit bdf sfs gsfs) = primary_bus sfs (gasket_bus lit bdf gsfs) (misa_func (mach_host lit bdf sfs gsfs))"
proof -
  have "misa_get (mach_misa_host a) = mach_misa" "misa_put (mach_misa_host a) = (\<lambda>s w. w\<lparr>mach_misa := s\<rparr>)"
    "host_load (mach_misa_host a) = (\<lambda>a n w. mem_load a n (mach_mem w))"
    "host_store (mach_misa_host a) = (\<lambda>a d w. rbind (mem_store a d (mach_mem w)) (\<lambda>m. Inr (w\<lparr>mach_mem := m\<rparr>)))" for a
    by (simp_all add: mach_misa_host_def)
  note sel = this
  have "misa_func (mach_misa_host a) = misa_func (mach_misa_host b)" for a b
    unfolding misa_func_def bus_mem_read_def[abs_def] bus_mem_write_def[abs_def] bus_cfg_read_def[abs_def] bus_cfg_write_def[abs_def]
      misa_bunit_upstream_read_def[abs_def] misa_bunit_upstream_write_def[abs_def] sel by (rule refl)
  moreover have "misa_bus (mach_misa_host b) = b" for b by (simp add: mach_misa_host_def)
  ultimately show ?thesis unfolding mach_host_def Let_def by metis
qed

definition mach_fsb :: "(string \<Rightarrow> u32) \<Rightarrow> u32 \<Rightarrow> (u32 \<times> machine pci_simplefunc) list \<Rightarrow> (u32 \<times> machine pci_simplefunc) list \<Rightarrow>
    machine mia_fsb" where
  "mach_fsb lit bdf sfs gsfs = (let host = mach_host lit bdf sfs gsfs in
     \<lparr>sa_mem_write = misa_fsb_mem_write host, sa_mem_read = misa_fsb_mem_read host,
      sa_io_write = misa_fsb_io_write host, sa_io_read = misa_fsb_io_read host\<rparr>)"

text \<open>
  The segment \<open>i\<close> of the module lies over the registers of the host interface: it starts at its
  BAR 0, its limit leaves the registers inside, and nobody else decodes them, whatever the host
  interface and the log hold.
\<close>

definition heci_segment :: "me_mod \<Rightarrow> nat \<Rightarrow> (u32 \<times> machine pci_simplefunc) list \<Rightarrow> machine \<Rightarrow> bool" where
  "heci_segment m i others w \<longleftrightarrow>
    (let b = seg_base (segments m ! i) in
     i < length (segments m) \<and> i < 2 ^ 28 \<and> 0x60 \<le> seg_limit (segments m ! i) \<and>
     cfg_bar 0 (mach_heci_config w) = b \<and> b AND PCI_BAR_ADDRESS_MASK = b \<and> b < 0xFFFF0000 \<and>
     bit (cfg_command (mach_heci_config w)) 1 \<and>
     (\<forall>a\<in>heci_offsets. device_addr (mach_misa w) (b + ucast a) \<and> \<not> p2g_window (ucast (b + ucast a)) \<and>
       (\<forall>(d, sf)\<in>set others. \<forall>t l. \<not> sf_decodes sf (ucast (b + ucast a)) (w\<lparr>mach_heci := t, mach_log := l\<rparr>))))"

lemma heci_segment_update: "heci_segment m i others w \<Longrightarrow> heci_segment m i others (w\<lparr>mach_heci := t, mach_log := l\<rparr>)"
  by (simp add: heci_segment_def Let_def)

text \<open>The address of a register, as a sum of 64 bits and of 32 bits.\<close>

lemma register_addr:
  assumes "b < 0xFFFF0000" and "a \<in> heci_offsets"
  shows "ucast (b + ucast a :: u32) = (ucast b + a :: u64)" and "uint a \<le> 0x5C"
proof -
  show a: "uint a \<le> 0x5C" using assms(2) by (auto simp: heci_offsets_def)
  have b: "uint b < 0xFFFF0000" using assms(1) by (simp add: word_less_def)
  have "uint (ucast a :: u32) = uint a" using a by (simp add: unsigned_ucast_eq take_bit_int_eq_self)
  then have s: "uint (b + ucast a) = uint b + uint a" using a b by (simp add: uint_word_ariths)
  have up: "uint (ucast x :: u64) = uint x" for x :: u32 by (rule uint_up_ucast) (simp add: is_up)
  then have "uint (ucast b + a :: u64) = uint b + uint a" using a b by (simp add: uint_word_ariths)
  with s show "ucast (b + ucast a :: u32) = (ucast b + a :: u64)" by (simp add: word_uint_eq_iff up)
qed

lemma heci_hit:
  assumes "heci_segment m i others w" and "a \<in> heci_offsets"
  shows "hits (heci_func lit mach_heci_host) (mach_heci_config w) 0 (ucast (seg_base (segments m ! i) + ucast a)) 4"
    and "ucast (seg_base (segments m ! i) + ucast a) - sf_base (heci_func lit mach_heci_host) (mach_heci_config w) 0 = a"
proof -
  let ?b = "seg_base (segments m ! i)"
  have b: "cfg_bar 0 (mach_heci_config w) = ?b" "?b AND PCI_BAR_ADDRESS_MASK = ?b" "?b < 0xFFFF0000"
    using assms(1) by (simp_all add: heci_segment_def Let_def)
  have base: "sf_base (heci_func lit mach_heci_host) (mach_heci_config w) 0 = ucast ?b"
    by (simp add: sf_base_def heci_func_def tst_def b)
  note r = register_addr[OF b(3) assms(2)]
  have u: "uint (ucast ?b :: u64) = uint ?b" by (rule uint_up_ucast) (simp add: is_up)
  have "uint ?b < 2 ^ 32" using unsigned_less[of ?b, where ?'a = int] by simp
  then have "uint (ucast ?b + a :: u64) = uint ?b + uint a"
    using r(2) u by (simp add: uint_word_ariths)
  then have "ucast ?b \<le> (ucast ?b + a :: u64)" using u by (simp add: word_le_def)
  moreover have "a \<le> 0x6000" "a + 4 \<le> 0x6000" using assms(2) by (auto simp: heci_offsets_def)
  ultimately show "hits (heci_func lit mach_heci_host) (mach_heci_config w) 0 (ucast (?b + ucast a)) 4"
    by (simp add: hits_def base r(1)) (simp add: heci_func_def)
  show "ucast (?b + ucast a) - sf_base (heci_func lit mach_heci_host) (mach_heci_config w) 0 = a"
    by (simp add: base r(1))
qed

lemma nobody_else:
  assumes "heci_segment m i (gsfs @ sfs) w" and "a \<in> heci_offsets"
  defines "addr \<equiv> ucast (seg_base (segments m ! i) + ucast a) :: u64"
  shows "\<forall>f\<in>set (bus_funcs (gasket_bus lit bdf gsfs)). f \<noteq> (simple_func (heci_func lit mach_heci_host))\<lparr>func_bdf := bdf\<rparr> \<longrightarrow>
      \<not> simple_decodes ((bdf, heci_func lit mach_heci_host) # gsfs) f addr w"
    and "\<not> (\<exists>f\<in>set (bus_funcs (simple_bus ''prim'' 0x100 sfs)). simple_decodes sfs f addr w)"
proof -
  have "\<forall>(d, sf)\<in>set (gsfs @ sfs). \<not> sf_decodes sf addr (w\<lparr>mach_heci := mach_heci w, mach_log := mach_log w\<rparr>)"
    using assms(1,2) unfolding heci_segment_def Let_def addr_def by blast
  then have n: "\<forall>(d, sf)\<in>set (gsfs @ sfs). \<not> sf_decodes sf addr w" by simp
  then show "\<forall>f\<in>set (bus_funcs (gasket_bus lit bdf gsfs)). f \<noteq> (simple_func (heci_func lit mach_heci_host))\<lparr>func_bdf := bdf\<rparr> \<longrightarrow>
      \<not> simple_decodes ((bdf, heci_func lit mach_heci_host) # gsfs) f addr w"
    by (auto simp: simple_decodes_def)
  from n show "\<not> (\<exists>f\<in>set (bus_funcs (simple_bus ''prim'' 0x100 sfs)). simple_decodes sfs f addr w)"
    by (auto simp: simple_decodes_def)
qed

text \<open>What the register handlers answer is the answer of the primary bus.\<close>

lemma heci_on_primary:
  fixes lit :: "string \<Rightarrow> u32" and bdf :: u32
  assumes "heci_segment m i (gsfs @ sfs) w" and "a \<in> heci_offsets"
  defines "addr \<equiv> ucast (seg_base (segments m ! i) + ucast a) :: u64"
  defines "bus \<equiv> misa_bus (mach_host lit bdf sfs gsfs)"
  shows "heci_bar_read 0 a buf 4 (mach_heci w, mach_log w) = Inr (s, out, t, l) \<Longrightarrow> s \<noteq> -1 \<Longrightarrow>
      pci_bus_mem_read bus addr buf 4 sai 16 w = Inr (s, out, w\<lparr>mach_heci := t, mach_log := l\<rparr>)"
    and "heci_bar_write lit 0 a buf 4 (mach_heci w, mach_log w) = Inr (s, t, l) \<Longrightarrow> s \<noteq> -1 \<Longrightarrow>
      pci_bus_mem_write bus addr buf 4 sai 16 w = Inr (s, w\<lparr>mach_heci := t, mach_log := l\<rparr>)"
proof -
  let ?sf = "heci_func lit mach_heci_host"
  have cfg: "sf_get_config ?sf w = mach_heci_config w" by (simp add: heci_func_def mach_heci_host_def)
  have c: "bit (cfg_command (sf_get_config ?sf w)) 1" and win: "\<not> p2g_window addr"
    using assms(1,2) by (simp_all add: heci_segment_def Let_def cfg addr_def)
  have h: "hits ?sf (sf_get_config ?sf w) 0 addr 4" "addr - sf_base ?sf (sf_get_config ?sf w) 0 = a"
    using heci_hit[OF assms(1,2), of lit] by (simp_all add: cfg addr_def)
  have mem: "(bdf, ?sf) \<in> set ((bdf, ?sf) # gsfs)" by simp
  note other = nobody_else(1)[OF assms(1,2), of lit bdf, unfolded gasket_bus_def, folded addr_def]
    nobody_else(2)[OF assms(1,2), folded addr_def]
  have host: "heci_get mach_heci_host w = (mach_heci w, mach_log w)"
    "heci_put mach_heci_host (t, l) w = w\<lparr>mach_heci := t, mach_log := l\<rparr>" for t l
    by (simp_all add: mach_heci_host_def)
  have bus: "bus_funcs bus = bus_funcs (bridged_bus ''prim'' 0x100 sfs (simple_bus ''gasket'' 0 ((bdf, ?sf) # gsfs))) @
      [misa_func (mach_host lit bdf sfs gsfs)]"
    unfolding bus_def on_own_bus by (simp add: primary_bus_def gasket_bus_def)
  have l16: "(0 :: int) < 16" by simp
  define rd where "rd = (\<lambda>bar addr buf count w. rbind (heci_bar_read bar addr buf count (heci_get mach_heci_host w))
    (\<lambda>(r, buf, s). Inr (r, buf, heci_put mach_heci_host s w)))"
  define wr where "wr = (\<lambda>bar addr buf count w. rbind (heci_bar_write lit bar addr buf count (heci_get mach_heci_host w))
    (\<lambda>(r, s). Inr (r, heci_put mach_heci_host s w)))"
  have rd: "sf_bar_read ?sf = Some rd" and wr: "sf_bar_write ?sf = Some wr"
    by (simp_all add: heci_func_def rd_def wr_def)
  show "pci_bus_mem_read bus addr buf 4 sai 16 w = Inr (s, out, w\<lparr>mach_heci := t, mach_log := l\<rparr>)"
    if "heci_bar_read 0 a buf 4 (mach_heci w, mach_log w) = Inr (s, out, t, l)" and "s \<noteq> -1"
  proof -
    have "rd 0 (addr - sf_base ?sf (sf_get_config ?sf w) 0) buf 4 w = Inr (s, out, w\<lparr>mach_heci := t, mach_log := l\<rparr>)"
      unfolding h(2) rd_def host(1) that(1) by (simp add: host(2))
    note p = bridge_claims_first(1)[OF other(2) bridge_answers(1)[OF mem l16 win h(1) c rd other(1) this that(2)] that(2)]
    show ?thesis
      by (rule first_cycle(1)[OF l16 _ that(2)]) (unfold bus, rule answered_append(1)[OF p that(2)])
  qed
  show "pci_bus_mem_write bus addr buf 4 sai 16 w = Inr (s, w\<lparr>mach_heci := t, mach_log := l\<rparr>)"
    if "heci_bar_write lit 0 a buf 4 (mach_heci w, mach_log w) = Inr (s, t, l)" and "s \<noteq> -1"
  proof -
    have "wr 0 (addr - sf_base ?sf (sf_get_config ?sf w) 0) buf 4 w = Inr (s, w\<lparr>mach_heci := t, mach_log := l\<rparr>)"
      unfolding h(2) wr_def host(1) that(1) by (simp add: host(2))
    note p = bridge_claims_first(2)[OF other(2) bridge_answers(2)[OF mem l16 win h(1) c rd other(1) wr this that(2)] that(2)]
    show ?thesis
      by (rule first_cycle(2)[OF l16 _ that(2)]) (unfold bus, rule answered_append(2)[OF p that(2)])
  qed
qed

section \<open>Accesses of the guest\<close>

lemma heci_segment_access:
  assumes "heci_segment m i others w" and "a \<in> heci_offsets"
  shows "krnl_deref_seg m (ldt_selector i) (ucast a) 4 = Inr (seg_base (segments m ! i) + ucast a)"
    and "device_addr (mach_misa w) (seg_base (segments m ! i) + ucast a)"
proof -
  have "ucast a + 4 \<le> (0x60 :: u32)" using assms(2) by (auto simp: heci_offsets_def)
  then have "ucast a + 4 \<le> seg_limit (segments m ! i)"
    using assms(1) by (auto simp: heci_segment_def Let_def intro: order_trans)
  then show "krnl_deref_seg m (ldt_selector i) (ucast a) 4 = Inr (seg_base (segments m ! i) + ucast a)"
    using assms(1) by (simp add: krnl_deref_ldt heci_segment_def Let_def not_less)
  show "device_addr (mach_misa w) (seg_base (segments m ! i) + ucast a)"
    using assms by (simp add: heci_segment_def Let_def)
qed

lemma guest_write:
  assumes "heci_segment m i (gsfs @ sfs) w" and "a \<in> heci_offsets" and "log_ok (mach_log w)" and "heci_sai (mach_heci w) \<noteq> -1"
  shows "\<exists>l. write_seg_32 (mach_fsb lit bdf sfs gsfs) m (ldt_selector i) (ucast a) v w =
      Inr (w\<lparr>mach_heci := heci_wr a v (mach_heci w), mach_log := l\<rparr>) \<and> log_ok l"
proof -
  obtain l where l: "heci_bar_write lit 0 a (le_bytes 4 v) 4 (mach_heci w, mach_log w) =
      Inr (sint (heci_sai (mach_heci w)), heci_wr a v (mach_heci w), l)" "log_ok l"
    using heci_write[OF assms(2,3), of lit v "mach_heci w"] by (auto simp: logged_def)
  have s: "sint (heci_sai (mach_heci w)) \<noteq> -1" using assms(4) by (metis sint_n1 signed_word_eqI)
  have get: "misa_get (mach_host lit bdf sfs gsfs) w = mach_misa w" by (simp add: mach_host_def mach_misa_host_def)
  note acc = heci_segment_access[OF assms(1,2)]
  note dev = device_addr_bus(1)[of "mach_host lit bdf sfs gsfs" w, unfolded get, OF acc(2), of "le_bytes 4 v" 4]
  show ?thesis
    using dev heci_on_primary(2)[OF assms(1,2) l(1) s] l(2)
    by (intro exI[of _ l]) (simp add: write_seg_32_def krnl_write_seg_def acc(1) mach_fsb_def Let_def)
qed

lemma guest_read:
  assumes "heci_segment m i (gsfs @ sfs) w" and "a \<in> heci_offsets" and "log_ok (mach_log w)" and "heci_sai (mach_heci w) \<noteq> -1"
  shows "\<exists>l. read_seg_32 (mach_fsb lit bdf sfs gsfs) m (ldt_selector i) (ucast a) w =
      Inr (heci_rd a (mach_heci w), w\<lparr>mach_log := l\<rparr>)"
proof -
  define b where "b = le_bytes 4 (if ldt_selector i = 0x3B then 0xDEADBEEF else 0 :: u32)"
  obtain l where l: "heci_bar_read 0 a b 4 (mach_heci w, mach_log w) =
      Inr (sint (heci_sai (mach_heci w)), le_bytes 4 (heci_rd a (mach_heci w)), mach_heci w, l)"
    using heci_read[OF assms(2,3), of b "mach_heci w"] by (auto simp: b_def)
  have s: "sint (heci_sai (mach_heci w)) \<noteq> -1" using assms(4) by (metis sint_n1 signed_word_eqI)
  have get: "misa_get (mach_host lit bdf sfs gsfs) w = mach_misa w" by (simp add: mach_host_def mach_misa_host_def)
  note acc = heci_segment_access[OF assms(1,2)]
  note dev = device_addr_bus(2)[of "mach_host lit bdf sfs gsfs" w, unfolded get, OF acc(2), of b 4]
  have "misa_fsb_mem_read (mach_host lit bdf sfs gsfs) (seg_base (segments m ! i) + ucast a) b 4 w =
      Inr (le_bytes 4 (heci_rd a (mach_heci w)), w\<lparr>mach_log := l\<rparr>)"
    using dev heci_on_primary(1)[OF assms(1,2) l s] by simp
  then show ?thesis
    by (intro exI[of _ l]) (simp add: read_seg_32_def krnl_read_seg_def acc(1) mach_fsb_def Let_def b_def[symmetric] le_word_le_bytes)
qed

text \<open>A sequence of writes of the guest.\<close>

fun guest_writes :: "machine mia_fsb \<Rightarrow> me_mod \<Rightarrow> nat \<Rightarrow> (u64 \<times> u32) list \<Rightarrow> machine \<Rightarrow> machine res" where
  "guest_writes fsb m i [] w = Inr w"
| "guest_writes fsb m i ((a, v) # ws) w =
    rbind (write_seg_32 fsb m (ldt_selector i) (ucast a) v w) (guest_writes fsb m i ws)"

lemma guest_writes:
  assumes "heci_segment m i (gsfs @ sfs) w" and "fst ` set ws \<subseteq> heci_offsets" and "log_ok (mach_log w)"
    and "heci_sai (mach_heci w) \<noteq> -1"
  shows "\<exists>l. guest_writes (mach_fsb lit bdf sfs gsfs) m i ws w =
      Inr (w\<lparr>mach_heci := write_all heci_wr ws (mach_heci w), mach_log := l\<rparr>) \<and> log_ok l"
  using assms
proof (induction ws arbitrary: w)
  case Nil
  then show ?case by (intro exI[of _ "mach_log w"]) simp
next
  case (Cons x ws)
  obtain a v where x: "x = (a, v)" by (cases x)
  obtain l where l: "write_seg_32 (mach_fsb lit bdf sfs gsfs) m (ldt_selector i) (ucast a) v w =
      Inr (w\<lparr>mach_heci := heci_wr a v (mach_heci w), mach_log := l\<rparr>)" "log_ok l"
    using guest_write[of m i gsfs sfs w a lit bdf v] Cons.prems x by auto
  have "heci_sai (heci_wr a v (mach_heci w)) = heci_sai (mach_heci w)" by (simp add: heci_wr_def)
  with Cons.IH[OF heci_segment_update[OF Cons.prems(1)], of l "heci_wr a v (mach_heci w)"] Cons.prems l show ?case
    by (simp add: x)
qed

text \<open>C4. To the guest the host interface behind its segment is a block of plain registers: after any
  sequence of 32 bit writes through the segment, over the system agent, the primary bus, the bridge
  and the gasket bus, a read of a register gives the value last written to it, or the old one if it
  was not written. No access fails.\<close>

theorem guest_heci_registers:
  assumes "heci_segment m i (gsfs @ sfs) w" and "fst ` set ws \<subseteq> heci_offsets" and "a \<in> heci_offsets"
    and "log_ok (mach_log w)" and "heci_sai (mach_heci w) \<noteq> -1"
  shows "\<exists>w' w''. guest_writes (mach_fsb lit bdf sfs gsfs) m i ws w = Inr w' \<and>
    read_seg_32 (mach_fsb lit bdf sfs gsfs) m (ldt_selector i) (ucast a) w' =
      Inr (case last_write ws a of Some v \<Rightarrow> v | None \<Rightarrow> heci_rd a (mach_heci w), w'')"
proof -
  let ?t = "write_all heci_wr ws (mach_heci w)"
  obtain l where l: "guest_writes (mach_fsb lit bdf sfs gsfs) m i ws w = Inr (w\<lparr>mach_heci := ?t, mach_log := l\<rparr>)" "log_ok l"
    using guest_writes[OF assms(1,2,4,5)] by blast
  have "heci_sai (write_all heci_wr ws t) = heci_sai t" for t
    by (induction heci_wr ws t rule: write_all.induct) (simp_all add: heci_wr_def)
  then obtain l' where "read_seg_32 (mach_fsb lit bdf sfs gsfs) m (ldt_selector i) (ucast a) (w\<lparr>mach_heci := ?t, mach_log := l\<rparr>) =
      Inr (heci_rd a ?t, w\<lparr>mach_heci := ?t, mach_log := l'\<rparr>)"
    using guest_read[OF heci_segment_update[OF assms(1)] assms(3), of l ?t lit bdf] l(2) assms(5) by auto
  then show ?thesis using l(1) heci_regs.read_write_all[OF _ assms(2,3), of "mach_heci w"] by auto
qed

definition toy_machine :: machine where
  "toy_machine = \<lparr>mach_misa = \<lparr>registers = replicate (layout_size misa_regs) 0, misa_config = replicate 0x1000 0, misa_sai = 0,
       misa_bdf = 0, bunit_user = 1\<rparr>,
     mach_heci = heci_zero ''heci'',
     mach_heci_config = put_field 16 4 (0xF0000000 :: u32) (put_field 4 2 (2 :: u16) (replicate 0x1000 0)),
     mach_log = \<lparr>log_buffer = replicate 1024 CHR ''x'', log_level = 2, stderr_text = ''''\<rparr>, mach_mem = Map.empty\<rparr>"

lemma zero_regs: "get_reg n (replicate (layout_size misa_regs) 0) = 0"
  by (rule bit_word_eqI) (auto simp: get_reg_def get_field_def bit_le_word slice_def)

lemma toy_segment: "heci_segment toy_loaded 0 [] toy_machine"
proof -
  have cfg: "cfg_bar 0 (mach_heci_config toy_machine) = 0xF0000000" "cfg_command (mach_heci_config toy_machine) = 2"
    by (simp_all add: toy_machine_def cfg_bar_def cfg_command_def get_put_field get_put_field_other)
  have regs: "get_reg n (registers (mach_misa toy_machine)) = 0" for n
    using zero_regs by (simp add: toy_machine_def)
  have dev: "device_addr (mach_misa toy_machine) a" if "0xFFFF < a" for a
    using that by (simp add: device_addr_def is_bunit_addr_def in_ecam_def regs tst_def MISA_HEC_ECEN_def)
  have "device_addr (mach_misa toy_machine) (0xF0000000 + ucast a) \<and> \<not> p2g_window (ucast (0xF0000000 + ucast a :: u32))"
    if "a \<in> heci_offsets" for a
    using that dev by (auto simp: heci_offsets_def p2g_window_def)
  then show ?thesis by (simp add: heci_segment_def Let_def cfg PCI_BAR_ADDRESS_MASK_def) (simp add: toy_loaded_def)
qed

theorem guest_heci_registers_witness:
  "\<exists>w' w''. guest_writes (mach_fsb (\<lambda>s. 0) 0 [] []) toy_loaded 0 [(0x4, 5), (0x10, 7), (0x4, 0x205)] toy_machine = Inr w' \<and>
    read_seg_32 (mach_fsb (\<lambda>s. 0) 0 [] []) toy_loaded (ldt_selector 0) 0x4 w' = Inr (0x205, w'')"
  using guest_heci_registers[of toy_loaded 0 "[]" "[]" toy_machine "[(0x4, 5), (0x10, 7), (0x4, 0x205)]" "0x4" "\<lambda>s. 0" 0] toy_segment
  by (simp add: heci_offsets_def last_write_def) (simp add: toy_machine_def log_ok_def heci_zero_def)

end
