(* ===== verification/Thunks.thy ===== *)
theory Thunks
  imports CfgFile HostMem
begin

text \<open>
  \<open>insert_thunk\<close> and \<open>insert_thunk_rec\<close> of \<open>user/loader/me_abi.c\<close>, \<open>user/romlib/thunks.c\<close> and
  \<open>user/syslib/thunks.c\<close>: jumps to functions of the emulator that are written over the code of
  the guest. The addresses of those functions are given by their names.
\<close>

section \<open>Jumps\<close>

definition insert_thunk :: "u32 \<Rightarrow> u32 \<Rightarrow> memory \<Rightarrow> memory res" where
  "insert_thunk wr target m =
    rbind (mem_store wr [0xE9] m) (\<lambda>m. mem_store (wr + 1) (le_bytes 4 (target - wr - 5)) m)"

definition insert_thunk_rec :: "u32 \<Rightarrow> u32 \<Rightarrow> memory \<Rightarrow> memory res" where
  "insert_thunk_rec wr target m =
    rbind (mem_load wr 1 m) (\<lambda>opcode.
    if opcode \<noteq> [0xE9] then Inl ExitFailure
    else rbind (mem_load (wr + 1) 4 m) (\<lambda>operand. insert_thunk (le_word operand + wr + 5) target m))"

section \<open>The functions that the guest reaches\<close>

definition install_thunk :: "(string \<Rightarrow> u32) \<Rightarrow> cfg_section \<Rightarrow> string \<Rightarrow> memory \<Rightarrow> memory res" where
  "install_thunk host sec name m =
    (case cfg_find_int32 sec name of None \<Rightarrow> Inr m | Some targ \<Rightarrow> insert_thunk targ (host name) m)"

fun install_thunks :: "(string \<Rightarrow> u32) \<Rightarrow> cfg_section \<Rightarrow> string list \<Rightarrow> memory \<Rightarrow> memory res" where
  "install_thunks host sec [] m = Inr m"
| "install_thunks host sec (name # names) m =
    rbind (install_thunk host sec name m) (install_thunks host sec names)"

definition romlib_thunks :: "string list" where
  "romlib_thunks =
    [''tstamp_read'', ''write_seg_32'', ''write_seg_16'', ''write_seg_8'', ''read_seg_32'', ''read_seg_16'', ''read_seg_8'',
     ''write_seg'', ''read_seg'']"

definition romlib_install_thunks :: "(string \<Rightarrow> u32) \<Rightarrow> cfg_section \<Rightarrow> memory \<Rightarrow> memory res" where
  "romlib_install_thunks host sec m = install_thunks host sec romlib_thunks m"

text \<open>The function of the same name in \<open>user/syslib/thunks.c\<close>.\<close>

definition install_thunk_sys :: "(string \<Rightarrow> u32) \<Rightarrow> cfg_section \<Rightarrow> string \<Rightarrow> bool \<Rightarrow> memory \<Rightarrow> memory res" where
  "install_thunk_sys host sec name rec m =
    (case cfg_find_int32 sec name of
       None \<Rightarrow> Inr m
     | Some targ \<Rightarrow> if rec then insert_thunk_rec targ (host name) m else insert_thunk targ (host name) m)"

definition syslib_install_thunks :: "(string \<Rightarrow> u32) \<Rightarrow> cfg_section \<Rightarrow> memory \<Rightarrow> memory res" where
  "syslib_install_thunks host sec m =
    rbind (install_thunk_sys host sec ''kernelcall'' False m) (install_thunk_sys host sec ''get_tls_ptr'' True)"

definition process_thunks :: "(string \<Rightarrow> u32) \<Rightarrow> cfg_section \<Rightarrow> memory \<Rightarrow> memory res" where
  "process_thunks host sec m = rbind (romlib_install_thunks host sec m) (syslib_install_thunks host sec)"

section \<open>Where the processor goes\<close>

text \<open>The target of the near jump at an address, if there is one.\<close>

definition jmp_target :: "memory \<Rightarrow> u32 \<Rightarrow> u32 option" where
  "jmp_target m a = (case mem_load a 5 m of
     Inr (b # d) \<Rightarrow> if b = 0xE9 then Some (a + 5 + le_word d) else None
   | _ \<Rightarrow> None)"

lemma apart_5:
  assumes "apart a 5 b 5"
  shows "apart a 5 b 1" and "apart a 5 (b + 1) 4"
  using apart_sub[OF assms, of 0 5 1] apart_sym[OF apart_sub[OF apart_sym[OF assms], of 1 4 5]] by simp_all

text \<open>A thunk is a jump to its target, and nothing outside its five bytes changes.\<close>

lemma insert_thunk_jumps:
  assumes "insert_thunk wr target m = Inr m'"
  shows "jmp_target m' wr = Some target" and "apart a 5 wr 5 \<Longrightarrow> jmp_target m' a = jmp_target m a"
proof -
  let ?d = "le_bytes 4 (target - wr - 5)"
  obtain m1 where m1: "mem_store wr [0xE9] m = Inr m1" and m': "mem_store (wr + 1) ?d m1 = Inr m'"
    using assms by (auto simp: insert_thunk_def rbind_Inr_iff)
  have op: "mem_load wr 1 m' = Inr [0xE9]"
  proof -
    have "apart wr 1 (wr + 1) (length ?d)" using apart_offsets[of 0 1 1 4 wr] by simp
    from mem_load_store_other[OF m' this] show ?thesis using mem_load_store_same[OF m1] by simp
  qed
  have rel: "mem_load (wr + 1) 4 m' = Inr ?d" using mem_load_store_same[OF m'] by simp
  have "mapped wr 5 m'"
    unfolding mapped_iff
  proof (intro allI impI)
    fix i :: nat assume "i < 5"
    then consider "i = 0" | j where "i = Suc j" "j < 4" by (cases i) auto
    then show "m' (wr + of_nat i) \<noteq> None"
      using op rel by cases (auto simp: mem_load_def mapped_iff add.assoc split: if_splits)
  qed
  then obtain bs where bs: "mem_load wr 5 m' = Inr bs" "length bs = 5" using mem_load_mapped by blast
  have "slice 0 1 bs = [0xE9]" "slice 1 4 bs = ?d"
    using mem_load_split[OF bs(1), of 0 1] mem_load_split[OF bs(1), of 1 4] op rel by simp_all
  moreover have "bs = slice 0 1 bs @ slice 1 4 bs" using bs(2) by (simp add: slice_def flip: take_add)
  ultimately have "mem_load wr 5 m' = Inr (0xE9 # ?d)" using bs(1) by simp
  then show "jmp_target m' wr = Some target" by (simp add: jmp_target_def le_word_le_bytes)
  show "jmp_target m' a = jmp_target m a" if "apart a 5 wr 5"
    using mem_load_store_other[OF m1, of a 5] mem_load_store_other[OF m', of a 5] apart_5[OF that]
    by (simp add: jmp_target_def)
qed

lemma insert_thunk_rec_target:
  "insert_thunk_rec wr target m = Inr m' \<Longrightarrow> jmp_target m wr = Some c \<Longrightarrow> insert_thunk c target m = Inr m'"
proof -
  assume i: "insert_thunk_rec wr target m = Inr m'" and j: "jmp_target m wr = Some c"
  from j obtain d where d: "mem_load wr 5 m = Inr (0xE9 # d)" "c = wr + 5 + le_word d"
    by (auto simp: jmp_target_def split: sum.splits list.splits if_splits)
  have "length d = 4" using length_mem_load[OF d(1)] by simp
  then have "mem_load (wr + 1) 4 m = Inr d" using mem_load_split[OF d(1), of 1 4] by (simp add: slice_def)
  with i show "insert_thunk c target m = Inr m'"
    by (auto simp: insert_thunk_rec_def rbind_Inr_iff d(2) algebra_simps split: if_splits)
qed

text \<open>Where the thunks of some names go.\<close>

definition thunks_apart :: "cfg_section \<Rightarrow> string list \<Rightarrow> bool" where
  "thunks_apart sec names \<longleftrightarrow> (\<forall>n\<in>set names. \<forall>k\<in>set names. n \<noteq> k \<longrightarrow>
     (case (cfg_find_int32 sec n, cfg_find_int32 sec k) of (Some a, Some b) \<Rightarrow> apart a 5 b 5 | _ \<Rightarrow> True))"

definition away_from :: "u32 \<Rightarrow> cfg_section \<Rightarrow> string list \<Rightarrow> bool" where
  "away_from a sec names \<longleftrightarrow> (\<forall>n\<in>set names. case cfg_find_int32 sec n of Some b \<Rightarrow> apart a 5 b 5 | None \<Rightarrow> True)"

lemma install_thunks_keep:
  "install_thunks host sec names m = Inr m' \<Longrightarrow> away_from a sec names \<Longrightarrow> jmp_target m' a = jmp_target m a"
proof (induction names arbitrary: m)
  case (Cons n names)
  then obtain m1 where m1: "install_thunk host sec n m = Inr m1" "install_thunks host sec names m1 = Inr m'"
    by (auto simp: rbind_Inr_iff)
  have "jmp_target m1 a = jmp_target m a"
    using m1(1) Cons.prems(2) insert_thunk_jumps(2)[of _ _ m m1 a]
    by (auto simp: install_thunk_def away_from_def split: option.splits)
  then show ?case using Cons.IH[OF m1(2)] Cons.prems(2) by (simp add: away_from_def)
qed simp

lemma install_thunks_jump:
  "install_thunks host sec names m = Inr m' \<Longrightarrow> distinct names \<Longrightarrow> thunks_apart sec names \<Longrightarrow> n \<in> set names \<Longrightarrow>
   cfg_find_int32 sec n = Some a \<Longrightarrow> jmp_target m' a = Some (host n)"
proof (induction names arbitrary: m)
  case (Cons k names)
  then obtain m1 where m1: "install_thunk host sec k m = Inr m1" "install_thunks host sec names m1 = Inr m'"
    by (auto simp: rbind_Inr_iff)
  show ?case
  proof (cases "n = k")
    case True
    then have "jmp_target m1 a = Some (host n)"
      using m1(1) Cons.prems(5) insert_thunk_jumps(1) by (auto simp: install_thunk_def)
    moreover have "away_from a sec names"
      unfolding away_from_def
    proof
      fix j assume "j \<in> set names"
      then have "(case (cfg_find_int32 sec k, cfg_find_int32 sec j) of (Some a, Some b) \<Rightarrow> apart a 5 b 5 | _ \<Rightarrow> True)"
        using Cons.prems(2,3) unfolding thunks_apart_def by auto
      then show "case cfg_find_int32 sec j of Some b \<Rightarrow> apart a 5 b 5 | None \<Rightarrow> True"
        using Cons.prems(5) True by (simp split: option.splits)
    qed
    ultimately show ?thesis using install_thunks_keep[OF m1(2)] by simp
  next
    case False
    have "thunks_apart sec names" using Cons.prems(3) unfolding thunks_apart_def by simp
    then show ?thesis using Cons.IH[OF m1(2)] Cons.prems(2,4,5) False by auto
  qed
qed simp

text \<open>Installing succeeds where the code of the guest is mapped, and maps nothing.\<close>

lemma insert_thunk_total:
  assumes "mapped wr 5 m"
  shows "\<exists>m'. insert_thunk wr target m = Inr m' \<and> (\<forall>a n. mapped a n m' = mapped a n m)"
proof -
  obtain m1 where m1: "mem_store wr [0xE9] m = Inr m1"
    using mem_store_total[of wr "[0xE9]" m] mapped_sub[OF assms, of 0 1] by auto
  have "mapped (wr + 1) 4 m1" using mem_store_mapped[OF m1] mapped_sub[OF assms, of 1 4] by simp
  then obtain m2 where m2: "mem_store (wr + 1) (le_bytes 4 (target - wr - 5)) m1 = Inr m2"
    using mem_store_total[of "wr + 1" "le_bytes 4 (target - wr - 5)" m1] by auto
  then show ?thesis using m1 mem_store_mapped[OF m1] mem_store_mapped[OF m2] by (simp add: insert_thunk_def)
qed

lemma install_thunks_total:
  "\<forall>n\<in>set names. case cfg_find_int32 sec n of Some a \<Rightarrow> mapped a 5 m | None \<Rightarrow> True \<Longrightarrow>
   \<exists>m'. install_thunks host sec names m = Inr m' \<and> (\<forall>a n. mapped a n m' = mapped a n m)"
proof (induction names arbitrary: m)
  case (Cons n names)
  have "\<exists>m1. install_thunk host sec n m = Inr m1 \<and> (\<forall>a n. mapped a n m1 = mapped a n m)"
  proof (cases "cfg_find_int32 sec n")
    case (Some a)
    then show ?thesis using Cons.prems insert_thunk_total[of a m "host n"] by (simp add: install_thunk_def)
  qed (simp add: install_thunk_def)
  then obtain m1 where m1: "install_thunk host sec n m = Inr m1" "\<forall>a n. mapped a n m1 = mapped a n m" by blast
  then have "\<forall>k\<in>set names. case cfg_find_int32 sec k of Some a \<Rightarrow> mapped a 5 m1 | None \<Rightarrow> True"
    using Cons.prems by (simp split: option.splits)
  from Cons.IH[OF this] m1 show ?case by simp
qed simp

lemma install_thunks_append:
  "install_thunks host sec (as @ bs) m = rbind (install_thunks host sec as m) (install_thunks host sec bs)"
  by (induction as arbitrary: m) (auto simp: rbind_assoc intro!: rbind_cong)

definition plain_thunks :: "string list" where
  "plain_thunks = romlib_thunks @ [''kernelcall'']"

lemma process_thunks_plain:
  "process_thunks host sec m =
    rbind (install_thunks host sec plain_thunks m) (install_thunk_sys host sec ''get_tls_ptr'' True)"
proof -
  have "install_thunks host sec [''kernelcall''] m = install_thunk_sys host sec ''kernelcall'' False m" for m
  proof -
    have "rbind r (install_thunks host sec []) = r" for r by (cases r) simp_all
    then show ?thesis by (simp add: install_thunk_sys_def install_thunk_def split: option.splits)
  qed
  then show ?thesis
    by (simp add: process_thunks_def romlib_install_thunks_def syslib_install_thunks_def[abs_def] plain_thunks_def
        install_thunks_append rbind_assoc del: install_thunks.simps)
qed

lemma thunks_reach_tls:
  assumes "thunks_apart sec plain_thunks"
    and "\<forall>n\<in>set plain_thunks. case cfg_find_int32 sec n of Some a \<Rightarrow> mapped a 5 m | None \<Rightarrow> True"
    and "cfg_find_int32 sec ''get_tls_ptr'' = Some b" and "jmp_target m b = Some c" and "mapped c 5 m"
    and "away_from b sec plain_thunks" and "away_from c sec plain_thunks" and "apart b 5 c 5"
  shows "\<exists>m'. process_thunks host sec m = Inr m' \<and>
    list_all (\<lambda>n. case cfg_find_int32 sec n of Some a \<Rightarrow> jmp_target m' a = Some (host n) | None \<Rightarrow> True) plain_thunks \<and>
    jmp_target m' b = Some c \<and> jmp_target m' c = Some (host ''get_tls_ptr'')"
proof -
  obtain m1 where m1: "install_thunks host sec plain_thunks m = Inr m1" "\<forall>a n. mapped a n m1 = mapped a n m"
    using install_thunks_total[OF assms(2)] by blast
  have b: "jmp_target m1 b = Some c" using install_thunks_keep[OF m1(1) assms(6)] assms(4) by simp
  obtain m2 where m2: "insert_thunk c (host ''get_tls_ptr'') m1 = Inr m2"
    using insert_thunk_total[of c m1] m1(2) assms(5) by blast
  obtain d where d: "mem_load b 5 m1 = Inr (0xE9 # d)" "c = b + 5 + le_word d"
    using b by (auto simp: jmp_target_def split: sum.splits list.splits if_splits)
  have "length d = 4" using length_mem_load[OF d(1)] by simp
  then have "mem_load b 1 m1 = Inr [0xE9]" "mem_load (b + 1) 4 m1 = Inr d"
    using mem_load_split[OF d(1), of 0 1] mem_load_split[OF d(1), of 1 4] by (simp_all add: slice_def)
  then have "insert_thunk_rec b (host ''get_tls_ptr'') m1 = Inr m2"
    using m2 by (simp add: insert_thunk_rec_def d(2) algebra_simps)
  then have p: "process_thunks host sec m = Inr m2"
    by (simp add: process_thunks_plain m1(1) install_thunk_sys_def assms(3))
  have dist: "distinct plain_thunks" by (simp add: plain_thunks_def romlib_thunks_def)
  have "case cfg_find_int32 sec n of Some a \<Rightarrow> jmp_target m2 a = Some (host n) | None \<Rightarrow> True" if n: "n \<in> set plain_thunks" for n
  proof (cases "cfg_find_int32 sec n")
    case (Some a)
    have "apart c 5 a 5" using assms(7) n Some unfolding away_from_def by (auto dest!: bspec[of _ _ n])
    then have "jmp_target m2 a = jmp_target m1 a" using insert_thunk_jumps(2)[OF m2 apart_sym] by simp
    then show ?thesis using install_thunks_jump[OF m1(1) dist assms(1) n Some] Some by simp
  qed simp
  then show ?thesis
    using p insert_thunk_jumps[OF m2] b assms(8) by (auto simp: list_all_iff)
qed

text \<open>C15. After the thunks of a section are installed, the guest that calls one of the functions which the
  section names, at the address it gives, jumps to the function of the emulator with that name. Where the
  section names \<open>get_tls_ptr\<close> too, which it need not, the guest that calls it jumps as before, to a place
  where the next jump goes to the emulator. The places are code of the guest and do not overlap.\<close>

theorem thunks_reach:
  assumes "thunks_apart sec plain_thunks"
    and "\<forall>n\<in>set plain_thunks. case cfg_find_int32 sec n of Some a \<Rightarrow> mapped a 5 m | None \<Rightarrow> True"
    and "case cfg_find_int32 sec ''get_tls_ptr'' of None \<Rightarrow> True | Some b \<Rightarrow>
      (\<exists>c. jmp_target m b = Some c \<and> mapped c 5 m \<and> away_from b sec plain_thunks \<and> away_from c sec plain_thunks \<and> apart b 5 c 5)"
  shows "\<exists>m'. process_thunks host sec m = Inr m' \<and>
    list_all (\<lambda>n. case cfg_find_int32 sec n of Some a \<Rightarrow> jmp_target m' a = Some (host n) | None \<Rightarrow> True) plain_thunks \<and>
    (case cfg_find_int32 sec ''get_tls_ptr'' of None \<Rightarrow> True | Some b \<Rightarrow>
      (\<exists>c. jmp_target m b = Some c \<and> jmp_target m' b = Some c \<and> jmp_target m' c = Some (host ''get_tls_ptr'')))"
proof -
  obtain m1 where m1: "install_thunks host sec plain_thunks m = Inr m1" "\<forall>a n. mapped a n m1 = mapped a n m"
    using install_thunks_total[OF assms(2)] by blast
  have dist: "distinct plain_thunks" by (simp add: plain_thunks_def romlib_thunks_def)
  have plain: "case cfg_find_int32 sec n of Some a \<Rightarrow> jmp_target m1 a = Some (host n) | None \<Rightarrow> True" if "n \<in> set plain_thunks" for n
    using install_thunks_jump[OF m1(1) dist assms(1) that] by (simp split: option.splits)
  show ?thesis
  proof (cases "cfg_find_int32 sec ''get_tls_ptr''")
    case None
    then have "process_thunks host sec m = Inr m1"
      by (simp add: process_thunks_plain m1(1) install_thunk_sys_def)
    with None plain show ?thesis by (auto simp: list_all_iff)
  next
    case (Some b)
    then obtain c where c: "jmp_target m b = Some c" "mapped c 5 m" "away_from b sec plain_thunks"
        "away_from c sec plain_thunks" "apart b 5 c 5"
      using assms(3) by auto
    from thunks_reach_tls[OF assms(1,2) Some c] Some c(1) show ?thesis by auto
  qed
qed

definition toy_thunks :: cfg_section where
  "toy_thunks = \<lparr>section_type = ''module'', section_name = ''m'', section_entries =
    [\<lparr>entry_name = ''read_seg_32'', entry_value = CfgInt64 0x10\<rparr>, \<lparr>entry_name = ''kernelcall'', entry_value = CfgInt64 0x20\<rparr>,
     \<lparr>entry_name = ''get_tls_ptr'', entry_value = CfgInt64 0x30\<rparr>]\<rparr>"

text \<open>At 0x30 is a jump to 0x40.\<close>

definition toy_code :: memory where
  "toy_code a = Some (if a = 0x30 then 0xE9 else if a = 0x31 then 0x0B else 0)"

text \<open>The same section without \<open>get_tls_ptr\<close>.\<close>

definition plain_section :: cfg_section where
  "plain_section = \<lparr>section_type = ''module'', section_name = ''m'', section_entries =
    [\<lparr>entry_name = ''read_seg_32'', entry_value = CfgInt64 0x10\<rparr>, \<lparr>entry_name = ''kernelcall'', entry_value = CfgInt64 0x20\<rparr>]\<rparr>"

theorem thunks_reach_witness:
  "(\<exists>m'. process_thunks (\<lambda>n. 0x1000 + of_nat (length n)) toy_thunks toy_code = Inr m' \<and>
    jmp_target m' 0x10 = Some 0x100B \<and> jmp_target m' 0x40 = Some 0x100B) \<and>
   (\<exists>m'. process_thunks (\<lambda>n. 0x1000 + of_nat (length n)) plain_section toy_code = Inr m' \<and>
    jmp_target m' 0x10 = Some 0x100B)"
proof -
  have find: "cfg_find_int32 toy_thunks n =
      (if n = ''read_seg_32'' then Some 0x10 else if n = ''kernelcall'' then Some 0x20 else if n = ''get_tls_ptr'' then Some 0x30
       else None)" for n
    by (simp add: toy_thunks_def cfg_finders)
  have find_plain: "cfg_find_int32 plain_section n =
      (if n = ''read_seg_32'' then Some 0x10 else if n = ''kernelcall'' then Some 0x20 else None)" for n
    by (simp add: plain_section_def cfg_finders)
  have j: "jmp_target toy_code 0x30 = Some 0x40" by code_simp
  have "apart 0x10 5 0x20 5" "apart 0x20 5 0x10 5" "apart 0x30 5 0x10 5" "apart 0x30 5 0x20 5" "apart 0x40 5 0x10 5"
    "apart 0x40 5 0x20 5" "apart 0x30 5 0x40 5"
    using apart_offsets[of "16" 5 "32" 5 0] apart_offsets[of "32" 5 "16" 5 0] apart_offsets[of "48" 5 "16" 5 0]
      apart_offsets[of "48" 5 "32" 5 0] apart_offsets[of "64" 5 "16" 5 0] apart_offsets[of "64" 5 "32" 5 0]
      apart_offsets[of "48" 5 "64" 5 0] by simp_all
  then have apart: "thunks_apart toy_thunks plain_thunks" "away_from 0x30 toy_thunks plain_thunks"
      "away_from 0x40 toy_thunks plain_thunks" "thunks_apart plain_section plain_thunks"
    by (simp_all add: thunks_apart_def away_from_def plain_thunks_def romlib_thunks_def find find_plain)
  have m: "mapped a 5 toy_code" for a by (simp add: mapped_iff toy_code_def)
  have tls: "case cfg_find_int32 toy_thunks ''get_tls_ptr'' of None \<Rightarrow> True | Some b \<Rightarrow> \<exists>c. jmp_target toy_code b = Some c \<and>
      mapped c 5 toy_code \<and> away_from b toy_thunks plain_thunks \<and> away_from c toy_thunks plain_thunks \<and> apart b 5 c 5"
    using j apart(2,3) \<open>apart 0x30 5 0x40 5\<close> m by (simp add: find)
  have names: "''read_seg_32'' \<in> set plain_thunks" by (simp add: plain_thunks_def romlib_thunks_def)
  let ?host = "\<lambda>n. 0x1000 + of_nat (length n)"
  have all: "\<forall>n\<in>set plain_thunks. case cfg_find_int32 sec n of Some a \<Rightarrow> mapped a 5 toy_code | None \<Rightarrow> True" for sec
    by (simp add: m split: option.splits)
  obtain m1 where m1: "process_thunks ?host toy_thunks toy_code = Inr m1"
      "list_all (\<lambda>n. case cfg_find_int32 toy_thunks n of Some a \<Rightarrow> jmp_target m1 a = Some (?host n) | None \<Rightarrow> True) plain_thunks"
      "jmp_target m1 0x40 = Some (?host ''get_tls_ptr'')"
    using thunks_reach[OF apart(1) all tls, of ?host] j by (auto simp: find[of "''get_tls_ptr''"])
  have 1: "jmp_target m1 0x10 = Some 0x100B"
    using bspec[OF m1(2)[unfolded list_all_iff] names] by (simp add: find)
  obtain m2 where m2: "process_thunks ?host plain_section toy_code = Inr m2"
      "list_all (\<lambda>n. case cfg_find_int32 plain_section n of Some a \<Rightarrow> jmp_target m2 a = Some (?host n) | None \<Rightarrow> True) plain_thunks"
    using thunks_reach[OF apart(4) all, of ?host] by (auto simp: find_plain[of "''get_tls_ptr''"])
  have 2: "jmp_target m2 0x10 = Some 0x100B"
    using bspec[OF m2(2)[unfolded list_all_iff] names] by (simp add: find_plain)
  show ?thesis using m1 1 m2(1) 2 by auto
qed

end
