(* ===== verification/Boot.thy ===== *)
theory Boot
  imports Loader Thunks Snowball Trace DevReg
begin

text \<open>
  The rest of \<open>user/loader/map.c\<close>, \<open>user/loader/meloader.c\<close>, \<open>start_thread\<close> of
  \<open>user/kernel/threads.c\<close> and \<open>user/syslib/tls.c\<close>: mapping the boot ROM, the system library and
  the module into the address space, and the start of the program up to the first instruction
  of the guest. \<open>mmap\<close> is a parameter: at an address, for a number of bytes, of a file or
  anonymous, it gives the new memory or fails. The two assembly functions are register values:
  \<open>get_esp\<close> an argument, \<open>switch_stack\<close> the result of \<open>start_thread\<close>.
\<close>

section \<open>Mapping\<close>

type_synonym mapper = "u32 \<Rightarrow> u32 \<Rightarrow> bytes option \<Rightarrow> memory \<Rightarrow> memory option"

text \<open>A call of \<open>mmap\<close> with \<open>MAP_FIXED\<close> and the \<open>logassert\<close> of its result.\<close>

definition map_fixed :: "mapper \<Rightarrow> u32 \<Rightarrow> u32 \<Rightarrow> bytes option \<Rightarrow> memory \<Rightarrow> memory res" where
  "map_fixed mmap addr sz file m = (case mmap addr sz file m of None \<Rightarrow> Inl ExitFailure | Some m \<Rightarrow> Inr m)"

fun map_stacks :: "mapper \<Rightarrow> me_thrd list \<Rightarrow> memory \<Rightarrow> memory res" where
  "map_stacks mmap [] m = Inr m"
| "map_stacks mmap (th # ths) m =
    rbind (map_fixed mmap (stack_top th - stack_size th) (stack_size th) None m) (map_stacks mmap ths)"

definition map_ranges_mod :: "mapper \<Rightarrow> bytes \<Rightarrow> me_mod \<Rightarrow> memory \<Rightarrow> memory res" where
  "map_ranges_mod mmap mod_file md m =
    rbind (map_fixed mmap (text_base md) (text_size md + rodata_size md) (Some mod_file) m) (\<lambda>m.
    rbind (map_fixed mmap (heap_base md) (heap_size md) None m) (\<lambda>m.
    rbind (map_fixed mmap (bss_base md) (bss_size md) None m) (map_stacks mmap (threads md))))"

definition map_ranges_lib :: "mapper \<Rightarrow> bytes \<Rightarrow> me_mod \<Rightarrow> memory \<Rightarrow> memory res" where
  "map_ranges_lib mmap mod_file md m =
    rbind (map_fixed mmap (load_base md) (load_size md) (Some mod_file) m) (\<lambda>m.
      if bss_size md \<noteq> 0 then map_fixed mmap (bss_base md) (bss_size md) None m else Inr m)"

text \<open>The contents of the module file and of the manifest, which is not opened if \<open>nomet\<close>; an empty
  manifest cannot be mapped. \<open>path\<close> has 1024 bytes.\<close>

definition open_mod :: "(string \<rightharpoonup> bytes) \<Rightarrow> string \<Rightarrow> bool \<Rightarrow> (bytes \<times> bytes) res" where
  "open_mod files modname nomet =
    (if length modname + 5 > 1024 then Inl OutOfBounds
     else case files (modname @ ''.mod'') of
       None \<Rightarrow> Inl ExitFailure
     | Some mod_file \<Rightarrow>
         if nomet then Inr (mod_file, [])
         else (case files (modname @ ''.met'') of
             None \<Rightarrow> Inl ExitFailure
           | Some met \<Rightarrow> if met = [] then Inl ExitFailure else Inr (mod_file, met)))"

section \<open>Threads\<close>

text \<open>The instruction pointer and the stack pointer that \<open>switch_stack\<close> sets.\<close>

definition start_thread :: "me_mod \<Rightarrow> nat \<Rightarrow> bytes \<Rightarrow> memory \<Rightarrow> (u32 \<times> u32 \<times> memory) res" where
  "start_thread current_mod n args m =
    (if \<not> n < length (threads current_mod) then Inl OutOfBounds
     else
       let th = threads current_mod ! n; tls_self_ptr = stack_top th - 0x4;
           s_top = stack_top th - 0x14 - of_nat (length args) in
       rbind (mem_store tls_self_ptr (le_bytes 4 tls_self_ptr) m) (\<lambda>m.
       rbind (mem_store s_top args m) (\<lambda>m. Inr (entry_point th, s_top, m))))"

definition get_tls_ptr :: "me_mod \<Rightarrow> u32 \<Rightarrow> u32 \<Rightarrow> u32 res" where
  "get_tls_ptr current_mod esp i =
    (let t = get_current_thread_id current_mod esp in
     if t < 0 then Inl OutOfBounds else rbind (get_thread_tls current_mod (nat t)) (\<lambda>tls. Inr (tls - 4 * i)))"

section \<open>Loading\<close>

text \<open>
  What the program finds: files, what \<open>malloc\<close> leaves in the \<open>next\<close> of the parser's objects
  (see \<open>CfgParser\<close>), \<open>mmap\<close>, the addresses of its functions, a \<open>me_mod\<close> as \<open>malloc\<close>
  returns it, and the state of the devices, with the types that are registered
  before \<open>main\<close>, the device list and the trace buffer.
\<close>

record 'w env =
  env_files :: "string \<rightharpoonup> bytes"
  env_texts :: "string \<Rightarrow> string option"
  env_new :: "pstate \<Rightarrow> u32"
  env_mmap :: mapper
  env_host :: "string \<Rightarrow> u32"
  env_fresh :: me_mod
  env_types :: "'w device_type list"
  env_devices :: "'w \<Rightarrow> unit device_instance list"
  env_get_trace :: "'w \<Rightarrow> trace"
  env_put_trace :: "trace \<Rightarrow> 'w \<Rightarrow> 'w"

definition need :: "'a option \<Rightarrow> 'a res" where
  "need found = (case found of None \<Rightarrow> Inl ExitFailure | Some v \<Rightarrow> Inr v)"

definition load_rom :: "'w env \<Rightarrow> cfg_section \<Rightarrow> memory \<Rightarrow> memory res" where
  "load_rom env sec m =
    rbind (need (cfg_find_string sec ''path'')) (\<lambda>file.
    rbind (need (cfg_find_int32 sec ''base'')) (\<lambda>base.
    rbind (open_mod (env_files env) file True) (\<lambda>(mod_file, met).
    rbind (map_ranges_lib (env_mmap env) mod_file
      (populate_ranges_romlib (of_nat (length mod_file)) base (env_fresh env)) m) (process_thunks (env_host env) sec))))"

definition load_syslib :: "'w env \<Rightarrow> cfg_section \<Rightarrow> memory \<Rightarrow> (me_mod \<times> memory) res" where
  "load_syslib env sec m =
    rbind (need (cfg_find_string sec ''path'')) (\<lambda>file.
    rbind (open_mod (env_files env) file False) (\<lambda>(mod_file, met).
    rbind (populate_ranges_shlib met (env_fresh env)) (\<lambda>syslib.
    rbind (map_ranges_lib (env_mmap env) mod_file syslib m) (\<lambda>m.
    rbind (process_thunks (env_host env) sec m) (\<lambda>m. Inr (syslib, m))))))"

definition load_module :: "'w env \<Rightarrow> cfg_section \<Rightarrow> me_mod \<Rightarrow> memory \<Rightarrow> (me_mod \<times> memory) res" where
  "load_module env sec syslib m =
    rbind (need (cfg_find_string sec ''path'')) (\<lambda>file.
    rbind (open_mod (env_files env) file False) (\<lambda>(mod_file, met).
    rbind (populate_ranges_mod met (context_size syslib) (env_fresh env)) (\<lambda>md.
    rbind (map_ranges_mod (env_mmap env) mod_file md m) (\<lambda>m.
    rbind (process_thunks (env_host env) sec m) (\<lambda>m. Inr (md, m))))))"

section \<open>The main function\<close>

text \<open>What the guest starts with.\<close>

record 'w started =
  st_mod :: me_mod
  st_entry :: u32
  st_esp :: u32
  st_mem :: memory
  st_snow :: snowball
  st_cpu :: "unit device_instance"
  st_world :: 'w

definition named_section :: "cfg_file \<Rightarrow> cfg_section \<Rightarrow> string \<Rightarrow> cfg_section res" where
  "named_section cfg loader key =
    rbind (need (cfg_find_string loader key)) (\<lambda>str. need (cfg_find_section cfg str))"

text \<open>
  From the loaded configuration on. For a CPU that is not found the code tests the wrong
  variable and uses the null pointer.
\<close>

definition main_loaded :: "'w env \<Rightarrow> nat \<Rightarrow> cfg_file \<Rightarrow> pstate \<Rightarrow> 'w \<Rightarrow> memory \<Rightarrow> 'w started res" where
  "main_loaded env fuel cfg p w m =
    rbind (need (cfg_find_section cfg ''loader'')) (\<lambda>loader.
    rbind (named_section cfg loader ''romlib'') (\<lambda>sec. rbind (load_rom env sec m) (\<lambda>m.
    rbind (named_section cfg loader ''syslib'') (\<lambda>sec. rbind (load_syslib env sec m) (\<lambda>(syslib, m).
    rbind (named_section cfg loader ''module'') (\<lambda>sec. rbind (load_module env sec syslib m) (\<lambda>(md, m).
    rbind (initialize_devices (env_types env) cfg w) (\<lambda>w.
    rbind (need (cfg_find_string loader ''cpu'')) (\<lambda>str.
    rbind (case device_find str (env_devices env w) of None \<Rightarrow> Inl NullCall | Some cpu \<Rightarrow> Inr cpu) (\<lambda>cpu.
    rbind (case cfg_find_string loader ''svendict'' of
        None \<Rightarrow> Inr w
      | Some path \<Rightarrow> rbind (sven_load (env_new env) fuel (env_texts env) path p (env_get_trace env w)) (\<lambda>(p, t).
          Inr (env_put_trace env t w))) (\<lambda>w.
    rbind (snowball_init (env_files env) cfg snow_empty) (\<lambda>snow.
    if threads md = [] then Inl OutOfBounds
    else
      rbind (start_thread md 0 (le_bytes 4 (0 :: u32) @ le_bytes 4 (thread_id (threads md ! 0))) m) (\<lambda>(entry, esp, m).
        Inr \<lparr>st_mod = md, st_entry = entry, st_esp = esp, st_mem = m, st_snow = snow, st_cpu = cpu, st_world = w\<rparr>)))))))))))))"

definition mel_main :: "'w env \<Rightarrow> nat \<Rightarrow> string list \<Rightarrow> pstate \<Rightarrow> 'w \<Rightarrow> memory \<Rightarrow> 'w started res" where
  "mel_main env fuel argv p w m =
    (if length argv \<noteq> 2 then Inl ExitFailure
     else rbind (load_config (env_new env) fuel (env_texts env) (argv ! 1) p) (\<lambda>(raw, p).
       rbind (config_of raw) (\<lambda>cfg. main_loaded env fuel cfg p w m)))"

section \<open>What the ranges hold\<close>

definition page_round :: "nat \<Rightarrow> nat" where
  "page_round n = (n + 4095) div 4096 * 4096"

definition holds :: "memory \<Rightarrow> u32 \<times> u32 \<times> bytes option \<Rightarrow> bool" where
  "holds m = (\<lambda>(a, n, file). \<forall>i<unat n. case file of
     None \<Rightarrow> m (a + of_nat i) = Some 0
   | Some bs \<Rightarrow> i < length bs \<longrightarrow> m (a + of_nat i) = Some (bs ! i))"

text \<open>
  What POSIX says of \<open>mmap\<close> with \<open>MAP_FIXED\<close> and \<open>MAP_PRIVATE\<close>: it succeeds only for a page
  aligned address and a length that is not 0 inside the address space, then the range holds the
  file or zeroes, and what changes is the pages of the range.
\<close>

definition mmap_spec :: "mapper \<Rightarrow> bool" where
  "mmap_spec mmap \<longleftrightarrow> (\<forall>a n file m m'. mmap a n file m = Some m' \<longrightarrow>
     unat a mod 4096 = 0 \<and> n \<noteq> 0 \<and> unat a + unat n \<le> 2 ^ 32 \<and> holds m' (a, n, file) \<and>
     (\<forall>x. unat x < unat a \<or> unat a + page_round (unat n) \<le> unat x \<longrightarrow> m' x = m x))"

text \<open>A sequence of mappings.\<close>

fun map_regions :: "mapper \<Rightarrow> (u32 \<times> u32 \<times> bytes option) list \<Rightarrow> memory \<Rightarrow> memory res" where
  "map_regions mmap [] m = Inr m"
| "map_regions mmap ((a, n, file) # rs) m = rbind (map_fixed mmap a n file m) (map_regions mmap rs)"

definition mod_regions :: "bytes \<Rightarrow> me_mod \<Rightarrow> (u32 \<times> u32 \<times> bytes option) list" where
  "mod_regions mod_file md =
    (text_base md, text_size md + rodata_size md, Some mod_file) # (heap_base md, heap_size md, None) #
    (bss_base md, bss_size md, None) # map (\<lambda>th. (stack_top th - stack_size th, stack_size th, None)) (threads md)"

lemma map_ranges_regions: "map_ranges_mod mmap mod_file md m = map_regions mmap (mod_regions mod_file md) m"
proof -
  have "map_stacks mmap ths m = map_regions mmap (map (\<lambda>th. (stack_top th - stack_size th, stack_size th, None)) ths) m" for ths m
    by (induction ths arbitrary: m) (auto intro!: rbind_cong)
  then show ?thesis by (auto simp: map_ranges_mod_def mod_regions_def intro!: rbind_cong)
qed

text \<open>Two regions of which one ends before the other begins.\<close>

definition disjoint_regions :: "u32 \<times> u32 \<times> bytes option \<Rightarrow> u32 \<times> u32 \<times> bytes option \<Rightarrow> bool" where
  "disjoint_regions = (\<lambda>(a, n, f) (b, k, g). unat a + unat n \<le> unat b \<or> unat b + unat k \<le> unat a)"

lemma page_round_below:
  assumes "unat a mod 4096 = 0" and "unat b mod 4096 = 0" and "unat a + n \<le> unat b"
  shows "unat a + page_round n \<le> unat b"
proof -
  have "4096 dvd unat a" "4096 dvd unat b" using assms(1,2) by (simp_all add: dvd_eq_mod_eq_0)
  then obtain x y where x: "unat a = 4096 * x" and y: "unat b = 4096 * y" by (elim dvdE)
  have "n \<le> 4096 * (y - x)" using assms(3) x y by (simp add: diff_mult_distrib2)
  then have "(n + 4095) div 4096 \<le> y - x" by linarith
  moreover have "x \<le> y" using assms(3) x y by linarith
  ultimately have "x + (n + 4095) div 4096 \<le> y" by linarith
  then show ?thesis unfolding page_round_def x y by linarith
qed

lemma map_fixed_region:
  assumes "mmap_spec mmap" and "map_fixed mmap a n file m = Inr m'"
  shows "unat a mod 4096 = 0" and "unat a + unat n \<le> 2 ^ 32" and "holds m' (a, n, file)"
    and "unat x < unat a \<or> unat a + page_round (unat n) \<le> unat x \<Longrightarrow> m' x = m x"
  using assms by (auto simp: mmap_spec_def map_fixed_def split: option.splits)

lemma region_addr:
  fixes a :: u32
  assumes "unat a + n \<le> 2 ^ 32" and "i < n"
  shows "unat (a + of_nat i) = unat a + i"
  using assms by (simp add: unat_word_ariths unat_of_nat take_bit_nat_eq_self)

text \<open>A region that is mapped already keeps what it holds, page rounding included.\<close>

lemma map_regions_keep:
  assumes "mmap_spec mmap" and "map_regions mmap rs m = Inr m'" and "\<forall>r\<in>set rs. disjoint_regions (a, n, f) r"
    and "unat a mod 4096 = 0" and "unat a + unat n \<le> 2 ^ 32" and "i < unat n"
  shows "m' (a + of_nat i) = m (a + of_nat i)"
  using assms(2,3)
proof (induction rs arbitrary: m)
  case (Cons r rs)
  obtain b k g where r: "r = (b, k, g)" by (cases r)
  with Cons.prems obtain m1 where m1: "map_fixed mmap b k g m = Inr m1" "map_regions mmap rs m1 = Inr m'"
    by (auto simp: rbind_Inr_iff)
  note reg = map_fixed_region[OF assms(1) m1(1)]
  have addr: "unat (a + of_nat i) = unat a + i" by (rule region_addr[OF assms(5,6)])
  have "unat (a + of_nat i) < unat b \<or> unat b + page_round (unat k) \<le> unat (a + of_nat i)"
  proof (cases "unat a + unat n \<le> unat b")
    case True
    then show ?thesis using assms(6) addr by simp
  next
    case False
    then have "unat b + unat k \<le> unat a" using Cons.prems(2) by (auto simp: r disjoint_regions_def)
    from page_round_below[OF reg(1) assms(4) this] show ?thesis using addr by simp
  qed
  from reg(4)[OF this] Cons.IH[OF m1(2)] Cons.prems(2) show ?case by simp
qed simp

lemma map_regions_hold:
  assumes "mmap_spec mmap" and "map_regions mmap rs m = Inr m'" and "sorted_wrt disjoint_regions rs" and "r \<in> set rs"
  shows "holds m' r \<and> unat (fst r) + unat (fst (snd r)) \<le> 2 ^ 32"
  using assms(2-4)
proof (induction rs arbitrary: m)
  case (Cons q rs)
  obtain b k g where q: "q = (b, k, g)" by (cases q)
  with Cons.prems obtain m1 where m1: "map_fixed mmap b k g m = Inr m1" "map_regions mmap rs m1 = Inr m'"
    by (auto simp: rbind_Inr_iff)
  note reg = map_fixed_region[OF assms(1) m1(1)]
  show ?case
  proof (cases "r = q")
    case True
    have "\<forall>p\<in>set rs. disjoint_regions (b, k, g) p" using Cons.prems(2) q by simp
    then have "m' (b + of_nat i) = m1 (b + of_nat i)" if "i < unat k" for i
      using map_regions_keep[OF assms(1) m1(2) _ reg(1,2) that] by blast
    then have "holds m' (b, k, g)" using reg(3) by (auto simp: holds_def split: option.splits)
    then show ?thesis using reg(2) True q by simp
  next
    case False
    then show ?thesis using Cons.IH[OF m1(2)] Cons.prems by simp
  qed
qed simp

text \<open>The regions of a module are disjoint.\<close>

lemma mod_regions_disjoint:
  assumes "populate_ranges_mod met ctx m0 = Inr md" and "unat (text_base md) + range_bytes (mod_ranges md) < 2 ^ 32"
  shows "sorted_wrt disjoint_regions (mod_regions mod_file md)"
    and "unat (text_size md + rodata_size md) = unat (text_size md) + unat (rodata_size md)"
proof -
  let ?ts = "unat (text_size md)" and ?rs = "unat (rodata_size md)"
  let ?stacks = "map stack_range (threads md)"
  let ?rest = "?stacks @ [(heap_base md, unat (heap_size md)), (bss_base md, unat (bss_size md))]"
  have "?ts + ?rs < 2 ^ 32" using assms(2) by (simp add: mod_ranges_def range_bytes_def)
  then show sum: "unat (text_size md + rodata_size md) = ?ts + ?rs" by (simp add: unat_word_ariths)
  have "packed (text_base md) ((text_base md, ?ts + ?rs) # ?rest)"
    using populate_ranges_packed[OF assms(1)] by (simp add: mod_ranges_def add.assoc)
  moreover have "unat (text_base md) + range_bytes ((text_base md, ?ts + ?rs) # ?rest) < 2 ^ 32"
    using assms(2) by (simp add: mod_ranges_def range_bytes_def)
  ultimately have pb: "sorted_wrt before ((text_base md, ?ts + ?rs) # ?rest)"
    "\<forall>r\<in>set ?rest. unat (fst r) + snd r < 2 ^ 32"
    using packed_before[of "text_base md" "(text_base md, ?ts + ?rs) # ?rest"] by auto
  have stack: "unat (stack_top th - stack_size th) = unat (stack_top th - stack_size th - 0x1000) + 0x1000"
    if "th \<in> set (threads md)" for th
    using pb(2) that stack_top_nat[of "stack_top th" "stack_size th"] by (simp add: stack_range_def)
  have heap: "before (text_base md, ?ts + ?rs) (heap_base md, unat (heap_size md))"
    "before (text_base md, ?ts + ?rs) (bss_base md, unat (bss_size md))"
    "before (heap_base md, unat (heap_size md)) (bss_base md, unat (bss_size md))"
    using pb(1) by (simp_all add: sorted_wrt_append)
  have st: "before (text_base md, ?ts + ?rs) (stack_range th)" "before (stack_range th) (heap_base md, unat (heap_size md))"
    "before (stack_range th) (bss_base md, unat (bss_size md))" if "th \<in> set (threads md)" for th
    using pb(1) that by (simp_all add: sorted_wrt_append)
  have "sorted_wrt before ?stacks" using pb(1) by (simp add: sorted_wrt_append)
  then have "sorted_wrt (\<lambda>t u. before (stack_range t) (stack_range u)) (threads md)" by (simp add: sorted_wrt_map)
  then have "sorted_wrt (\<lambda>t u. disjoint_regions (stack_top t - stack_size t, stack_size t, None :: bytes option)
      (stack_top u - stack_size u, stack_size u, None)) (threads md)"
    by (rule sorted_wrt_mono_rel[rotated]) (auto simp: disjoint_regions_def before_def stack_range_def stack)
  moreover have "unat (text_base md) + (?ts + ?rs) \<le> unat (stack_top th - stack_size th) \<and>
      unat (stack_top th - stack_size th) + unat (stack_size th) \<le> unat (heap_base md) \<and>
      unat (stack_top th - stack_size th) + unat (stack_size th) \<le> unat (bss_base md)" if "th \<in> set (threads md)" for th
    using st[OF that] stack[OF that] by (simp add: before_def stack_range_def)
  ultimately show "sorted_wrt disjoint_regions (mod_regions mod_file md)"
    using heap by (simp add: mod_regions_def sorted_wrt_map disjoint_regions_def sum before_def)
qed

lemma holds_load:
  "holds m (a, n, None) \<Longrightarrow> mem_load a (unat n) m = Inr (replicate (unat n) 0)"
  "holds m (a, n, Some bs) \<Longrightarrow> unat n \<le> length bs \<Longrightarrow> mem_load a (unat n) m = Inr (take (unat n) bs)"
  by (auto simp: holds_def mem_load_def mapped_iff intro!: nth_equalityI)

text \<open>C11. When a module was mapped, its memory is as its manifest describes it: the start of the module file
  as text and read only data, and zeroes in the heap, in the bss and in the stack of every thread.
  No mapping has overwritten an earlier one, although each of them covers whole pages.\<close>

theorem module_memory:
  assumes "mmap_spec mmap" and "populate_ranges_mod met ctx m0 = Inr md"
    and "unat (text_base md) + range_bytes (mod_ranges md) < 2 ^ 32"
    and "map_ranges_mod mmap mod_file md m = Inr m'" and "unat (text_size md) + unat (rodata_size md) \<le> length mod_file"
  shows "mem_load (text_base md) (unat (text_size md) + unat (rodata_size md)) m' =
      Inr (take (unat (text_size md) + unat (rodata_size md)) mod_file) \<and>
    mem_load (heap_base md) (unat (heap_size md)) m' = Inr (replicate (unat (heap_size md)) 0) \<and>
    mem_load (bss_base md) (unat (bss_size md)) m' = Inr (replicate (unat (bss_size md)) 0) \<and>
    list_all (\<lambda>th. mem_load (stack_top th - stack_size th) (unat (stack_size th)) m' =
      Inr (replicate (unat (stack_size th)) 0)) (threads md)"
proof -
  note d = mod_regions_disjoint(1)[OF assms(2,3), of mod_file] mod_regions_disjoint(2)[OF assms(2,3)]
  have "\<forall>r\<in>set (mod_regions mod_file md). holds m' r"
    using map_regions_hold[OF assms(1) _ d(1)] assms(4) unfolding map_ranges_regions by blast
  then show ?thesis
    using holds_load(2)[of m' "text_base md" "text_size md + rodata_size md" mod_file] assms(5)
    by (auto simp: mod_regions_def d(2) holds_load(1) list_all_iff)
qed

text \<open>An \<open>mmap\<close> that zeroes the rest of the last page.\<close>

definition toy_mmap :: mapper where
  "toy_mmap a n file m =
    (if unat a mod 4096 \<noteq> 0 \<or> n = 0 \<or> unat a + unat n > 2 ^ 32 then None
     else Some (\<lambda>x. if unat a \<le> unat x \<and> unat x < unat a + page_round (unat n)
       then Some (case file of None \<Rightarrow> 0 | Some bs \<Rightarrow> if unat x - unat a < length bs then bs ! (unat x - unat a) else 0)
       else m x))"

lemma page_round_ge: "n \<le> page_round n"
  unfolding page_round_def by linarith

lemma toy_mmap_spec: "mmap_spec toy_mmap"
  unfolding mmap_spec_def
proof (intro allI impI)
  fix a n f m m'
  assume "toy_mmap a n f m = Some m'"
  then have a: "unat a mod 4096 = 0" "n \<noteq> 0" "unat a + unat n \<le> 2 ^ 32"
    and m': "m' = (\<lambda>x. if unat a \<le> unat x \<and> unat x < unat a + page_round (unat n)
       then Some (case f of None \<Rightarrow> 0 | Some bs \<Rightarrow> if unat x - unat a < length bs then bs ! (unat x - unat a) else 0)
       else m x)"
    by (auto simp: toy_mmap_def split: if_splits)
  have "holds m' (a, n, f)"
    using region_addr[OF a(3)] page_round_ge[of "unat n"] by (auto simp: holds_def m' split: option.splits)
  then show "unat a mod 4096 = 0 \<and> n \<noteq> 0 \<and> unat a + unat n \<le> 2 ^ 32 \<and> holds m' (a, n, f) \<and>
      (\<forall>x. unat x < unat a \<or> unat a + page_round (unat n) \<le> unat x \<longrightarrow> m' x = m x)"
    using a by (auto simp: m')
qed

lemma toy_fits: "unat (text_base toy_loaded) + range_bytes (mod_ranges toy_loaded) < 2 ^ 32"
  by (simp add: toy_loaded_def mod_ranges_def stack_range_def range_bytes_def)

lemma toy_maps: "\<exists>m'. map_ranges_mod toy_mmap mod_file toy_loaded m = Inr m'"
  by (simp add: map_ranges_regions mod_regions_def toy_loaded_def map_fixed_def toy_mmap_def)

theorem module_memory_witness:
  "\<exists>m'. map_ranges_mod toy_mmap (replicate 0x2000 0x90) toy_loaded Map.empty = Inr m' \<and>
    mem_load 0x1000 0x2000 m' = Inr (replicate 0x2000 0x90) \<and> mem_load 0x8000 0x40 m' = Inr (replicate 0x40 0)"
proof -
  obtain m' where m': "map_ranges_mod toy_mmap (replicate 0x2000 0x90) toy_loaded Map.empty = Inr m'" using toy_maps by blast
  then show ?thesis
    using module_memory[OF toy_mmap_spec toy_populated toy_fits m'] by (simp add: toy_loaded_def)
qed

section \<open>Where the guest starts\<close>

lemma start_thread_memory:
  assumes "start_thread md n args m = Inr (entry, esp, m')" and "length args + 0x14 \<le> 2 ^ 32"
  defines "tp \<equiv> stack_top (threads md ! n)"
  shows "n < length (threads md)" and "entry = entry_point (threads md ! n)" and "esp = tp - 0x14 - of_nat (length args)"
    and "mem_load esp (length args) m' = Inr args" and "mem_load (tp - 4) 4 m' = Inr (le_bytes 4 (tp - 4))"
proof -
  obtain m1 where m1: "mem_store (tp - 4) (le_bytes 4 (tp - 4)) m = Inr m1" "mem_store esp args m1 = Inr m'"
    and r: "n < length (threads md)" "entry = entry_point (threads md ! n)" "esp = tp - 0x14 - of_nat (length args)"
    using assms(1) by (auto simp: start_thread_def tp_def rbind_Inr_iff Let_def split: if_splits)
  show "n < length (threads md)" "entry = entry_point (threads md ! n)" "esp = tp - 0x14 - of_nat (length args)"
    by (fact r)+
  show "mem_load esp (length args) m' = Inr args" by (rule mem_load_store_same[OF m1(2)]) (use assms(2) in simp)
  have "esp + of_nat (length args + 0x10) = tp - 4" unfolding r(3) by (simp add: algebra_simps)
  moreover have "apart (esp + of_nat (length args + 0x10)) 4 (esp + of_nat 0) (length args)"
    by (rule apart_offsets) (use assms(2) in simp_all)
  ultimately have "apart (tp - 4) 4 (esp + of_nat 0) (length args)" by (simp only:)
  then have "apart (tp - 4) 4 esp (length args)" by simp
  then show "mem_load (tp - 4) 4 m' = Inr (le_bytes 4 (tp - 4))"
    using mem_load_store_other[OF m1(2)] mem_load_store_same[OF m1(1)] by simp
qed

lemma args_on_stack:
  fixes tp sz b :: u32
  assumes "unat (tp - sz) = unat b + 0x1000 \<and> unat tp = unat b + 0x1000 + unat sz" and "0x1C \<le> sz"
  shows "tp - sz \<le> tp - 0x1C" and "tp - 0x1C \<le> tp"
proof -
  have sz: "unat (0x1C :: u32) \<le> unat sz" using assms(2) by (simp only: word_le_nat_alt)
  then have "unat (tp - 0x1C) = unat tp - unat (0x1C :: u32)" using assms(1) by (intro unat_sub) (simp add: word_le_nat_alt)
  then show "tp - sz \<le> tp - 0x1C" "tp - 0x1C \<le> tp" using assms(1) sz unfolding word_le_nat_alt by linarith+
qed

text \<open>C5. When \<open>main\<close> leaves for the guest, it does so at the entry point of the first thread of the module, and
  the guest finds what it expects: the stack pointer is on the stack of that thread, at the two
  arguments 0 and the number of the thread; the kernel recognises the thread by it; and the pointer
  to the thread local storage that the library gives leads to a word that holds this pointer.\<close>

theorem main_enters_module:
  assumes "main_loaded env fuel cfg p w m = Inr st"
    and "unat (text_base (st_mod st)) + range_bytes (mod_ranges (st_mod st)) < 2 ^ 32"
    and "0x1C \<le> stack_size (threads (st_mod st) ! 0)"
  shows "st_entry st = entry_point (threads (st_mod st) ! 0) \<and>
    get_current_thread_id (st_mod st) (st_esp st) = 0 \<and>
    mem_load (st_esp st) 8 (st_mem st) = Inr (le_bytes 4 (0 :: u32) @ le_bytes 4 (thread_id (threads (st_mod st) ! 0))) \<and>
    (\<exists>tls. get_tls_ptr (st_mod st) (st_esp st) 0 = Inr tls \<and> mem_load tls 4 (st_mem st) = Inr (le_bytes 4 tls))"
proof -
  let ?md = "st_mod st"
  obtain sec syslib m1 m2 where load: "load_module env sec syslib m1 = Inr (?md, m2)"
    and start: "start_thread ?md 0 (le_bytes 4 (0 :: u32) @ le_bytes 4 (thread_id (threads ?md ! 0))) m2 =
      Inr (st_entry st, st_esp st, st_mem st)"
    using assms(1) by (auto simp: main_loaded_def rbind_Inr_iff split: if_splits prod.splits)
  obtain met where pop: "populate_ranges_mod met (context_size syslib) (env_fresh env) = Inr ?md"
    using load by (auto simp: load_module_def rbind_Inr_iff)
  let ?th = "threads ?md ! 0"
  have len: "length (le_bytes 4 (0 :: u32) @ le_bytes 4 (thread_id ?th)) = 8" by simp
  note t = start_thread_memory[OF start, unfolded len]
  have "packed (text_base ?md) (mod_ranges ?md)" by (rule populate_ranges_packed[OF pop])
  moreover have "stack_range ?th \<in> set (mod_ranges ?md)" using t(1) by (simp add: mod_ranges_def)
  ultimately have "unat (fst (stack_range ?th)) + snd (stack_range ?th) < 2 ^ 32"
    using packed_before[OF _ assms(2)] by blast
  then have "unat (stack_top ?th - stack_size ?th - 0x1000) + (unat (stack_size ?th) + 0x1000) < 2 ^ 32"
    unfolding stack_range_def fst_conv snd_conv .
  note s = stack_top_nat[OF this]
  have esp: "st_esp st = stack_top ?th - 0x1C" using t(3) by simp
  have "on_stack ?th (st_esp st)" using args_on_stack[OF s assms(3)] unfolding on_stack_def esp by blast
  then have id: "get_current_thread_id ?md (st_esp st) = 0"
    using stack_identifies_thread[OF pop assms(2) t(1)] by simp
  then have "get_tls_ptr ?md (st_esp st) 0 = Inr (stack_top ?th - 4)"
    using t(1) by (simp add: get_tls_ptr_def get_thread_tls_def)
  then show ?thesis using t(2,4,5) id by simp
qed

text \<open>A configuration with a ROM, a library and a module, whose thunks are not asked for.\<close>

definition str_entry :: "string \<Rightarrow> string \<Rightarrow> cfg_entry" where
  "str_entry name v = \<lparr>entry_name = name, entry_value = CfgString v\<rparr>"

definition toy_boot_cfg :: cfg_file where
  "toy_boot_cfg = \<lparr>file_name = ''c'', file_sections =
    [\<lparr>section_type = ''loader'', section_name = ''loader'', section_entries =
       [str_entry ''romlib'' ''r'', str_entry ''syslib'' ''s'', str_entry ''module'' ''m'', str_entry ''cpu'' ''c'']\<rparr>,
     \<lparr>section_type = ''rom'', section_name = ''r'', section_entries =
       [str_entry ''path'' ''rom'', \<lparr>entry_name = ''base'', entry_value = CfgInt64 0x100000\<rparr>]\<rparr>,
     \<lparr>section_type = ''lib'', section_name = ''s'', section_entries = [str_entry ''path'' ''lib'']\<rparr>,
     \<lparr>section_type = ''module'', section_name = ''m'', section_entries = [str_entry ''path'' ''mod'']\<rparr>],
     last_section = 3\<rparr>"

definition toy_lib_exts :: "(u32 \<times> bytes) list" where
  "toy_lib_exts = [(10, [0, 0, 0, 0, 0, 0x10, 0, 0]), (4, [0x10, 0, 0, 0, 0, 0x10, 0, 0]), (11, [0, 0, 0x20, 0, 0, 0x10, 0, 0])]"

definition toy_files :: "string \<rightharpoonup> bytes" where
  "toy_files = [''rom.mod'' \<mapsto> [0x90], ''lib.mod'' \<mapsto> [0x90], ''lib.met'' \<mapsto> manifest toy_lib_exts,
     ''mod.mod'' \<mapsto> replicate 0x2000 0x90, ''mod.met'' \<mapsto> manifest toy_exts]"

definition toy_env :: "unit env" where
  "toy_env = \<lparr>env_files = toy_files, env_texts = (\<lambda>p. None), env_new = (\<lambda>p. 0), env_mmap = toy_mmap, env_host = (\<lambda>n. 0), env_fresh = toy_mod,
     env_types = [], env_devices = (\<lambda>w. [\<lparr>device_name = ''c'', device_impl = ()\<rparr>]), env_get_trace = (\<lambda>w. undefined),
     env_put_trace = (\<lambda>t w. w)\<rparr>"

definition toy_lib :: me_mod where
  "toy_lib = toy_mod\<lparr>load_base := 0x200000, load_size := 0x1000, bss_base := 0x201000, bss_size := 0, context_size := 0x10\<rparr>"

lemma toy_lib_populated: "populate_ranges_shlib (manifest toy_lib_exts) toy_mod = Inr toy_lib"
proof -
  have len: "length (manifest toy_lib_exts) = 48" by (simp add: toy_lib_exts_def)
  have find: "find_ext (manifest toy_lib_exts) type = Inr (first_offset type toy_lib_exts 0)" for type
    using man_ext_find_from[of "[]" toy_lib_exts type] len by (simp add: find_ext_def)
  have offsets: "first_offset 10 toy_lib_exts 0 = Some 0" "first_offset 4 toy_lib_exts 0 = Some 16"
    "first_offset 11 toy_lib_exts 0 = Some 32"
    by (simp_all add: toy_lib_exts_def)
  have words: "man_word (manifest toy_lib_exts) 12 = Inr 0x1000" "man_word (manifest toy_lib_exts) 24 = Inr 0x10"
    "man_word (manifest toy_lib_exts) 28 = Inr 0x1000" "man_word (manifest toy_lib_exts) 36 = Inr 16"
    "man_word (manifest toy_lib_exts) 40 = Inr 0x200000"
    by code_simp+
  show ?thesis
    by (simp add: populate_ranges_shlib_def find offsets need_ext_def man_field_def man_layouts words toy_mod_def toy_lib_def)
qed

lemma process_no_thunks:
  assumes "\<forall>n\<in>set (plain_thunks @ [''get_tls_ptr'']). cfg_find_int32 sec n = None"
  shows "process_thunks host sec m = Inr m"
proof -
  have "install_thunks host sec names m = Inr m" if "\<forall>n\<in>set names. cfg_find_int32 sec n = None" for names m
    using that by (induction names) (simp_all add: install_thunk_def)
  then show ?thesis using assms by (simp add: process_thunks_plain install_thunk_sys_def)
qed

lemma toy_main: "\<exists>st. main_loaded toy_env 0 toy_boot_cfg p () m = Inr st \<and> st_mod st = toy_loaded"
proof -
  define sec where "sec = (\<lambda>i :: nat. file_sections toy_boot_cfg ! i)"
  have secs: "cfg_find_section toy_boot_cfg ''loader'' = Some (sec 0)" "cfg_find_section toy_boot_cfg ''r'' = Some (sec (Suc 0))"
    "cfg_find_section toy_boot_cfg ''s'' = Some (sec 2)" "cfg_find_section toy_boot_cfg ''m'' = Some (sec 3)"
    by (simp_all add: sec_def toy_boot_cfg_def cfg_find_section_def)
  have strs: "cfg_find_string (sec 0) ''romlib'' = Some ''r''" "cfg_find_string (sec 0) ''syslib'' = Some ''s''"
    "cfg_find_string (sec 0) ''module'' = Some ''m''" "cfg_find_string (sec 0) ''cpu'' = Some ''c''"
    "cfg_find_string (sec 0) ''svendict'' = None" "cfg_find_string (sec (Suc 0)) ''path'' = Some ''rom''"
    "cfg_find_int32 (sec (Suc 0)) ''base'' = Some 0x100000" "cfg_find_string (sec 2) ''path'' = Some ''lib''"
    "cfg_find_string (sec 3) ''path'' = Some ''mod''"
    by (simp_all add: sec_def toy_boot_cfg_def cfg_finders str_entry_def)
  have thunks: "process_thunks host (sec i) m = Inr m" if "i \<in> {Suc 0, 2, 3}" for host i m
    using that by (intro process_no_thunks) (auto simp: sec_def toy_boot_cfg_def cfg_finders str_entry_def plain_thunks_def romlib_thunks_def)
  have files: "open_mod toy_files ''rom'' True = Inr ([0x90], [])" "open_mod toy_files ''lib'' False = Inr ([0x90], manifest toy_lib_exts)"
    "open_mod toy_files ''mod'' False = Inr (replicate 0x2000 0x90, manifest toy_exts)"
    by (simp_all add: open_mod_def toy_files_def toy_lib_exts_def toy_exts_def)
  have lib: "\<exists>m'. map_ranges_lib toy_mmap [0x90] (populate_ranges_romlib 1 0x100000 toy_mod) m = Inr m'"
    "\<exists>m'. map_ranges_lib toy_mmap [0x90] toy_lib m = Inr m'" for m
    by (simp_all add: map_ranges_lib_def map_fixed_def toy_mmap_def populate_ranges_romlib_def toy_lib_def)
  obtain m1 where m1: "map_ranges_lib toy_mmap [0x90] (populate_ranges_romlib 1 0x100000 toy_mod) m = Inr m1" using lib(1) by blast
  obtain m2 where m2: "map_ranges_lib toy_mmap [0x90] toy_lib m1 = Inr m2" using lib(2) by blast
  obtain m3 where m3: "map_ranges_mod toy_mmap (replicate 0x2000 0x90) toy_loaded m2 = Inr m3" using toy_maps by blast
  have "mem_load 0x4000 0x1000 m3 = Inr (replicate 0x1000 0)"
    using module_memory[OF toy_mmap_spec toy_populated toy_fits m3] by (simp add: toy_loaded_def)
  then have "mapped 0x4000 0x1000 m3" by (simp add: mem_load_def split: if_splits)
  from mapped_sub[OF this, of "0xFFC" 4] mapped_sub[OF this, of "0xFE4" 8]
  have stack: "mapped 0x4FFC 4 m3" "mapped 0x4FE4 8 m3" by simp_all
  obtain m4 where m4: "mem_store 0x4FFC (le_bytes 4 (0x4FFC :: u32)) m3 = Inr m4" using mem_store_total stack(1) by force
  obtain m5 where m5: "mem_store 0x4FE4 (le_bytes 4 (0 :: u32) @ le_bytes 4 (7 :: u32)) m4 = Inr m5"
    using mem_store_total[of "0x4FE4" "le_bytes 4 (0 :: u32) @ le_bytes 4 (7 :: u32)" m4] stack(2) mem_store_mapped[OF m4] by auto
  have thr: "threads toy_loaded \<noteq> []" "thread_id (threads toy_loaded ! 0) = 7"
    by (simp_all add: toy_loaded_def)
  have start: "start_thread toy_loaded 0 (le_bytes 4 (0 :: u32) @ le_bytes 4 (7 :: u32)) m3 = Inr (0x1100, 0x4FE4, m5)"
    using m4 m5 by (simp add: start_thread_def toy_loaded_def Let_def)
  have env: "env_files toy_env = toy_files" "env_mmap toy_env = toy_mmap" "env_fresh toy_env = toy_mod" "env_types toy_env = []"
    "env_devices toy_env w = [\<lparr>device_name = ''c'', device_impl = ()\<rparr>]" for w
    by (simp_all add: toy_env_def)
  have rom: "load_rom toy_env (sec (Suc 0)) m = Inr m1"
    using m1 by (simp add: load_rom_def need_def strs env files thunks)
  have syslib: "load_syslib toy_env (sec 2) m1 = Inr (toy_lib, m2)"
    using m2 by (simp add: load_syslib_def need_def strs env files thunks toy_lib_populated)
  have ctx: "context_size toy_lib = 0x10" by (simp add: toy_lib_def)
  have md: "load_module toy_env (sec 3) toy_lib m2 = Inr (toy_loaded, m3)"
    using m3 by (simp add: load_module_def need_def strs env files thunks ctx toy_populated)
  have devs: "initialize_devices [] toy_boot_cfg () = Inr ()" and snow: "snowball_init toy_files toy_boot_cfg snow_empty = Inr snow_empty"
    by (simp_all add: initialize_devices_def snowball_init_def toy_boot_cfg_def)
  show ?thesis
    by (simp add: main_loaded_def named_section_def need_def secs strs rom syslib md env devs snow thr start)
qed

theorem main_enters_module_witness:
  "\<forall>p. \<exists>st. main_loaded toy_env 0 toy_boot_cfg p () Map.empty = Inr st \<and> st_entry st = 0x1100 \<and>
    get_current_thread_id (st_mod st) (st_esp st) = 0 \<and> mem_load (st_esp st) 8 (st_mem st) = Inr [0, 0, 0, 0, 7, 0, 0, 0]"
proof
  fix p
  obtain st where st: "main_loaded toy_env 0 toy_boot_cfg p () Map.empty = Inr st" "st_mod st = toy_loaded" using toy_main by blast
  have "le_bytes 4 (0 :: u32) @ le_bytes 4 (7 :: u32) = [0, 0, 0, 0, 7, 0, 0, 0]" by code_simp
  then show "\<exists>st. main_loaded toy_env 0 toy_boot_cfg p () Map.empty = Inr st \<and> st_entry st = 0x1100 \<and>
    get_current_thread_id (st_mod st) (st_esp st) = 0 \<and> mem_load (st_esp st) 8 (st_mem st) = Inr [0, 0, 0, 0, 7, 0, 0, 0]"
    using main_enters_module[OF st(1)] st toy_fits by (auto simp: toy_loaded_def)
qed

end
