(* ===== verification/Spec2Isabelle.thy ===== *)
theory Spec2Isabelle
  imports Prelude HashUnit CfgLoad Machine MisaFields FuseLog Handoff Guest Boot
begin

text \<open>
  A model of meloader, which runs code of the Intel management engine on a host and emulates
  the devices that code talks to. The program reads a configuration file, spawns the
  devices it names, connects them over PCI buses and a sideband, and then runs guest code
  whose memory accesses are sent to the buses.

  \<^bold>\<open>Conventions.\<close> A C function is a HOL function on explicit state. Where the code calls
  through a function pointer, the state is the type variable \<open>'w\<close> of the whole program
  and the pointer is a field of a record of functions over \<open>'w\<close>. A function that can abort
  or leave defined behaviour returns \<open>fault + 'a\<close> (theory \<open>Prelude\<close>): \<open>ExitFailure\<close>,
  \<open>OutOfBounds\<close>, \<open>NullCall\<close> and so on are values. Buffers are lists of bytes, and
  \<open>memcpy\<close>, \<open>ld32\<close>, \<open>st32\<close> check the bounds of the objects. \<open>uint32_t\<close> and the like are
  words of their width.

  \<^bold>\<open>Theories.\<close>
  \<^item> \<open>Prelude\<close>: outcomes, byte buffers, little-endian words, bits.
  \<^item> \<open>Sha256\<close> (\<open>periph/ocs/hash/sha256.c\<close>): the transform as the code has it, with its role
    rotating registers and schedule array, against the compression function of FIPS 180-4. The code
    stores sixteen words into the eight word array \<open>state32\<close>; the stack frame they land in is a
    parameter (\<open>sha_frame\<close>), and where they do not fit into it (\<open>frame_room\<close>) the store is a fault.
  \<^item> \<open>Gpdma\<close> (\<open>periph/ocs/dma/gpdma.c\<close>): registers and transfer loop; the locale \<open>dma_host\<close>
    says what the engine needs of its host for a transfer to be one \<open>sink\<close> of a memory range.
  \<^item> \<open>HashUnit\<close> (\<open>periph/ocs/hash/hash.c\<close>): buffering, padding, HMAC, registers, DMA port.
    The unit computes SHA-256 and HMAC-SHA-256 of what it is fed in pieces of any size, or faults,
    by the stack frame of a round.
  \<^item> \<open>Sks\<close> (\<open>periph/ocs/sks/sks.c\<close>, \<open>periph/ocs/aes/aes.c\<close>): the key store; keys go where a
    command says, slots do not overlap, and nothing read from the registers depends on a key. The
    log calls of these units read four bytes of the caller's buffer, which are modelled as loads.
  \<^item> \<open>Ocs\<close> (\<open>periph/ocs/dev.c\<close>): the PCI function that holds these units and fetches their data
    from its bus. A program of register writes over the bus leaves the SHA-256 of a range of
    memory in the result registers; the bus is that of \<open>PciBus\<close>, the rest of it is any memory.
  \<^item> \<open>OcsState\<close>: what every access of the bus keeps of that device, and a list of the accesses that can
    fault: short buffers read by log calls, slot 22, and blocks hashed on a frame without room.
    The locale \<open>dma_keeps\<close> gives it for the engine from its callbacks, which may access the device.
  \<^item> \<open>CfgFile\<close>, \<open>CfgParser\<close>, \<open>CfgPrint\<close>, \<open>CfgLoad\<close> (\<open>config/cfgparser.c\<close>): the data and
    its lookups; the recursive descent parser over its static state; a printer that the
    parser inverts; loading with includes, which is an expansion of the tree of files. The parser
    never sets \<open>next\<close> of the last entry of a section and of the last section of a file, so what
    \<open>malloc\<close> left there is a parameter (\<open>new\<close>), its lists record their end, and a walk that gets
    to an end that is not null is a fault; \<open>config_of\<close> hands the lists to the rest of the program if
    all their ends are null. The parser's functions terminate because they consume input; \<open>load_config\<close> has fuel for the
    depth of includes, and a file that includes itself needs more than any fuel.
  \<^item> \<open>DevReg\<close> (\<open>config/devreg.c\<close>): the registries; the locale \<open>registry\<close> is interpreted on
    device types, devices, buses and functions.
  \<^item> \<open>PciBus\<close>, \<open>PciConfig\<close> (\<open>periph/pci\<close>): buses, configuration and memory cycles, simple
    functions with their base address registers. The locale \<open>decoded_bus\<close> gives the routing
    of memory cycles on a bus on which each address is decoded by one function.
  \<^item> \<open>Sideband\<close> (\<open>periph/sideband\<close>, \<open>periph/fuse\<close>, \<open>periph/dfxagg\<close>, \<open>periph/exi\<close>): the sideband
    bus and its devices, with invariants over all sequences of accesses. \<open>FuseLog\<close>: what the fuse
    controller prints; the registers change as they do without the output.
  \<^item> \<open>RegFile\<close>, \<open>Att\<close> (\<open>periph/gasket/att\<close>): register files, the address translation windows.
  \<^item> \<open>P2g\<close> (\<open>periph/gasket/prim2gasket\<close>): the bridge between the two buses. What is behind it decodes
    addresses like a bus again, so the locale \<open>decoded_bus\<close> is interpreted on the bridged bus, too.
  \<^item> \<open>Heci\<close> (\<open>periph/gasket/heci\<close>), \<open>Pmc\<close> (\<open>periph/pmc\<close>, \<open>periph/cpu/usercpu.c\<close>): register blocks
    whose main effect is what they log: a write of a status register logs exactly the fields that
    change.
  \<^item> \<open>Spi\<close>, \<open>SpiDev\<close> (\<open>periph/spi\<close>): the flash controller on an image file, which is a list of
    bytes, its configuration and its start.
  \<^item> \<open>Machine\<close>: the twelve device types with the spawn functions of the theories above, and the
    machine they make of a configuration: the registries and the instances of the devices. A pointer
    to a bus shows the bus at the time of an access; in the machine the callbacks get it by its name
    from a record of their surroundings. Whatever the order of the constructors, the start ends with
    the fatal exit or with registries in order.
  \<^item> \<open>NumFmt\<close>, \<open>Printf\<close> (\<open>util/numfmt.c\<close>, \<open>util/printf.c\<close>, \<open>util/log.c\<close>): numbers as text, the
    state machine of format directives, bounded strings, log lines. The locale \<open>putch_sim\<close>
    relates two output functions; it is interpreted on the bounded buffer and on the console.
  \<^item> \<open>Trace\<close>, \<open>TraceHub\<close> (\<open>util/trace.c\<close>, \<open>periph/tracehub\<close>): trace messages, the packets they
    are put together to, the catalog, the registers of the hub.
  \<^item> \<open>Layout\<close>: packed structs as lists of members, for the structs of the following theories.
  \<^item> \<open>MisaRegs\<close>, \<open>Misa\<close> (\<open>include/misa/regs.h\<close>, \<open>periph/misa\<close>): the packed register structs with
    the address of every member; the routing of processor cycles to memory and the buses, the
    two ways to configuration space, and the translation of DMA accesses.
  \<^item> \<open>MisaFields\<close> (\<open>include/misa/regs.h\<close>): the fields that the macros give each of these registers. Where
    no two fields share a bit, a value put together from its fields reads back; in one register two do.
  \<^item> \<open>Loader\<close> (\<open>user/loader/manifest.c\<close>, \<open>user/loader/map.c\<close>, \<open>user/kernel/threads.c\<close>): the
    extensions of a manifest, the ranges of a module, and the thread a stack pointer belongs to.
    The search through a manifest is a partial function, which an extension of length 0 keeps
    from ending.
  \<^item> \<open>HostMem\<close>: the memory of the process, a partial map from 32 bit addresses to bytes, with packed
    structs in it.
  \<^item> \<open>Snowball\<close>, \<open>Kernel\<close>, \<open>Handoff\<close> (\<open>user/kernel\<close>, \<open>user/syslib/kernelcall.c\<close>, \<open>util/file.c\<close>): the
    handoff data, grants, DMA locks and the table of kernel calls, which work on structs in the
    memory of the guest. The blocks that the configuration describes are what a guest reads.
  \<^item> \<open>Segments\<close> (\<open>user/kernel/memory.c\<close>, \<open>user/romlib/mmio.c\<close>): register accesses of the guest
    through its segments.
  \<^item> \<open>Guest\<close>: a machine of a system agent, a bridge and a host interface between arbitrary other simple
    functions, and the way of an access of the guest from its segment to a register and back.
  \<^item> \<open>Thunks\<close> (\<open>user/loader/me_abi.c\<close>, \<open>user/romlib/thunks.c\<close>, \<open>user/syslib/thunks.c\<close>): jumps that
    are written over the code of the guest.
  \<^item> \<open>Boot\<close> (\<open>user/loader/map.c\<close>, \<open>user/loader/meloader.c\<close>, \<open>user/syslib/tls.c\<close>): mapping, and the
    program from \<open>main\<close> to the first instruction of the guest. \<open>mmap\<close> is a parameter; what the
    theorem on the mapped memory needs of it is the hypothesis \<open>mmap_spec\<close>. The fuel of \<open>main\<close> is
    that of \<open>load_config\<close>.

  \<^bold>\<open>Not modelled.\<close> The text of the log messages of most devices (those of \<open>Heci\<close>, \<open>Pmc\<close>, of the
  trace hub and of the fuse sequencer are); \<open>malloc\<close> failure; failing writes of the flash image; the guest's native code,
  and the assembly of \<open>get_esp\<close> and \<open>switch_stack\<close>, for which the registers are arguments and results.
  The state of the devices and the memory of the process are separate arguments of \<open>main\<close>, since
  no device is used before the guest runs.
\<close>

end
